(* ===== verification/Tremor_Prelude.thy ===== *)
theory Tremor_Prelude
  imports Main
begin

text \<open>
  What every other theory of the development shares: JavaScript's \<open>BigInt\<close> division, which
  truncates towards zero and raises on a zero divisor; the errors the modelled code throws, as
  values; sequencing of computations that may throw; and generic facts about ceiling division.
  A \<open>bigint\<close> is an \<open>int\<close>. A JavaScript \<open>number\<close> that only ever holds an integer of magnitude
  below \<open>2 ^ 53\<close> (timestamps, counters, basis points) is an \<open>int\<close> too; numbers that go through
  floating-point operations are treated in \<open>Js_Number\<close>.
\<close>

named_theorems bigint_simps \<open>rewrites of BigInt division at non-negative arguments\<close>
named_theorems wad_simps \<open>facts on the fixed-point scales\<close>

subsection \<open>Errors and sequencing\<close>

text \<open>
  An \<open>Error\<close> the code throws is a value of this type, with the numbers its message shows.
  \<open>DivisionByZero\<close> is the \<open>RangeError\<close> that \<open>BigInt\<close> division raises.
\<close>

datatype js_error =
    DivisionByZero
  | NegativeIsqrt
  | HalfSpreadTooWide
  | BeyondZeroBid
  | ExceedsFree int int
  | DebitExceedsBalance int int
  | ExceedsLocked int int
  | Undercollateralized int int
  | CheckpointsStale
  | NotExpired
  | IncompleteWindow
  | AlreadyFinalized
  | NotFinalized
  | PayoutNotZero
  | ClaimsOutstanding int
  | EmptyNumber
  | InvalidNumber string
  | EmptyReduce
  | BadIndex
  | SliceOffset
  | Thrown string
  | Diverges

text \<open>\<open>SliceOffset\<close> is the byte-slicing library's offset error and \<open>Thrown\<close> an error told apart by its message alone.
  \<open>Diverges\<close> stands for a loop that does not end; the theorems show where it never arises.\<close>

definition or_diverge :: "'a option \<Rightarrow> js_error + 'a" where
  "or_diverge x = (case x of None \<Rightarrow> Inl Diverges | Some y \<Rightarrow> Inr y)"

lemma or_diverge_Some [simp]: "or_diverge (Some x) = Inr x"
  by (simp add: or_diverge_def)

definition andThen :: "js_error + 'a \<Rightarrow> ('a \<Rightarrow> js_error + 'b) \<Rightarrow> js_error + 'b" where
  "andThen m f = (case m of Inl e \<Rightarrow> Inl e | Inr x \<Rightarrow> f x)"

lemma andThen_Inr [simp]: "andThen (Inr x) f = f x"
  and andThen_Inl [simp]: "andThen (Inl e) f = Inl e"
  by (simp_all add: andThen_def)

lemma andThen_eq_Inr: "andThen m f = Inr y \<longleftrightarrow> (\<exists>x. m = Inr x \<and> f x = Inr y)"
  by (cases m) auto

lemma andThen_assoc: "andThen (andThen m f) g = andThen m (\<lambda>x. andThen (f x) g)"
  by (cases m) auto

lemma andThen_InrE:
  assumes "andThen m f = Inr y"
  obtains x where "m = Inr x" "f x = Inr y"
  using assms by (auto simp: andThen_eq_Inr)

lemma andThen_cong [fundef_cong]:
  "m = m' \<Longrightarrow> (\<And>x. m' = Inr x \<Longrightarrow> f x = g x) \<Longrightarrow> andThen m f = andThen m' g"
  by (cases m') auto

definition succeeds :: "js_error + 'a \<Rightarrow> bool" where
  "succeeds m \<longleftrightarrow> (case m of Inl _ \<Rightarrow> False | Inr _ \<Rightarrow> True)"

lemma succeeds_Inr [simp]: "succeeds (Inr x)"
  and succeeds_Inl [simp]: "\<not> succeeds (Inl e)"
  by (simp_all add: succeeds_def)

lemma succeeds_iff: "succeeds m \<longleftrightarrow> (\<exists>x. m = Inr x)"
  by (cases m) auto

subsection \<open>BigInt division\<close>

text \<open>
  \<open>bdiv a b\<close> is the quotient truncated towards zero, at a divisor the caller knows to be non-zero
  (a literal, or tested on the line before). \<open>bigDiv\<close> is the operator itself, with its error.
\<close>

definition bdiv :: "int \<Rightarrow> int \<Rightarrow> int" where
  "bdiv a b = (if (a < 0) = (b < 0) then \<bar>a\<bar> div \<bar>b\<bar> else - (\<bar>a\<bar> div \<bar>b\<bar>))"

definition bigDiv :: "int \<Rightarrow> int \<Rightarrow> js_error + int" where
  "bigDiv a b = (if b = 0 then Inl DivisionByZero else Inr (bdiv a b))"

text \<open>\<open>ceilDiv n d\<close> is the source's \<open>(n + d - 1n) / d\<close> at a non-zero \<open>d\<close>.\<close>

definition ceilDiv :: "int \<Rightarrow> int \<Rightarrow> int" where
  "ceilDiv n d = bdiv (n + d - 1) d"

lemma bdiv_nonneg [bigint_simps]: "0 \<le> a \<Longrightarrow> 0 \<le> b \<Longrightarrow> bdiv a b = a div b"
  by (simp add: bdiv_def)

lemma bdiv_neg: "a < 0 \<Longrightarrow> 0 < b \<Longrightarrow> bdiv a b = - ((- a) div b)"
  by (simp add: bdiv_def)

lemma bdiv_0_left [simp]: "bdiv 0 b = 0"
  by (simp add: bdiv_def)

lemma bdiv_ge_0: "0 \<le> a \<Longrightarrow> 0 \<le> b \<Longrightarrow> 0 \<le> bdiv a b"
  by (cases "b = 0") (simp_all add: bigint_simps pos_imp_zdiv_nonneg_iff)

lemma bigDiv_nz [simp]: "b \<noteq> 0 \<Longrightarrow> bigDiv a b = Inr (bdiv a b)"
  by (simp add: bigDiv_def)

lemma ceilDiv_nonneg [bigint_simps]:
  "0 \<le> n \<Longrightarrow> 0 < d \<Longrightarrow> ceilDiv n d = (n + d - 1) div d"
  by (simp add: ceilDiv_def bigint_simps)

lemma ceilDiv_0 [simp]: "0 < d \<Longrightarrow> ceilDiv 0 d = 0"
  by (simp add: bigint_simps)

text \<open>The Galois connections of floor and ceiling division, on which every bound rests.\<close>

lemma le_div_iff: "0 < d \<Longrightarrow> k \<le> n div d \<longleftrightarrow> k * d \<le> n" for k n d :: int
proof
  assume d: "0 < d" and "k \<le> n div d"
  then have "k * d \<le> (n div d) * d"
    by (intro mult_right_mono) auto
  also have "\<dots> \<le> n"
    using d by (metis add_increasing2 div_mult_mod_eq order_refl pos_mod_sign)
  finally show "k * d \<le> n" .
next
  assume d: "0 < d" and "k * d \<le> n"
  then have "(k * d) div d \<le> n div d"
    by (intro zdiv_mono1) auto
  with d show "k \<le> n div d" by simp
qed

lemma ceilDiv_le_iff:
  assumes "0 \<le> n" "0 < d"
  shows "ceilDiv n d \<le> k \<longleftrightarrow> n \<le> k * d"
proof -
  have "ceilDiv n d \<le> k \<longleftrightarrow> \<not> (k + 1 \<le> (n + d - 1) div d)"
    using assms by (simp add: bigint_simps) linarith
  also have "\<dots> \<longleftrightarrow> \<not> ((k + 1) * d \<le> n + d - 1)"
    using assms by (simp add: le_div_iff)
  also have "\<dots> \<longleftrightarrow> n \<le> k * d"
    by (auto simp: algebra_simps)
  finally show ?thesis .
qed

lemma le_bdiv_iff: "0 \<le> n \<Longrightarrow> 0 < d \<Longrightarrow> k \<le> bdiv n d \<longleftrightarrow> k * d \<le> n"
  by (simp add: bigint_simps le_div_iff)

lemma bdiv_mult_le: "0 \<le> n \<Longrightarrow> 0 < d \<Longrightarrow> bdiv n d * d \<le> n"
  using le_bdiv_iff [of n d "bdiv n d"] by simp

lemma bdiv_less: "0 \<le> n \<Longrightarrow> 0 < d \<Longrightarrow> n < (bdiv n d + 1) * d"
  using le_bdiv_iff [of n d "bdiv n d + 1"] by simp

lemma ceilDiv_mult_ge: "0 \<le> n \<Longrightarrow> 0 < d \<Longrightarrow> n \<le> ceilDiv n d * d"
  using ceilDiv_le_iff [of n d "ceilDiv n d"] by simp

lemma ceilDiv_ge_0: "0 \<le> n \<Longrightarrow> 0 < d \<Longrightarrow> 0 \<le> ceilDiv n d"
  by (simp add: bigint_simps pos_imp_zdiv_nonneg_iff)

lemma bdiv_mono: "0 \<le> a \<Longrightarrow> a \<le> b \<Longrightarrow> 0 < d \<Longrightarrow> bdiv a d \<le> bdiv b d"
  by (simp add: bigint_simps zdiv_mono1)

lemma ceilDiv_mono: "0 \<le> a \<Longrightarrow> a \<le> b \<Longrightarrow> 0 < d \<Longrightarrow> ceilDiv a d \<le> ceilDiv b d"
  by (simp add: bigint_simps zdiv_mono1)

lemma bdiv_le_ceilDiv: "0 \<le> a \<Longrightarrow> 0 < d \<Longrightarrow> bdiv a d \<le> ceilDiv a d"
  by (simp add: bigint_simps zdiv_mono1)

lemma ceilDiv_pos_iff: "0 \<le> a \<Longrightarrow> 0 < d \<Longrightarrow> 0 < ceilDiv a d \<longleftrightarrow> 0 < a"
  using ceilDiv_le_iff [of a d 0] by auto

text \<open>Ceilings are subadditive, and a ceiling absorbs at least the floor of what is added.\<close>

lemma ceilDiv_add_le:
  assumes "0 \<le> a" "0 \<le> b" "0 < d"
  shows "ceilDiv (a + b) d \<le> ceilDiv a d + ceilDiv b d"
  using assms ceilDiv_mult_ge [of a d] ceilDiv_mult_ge [of b d]
  by (simp add: ceilDiv_le_iff algebra_simps)

lemma ceilDiv_add_bdiv:
  assumes "0 \<le> a" "0 \<le> b" "0 < d"
  shows "ceilDiv a d + bdiv b d \<le> ceilDiv (a + b) d"
proof -
  have "a \<le> (ceilDiv (a + b) d - bdiv b d) * d"
    using assms ceilDiv_mult_ge [of "a + b" d] bdiv_mult_le [of b d]
    by (simp add: left_diff_distrib)
  then have "ceilDiv a d \<le> ceilDiv (a + b) d - bdiv b d"
    using assms ceilDiv_le_iff [of a d "ceilDiv (a + b) d - bdiv b d"] by blast
  then show ?thesis by simp
qed

lemma bdiv_add_le:
  assumes "0 \<le> a" "0 \<le> b" "0 < d"
  shows "bdiv a d + bdiv b d \<le> bdiv (a + b) d"
  using assms bdiv_mult_le [of a d] bdiv_mult_le [of b d]
  by (simp add: le_bdiv_iff distrib_right)

subsection \<open>Newton's step for the integer square root\<close>

text \<open>
  From any positive \<open>x\<close>, one Newton step lands at or above the floored root; a step that does not
  go down certifies that \<open>x\<close> does not exceed it.
\<close>

lemma newton_step_ge:
  fixes n x :: nat
  assumes "0 < x"
  shows "n < ((x + n div x) div 2 + 1) * ((x + n div x) div 2 + 1)"
proof -
  define q where "q = n div x"
  define y where "y = (x + q) div 2"
  have n: "n < x * (q + 1)"
    using assms dividend_less_div_times [of x n] by (simp add: q_def mult.commute algebra_simps)
  have "x + q + 1 \<le> 2 * (y + 1)" unfolding y_def by presburger
  then have "int (x + q + 1) \<le> int (2 * (y + 1))" by (simp only: of_nat_le_iff)
  then have "int x + int q + 1 \<le> 2 * (int y + 1)" by simp
  then have "(int x + int q + 1)\<^sup>2 \<le> (2 * (int y + 1))\<^sup>2"
    by (intro power_mono) auto
  moreover have "(int x + int q + 1)\<^sup>2 = (int x - (int q + 1))\<^sup>2 + 4 * (int x * (int q + 1))"
    by (simp add: power2_eq_square algebra_simps)
  moreover have "int n < int x * (int q + 1)"
    using n by (metis of_nat_1 of_nat_add of_nat_less_iff of_nat_mult)
  ultimately have "4 * int n < (2 * (int y + 1))\<^sup>2"
    using zero_le_power2 [of "int x - (int q + 1)"] by linarith
  then have "int n < (int y + 1) * (int y + 1)"
    by (simp add: power2_eq_square algebra_simps)
  then have "int n < int ((y + 1) * (y + 1))"
    by (simp only: of_nat_mult of_nat_add of_nat_1)
  then show ?thesis by (simp only: of_nat_less_iff y_def q_def)
qed

lemma newton_step_stop:
  fixes n x :: nat
  assumes "0 < x" "x \<le> (x + n div x) div 2"
  shows "x * x \<le> n"
proof -
  have "x \<le> n div x" using assms(2) by linarith
  then show ?thesis using assms(1) by (simp add: less_eq_div_iff_mult_less_eq)
qed

lemma newton_step_pos:
  fixes n x :: nat
  assumes "0 < x" "2 \<le> n"
  shows "0 < (x + n div x) div 2"
proof (cases "x = 1")
  case False
  then have "2 \<le> x" using assms by linarith
  then show ?thesis by linarith
qed (use assms in simp)

end
