(* ===== verification/Js_Number.thy ===== *)
theory Js_Number
  imports Complex_Main "HOL-Library.Log_Nat" Tremor_Prelude
begin

text \<open>
  JavaScript's \<open>number\<close> where its floating point matters. A finite number is the rational it
  denotes; every arithmetic operator returns the exact result rounded by \<open>fl\<close>, IEEE 754's
  round-to-nearest, ties-to-even, at 53 bits of significand (overflow and subnormals, which the
  modelled code does not reach, are left out). \<open>Math.exp\<close>, \<open>Math.log\<close>, \<open>Math.sqrt\<close> and
  \<open>Math.cos\<close> are implementation-approximated by the engine, so they are fields of a record that
  every definition using them takes as an argument.
\<close>

subsection \<open>Rounding to a double\<close>

text \<open>The exponent \<open>e\<close> with \<open>2 ^ e \<le> x < 2 ^ (e + 1)\<close>, for a positive \<open>x\<close>.\<close>

definition ilog2 :: "rat \<Rightarrow> int" where
  "ilog2 x = (if 1 \<le> x then bitlen \<lfloor>x\<rfloor> - 1 else - bitlen (\<lceil>1 / x\<rceil> - 1))"

definition ulp :: "rat \<Rightarrow> rat" where
  "ulp x = (if ilog2 x \<le> 52 then 1 / 2 ^ nat (52 - ilog2 x) else 2 ^ nat (ilog2 x - 52))"

definition round_half_even :: "rat \<Rightarrow> int" where
  "round_half_even y =
     (if y - of_int \<lfloor>y\<rfloor> < 1/2 then \<lfloor>y\<rfloor>
      else if 1/2 < y - of_int \<lfloor>y\<rfloor> then \<lfloor>y\<rfloor> + 1
      else if even \<lfloor>y\<rfloor> then \<lfloor>y\<rfloor> else \<lfloor>y\<rfloor> + 1)"

definition fl :: "rat \<Rightarrow> rat" where
  "fl x = (if x = 0 then 0
     else if 0 < x then of_int (round_half_even (x / ulp x)) * ulp x
     else - (of_int (round_half_even (- x / ulp (- x))) * ulp (- x)))"

text \<open>\<open>Math.round\<close>: to the nearest integer, ties upwards; its result is exact.\<close>

definition math_round :: "rat \<Rightarrow> int" where
  "math_round x = \<lfloor>x + 1/2\<rfloor>"

text \<open>The approximated functions of the engine's \<open>Math\<close> object.\<close>

record js_math =
  math_exp :: "rat \<Rightarrow> rat"
  math_log :: "rat \<Rightarrow> rat"
  math_sqrt :: "rat \<Rightarrow> rat"
  math_cos :: "rat \<Rightarrow> rat"

text \<open>What the pricing relies on: \<open>Math.exp\<close> of a non-positive number is a number in \<open>[0, 1]\<close>.\<close>

definition exp_in_unit :: "js_math \<Rightarrow> bool" where
  "exp_in_unit M \<longleftrightarrow> (\<forall>x\<le>0. 0 \<le> math_exp M x \<and> math_exp M x \<le> 1)"

subsection \<open>The exponent\<close>

lemma ulp_pos [simp]: "0 < ulp x"
  by (simp add: ulp_def)

lemma ilog2_ge1:
  assumes "1 \<le> x"
  shows "0 \<le> ilog2 x" "2 ^ nat (ilog2 x) \<le> x" "x < 2 ^ nat (ilog2 x + 1)"
proof -
  let ?n = "\<lfloor>x\<rfloor>"
  have n: "1 \<le> ?n" using assms by linarith
  then have b: "0 < bitlen ?n" by (simp add: bitlen_eq_zero_iff bitlen_nonneg order_less_le)
  then show "0 \<le> ilog2 x" using assms by (simp add: ilog2_def)
  have "2 ^ nat (bitlen ?n - 1) \<le> ?n" "?n < 2 ^ nat (bitlen ?n)"
    using bitlen_bounds [of ?n] n by auto
  then have l: "of_int (2 ^ nat (bitlen ?n - 1)) \<le> (of_int ?n :: rat)"
    and "?n + 1 \<le> 2 ^ nat (bitlen ?n)"
    by linarith+
  then have u: "(of_int (?n + 1) :: rat) \<le> of_int (2 ^ nat (bitlen ?n))"
    by linarith
  show "2 ^ nat (ilog2 x) \<le> x"
    using order_trans [OF l of_int_floor_le] assms by (simp add: ilog2_def)
  show "x < 2 ^ nat (ilog2 x + 1)"
    using u assms floor_correct [of x] by (simp add: ilog2_def)
qed

lemma ilog2_less1:
  assumes "0 < x" "x < 1"
  shows "ilog2 x < 0" "1 \<le> x * 2 ^ nat (- ilog2 x)" "x * 2 ^ nat (- ilog2 x - 1) < 1"
proof -
  let ?n = "\<lceil>1 / x\<rceil> - 1"
  have gt: "1 < 1 / x" using assms by (simp add: field_simps)
  have n: "1 \<le> ?n" using less_ceiling_iff [of 1 "1 / x"] gt by simp
  then have b: "0 < bitlen ?n"
    using bitlen_nonneg [of ?n] bitlen_eq_zero_iff [of ?n] by linarith
  have "\<not> 1 \<le> x" using assms by simp
  with b show "ilog2 x < 0" by (simp only: ilog2_def if_False)
  have B: "2 ^ nat (bitlen ?n - 1) \<le> ?n" "?n < 2 ^ nat (bitlen ?n)"
    using bitlen_bounds [of ?n] n by auto
  have "of_int (2 ^ nat (bitlen ?n - 1)) \<le> (of_int ?n :: rat)"
    using B(1) by linarith
  also have "of_int ?n < 1 / x" by linarith
  finally have "2 ^ nat (bitlen ?n - 1) < 1 / x" by simp
  then have "2 ^ nat (bitlen ?n - 1) * x < 1"
    using assms by (simp add: pos_less_divide_eq)
  then show "x * 2 ^ nat (- ilog2 x - 1) < 1"
    using assms by (simp add: ilog2_def mult.commute)
  have "1 / x \<le> of_int \<lceil>1 / x\<rceil>" by (rule le_of_int_ceiling)
  also have "\<dots> \<le> of_int (2 ^ nat (bitlen ?n))"
    using B(2) by linarith
  finally have "1 / x \<le> 2 ^ nat (bitlen ?n)" by simp
  then have "1 \<le> 2 ^ nat (bitlen ?n) * x"
    using assms by (simp add: pos_divide_le_eq)
  then show "1 \<le> x * 2 ^ nat (- ilog2 x)"
    using assms by (simp add: ilog2_def mult.commute)
qed

lemma ulp_bounds:
  assumes "0 < x"
  shows "2 ^ 52 * ulp x \<le> x" "x < 2 ^ 53 * ulp x"
proof -
  have "2 ^ 52 * ulp x \<le> x \<and> x < 2 ^ 53 * ulp x"
  proof (cases "1 \<le> x")
    case True
    note b = ilog2_ge1 [OF True]
    show ?thesis
    proof (cases "ilog2 x \<le> 52")
      case le: True
      have e: "(2::rat) ^ 52 = 2 ^ nat (52 - ilog2 x) * 2 ^ nat (ilog2 x)"
        using le b(1) by (simp flip: power_add nat_add_distrib)
      have "2 ^ 52 * ulp x = 2 ^ nat (ilog2 x)"
        unfolding e using le by (simp add: ulp_def)
      moreover have "x < 2 * 2 ^ nat (ilog2 x)"
        using b(1,3) by (simp add: nat_add_distrib)
      moreover have "2 ^ 53 * ulp x = 2 * (2 ^ 52 * ulp x)" by simp
      ultimately show ?thesis using b(2) by linarith
    next
      case gt: False
      have e: "(2::rat) ^ nat (ilog2 x) = 2 ^ 52 * 2 ^ nat (ilog2 x - 52)"
      proof -
        have "nat (ilog2 x) = 52 + nat (ilog2 x - 52)" using gt by linarith
        then show ?thesis by (simp add: power_add)
      qed
      have "x < 2 * 2 ^ nat (ilog2 x)"
        using b(1,3) by (simp add: nat_add_distrib)
      then show ?thesis using gt b(2) e by (simp add: ulp_def)
    qed
  next
    case False
    note b = ilog2_less1 [OF assms] 
    let ?j = "nat (- ilog2 x)"
    have neg: "ilog2 x < 0" using b(1) False by simp
    have e1: "(2::rat) ^ nat (52 - ilog2 x) = 2 ^ 52 * 2 ^ ?j"
    proof -
      have "nat (52 - ilog2 x) = 52 + ?j" using neg by linarith
      then show ?thesis by (simp add: power_add)
    qed
    have e2: "(2::rat) ^ ?j = 2 * 2 ^ nat (- ilog2 x - 1)"
    proof -
      have "?j = Suc (nat (- ilog2 x - 1))" using neg by linarith
      then show ?thesis by simp
    qed
    have u: "2 ^ 52 * ulp x = 1 / 2 ^ ?j"
      using neg by (simp add: ulp_def e1)
    have "1 / 2 ^ ?j \<le> x" using b(2) False by (simp add: pos_divide_le_eq)
    moreover have "x < 2 * (1 / 2 ^ ?j)"
      using b(3) False by (simp add: e2 pos_less_divide_eq)
    moreover have "2 ^ 53 * ulp x = 2 * (2 ^ 52 * ulp x)" by simp
    ultimately show ?thesis using u by linarith
  qed
  then show "2 ^ 52 * ulp x \<le> x" "x < 2 ^ 53 * ulp x" by auto
qed

subsection \<open>Rounding against integers\<close>

lemma round_half_even_le: "y \<le> of_int n \<Longrightarrow> round_half_even y \<le> n"
  unfolding round_half_even_def
  by (cases "y = of_int n") (auto simp: le_floor_iff floor_le_iff floor_less_iff)

lemma round_half_even_ge: "of_int n \<le> y \<Longrightarrow> n \<le> round_half_even y"
  unfolding round_half_even_def using le_floor_iff [of n y] by auto

lemma round_half_even_int [simp]: "round_half_even (of_int n) = n"
  by (simp add: round_half_even_def)

lemma round_half_even_near: "of_int (round_half_even y) \<le> y + 1/2"
proof -
  have "of_int \<lfloor>y\<rfloor> \<le> y" by (rule of_int_floor_le)
  then show ?thesis
    unfolding round_half_even_def
    by (cases "y - of_int \<lfloor>y\<rfloor> < 1/2"; cases "1/2 < y - of_int \<lfloor>y\<rfloor>"; cases "even \<lfloor>y\<rfloor>") (simp_all, linarith+)
qed

lemma fl_0 [simp]: "fl 0 = 0"
  by (simp add: fl_def)

lemma fl_minus: "fl (- x) = - fl x"
  by (simp add: fl_def)

lemma fl_nonneg: "0 \<le> x \<Longrightarrow> 0 \<le> fl x"
proof -
  assume x: "0 \<le> x"
  then have "0 \<le> x / ulp x" by (simp add: order_less_imp_le)
  then have "0 \<le> round_half_even (x / ulp x)" using round_half_even_ge [of 0 "x / ulp x"] by simp
  then show ?thesis using x by (simp add: fl_def order_less_imp_le)
qed

lemma fl_nonpos: "x \<le> 0 \<Longrightarrow> fl x \<le> 0"
  using fl_nonneg [of "- x"] by (simp add: fl_minus)

text \<open>A bound of the form \<open>m \<cdot> 2 ^ k\<close> with \<open>m < 2 ^ 53\<close> survives rounding.\<close>

lemma fl_le:
  assumes x: "0 \<le> x" "x \<le> of_int (m * 2 ^ k)" and m: "m < 2 ^ 53"
  shows "fl x \<le> of_int (m * 2 ^ k)"
proof (cases "x = 0")
  case False
  then have pos: "0 < x" using x by simp
  have "\<exists>n::int. of_int (m * 2 ^ k) = of_int n * ulp x"
  proof (cases "ilog2 x \<le> 52")
    case True
    then have "of_int (m * 2 ^ k) = of_int (m * 2 ^ k * 2 ^ nat (52 - ilog2 x)) * ulp x"
      by (simp add: ulp_def)
    then show ?thesis by blast
  next
    case False
    let ?i = "nat (ilog2 x - 52)"
    have u: "ulp x = 2 ^ ?i" using False by (simp add: ulp_def)
    have "(of_int (2 ^ 52 * 2 ^ ?i) :: rat) = 2 ^ 52 * ulp x" by (simp add: u)
    also have "\<dots> \<le> x" using ulp_bounds [OF pos] by simp
    also have "x \<le> of_int (m * 2 ^ k)" by (rule x)
    finally have "(2::int) ^ 52 * 2 ^ ?i \<le> m * 2 ^ k"
      unfolding of_int_le_iff .
    also have "m * 2 ^ k < 2 ^ 53 * 2 ^ k" using m by simp
    finally have "(2::int) ^ ?i < 2 * 2 ^ k" by simp
    then have "(2::int) ^ ?i < 2 ^ Suc k" by simp
    then have "?i < Suc k" by (rule power_less_imp_less_exp [rotated]) simp
    then have "k = (k - ?i) + ?i" by simp
    then have "(2::rat) ^ k = 2 ^ (k - ?i) * 2 ^ ?i" by (metis power_add)
    then have "of_int (m * 2 ^ k) = of_int (m * 2 ^ (k - ?i)) * ulp x"
      by (simp add: u)
    then show ?thesis by blast
  qed
  then obtain n :: int where n: "of_int (m * 2 ^ k) = of_int n * ulp x" by blast
  have "x / ulp x \<le> of_int n" using x(2) n by (simp add: field_simps)
  then have "round_half_even (x / ulp x) \<le> n" by (rule round_half_even_le)
  then have "of_int (round_half_even (x / ulp x)) * ulp x \<le> of_int n * ulp x"
    by (intro mult_right_mono) (auto simp: order_less_imp_le)
  then show ?thesis using pos by (simp only: n) (simp add: fl_def)
qed (use x in simp)

text \<open>
  Integers below \<open>2 ^ 53\<close> are represented exactly, and flooring a rounded quotient of two such
  integers gives the integer quotient: the modelled code's \<open>Math.floor(a / b)\<close> on timestamps is
  \<open>a div b\<close>.
\<close>

lemma inverse_eq: "c * u = 1 \<Longrightarrow> 1 / u = c" for c u :: rat
  by (metis mult_eq_0_iff nonzero_divide_eq_eq zero_neq_one)

lemma ulp_inverse:
  assumes "0 < x" "x < 2 ^ 53"
  obtains s :: int where "0 < s" "of_int s * ulp x = 1"
proof -
  have "ilog2 x \<le> 52"
  proof (cases "1 \<le> x")
    case True
    note b = ilog2_ge1 [OF True]
    have "(2::rat) ^ nat (ilog2 x) < 2 ^ 53" using b(2) assms(2) by simp
    then have "nat (ilog2 x) < 53" by (rule power_less_imp_less_exp [rotated]) simp
    then show ?thesis by linarith
  next
    case False
    then show ?thesis using ilog2_less1(1) [OF assms(1)] by linarith
  qed
  then have "of_int (2 ^ nat (52 - ilog2 x)) * ulp x = 1" by (simp add: ulp_def)
  then show ?thesis by (rule that [rotated]) simp
qed

lemma fl_of_int:
  assumes "0 \<le> n" "n < 2 ^ 53"
  shows "fl (of_int n) = of_int n"
proof (cases "n = 0")
  case False
  with assms have pos: "(0::rat) < of_int n" by simp
  have lt: "(of_int n :: rat) < 2 ^ 53"
    using assms(2) of_int_less_iff [of n "2 ^ 53", where 'a = rat] by simp
  obtain s :: int where s: "0 < s" "of_int s * ulp (of_int n) = 1"
    by (rule ulp_inverse [OF pos lt])
  have "1 / ulp (of_int n) = of_int s" by (rule inverse_eq [OF s(2)])
  then have "of_int n / ulp (of_int n) = (of_int (n * s) :: rat)"
    by (metis of_int_mult times_divide_eq_right mult.right_neutral)
  moreover have "of_int (n * s) * ulp (of_int n) = of_int n"
    using s(2) by (simp add: mult.assoc)
  ultimately show ?thesis using pos by (simp only: fl_def round_half_even_int) simp
qed simp

lemma floor_fl_div:
  fixes a b :: int
  assumes a: "0 \<le> a" "a < 2 ^ 53" and b: "0 < b"
  shows "\<lfloor>fl (of_int a / of_int b)\<rfloor> = a div b"
proof (cases "a = 0")
  case False
  define x :: rat where "x = of_int a / of_int b"
  define k where "k = a div b"
  have pos: "0 < x" using False a b by (simp add: x_def)
  have kb: "k * b \<le> a" "a + 1 \<le> (k + 1) * b"
    using le_div_iff [OF b, of k a] le_div_iff [OF b, of "k + 1" a] by (auto simp: k_def)
  have kx: "of_int k \<le> x"
  proof -
    have "(of_int (k * b) :: rat) \<le> of_int a" using kb(1) by (simp only: of_int_le_iff)
    then show ?thesis using b by (simp add: x_def field_simps)
  qed
  have xk: "x + 1 / of_int b \<le> of_int k + 1"
  proof -
    have "(of_int (a + 1) :: rat) \<le> of_int ((k + 1) * b)" using kb(2) by (simp only: of_int_le_iff)
    then show ?thesis using b by (simp add: x_def field_simps)
  qed
  have alt: "(of_int a :: rat) < 2 ^ 53"
    using a(2) of_int_less_iff [of a "2 ^ 53", where 'a = rat] by simp
  have xb: "x * of_int b = of_int a" using b by (simp add: x_def)
  have "x \<le> of_int a"
    using b a mult_left_mono [of 1 "of_int b :: rat" x] pos xb by simp
  then have "x < 2 ^ 53" using alt by linarith
  then obtain s :: int where s: "0 < s" "of_int s * ulp x = 1"
    by (rule ulp_inverse [OF pos])
  define u where "u = ulp x"
  have u: "0 < u" "1 / u = of_int s" using inverse_eq [OF s(2)] by (simp_all add: u_def)
  define r where "r = round_half_even (x / u)"
  have r1: "k * s \<le> r"
  proof -
    have "of_int (k * s) = of_int k / u"
      by (metis of_int_mult u(2) times_divide_eq_right mult.right_neutral)
    also have "\<dots> \<le> x / u" using kx u by (simp add: divide_right_mono)
    finally show ?thesis unfolding r_def by (rule round_half_even_ge)
  qed
  have half: "u * of_int b < 2"
  proof -
    have "2 ^ 52 * u * of_int b \<le> x * of_int b"
      using ulp_bounds(1) [OF pos] b by (intro mult_right_mono) (auto simp: u_def)
    also have "\<dots> < 2 ^ 53" using alt xb by simp
    finally show ?thesis by simp
  qed
  have r2: "r < (k + 1) * s"
  proof -
    have "of_int r \<le> x / u + 1/2" unfolding r_def by (rule round_half_even_near)
    also have "\<dots> < x / u + (1 / of_int b) / u"
      using half u b by (simp add: field_simps)
    also have "\<dots> = (x + 1 / of_int b) / u" by (simp add: add_divide_distrib)
    also have "\<dots> \<le> (of_int k + 1) / u" using xk u by (simp add: divide_right_mono)
    also have "\<dots> = of_int ((k + 1) * s)"
      by (metis of_int_1 of_int_add of_int_mult u(2) times_divide_eq_right mult.right_neutral)
    finally show ?thesis by (simp only: of_int_less_iff)
  qed
  have su: "of_int s * u = 1" using s(2) by (simp add: u_def)
  have F: "fl x = of_int r * u" using pos by (simp add: fl_def r_def u_def)
  have "of_int k \<le> of_int r * u"
  proof -
    have "of_int k = of_int (k * s) * u" using su by (simp add: mult.assoc)
    also have "\<dots> \<le> of_int r * u" using r1 u by (intro mult_right_mono) (simp_all only: of_int_le_iff)
    finally show ?thesis .
  qed
  moreover have "of_int r * u < of_int k + 1"
  proof -
    have "of_int r * u < of_int ((k + 1) * s) * u"
      using r2 u by (intro mult_strict_right_mono) (simp_all only: of_int_less_iff)
    also have "\<dots> = of_int k + 1" using su by (simp add: mult.assoc)
    finally show ?thesis .
  qed
  ultimately have "\<lfloor>of_int r * u\<rfloor> = k" by (simp add: floor_eq_iff)
  then show ?thesis using F by (simp add: x_def k_def)
qed simp

end
