(* ===== verification/Burn_Leg.thy ===== *)
theory Burn_Leg
  imports Main
begin

text \<open>
  The contract of a leg that burns claims. Whatever pays a holder out for \<open>u\<close> units releases the
  reservation of those units; the leg is sound when it never pays more than it releases. The same
  contract is met by EXIT and SETTLE of the simulated market and by the settlement of a risk group,
  each in the theory that models it.
\<close>

locale burn_leg =
  fixes ok :: "'p \<Rightarrow> bool"
    and liab :: "'p \<Rightarrow> int \<Rightarrow> int"
    and proceeds :: "'p \<Rightarrow> int \<Rightarrow> int"
  assumes liab_0: "ok p \<Longrightarrow> liab p 0 = 0"
    and proceeds_nonneg: "ok p \<Longrightarrow> 0 \<le> u \<Longrightarrow> 0 \<le> proceeds p u"
    and within_release: "ok p \<Longrightarrow> 0 \<le> u \<Longrightarrow> u \<le> n \<Longrightarrow> proceeds p u \<le> liab p n - liab p (n - u)"
begin

lemma release_nonneg: "ok p \<Longrightarrow> 0 \<le> u \<Longrightarrow> u \<le> n \<Longrightarrow> liab p (n - u) \<le> liab p n"
  using within_release [of p u n] proceeds_nonneg [of p u] by simp

lemma liab_nonneg: "ok p \<Longrightarrow> 0 \<le> n \<Longrightarrow> 0 \<le> liab p n"
  using release_nonneg [of p n n] liab_0 [of p] by simp

text \<open>However a position is split into burns, the burns together pay no more than they release.\<close>

lemma burns_within_release:
  assumes "ok p" "\<forall>u\<in>set us. 0 \<le> u" "sum_list us \<le> n"
  shows "sum_list (map (proceeds p) us) \<le> liab p n - liab p (n - sum_list us)"
  using assms(2,3)
proof (induction us arbitrary: n)
  case (Cons u us)
  have "0 \<le> sum_list us" using Cons.prems by (intro sum_list_nonneg) auto
  then have un: "u \<le> n" using Cons.prems by simp
  have "proceeds p u \<le> liab p n - liab p (n - u)"
    using within_release [OF assms(1) _ un] Cons.prems by simp
  moreover have "sum_list (map (proceeds p) us) \<le> liab p (n - u) - liab p (n - u - sum_list us)"
    using Cons by simp
  ultimately show ?case by (simp add: diff_diff_eq)
qed simp

lemma burns_covered:
  assumes "ok p" "\<forall>u\<in>set us. 0 \<le> u" "sum_list us \<le> n"
  shows "sum_list (map (proceeds p) us) \<le> liab p n"
  using burns_within_release [OF assms] liab_nonneg [of p "n - sum_list us"] assms by simp

end

end
