(* ===== verification/Sim_Pricing.thy ===== *)
theory Sim_Pricing
  imports Tremor_Prelude Js_Number Burn_Leg
begin

text \<open>
  \<open>sim/src/pricing.ts\<close>: the integer replica of the contract's pricing library. Each function is
  the source's, at BigInt division; the ones that can raise return an error sum. \<open>mulDiv\<close> and
  \<open>mulDivUp\<close> raise on a zero divisor; where the divisor is a non-zero literal or was tested on the
  line before, the model writes the quotient itself (\<open>bdiv\<close> and \<open>ceilDiv\<close>, shown equal to the calls
  by \<open>mulDiv_nz\<close> and \<open>mulDivUp_nz\<close>). The lemmas give each formula its meaning: bounds, monotonicity,
  and the inequalities on which the solvency of the market in \<open>Sim_Series\<close> rests.
\<close>

subsection \<open>Scales and helpers\<close>

definition WAD :: int where "WAD = 10 ^ 18"
definition UINT256_MAX :: int where "UINT256_MAX = 2 ^ 256 - 1"
definition WAD2 :: int where "WAD2 = 10 ^ 36"
definition BPS :: int where "BPS = 10000"
definition YEAR :: int where "YEAR = 31536000"

definition min_big :: "int \<Rightarrow> int \<Rightarrow> int" where
  "min_big a b = (if a < b then a else b)"

definition max_big :: "int \<Rightarrow> int \<Rightarrow> int" where
  "max_big a b = (if a > b then a else b)"

definition mulDiv :: "int \<Rightarrow> int \<Rightarrow> int \<Rightarrow> js_error + int" where
  "mulDiv a b d = bigDiv (a * b) d"

definition mulDivUp :: "int \<Rightarrow> int \<Rightarrow> int \<Rightarrow> js_error + int" where
  "mulDivUp a b d = bigDiv (a * b + d - 1) d"

lemma mulDiv_nz [simp]: "d \<noteq> 0 \<Longrightarrow> mulDiv a b d = Inr (bdiv (a * b) d)"
  and mulDivUp_nz [simp]: "d \<noteq> 0 \<Longrightarrow> mulDivUp a b d = Inr (ceilDiv (a * b) d)"
  by (simp_all add: mulDiv_def mulDivUp_def ceilDiv_def)

lemma WAD_pos [simp]: "0 < WAD" and WAD2_pos [simp]: "0 < WAD2"
  and BPS_pos [simp]: "0 < BPS" and YEAR_pos [simp]: "0 < YEAR"
  and UINT256_pos [simp]: "0 < UINT256_MAX"
  by (simp_all add: WAD_def WAD2_def BPS_def YEAR_def UINT256_MAX_def)

lemma WAD_nz [simp]: "WAD \<noteq> 0" and WAD_nonneg [simp]: "0 \<le> WAD"
  and WAD2_nonneg [simp]: "0 \<le> WAD2" and BPS_nonneg [simp]: "0 \<le> BPS"
  and YEAR_nonneg [simp]: "0 \<le> YEAR" and UINT256_nonneg [simp]: "0 \<le> UINT256_MAX"
  using WAD_pos WAD2_pos BPS_pos YEAR_pos UINT256_pos by linarith+

lemma WAD2_eq [wad_simps]: "WAD2 = WAD * WAD"
  by (simp add: WAD_def WAD2_def)

lemma min_big_min [simp]: "min_big a b = min a b"
  and max_big_max [simp]: "max_big a b = max a b"
  by (simp_all add: min_big_def max_big_def)

subsection \<open>Integer square root\<close>

text \<open>
  The loop runs only for \<open>n \<ge> 2\<close>, on non-negative numbers; \<open>isqrt_loop_ok\<close> shows that its divisor
  is never zero there.
\<close>

function isqrt_loop :: "nat \<Rightarrow> nat \<Rightarrow> nat \<Rightarrow> nat" where
  "isqrt_loop n x y = (if y < x then isqrt_loop n y ((y + n div y) div 2) else x)"
  by pat_completeness auto
termination
  by (relation "measure (\<lambda>(n, x, y). x)") auto

declare isqrt_loop.simps [simp del]

definition isqrt :: "int \<Rightarrow> js_error + int" where
  "isqrt n = (if n < 0 then Inl NegativeIsqrt
     else if n < 2 then Inr n
     else Inr (int (isqrt_loop (nat n) (nat n) ((nat n + 1) div 2))))"

text \<open>Naturals are unary to the evaluator; this twin of the loop on integers runs in their place.\<close>

function isqrt_loop_int :: "int \<Rightarrow> int \<Rightarrow> int \<Rightarrow> int" where
  "isqrt_loop_int n x y = (if 0 \<le> y \<and> y < x then isqrt_loop_int n y ((y + n div y) div 2) else x)"
  by pat_completeness auto
termination
  by (relation "measure (\<lambda>(n, x, y). nat x)") auto

declare isqrt_loop_int.simps [simp del]

lemma isqrt_loop_int: "isqrt_loop_int (int n) (int x) (int y) = int (isqrt_loop n x y)"
proof (induction n x y rule: isqrt_loop.induct)
  case (1 n x y)
  have "int ((y + n div y) div 2) = (int y + int n div int y) div 2" by (simp add: zdiv_int)
  then show ?case
    using 1 by (simp add: isqrt_loop.simps [of n x y] isqrt_loop_int.simps [of "int n" "int x" "int y"])
qed

lemma isqrt_code [code]:
  "isqrt n = (if n < 0 then Inl NegativeIsqrt
     else if n < 2 then Inr n else Inr (isqrt_loop_int n n ((n + 1) div 2)))"
proof (cases "n < 2")
  case False
  then have "int ((nat n + 1) div 2) = (n + 1) div 2" by (simp add: zdiv_int)
  then show ?thesis
    using False isqrt_loop_int [of "nat n" "nat n" "(nat n + 1) div 2"] by (simp add: isqrt_def)
qed (simp add: isqrt_def)

definition volOf :: "int \<Rightarrow> js_error + int" where
  "volOf varianceWad = isqrt (varianceWad * WAD)"

lemma isqrt_loop_correct:
  assumes "2 \<le> n" "0 < x" "y = (x + n div x) div 2" "n < (x + 1) * (x + 1)"
  shows "isqrt_loop n x y * isqrt_loop n x y \<le> n \<and> n < (isqrt_loop n x y + 1) * (isqrt_loop n x y + 1)"
  using assms
proof (induction n x y rule: isqrt_loop.induct)
  case (1 n x y)
  have ypos: "0 < y" using newton_step_pos [of x n] 1 by simp
  show ?case
  proof (cases "y < x")
    case True
    have "n < (y + 1) * (y + 1)" using newton_step_ge [of x n] "1.prems" by simp
    note IH = "1.IH" [OF True "1.prems"(1) ypos refl this]
    have "isqrt_loop n x y = isqrt_loop n y ((y + n div y) div 2)"
      using True by (simp add: isqrt_loop.simps [of n x y])
    with IH show ?thesis by presburger
  next
    case False
    then have "isqrt_loop n x y = x" by (simp add: isqrt_loop.simps [of n x y])
    moreover have "x * x \<le> n" using newton_step_stop [of x n] False "1.prems" by simp
    ultimately show ?thesis using "1.prems"(4) by simp
  qed
qed

lemma isqrt_correct:
  assumes "0 \<le> n"
  obtains r where "isqrt n = Inr r" "0 \<le> r" "r * r \<le> n" "n < (r + 1) * (r + 1)"
proof (cases "n < 2")
  case True
  then have "n = 0 \<or> n = 1" using assms by linarith
  then show ?thesis using that [of n] True by (auto simp: isqrt_def)
next
  case False
  define m where "m = nat n"
  define r where "r = isqrt_loop m m ((m + 1) div 2)"
  have m: "2 \<le> m" "int m = n" using False by (auto simp: m_def)
  have "m div m = 1" using m by simp
  then have "r * r \<le> m \<and> m < (r + 1) * (r + 1)"
    unfolding r_def using m by (intro isqrt_loop_correct) (auto simp: algebra_simps)
  then have "int (r * r) \<le> int m" "int m < int ((r + 1) * (r + 1))" by (simp_all only: of_nat_le_iff of_nat_less_iff)
  then have "int r * int r \<le> n" "n < (int r + 1) * (int r + 1)"
    unfolding m(2) of_nat_mult of_nat_add of_nat_1 .
  moreover have "isqrt n = Inr (int r)"
    using False assms by (simp add: isqrt_def r_def m_def)
  ultimately show ?thesis by (intro that [of "int r"]) (simp only: of_nat_0_le_iff)+
qed

subsection \<open>Inventory skew and the forward variance\<close>

definition LN2 :: rat where "LN2 = 6931471805599453 / 10 ^ 16"

definition decayFactor :: "js_math \<Rightarrow> int \<Rightarrow> int \<Rightarrow> int" where
  "decayFactor M dt halfLife =
     (let exponent = fl (- (fl (fl (of_int dt) / of_int halfLife)) * fl LN2)
      in if exponent < - fl (414 / 10) then 0
         else \<lfloor>fl (math_exp M exponent * 10 ^ 18)\<rfloor>)"

definition decaySkew :: "js_math \<Rightarrow> int \<Rightarrow> int \<Rightarrow> int \<Rightarrow> int" where
  "decaySkew M skew dt halfLife =
     (if skew = 0 \<or> dt = 0 \<or> halfLife = 0 then skew
      else let decayed = bdiv (\<bar>skew\<bar> * decayFactor M dt halfLife) WAD
           in if skew < 0 then - decayed else decayed)"

definition forwardVariance :: "int \<Rightarrow> int \<Rightarrow> int \<Rightarrow> int" where
  "forwardVariance anchor decayedSkew cap =
     (let v = anchor + decayedSkew in if v \<le> 0 then 0 else if v > cap then cap else v)"

definition projectedVariance :: "int \<Rightarrow> int \<Rightarrow> int \<Rightarrow> int \<Rightarrow> int" where
  "projectedVariance realizedSoFar elapsed forward remaining =
     (let duration = elapsed + remaining
      in if duration = 0 then forward
         else bdiv (realizedSoFar * elapsed + forward * remaining) duration)"

definition annualize :: "int \<Rightarrow> int \<Rightarrow> int" where
  "annualize sumSquaredReturns elapsed =
     (if elapsed = 0 then 0 else bdiv (sumSquaredReturns * YEAR) elapsed)"

subsection \<open>Bid, ask and the impact slopes\<close>

record bid_ask =
  bidVariance :: int
  askVariance :: int

definition bidAskVariance :: "int \<Rightarrow> int \<Rightarrow> int \<Rightarrow> js_error + bid_ask" where
  "bidAskVariance projected halfSpreadBps cap =
     (let s = halfSpreadBps in
      if s \<ge> BPS then Inl HalfSpreadTooWide
      else let ask = ceilDiv (projected * (BPS + s)) BPS;
               bid = bdiv (projected * (BPS - s)) BPS
           in Inr \<lparr>bidVariance = (if bid > cap then cap else bid),
                   askVariance = (if ask > cap then cap else ask)\<rparr>)"

definition perUnitPrice :: "int \<Rightarrow> int \<Rightarrow> int" where
  "perUnitPrice unitNotional variance = bdiv (unitNotional * variance) WAD"

definition maxPayoutPerUnit :: "int \<Rightarrow> int \<Rightarrow> int" where
  "maxPayoutPerUnit unitNotional cap = bdiv (unitNotional * cap) WAD"

definition askImpactSlope :: "int \<Rightarrow> int \<Rightarrow> int \<Rightarrow> int \<Rightarrow> int" where
  "askImpactSlope impactPerUnit remaining duration halfSpreadBps =
     (if impactPerUnit = 0 \<or> remaining = 0 \<or> duration = 0 then 0
      else ceilDiv (impactPerUnit * remaining * (BPS + halfSpreadBps)) (duration * BPS))"

definition bidImpactSlope :: "int \<Rightarrow> int \<Rightarrow> int \<Rightarrow> int \<Rightarrow> int" where
  "bidImpactSlope impactPerUnit remaining duration halfSpreadBps =
     (if impactPerUnit = 0 \<or> remaining = 0 \<or> duration = 0 then 0
      else bdiv (impactPerUnit * remaining * (BPS - halfSpreadBps)) (duration * BPS))"

subsection \<open>ISSUE\<close>

definition issuePremium :: "int \<Rightarrow> int \<Rightarrow> int \<Rightarrow> int \<Rightarrow> int" where
  "issuePremium ask slope unitNotional units =
     (if units = 0 then 0
      else let integral = ask * units + ceilDiv (slope * units * units) (2 * WAD)
           in ceilDiv (unitNotional * integral) WAD2)"

definition issueUnitsFor :: "int \<Rightarrow> int \<Rightarrow> int \<Rightarrow> int \<Rightarrow> js_error + int" where
  "issueUnitsFor ask slope unitNotional amountIn =
     (if ask = 0 \<or> amountIn = 0 then Inr 0
      else andThen (mulDiv amountIn WAD2 unitNotional) (\<lambda>x.
        if slope = 0 then bigDiv x ask
        else let discriminant = ask * ask + ceilDiv (2 * slope * x) WAD in
          andThen (isqrt discriminant) (\<lambda>root0.
            let root = (if root0 * root0 < discriminant then root0 + 1 else root0)
            in bigDiv (2 * x) (ask + root))))"

definition issueUnitsToCap :: "int \<Rightarrow> int \<Rightarrow> int \<Rightarrow> int" where
  "issueUnitsToCap ask slope cap =
     (if ask \<ge> cap then 0
      else if slope = 0 then UINT256_MAX
      else bdiv ((cap - ask) * WAD) slope)"

definition issueUnitsToCollateral :: "int \<Rightarrow> int \<Rightarrow> int \<Rightarrow> int \<Rightarrow> int \<Rightarrow> int" where
  "issueUnitsToCollateral outstandingUnits lockedLiability freeCollateral unitNotional cap =
     (let allowed = lockedLiability + freeCollateral;
          denominator = unitNotional * cap
      in if denominator = 0 then UINT256_MAX
         else let totalUnits = bdiv (allowed * WAD2) denominator
              in if totalUnits > outstandingUnits then totalUnits - outstandingUnits else 0)"

subsection \<open>EXIT, settlement and liability\<close>

definition exitProceeds :: "int \<Rightarrow> int \<Rightarrow> int \<Rightarrow> int \<Rightarrow> js_error + int" where
  "exitProceeds bid slope unitNotional units =
     (if units = 0 then Inr 0
      else let gross = bid * units;
               impact = bdiv (slope * units * units) (2 * WAD)
           in if impact > gross then Inl BeyondZeroBid
              else Inr (bdiv (unitNotional * (gross - impact)) WAD2))"

definition exitUnitsToZeroBid :: "int \<Rightarrow> int \<Rightarrow> int" where
  "exitUnitsToZeroBid bid slope = (if slope = 0 then UINT256_MAX else bdiv (bid * WAD) slope)"

definition payoutPerUnit :: "int \<Rightarrow> int \<Rightarrow> int \<Rightarrow> int" where
  "payoutPerUnit finalVariance cap unitNotional =
     bdiv (unitNotional * (if finalVariance < cap then finalVariance else cap)) WAD"

definition settleProceeds :: "int \<Rightarrow> int \<Rightarrow> int" where
  "settleProceeds units ppu = bdiv (units * ppu) WAD"

definition maxLiability :: "int \<Rightarrow> int \<Rightarrow> int \<Rightarrow> int" where
  "maxLiability units unitNotional cap =
     (if units = 0 then 0 else ceilDiv (units * unitNotional * cap) WAD2)"

definition finalLiability :: "int \<Rightarrow> int \<Rightarrow> int" where
  "finalLiability units ppu = (if units = 0 \<or> ppu = 0 then 0 else ceilDiv (units * ppu) WAD)"

subsection \<open>Decay and projection\<close>

lemma fl_LN2_nonneg: "0 \<le> fl LN2"
  by (rule fl_nonneg) (simp add: LN2_def)

text \<open>With an \<open>exp\<close> that stays in \<open>[0, 1]\<close> the decay factor is a WAD fraction.\<close>

lemma decayFactor_range:
  assumes M: "exp_in_unit M" and "0 \<le> dt" "0 \<le> halfLife"
  shows "0 \<le> decayFactor M dt halfLife" "decayFactor M dt halfLife \<le> WAD"
proof -
  define e where "e = fl (- (fl (fl (of_int dt) / of_int halfLife)) * fl LN2)"
  have "0 \<le> fl (fl (of_int dt) / of_int halfLife)"
    using assms by (intro fl_nonneg divide_nonneg_nonneg) auto
  then have "e \<le> 0"
    unfolding e_def using fl_LN2_nonneg by (intro fl_nonpos) (simp add: mult_nonneg_nonneg)
  then have x: "0 \<le> math_exp M e" "math_exp M e \<le> 1"
    using M by (auto simp: exp_in_unit_def)
  let ?y = "math_exp M e * 10 ^ 18"
  have "fl ?y \<le> of_int (3814697265625 * 2 ^ 18)"
    using x by (intro fl_le) auto
  moreover have "(3814697265625 * 2 ^ 18 :: int) = WAD" by (simp add: WAD_def)
  ultimately have "fl ?y \<le> of_int WAD" by metis
  then have "\<lfloor>fl ?y\<rfloor> \<le> WAD" by (simp add: floor_le_iff)
  moreover have "0 \<le> \<lfloor>fl ?y\<rfloor>" using fl_nonneg [of ?y] x by simp
  moreover have "decayFactor M dt halfLife = (if e < - fl (414 / 10) then 0 else \<lfloor>fl ?y\<rfloor>)"
    by (simp only: decayFactor_def e_def Let_def)
  ultimately show "0 \<le> decayFactor M dt halfLife" "decayFactor M dt halfLife \<le> WAD"
    by (simp_all only: split: if_splits) simp_all
qed

lemma decaySkew_shrinks:
  assumes "exp_in_unit M" "0 \<le> dt" "0 \<le> halfLife"
  shows "\<bar>decaySkew M skew dt halfLife\<bar> \<le> \<bar>skew\<bar>"
    and "0 \<le> skew \<Longrightarrow> 0 \<le> decaySkew M skew dt halfLife"
    and "skew \<le> 0 \<Longrightarrow> decaySkew M skew dt halfLife \<le> 0"
proof -
  let ?f = "decayFactor M dt halfLife"
  note f = decayFactor_range [OF assms]
  have p: "0 \<le> \<bar>skew\<bar> * ?f" using f by simp
  have "bdiv (\<bar>skew\<bar> * ?f) WAD \<le> bdiv (\<bar>skew\<bar> * WAD) WAD"
    using f p by (intro bdiv_mono mult_left_mono) auto
  also have "\<dots> = \<bar>skew\<bar>" by (simp add: bigint_simps)
  finally have d: "bdiv (\<bar>skew\<bar> * ?f) WAD \<le> \<bar>skew\<bar>" .
  have d0: "0 \<le> bdiv (\<bar>skew\<bar> * ?f) WAD" using p by (intro bdiv_ge_0) auto
  show "\<bar>decaySkew M skew dt halfLife\<bar> \<le> \<bar>skew\<bar>"
    "0 \<le> skew \<Longrightarrow> 0 \<le> decaySkew M skew dt halfLife"
    "skew \<le> 0 \<Longrightarrow> decaySkew M skew dt halfLife \<le> 0"
    using d d0 by (auto simp: decaySkew_def Let_def)
qed

lemma forwardVariance_range:
  "0 \<le> cap \<Longrightarrow> 0 \<le> forwardVariance a d cap \<and> forwardVariance a d cap \<le> cap"
  by (simp add: forwardVariance_def Let_def)

lemma annualize_nonneg: "0 \<le> ss \<Longrightarrow> 0 \<le> el \<Longrightarrow> 0 \<le> annualize ss el"
  by (simp add: annualize_def bdiv_ge_0)

lemma projectedVariance_nonneg:
  "0 \<le> r \<Longrightarrow> 0 \<le> el \<Longrightarrow> 0 \<le> f \<Longrightarrow> 0 \<le> rem \<Longrightarrow> 0 \<le> projectedVariance r el f rem"
  by (simp add: projectedVariance_def Let_def bdiv_ge_0)

text \<open>The projection is a weighted mean: it lies between its two inputs.\<close>

lemma projectedVariance_between:
  assumes "0 \<le> r" "0 \<le> el" "0 \<le> f" "0 \<le> rem" "0 < el + rem"
  shows "min r f \<le> projectedVariance r el f rem" "projectedVariance r el f rem \<le> max r f"
proof -
  have s: "projectedVariance r el f rem = bdiv (r * el + f * rem) (el + rem)"
    using assms by (simp add: projectedVariance_def Let_def)
  have n: "0 \<le> r * el + f * rem" using assms by simp
  have "min r f * (el + rem) \<le> r * el + f * rem"
    using assms by (simp add: distrib_left add_mono mult_right_mono)
  then show "min r f \<le> projectedVariance r el f rem"
    using assms n by (simp add: s le_bdiv_iff)
  have "r * el + f * rem \<le> max r f * (el + rem)"
    using assms by (simp add: distrib_left add_mono mult_right_mono)
  then have "bdiv (r * el + f * rem) (el + rem) \<le> bdiv (max r f * (el + rem)) (el + rem)"
    using assms n by (intro bdiv_mono) auto
  then show "projectedVariance r el f rem \<le> max r f"
    using assms by (simp add: s bigint_simps)
qed

subsection \<open>The two-sided quote\<close>

lemma bidAskVariance_ok:
  assumes "0 \<le> p" "0 \<le> s" "s < BPS" "0 \<le> cap"
  obtains q where "bidAskVariance p s cap = Inr q" "0 \<le> bidVariance q"
    "bidVariance q \<le> askVariance q" "askVariance q \<le> cap"
    "bidVariance q \<le> p" "min p cap \<le> askVariance q"
proof -
  let ?ask = "ceilDiv (p * (BPS + s)) BPS" and ?bid = "bdiv (p * (BPS - s)) BPS"
  have B: "0 < BPS" by simp
  have m: "p * (BPS - s) \<le> p * BPS" "p * BPS \<le> p * (BPS + s)" "0 \<le> p * (BPS - s)"
    using assms by (auto intro: mult_left_mono)
  have bp: "?bid \<le> p"
    using bdiv_mono [OF m(3,1) B] assms by (simp add: bigint_simps)
  have pa: "p \<le> ?ask"
    using ceilDiv_mono [of "p * BPS" "p * (BPS + s)" BPS] m assms
    by (simp add: bigint_simps pos_imp_zdiv_nonneg_iff)
       (smt (verit) B ceilDiv_mult_ge ceilDiv_nonneg m(2) mult_le_cancel_right zero_le_mult_iff)
  have b0: "0 \<le> ?bid" using m by (intro bdiv_ge_0) auto
  show ?thesis
    using assms bp pa b0
    by (intro that [of "\<lparr>bidVariance = (if ?bid > cap then cap else ?bid),
          askVariance = (if ?ask > cap then cap else ?ask)\<rparr>"])
       (auto simp: bidAskVariance_def Let_def)
qed

lemma perUnitPrice_mono:
  "0 \<le> N \<Longrightarrow> 0 \<le> v \<Longrightarrow> v \<le> w \<Longrightarrow> perUnitPrice N v \<le> perUnitPrice N w"
  by (simp add: perUnitPrice_def bdiv_mono mult_left_mono)

lemma askImpactSlope_nonneg:
  "0 \<le> i \<Longrightarrow> 0 \<le> r \<Longrightarrow> 0 \<le> d \<Longrightarrow> 0 \<le> s \<Longrightarrow> 0 \<le> askImpactSlope i r d s"
  by (simp add: askImpactSlope_def ceilDiv_ge_0)

lemma bidImpactSlope_nonneg:
  "0 \<le> i \<Longrightarrow> 0 \<le> r \<Longrightarrow> 0 \<le> d \<Longrightarrow> s \<le> BPS \<Longrightarrow> 0 \<le> bidImpactSlope i r d s"
  by (simp add: bidImpactSlope_def bdiv_ge_0)

subsection \<open>The premium of a fill\<close>

definition issueIntegral :: "int \<Rightarrow> int \<Rightarrow> int \<Rightarrow> int" where
  "issueIntegral ask slope units = ask * units + ceilDiv (slope * units * units) (2 * WAD)"

lemma issuePremium_eq:
  "issuePremium ask slope N units = ceilDiv (N * issueIntegral ask slope units) WAD2"
  by (simp add: issuePremium_def issueIntegral_def Let_def)

lemma issueIntegral_nonneg:
  "0 \<le> ask \<Longrightarrow> 0 \<le> slope \<Longrightarrow> 0 \<le> u \<Longrightarrow> 0 \<le> issueIntegral ask slope u"
  by (simp add: issueIntegral_def ceilDiv_ge_0)

lemma issueIntegral_mono:
  assumes "0 \<le> ask" "0 \<le> slope" "0 \<le> u" "u \<le> v"
  shows "issueIntegral ask slope u \<le> issueIntegral ask slope v"
  unfolding issueIntegral_def
  using assms by (intro add_mono ceilDiv_mono mult_left_mono mult_mono) auto

lemma issuePremium_nonneg:
  "0 \<le> ask \<Longrightarrow> 0 \<le> slope \<Longrightarrow> 0 \<le> N \<Longrightarrow> 0 \<le> u \<Longrightarrow> 0 \<le> issuePremium ask slope N u"
  by (simp add: issuePremium_eq ceilDiv_ge_0 issueIntegral_nonneg)

lemma issuePremium_mono:
  assumes "0 \<le> ask" "0 \<le> slope" "0 \<le> N" "0 \<le> u" "u \<le> v"
  shows "issuePremium ask slope N u \<le> issuePremium ask slope N v"
  unfolding issuePremium_eq
  using assms by (intro ceilDiv_mono mult_left_mono issueIntegral_mono mult_nonneg_nonneg issueIntegral_nonneg) auto

lemma issuePremium_pos:
  assumes "0 < ask" "0 \<le> slope" "0 < N" "0 < u"
  shows "0 < issuePremium ask slope N u"
proof -
  have "0 < ask * u" using assms by simp
  moreover have "0 \<le> ceilDiv (slope * u * u) (2 * WAD)" using assms by (intro ceilDiv_ge_0) auto
  ultimately have "0 < issueIntegral ask slope u" by (simp add: issueIntegral_def)
  then show ?thesis using assms by (simp add: issuePremium_eq ceilDiv_pos_iff)
qed

text \<open>
  The integral charges a split fill at least what it charges the whole one, when the second part
  starts at the marginal ask the first part left behind.
\<close>

lemma issueIntegral_split:
  assumes "0 \<le> ask" "0 \<le> slope" "0 \<le> u" "0 \<le> v" and ask': "ask * WAD + slope * u \<le> ask' * WAD"
  shows "issueIntegral ask slope (u + v) \<le> issueIntegral ask slope u + issueIntegral ask' slope v"
proof -
  let ?W = "2 * WAD" and ?A = "slope * u * u" and ?B = "slope * v * v"
  have W: "0 < ?W" by simp
  have n: "0 \<le> ?A" "0 \<le> ?B" using assms by auto
  have "0 \<le> ask' * WAD - ask * WAD" using ask' assms by (smt (verit) mult_nonneg_nonneg)
  then have d: "0 \<le> (ask' - ask) * WAD" by (simp add: left_diff_distrib)
  then have d0: "0 \<le> ask' - ask" using WAD_pos by (simp add: zero_le_mult_iff)
  have "slope * u * v \<le> (ask' * WAD - ask * WAD) * v"
    using ask' assms by (intro mult_right_mono) auto
  then have "slope * (u + v) * (u + v) \<le> ?A + (?B + (ask' - ask) * v * ?W)"
    by (simp add: algebra_simps)
  then have "ceilDiv (slope * (u + v) * (u + v)) ?W \<le> ceilDiv (?A + (?B + (ask' - ask) * v * ?W)) ?W"
    using assms by (intro ceilDiv_mono) auto
  also have "\<dots> \<le> ceilDiv ?A ?W + ceilDiv (?B + (ask' - ask) * v * ?W) ?W"
    using assms n d0 by (intro ceilDiv_add_le) auto
  also have "ceilDiv (?B + (ask' - ask) * v * ?W) ?W \<le> ceilDiv ?B ?W + (ask' - ask) * v"
  proof -
    have "0 \<le> ?B + (ask' - ask) * v * ?W" using n d0 assms(4) by simp
    moreover have "?B + (ask' - ask) * v * ?W \<le> (ceilDiv ?B ?W + (ask' - ask) * v) * ?W"
      using ceilDiv_mult_ge [OF n(2) W] by (simp add: distrib_right)
    ultimately show ?thesis using W by (subst ceilDiv_le_iff)
  qed
  finally show ?thesis by (simp add: issueIntegral_def algebra_simps)
qed

lemma issuePremium_split:
  assumes "0 \<le> ask" "0 \<le> slope" "0 \<le> N" "0 \<le> u" "0 \<le> v"
    and ask': "ask * WAD + slope * u \<le> ask' * WAD"
  shows "issuePremium ask slope N (u + v) \<le> issuePremium ask slope N u + issuePremium ask' slope N v"
proof -
  have "ask * WAD \<le> ask' * WAD" using ask' assms by (smt (verit) mult_nonneg_nonneg)
  then have a': "0 \<le> ask'" using assms(1) by simp
  note nn = issueIntegral_nonneg [OF assms(1,2,4)] issueIntegral_nonneg [OF a' assms(2,5)]
  have uv: "0 \<le> u + v" using assms by simp
  have "N * issueIntegral ask slope (u + v)
      \<le> N * issueIntegral ask slope u + N * issueIntegral ask' slope v"
    using issueIntegral_split [OF assms(1,2,4,5) ask'] assms(3)
    by (metis distrib_left mult_left_mono)
  then have "ceilDiv (N * issueIntegral ask slope (u + v)) WAD2
      \<le> ceilDiv (N * issueIntegral ask slope u + N * issueIntegral ask' slope v) WAD2"
    using assms issueIntegral_nonneg [OF assms(1,2) uv] by (intro ceilDiv_mono) auto
  also have "\<dots> \<le> ceilDiv (N * issueIntegral ask slope u) WAD2
      + ceilDiv (N * issueIntegral ask' slope v) WAD2"
    using assms nn by (intro ceilDiv_add_le) auto
  finally show ?thesis by (simp add: issuePremium_eq)
qed

subsection \<open>The exact-in inverse never overcharges\<close>

lemma quadratic_inverse:
  fixes a s x r u :: int
  assumes "0 < a" "0 \<le> s" "0 \<le> x" "a \<le> r" "0 \<le> u"
    and r: "2 * s * x \<le> WAD * (r * r - a * a)" and u: "u * (a + r) \<le> 2 * x"
  shows "s * u * u \<le> 2 * WAD * (x - a * u)"
proof (cases "x = 0")
  case True
  then have "u = 0" using u assms by (simp add: mult_le_0_iff)
  then show ?thesis using True by simp
next
  case False
  then have x: "0 < x" using assms by simp
  have "2 * x * (s * u * u) = (2 * s * x) * (u * u)" by (simp add: algebra_simps)
  also have "\<dots> \<le> WAD * (r * r - a * a) * (u * u)"
    using r by (intro mult_right_mono) auto
  also have "\<dots> = WAD * ((r - a) * u) * (u * (a + r))" by (simp add: algebra_simps)
  also have "\<dots> \<le> WAD * ((r - a) * u) * (2 * x)"
    using u assms by (intro mult_left_mono) auto
  finally have "2 * x * (s * u * u) \<le> 2 * x * (WAD * ((r - a) * u))" by (simp add: algebra_simps)
  then have "s * u * u \<le> WAD * ((r - a) * u)" using x by simp
  also have "\<dots> = WAD * (u * (a + r)) - 2 * WAD * (a * u)" by (simp add: algebra_simps)
  also have "\<dots> \<le> WAD * (2 * x) - 2 * WAD * (a * u)"
    using u by (intro diff_right_mono mult_left_mono) auto
  finally show ?thesis by (simp add: algebra_simps)
qed

lemma issueUnitsFor_integral:
  assumes "0 < ask" "0 \<le> slope" "0 < N" "0 \<le> amt"
  obtains u where "issueUnitsFor ask slope N amt = Inr u" "0 \<le> u"
    "issueIntegral ask slope u \<le> bdiv (amt * WAD2) N"
proof -
  define x where "x = bdiv (amt * WAD2) N"
  have x: "0 \<le> x" unfolding x_def using assms by (intro bdiv_ge_0) auto
  consider "amt = 0" | "amt \<noteq> 0" "slope = 0" | "amt \<noteq> 0" "0 < slope" using assms by force
  then show ?thesis
  proof cases
    case 1
    then show ?thesis
      using x by (intro that [of 0]) (simp_all add: issueUnitsFor_def issueIntegral_def x_def)
  next
    case 2
    have "bdiv x ask * ask \<le> x" using x assms by (intro bdiv_mult_le) auto
    then show ?thesis
      using 2 assms x
      by (intro that [of "bdiv x ask"])
         (simp_all add: issueUnitsFor_def issueIntegral_def x_def [symmetric] bdiv_ge_0 mult.commute [of _ ask])
  next
    case 3
    define D where "D = ask * ask + ceilDiv (2 * slope * x) WAD"
    have sx: "0 \<le> 2 * slope * x" using x 3 by simp
    then have c: "0 \<le> ceilDiv (2 * slope * x) WAD" by (intro ceilDiv_ge_0) auto
    then have D: "0 \<le> D" "ask * ask \<le> D" by (auto simp: D_def)
    then obtain r0 where r0: "isqrt D = Inr r0" "0 \<le> r0" "r0 * r0 \<le> D" "D < (r0 + 1) * (r0 + 1)"
      using isqrt_correct by blast
    define r where "r = (if r0 * r0 < D then r0 + 1 else r0)"
    have r: "0 \<le> r" "D \<le> r * r" using r0 by (auto simp: r_def)
    then have "ask\<^sup>2 \<le> r\<^sup>2" using D by (simp add: power2_eq_square)
    then have ar: "ask \<le> r" using r assms by (simp add: abs_le_square_iff [symmetric])
    define u where "u = bdiv (2 * x) (ask + r)"
    have apos: "0 < ask + r" using assms r by simp
    have u: "0 \<le> u" "u * (ask + r) \<le> 2 * x"
      unfolding u_def using x apos by (auto intro: bdiv_ge_0 bdiv_mult_le)
    have "2 * slope * x \<le> ceilDiv (2 * slope * x) WAD * WAD"
      using sx by (intro ceilDiv_mult_ge) auto
    also have "\<dots> \<le> (r * r - ask * ask) * WAD"
      using r by (intro mult_right_mono) (auto simp: D_def)
    finally have "2 * slope * x \<le> WAD * (r * r - ask * ask)" by (simp add: mult.commute)
    then have "slope * u * u \<le> 2 * WAD * (x - ask * u)"
      using assms x u ar by (intro quadratic_inverse) auto
    then have "ceilDiv (slope * u * u) (2 * WAD) \<le> x - ask * u"
      using assms u by (subst ceilDiv_le_iff) (auto simp: mult.commute)
    then have "issueIntegral ask slope u \<le> x" by (simp add: issueIntegral_def)
    moreover have "issueUnitsFor ask slope N amt = Inr u"
      using 3 assms apos r0 by (simp add: issueUnitsFor_def x_def [symmetric] D_def [symmetric]
        r_def [symmetric] u_def Let_def)
    ultimately show ?thesis using u x_def that by blast
  qed
qed

lemma issueUnitsFor_affordable:
  assumes "0 < ask" "0 \<le> slope" "0 < N" "0 \<le> amt"
  obtains u where "issueUnitsFor ask slope N amt = Inr u" "0 \<le> u"
    "issuePremium ask slope N u \<le> amt"
proof -
  obtain u where u: "issueUnitsFor ask slope N amt = Inr u" "0 \<le> u"
    "issueIntegral ask slope u \<le> bdiv (amt * WAD2) N"
    using issueUnitsFor_integral [OF assms] by blast
  have "N * issueIntegral ask slope u \<le> N * bdiv (amt * WAD2) N"
    using u assms by (intro mult_left_mono) auto
  also have "\<dots> \<le> amt * WAD2"
    using assms bdiv_mult_le [of "amt * WAD2" N] by (simp add: mult.commute)
  finally have "issuePremium ask slope N u \<le> amt"
    unfolding issuePremium_eq
    using assms u issueIntegral_nonneg [of ask slope u] by (subst ceilDiv_le_iff) auto
  with u that show ?thesis by blast
qed

subsection \<open>The clamps of ISSUE\<close>

text \<open>Up to \<open>issueUnitsToCap\<close> the marginal ask \<open>ask + slope * u / 1e18\<close> stays at or below the cap.\<close>

lemma issueUnitsToCap_marginal:
  assumes "0 \<le> slope" "ask \<le> cap" "0 \<le> u" "u \<le> issueUnitsToCap ask slope cap"
  shows "ask * WAD + slope * u \<le> cap * WAD"
proof (cases "slope = 0")
  case True
  then show ?thesis using assms by (simp add: mult_right_mono)
next
  case False
  then have s: "0 < slope" using assms by simp
  show ?thesis
  proof (cases "ask \<ge> cap")
    case True
    then have "u = 0" using assms by (simp add: issueUnitsToCap_def)
    then show ?thesis using assms by (simp add: mult_right_mono)
  next
    case lt: False
    then have "u \<le> bdiv ((cap - ask) * WAD) slope"
      using assms False by (simp add: issueUnitsToCap_def)
    then have "u * slope \<le> (cap - ask) * WAD"
      using lt s by (subst (asm) le_bdiv_iff) auto
    then show ?thesis by (simp add: algebra_simps)
  qed
qed

lemma issueUnitsToCap_nonneg: "0 \<le> slope \<Longrightarrow> 0 \<le> issueUnitsToCap ask slope cap"
  by (simp add: issueUnitsToCap_def bdiv_ge_0)

lemma maxLiability_eq: "maxLiability u N cap = ceilDiv (u * N * cap) WAD2"
  by (simp add: maxLiability_def)

lemma finalLiability_eq: "finalLiability u ppu = ceilDiv (u * ppu) WAD"
  by (auto simp: finalLiability_def)

lemma liability_zero [simp]: "maxLiability 0 N cap = 0" "finalLiability 0 ppu = 0"
  by (simp_all add: maxLiability_def finalLiability_def)

lemma issueUnitsToCollateral_nonneg: "0 \<le> issueUnitsToCollateral out l f N cap"
  by (simp add: issueUnitsToCollateral_def Let_def)

text \<open>Units within the collateral clamp can be reserved at the cap out of what is locked and free.\<close>

lemma issueUnitsToCollateral_covers:
  assumes "0 \<le> out" "0 \<le> N" "0 \<le> cap" "0 \<le> l + f" "0 < u"
    and u: "u \<le> issueUnitsToCollateral out l f N cap"
  shows "maxLiability (out + u) N cap \<le> l + f"
proof (cases "N * cap = 0")
  case True
  then show ?thesis using assms by (auto simp: maxLiability_eq)
next
  case False
  then have d: "0 < N * cap" using assms by simp
  let ?T = "bdiv ((l + f) * WAD2) (N * cap)"
  have "out + u \<le> ?T"
    using u False assms(5) by (auto simp: issueUnitsToCollateral_def Let_def split: if_splits)
  then have "(out + u) * (N * cap) \<le> (l + f) * WAD2"
    using d assms by (subst (asm) le_bdiv_iff) auto
  then show ?thesis
    unfolding maxLiability_eq using assms by (subst ceilDiv_le_iff) (auto simp: mult.assoc)
qed

subsection \<open>EXIT stays above the zero-bid point and below the cap payout\<close>

lemma exitUnitsToZeroBid_nonneg: "0 \<le> bid \<Longrightarrow> 0 \<le> slope \<Longrightarrow> 0 \<le> exitUnitsToZeroBid bid slope"
  by (simp add: exitUnitsToZeroBid_def bdiv_ge_0)

lemma exit_impact_le:
  assumes "0 \<le> bid" "0 \<le> slope" "0 \<le> u" "u \<le> exitUnitsToZeroBid bid slope"
  shows "bdiv (slope * u * u) (2 * WAD) \<le> bid * u"
proof -
  have su: "slope * u \<le> bid * WAD"
  proof (cases "slope = 0")
    case False
    then have "u \<le> bdiv (bid * WAD) slope" using assms by (simp add: exitUnitsToZeroBid_def)
    then have "u * slope \<le> bid * WAD"
      using False assms by (subst (asm) le_bdiv_iff) auto
    then show ?thesis by (simp add: mult.commute)
  qed (use assms in simp)
  have bu: "0 \<le> bid * u" using assms by simp
  have "slope * u * u \<le> bid * WAD * u" using su assms by (intro mult_right_mono) auto
  also have "\<dots> \<le> bid * u * (2 * WAD)" using bu by (simp add: algebra_simps)
  finally have "bdiv (slope * u * u) (2 * WAD) \<le> bdiv (bid * u * (2 * WAD)) (2 * WAD)"
    using assms by (intro bdiv_mono) auto
  also have "\<dots> = bid * u" using assms by (simp add: bigint_simps)
  finally show ?thesis .
qed

lemma exitProceeds_ok:
  assumes "0 \<le> bid" "0 \<le> slope" "0 \<le> N" "0 \<le> u" "u \<le> exitUnitsToZeroBid bid slope"
  obtains p where "exitProceeds bid slope N u = Inr p" "0 \<le> p" "p \<le> bdiv (N * (bid * u)) WAD2"
proof (cases "u = 0")
  case True
  then show ?thesis by (intro that [of 0]) (simp_all add: exitProceeds_def)
next
  case False
  let ?i = "bdiv (slope * u * u) (2 * WAD)"
  have i: "?i \<le> bid * u" "0 \<le> ?i"
    using exit_impact_le [of bid slope u] assms by (auto intro: bdiv_ge_0)
  then have "N * (bid * u - ?i) \<le> N * (bid * u)" "0 \<le> N * (bid * u - ?i)"
    using assms by (auto intro: mult_left_mono)
  then show ?thesis
    using False i
    by (intro that [of "bdiv (N * (bid * u - ?i)) WAD2"])
       (auto simp: exitProceeds_def Let_def intro: bdiv_ge_0 bdiv_mono)
qed

subsection \<open>Liabilities\<close>

lemma maxLiability_nonneg: "0 \<le> u \<Longrightarrow> 0 \<le> N \<Longrightarrow> 0 \<le> cap \<Longrightarrow> 0 \<le> maxLiability u N cap"
  by (simp add: maxLiability_eq ceilDiv_ge_0)

lemma finalLiability_nonneg: "0 \<le> u \<Longrightarrow> 0 \<le> ppu \<Longrightarrow> 0 \<le> finalLiability u ppu"
  by (simp add: finalLiability_eq ceilDiv_ge_0)

lemma maxLiability_mono:
  "0 \<le> u \<Longrightarrow> u \<le> v \<Longrightarrow> 0 \<le> N \<Longrightarrow> 0 \<le> cap \<Longrightarrow> maxLiability u N cap \<le> maxLiability v N cap"
  unfolding maxLiability_eq by (intro ceilDiv_mono mult_right_mono) auto

lemma finalLiability_mono:
  "0 \<le> u \<Longrightarrow> u \<le> v \<Longrightarrow> 0 \<le> ppu \<Longrightarrow> finalLiability u ppu \<le> finalLiability v ppu"
  unfolding finalLiability_eq by (intro ceilDiv_mono mult_right_mono) auto

lemma payoutPerUnit_range:
  assumes "0 \<le> fv" "0 \<le> cap" "0 \<le> N"
  shows "0 \<le> payoutPerUnit fv cap N" "payoutPerUnit fv cap N \<le> maxPayoutPerUnit N cap"
  using assms unfolding payoutPerUnit_def maxPayoutPerUnit_def
  by (auto intro!: bdiv_ge_0 bdiv_mono mult_left_mono)

text \<open>Finalizing never needs more than the cap reservation.\<close>

lemma finalLiability_le_maxLiability:
  assumes "0 \<le> u" "0 \<le> fv" "0 \<le> cap" "0 \<le> N"
  shows "finalLiability u (payoutPerUnit fv cap N) \<le> maxLiability u N cap"
proof -
  let ?p = "payoutPerUnit fv cap N"
  have "?p * WAD \<le> N * (if fv < cap then fv else cap)"
    unfolding payoutPerUnit_def using assms by (intro bdiv_mult_le) auto
  also have "\<dots> \<le> N * cap" using assms by (auto intro: mult_left_mono)
  finally have p: "?p * WAD \<le> N * cap" .
  have p0: "0 \<le> ?p" using payoutPerUnit_range assms by simp
  have "u * ?p * WAD \<le> u * (N * cap)"
    using p assms by (simp add: mult.assoc mult_left_mono)
  also have "\<dots> \<le> maxLiability u N cap * WAD2"
    unfolding maxLiability_eq using assms by (simp add: mult.assoc ceilDiv_mult_ge)
  finally have "u * ?p * WAD \<le> (maxLiability u N cap * WAD) * WAD"
    by (simp add: WAD2_eq mult.assoc)
  then have "u * ?p \<le> maxLiability u N cap * WAD" by simp
  then show ?thesis
    unfolding finalLiability_eq using assms p0 by (subst ceilDiv_le_iff) auto
qed

text \<open>
  A redemption's floored proceeds never exceed what burning the same units releases, so the clamp
  on the released liability changes nothing; the same for an exit below the cap.
\<close>

lemma settle_within_release:
  assumes "0 \<le> u" "u \<le> out" "0 \<le> ppu"
  shows "settleProceeds u ppu \<le> finalLiability out ppu - finalLiability (out - u) ppu"
proof -
  have "ceilDiv ((out - u) * ppu) WAD + bdiv (u * ppu) WAD \<le> ceilDiv ((out - u) * ppu + u * ppu) WAD"
    using assms by (intro ceilDiv_add_bdiv) auto
  then show ?thesis
    by (simp add: settleProceeds_def finalLiability_eq algebra_simps)
qed

lemma exit_within_release:
  assumes "0 \<le> u" "u \<le> out" "0 \<le> N" "0 \<le> bid" "bid \<le> cap"
  shows "bdiv (N * (bid * u)) WAD2 \<le> maxLiability out N cap - maxLiability (out - u) N cap"
proof -
  have "bdiv (N * (bid * u)) WAD2 \<le> bdiv (u * N * cap) WAD2"
    using assms by (intro bdiv_mono) (auto simp: algebra_simps intro!: mult_left_mono mult_right_mono)
  moreover have "ceilDiv ((out - u) * N * cap) WAD2 + bdiv (u * N * cap) WAD2
      \<le> ceilDiv ((out - u) * N * cap + u * N * cap) WAD2"
    using assms by (intro ceilDiv_add_bdiv) auto
  moreover have "(out - u) * N * cap + u * N * cap = out * N * cap" by (simp add: algebra_simps)
  ultimately show ?thesis by (simp add: maxLiability_eq)
qed

lemma settleProceeds_nonneg: "0 \<le> u \<Longrightarrow> 0 \<le> ppu \<Longrightarrow> 0 \<le> settleProceeds u ppu"
  by (simp add: settleProceeds_def bdiv_ge_0)

text \<open>
  Both legs meet the burn contract: SETTLE at a fixed payout, and EXIT at a bid not above the cap
  (with its impact-free value as the bound on what it pays).
\<close>

interpretation settle_leg: burn_leg "\<lambda>ppu. 0 \<le> ppu" "\<lambda>ppu u. finalLiability u ppu" "\<lambda>ppu u. settleProceeds u ppu"
  by unfold_locales (simp_all add: settle_within_release settleProceeds_nonneg liability_zero)

interpretation exit_leg: burn_leg
  "\<lambda>(N, bid, cap). 0 \<le> N \<and> 0 \<le> bid \<and> bid \<le> cap"
  "\<lambda>(N, bid, cap) u. maxLiability u N cap"
  "\<lambda>(N, bid, cap) u. bdiv (N * (bid * u)) WAD2"
  by unfold_locales (auto simp: exit_within_release liability_zero bdiv_ge_0)

end
