(* ===== verification/Sim_Vault.thy ===== *)
theory Sim_Vault
  imports Sim_Pricing
begin

text \<open>
  The \<open>Vault\<close> class of \<open>sim/src/market.ts\<close>: one writer's collateral, with \<open>locked\<close> aggregating every
  series it backs. A method that mutates returns the new vault, or the error it throws; a throw
  unwinds the whole scenario (\<open>run.ts\<close> catches it and drops every object), so the half-updated state
  is not observable and an error carries none. The locale states what a series relies on when it
  reserves, releases, takes a premium or pays; the vault model is its interpretation.
\<close>

subsection \<open>State and operations\<close>

record vault =
  v_balance :: int
  v_locked :: int
  v_withdrawn :: int
  v_deposited :: int

definition new_vault :: vault where
  "new_vault = \<lparr>v_balance = 0, v_locked = 0, v_withdrawn = 0, v_deposited = 0\<rparr>"

definition vault_free :: "vault \<Rightarrow> int" where
  "vault_free v = v_balance v - v_locked v"

definition assertSolvent :: "vault \<Rightarrow> js_error + vault" where
  "assertSolvent v =
     (if v_balance v < v_locked v then Inl (Undercollateralized (v_balance v) (v_locked v)) else Inr v)"

definition deposit :: "int \<Rightarrow> vault \<Rightarrow> js_error + vault" where
  "deposit amount v =
     assertSolvent (v\<lparr>v_balance := v_balance v + amount, v_deposited := v_deposited v + amount\<rparr>)"

definition withdrawFree :: "int \<Rightarrow> vault \<Rightarrow> js_error + vault" where
  "withdrawFree amount v =
     (if amount > vault_free v then Inl (ExceedsFree amount (vault_free v))
      else assertSolvent
        (v\<lparr>v_balance := v_balance v - amount, v_withdrawn := v_withdrawn v + amount\<rparr>))"

definition credit :: "int \<Rightarrow> vault \<Rightarrow> js_error + vault" where
  "credit amount v = assertSolvent (v\<lparr>v_balance := v_balance v + amount\<rparr>)"

definition debit :: "int \<Rightarrow> vault \<Rightarrow> js_error + vault" where
  "debit amount v =
     (if amount > v_balance v then Inl (DebitExceedsBalance amount (v_balance v))
      else assertSolvent (v\<lparr>v_balance := v_balance v - amount\<rparr>))"

definition increaseLocked :: "int \<Rightarrow> vault \<Rightarrow> js_error + vault" where
  "increaseLocked amount v = assertSolvent (v\<lparr>v_locked := v_locked v + amount\<rparr>)"

definition decreaseLocked :: "int \<Rightarrow> vault \<Rightarrow> js_error + vault" where
  "decreaseLocked amount v =
     (if amount > v_locked v then Inl (ExceedsLocked amount (v_locked v))
      else assertSolvent (v\<lparr>v_locked := v_locked v - amount\<rparr>))"

definition solvent :: "vault \<Rightarrow> bool" where
  "solvent v \<longleftrightarrow> v_locked v \<le> v_balance v"

lemma assertSolvent_eq_Inr [simp]: "assertSolvent v = Inr w \<longleftrightarrow> solvent v \<and> w = v"
  by (auto simp: assertSolvent_def solvent_def)

lemma assertSolvent_solvent [simp]: "solvent v \<Longrightarrow> assertSolvent v = Inr v"
  by simp

lemmas vault_op_defs =
  deposit_def withdrawFree_def credit_def debit_def increaseLocked_def decreaseLocked_def vault_free_def

text \<open>Whatever an operation returns is solvent: the assertion is the last thing each of them does.\<close>

lemma vault_ops_solvent:
  "deposit a v = Inr w \<Longrightarrow> solvent w"
  "withdrawFree a v = Inr w \<Longrightarrow> solvent w"
  "credit a v = Inr w \<Longrightarrow> solvent w"
  "debit a v = Inr w \<Longrightarrow> solvent w"
  "increaseLocked a v = Inr w \<Longrightarrow> solvent w"
  "decreaseLocked a v = Inr w \<Longrightarrow> solvent w"
  by (auto simp: vault_op_defs split: if_splits)

text \<open>Exactly when each operation succeeds on a solvent vault.\<close>

lemma withdrawFree_iff:
  assumes "solvent v"
  shows "succeeds (withdrawFree a v) \<longleftrightarrow> a \<le> vault_free v"
  using assms by (auto simp: withdrawFree_def vault_free_def succeeds_iff solvent_def)

lemma debit_iff:
  assumes "solvent v" "0 \<le> v_locked v" "0 \<le> a"
  shows "succeeds (debit a v) \<longleftrightarrow> a \<le> vault_free v"
  using assms by (auto simp: debit_def vault_free_def succeeds_iff solvent_def)

lemma increaseLocked_iff: "succeeds (increaseLocked a v) \<longleftrightarrow> a \<le> vault_free v"
  by (auto simp: increaseLocked_def vault_free_def succeeds_iff solvent_def)

lemma decreaseLocked_iff:
  assumes "solvent v" "0 \<le> a"
  shows "succeeds (decreaseLocked a v) \<longleftrightarrow> a \<le> v_locked v"
  using assms by (auto simp: decreaseLocked_def succeeds_iff solvent_def)

subsection \<open>What a series relies on\<close>

locale collateral_account =
  fixes bal :: "'v \<Rightarrow> int"
    and lck :: "'v \<Rightarrow> int"
    and reserve :: "int \<Rightarrow> 'v \<Rightarrow> js_error + 'v"
    and release :: "int \<Rightarrow> 'v \<Rightarrow> js_error + 'v"
    and receive :: "int \<Rightarrow> 'v \<Rightarrow> js_error + 'v"
    and pay :: "int \<Rightarrow> 'v \<Rightarrow> js_error + 'v"
  assumes reserve_ok: "lck v + a \<le> bal v \<Longrightarrow>
      \<exists>w. reserve a v = Inr w \<and> bal w = bal v \<and> lck w = lck v + a"
    and release_ok: "a \<le> lck v \<Longrightarrow> lck v - a \<le> bal v \<Longrightarrow>
      \<exists>w. release a v = Inr w \<and> bal w = bal v \<and> lck w = lck v - a"
    and receive_ok: "lck v \<le> bal v + a \<Longrightarrow>
      \<exists>w. receive a v = Inr w \<and> bal w = bal v + a \<and> lck w = lck v"
    and pay_ok: "a \<le> bal v \<Longrightarrow> lck v \<le> bal v - a \<Longrightarrow>
      \<exists>w. pay a v = Inr w \<and> bal w = bal v - a \<and> lck w = lck v"
begin

lemma reserve_then_receive:
  assumes "lck v + a \<le> bal v" "0 \<le> p"
  obtains w where "andThen (reserve a v) (receive p) = Inr w"
    "bal w = bal v + p" "lck w = lck v + a"
proof -
  obtain v1 where v1: "reserve a v = Inr v1" "bal v1 = bal v" "lck v1 = lck v + a"
    using reserve_ok assms by blast
  moreover from assms v1 have "lck v1 \<le> bal v1 + p" by simp
  then obtain w where "receive p v1 = Inr w" "bal w = bal v1 + p" "lck w = lck v1"
    using receive_ok by blast
  ultimately show ?thesis using that by simp
qed

lemma release_then_pay:
  assumes "lck v \<le> bal v" "0 \<le> lck v" "0 \<le> a" "a \<le> r" "r \<le> lck v"
  obtains w where "andThen (release r v) (pay a) = Inr w"
    "bal w = bal v - a" "lck w = lck v - r"
proof -
  have "lck v - r \<le> bal v" using assms by simp
  then obtain v1 where v1: "release r v = Inr v1" "bal v1 = bal v" "lck v1 = lck v - r"
    using release_ok assms by blast
  moreover from assms v1 have "a \<le> bal v1" "lck v1 \<le> bal v1 - a" by auto
  then obtain w where "pay a v1 = Inr w" "bal w = bal v1 - a" "lck w = lck v1"
    using pay_ok by blast
  ultimately show ?thesis using that by simp
qed

end

interpretation va: collateral_account v_balance v_locked increaseLocked decreaseLocked credit debit
  by unfold_locales (auto simp: vault_op_defs solvent_def)

text \<open>No operation but a deposit or a withdrawal touches the two running totals.\<close>

lemma vault_ops_totals:
  "credit a v = Inr w \<Longrightarrow> v_deposited w = v_deposited v \<and> v_withdrawn w = v_withdrawn v"
  "debit a v = Inr w \<Longrightarrow> v_deposited w = v_deposited v \<and> v_withdrawn w = v_withdrawn v"
  "increaseLocked a v = Inr w \<Longrightarrow> v_deposited w = v_deposited v \<and> v_withdrawn w = v_withdrawn v"
  "decreaseLocked a v = Inr w \<Longrightarrow> v_deposited w = v_deposited v \<and> v_withdrawn w = v_withdrawn v"
  by (auto simp: vault_op_defs split: if_splits)

end
