(* ===== verification/Sim_Series.thy ===== *)
theory Sim_Series
  imports Sim_Vault
begin

text \<open>
  The \<open>Series\<close> class of \<open>sim/src/market.ts\<close>. An object holds a reference to its vault, which other
  series may share; the model passes the vault in and out next to the series. A method is a function
  of the time, the vault and the series, in the source's order of tests and updates: \<open>None\<close> in place
  of a fill is the source's \<open>undefined\<close>, \<open>Inl\<close> an error it throws.
\<close>

subsection \<open>State\<close>

record series_params =
  p_start :: int
  p_expiry :: int
  p_saleEnd :: int
  p_sampleInterval :: int
  p_unitNotional :: int
  p_capVariance :: int
  p_anchorVariance :: int
  p_impactPerUnit :: int
  p_halfLife :: int
  p_halfSpreadBps :: int
  p_maxUnits :: int

record quote =
  q_marketVariance :: int
  q_projectedVariance :: int
  q_realizedSoFar :: int
  q_bidVariance :: int
  q_askVariance :: int
  q_bidPerUnit :: int
  q_askPerUnit :: int
  q_askSlope :: int
  q_bidSlope :: int

datatype leg = LegIssue | LegExit | LegSettle

record fill =
  f_t :: int
  f_leg :: leg
  f_actor :: string
  f_units :: int
  f_quote :: int
  f_partial :: bool

record snapshot =
  sn_t :: int
  sn_processedThrough :: int
  sn_realizedVariance :: int
  sn_marketVariance :: int
  sn_projectedVariance :: int
  sn_bidVariance :: int
  sn_askVariance :: int
  sn_bidPerUnit :: int
  sn_askPerUnit :: int
  sn_outstandingUnits :: int
  sn_unitsAvailable :: int
  sn_lockedLiability :: int
  sn_vaultBalance :: int
  sn_vaultLocked :: int
  sn_vaultFree :: int

record series =
  s_id :: int
  s_params :: series_params
  s_skew :: int
  s_lastSkewTs :: int
  s_outstandingUnits :: int
  s_unitsAvailable :: int
  s_lockedLiability :: int
  s_issuanceStopped :: bool
  s_finalized :: bool
  s_finalVariance :: int
  s_payoutPerUnit :: int
  s_samplesStored :: int
  s_sumSquaredReturns :: int
  s_processedThrough :: int
  s_premiumTaken :: int
  s_exitPaid :: int
  s_settlePaid :: int
  s_fills :: "fill list"
  s_snapshots :: "snapshot list"

definition init_series :: "int \<Rightarrow> series_params \<Rightarrow> series" where
  "init_series i p = \<lparr>s_id = i, s_params = p, s_skew = 0, s_lastSkewTs = p_start p,
     s_outstandingUnits = 0, s_unitsAvailable = p_maxUnits p, s_lockedLiability = 0,
     s_issuanceStopped = False, s_finalized = False, s_finalVariance = 0, s_payoutPerUnit = 0,
     s_samplesStored = 1, s_sumSquaredReturns = 0, s_processedThrough = p_start p,
     s_premiumTaken = 0, s_exitPaid = 0, s_settlePaid = 0, s_fills = [], s_snapshots = []\<rparr>"

definition new_series :: "int \<Rightarrow> series_params \<Rightarrow> vault \<Rightarrow> js_error + (vault \<times> series)" where
  "new_series i p v = andThen (increaseLocked 0 v) (\<lambda>v'. Inr (v', init_series i p))"

subsection \<open>The oracle\<close>

text \<open>
  \<open>totalSamples\<close> is a JavaScript quotient, so a rational; \<open>availableSamples\<close> floors one of two
  safe integers, which is \<open>div\<close> (\<open>floor_fl_div\<close>).
\<close>

definition totalSamples :: "series \<Rightarrow> rat" where
  "totalSamples s =
     of_int (p_expiry (s_params s) - p_start (s_params s)) / of_int (p_sampleInterval (s_params s)) + 1"

definition availableSamples :: "int \<Rightarrow> series \<Rightarrow> int" where
  "availableSamples now s =
     (let capped = min now (p_expiry (s_params s)) in
      if capped < p_start (s_params s) then 0
      else (capped - p_start (s_params s)) div p_sampleInterval (s_params s) + 1)"

definition isCurrent :: "int \<Rightarrow> series \<Rightarrow> bool" where
  "isCurrent now s \<longleftrightarrow> s_samplesStored s \<ge> availableSamples now s"

text \<open>One sample: the log return between two neighbouring grid prices, squared into the sum.\<close>

definition returnWad :: "js_math \<Rightarrow> (int \<Rightarrow> rat) \<Rightarrow> int \<Rightarrow> int \<Rightarrow> int" where
  "returnWad M priceAt prev t =
     (let r = math_log M (fl (priceAt t / priceAt prev)) in math_round (fl (r * 10 ^ 18)))"

definition store_sample :: "js_math \<Rightarrow> (int \<Rightarrow> rat) \<Rightarrow> series \<Rightarrow> series" where
  "store_sample M priceAt s =
     (let i = s_samplesStored s;
          t = p_start (s_params s) + i * p_sampleInterval (s_params s);
          prev = p_start (s_params s) + (i - 1) * p_sampleInterval (s_params s);
          rWad = returnWad M priceAt prev t
      in s\<lparr>s_sumSquaredReturns := s_sumSquaredReturns s + bdiv (rWad * rWad) WAD,
           s_samplesStored := s_samplesStored s + 1,
           s_processedThrough := t\<rparr>)"

function checkpoint_loop ::
  "js_math \<Rightarrow> (int \<Rightarrow> rat) \<Rightarrow> int \<Rightarrow> int \<Rightarrow> series \<Rightarrow> int \<Rightarrow> series \<times> int" where
  "checkpoint_loop M priceAt available maxSamples s stored =
     (if s_samplesStored s < available \<and> stored < maxSamples
      then checkpoint_loop M priceAt available maxSamples (store_sample M priceAt s) (stored + 1)
      else (s, stored))"
  by pat_completeness auto
termination
  by (relation "measure (\<lambda>(M, pr, av, mx, s, st). nat (mx - st))") auto

declare checkpoint_loop.simps [simp del]

definition checkpoint ::
  "js_math \<Rightarrow> int \<Rightarrow> (int \<Rightarrow> rat) \<Rightarrow> int \<Rightarrow> series \<Rightarrow> series \<times> int" where
  "checkpoint M now priceAt maxSamples s =
     checkpoint_loop M priceAt (availableSamples now s) maxSamples s 0"

definition checkpointCallsNeeded :: "int \<Rightarrow> int \<Rightarrow> series \<Rightarrow> int" where
  "checkpointCallsNeeded now maxSamples s =
     \<lceil>(of_int (max 0 (availableSamples now s - s_samplesStored s)) :: rat) / of_int maxSamples\<rceil>"

definition realizedSoFar :: "series \<Rightarrow> int" where
  "realizedSoFar s =
     annualize (s_sumSquaredReturns s) (s_processedThrough s - p_start (s_params s))"

definition finalize :: "int \<Rightarrow> vault \<Rightarrow> series \<Rightarrow> js_error + (vault \<times> series \<times> int)" where
  "finalize now v s =
     (if now < p_expiry (s_params s) then Inl NotExpired
      else if of_int (s_samplesStored s) < totalSamples s then Inl IncompleteWindow
      else if s_finalized s then Inl AlreadyFinalized
      else let fv = annualize (s_sumSquaredReturns s) (p_expiry (s_params s) - p_start (s_params s));
               ppu = payoutPerUnit fv (p_capVariance (s_params s)) (p_unitNotional (s_params s));
               newLiability = finalLiability (s_outstandingUnits s) ppu;
               released = s_lockedLiability s - newLiability;
               s' = s\<lparr>s_finalized := True, s_finalVariance := fv, s_payoutPerUnit := ppu,
                     s_lockedLiability := newLiability\<rparr>
           in andThen (if released > 0 then decreaseLocked released v else Inr v)
                (\<lambda>v'. Inr (v', s', released)))"

subsection \<open>The quote\<close>

definition decayedSkew :: "js_math \<Rightarrow> int \<Rightarrow> series \<Rightarrow> int" where
  "decayedSkew M now s =
     decaySkew M (s_skew s) (max 0 (now - s_lastSkewTs s)) (p_halfLife (s_params s))"

definition quote_at :: "js_math \<Rightarrow> int \<Rightarrow> series \<Rightarrow> js_error + quote" where
  "quote_at M now s =
     (let p = s_params s;
          decayed = decayedSkew M now s;
          market = forwardVariance (p_anchorVariance p) decayed (p_capVariance p);
          through = min (s_processedThrough s) (p_expiry p);
          elapsed = through - p_start p;
          remaining = p_expiry p - through;
          realized = realizedSoFar s;
          projected = projectedVariance realized elapsed market remaining
      in andThen (bidAskVariance projected (p_halfSpreadBps p) (p_capVariance p)) (\<lambda>ba.
           let duration = elapsed + remaining in
           Inr \<lparr>q_marketVariance = market, q_projectedVariance = projected,
                q_realizedSoFar = realized,
                q_bidVariance = bidVariance ba, q_askVariance = askVariance ba,
                q_bidPerUnit = perUnitPrice (p_unitNotional p) (bidVariance ba),
                q_askPerUnit = perUnitPrice (p_unitNotional p) (askVariance ba),
                q_askSlope = askImpactSlope (p_impactPerUnit p) remaining duration (p_halfSpreadBps p),
                q_bidSlope = bidImpactSlope (p_impactPerUnit p) remaining duration (p_halfSpreadBps p)\<rparr>))"

subsection \<open>The three legs\<close>

definition issuanceOpen :: "int \<Rightarrow> series \<Rightarrow> bool" where
  "issuanceOpen now s \<longleftrightarrow> \<not> s_issuanceStopped s \<and> \<not> s_finalized s
     \<and> now \<le> p_saleEnd (s_params s) \<and> s_unitsAvailable s > 0"

definition exitOpen :: "int \<Rightarrow> series \<Rightarrow> bool" where
  "exitOpen now s \<longleftrightarrow> \<not> s_finalized s \<and> now < p_expiry (s_params s) \<and> s_outstandingUnits s > 0"

text \<open>The clamps of \<open>issue\<close>, in the source's order.\<close>

definition issue_clamp :: "vault \<Rightarrow> series \<Rightarrow> quote \<Rightarrow> int \<Rightarrow> int" where
  "issue_clamp v s q requested =
     (let p = s_params s;
          u1 = min_big requested (s_unitsAvailable s);
          u2 = min_big u1 (issueUnitsToCap (q_askVariance q) (q_askSlope q) (p_capVariance p))
      in min_big u2 (issueUnitsToCollateral (s_outstandingUnits s) (s_lockedLiability s)
            (vault_free v) (p_unitNotional p) (p_capVariance p)))"

definition issue ::
  "js_math \<Rightarrow> int \<Rightarrow> string \<Rightarrow> int \<Rightarrow> vault \<Rightarrow> series \<Rightarrow> js_error + (vault \<times> series \<times> fill option)"
where
  "issue M now actor amountIn v s =
     (if \<not> issuanceOpen now s then Inr (v, s, None)
      else if \<not> isCurrent now s then Inl CheckpointsStale
      else andThen (quote_at M now s) (\<lambda>q.
        let p = s_params s in
        andThen (issueUnitsFor (q_askVariance q) (q_askSlope q) (p_unitNotional p) amountIn) (\<lambda>requested.
          let units = issue_clamp v s q requested in
          if units \<le> 0 then Inr (v, s, None)
          else let premium = issuePremium (q_askVariance q) (q_askSlope q) (p_unitNotional p) units in
            if premium \<le> 0 then Inr (v, s, None)
            else let newLiability = maxLiability (s_outstandingUnits s + units)
                       (p_unitNotional p) (p_capVariance p);
                     delta = newLiability - s_lockedLiability s;
                     fill = \<lparr>f_t = now, f_leg = LegIssue, f_actor = actor, f_units = units,
                             f_quote = premium, f_partial = (units < requested)\<rparr>;
                     s' = s\<lparr>s_lockedLiability := newLiability,
                            s_outstandingUnits := s_outstandingUnits s + units,
                            s_unitsAvailable := s_unitsAvailable s - units,
                            s_premiumTaken := s_premiumTaken s + premium,
                            s_skew := decayedSkew M now s + bdiv (p_impactPerUnit p * units) WAD,
                            s_lastSkewTs := now,
                            s_fills := s_fills s @ [fill]\<rparr>
                 in andThen (increaseLocked delta v) (\<lambda>v1.
                      andThen (credit premium v1) (\<lambda>v2. Inr (v2, s', Some fill))))))"

definition exit ::
  "js_math \<Rightarrow> int \<Rightarrow> string \<Rightarrow> int \<Rightarrow> vault \<Rightarrow> series \<Rightarrow> js_error + (vault \<times> series \<times> fill option)"
where
  "exit M now actor unitsRequested v s =
     (if \<not> exitOpen now s then Inr (v, s, None)
      else if \<not> isCurrent now s then Inl CheckpointsStale
      else andThen (quote_at M now s) (\<lambda>q.
        let p = s_params s;
            units = min_big (min_big unitsRequested (s_outstandingUnits s))
                      (exitUnitsToZeroBid (q_bidVariance q) (q_bidSlope q)) in
        if units \<le> 0 then Inr (v, s, None)
        else andThen (exitProceeds (q_bidVariance q) (q_bidSlope q) (p_unitNotional p) units) (\<lambda>out0.
          let released = s_lockedLiability s
                - maxLiability (s_outstandingUnits s - units) (p_unitNotional p) (p_capVariance p);
              out1 = (if out0 > released then released else out0);
              amountOut = (if out1 > v_balance v then v_balance v else out1)
          in if amountOut \<le> 0 then Inr (v, s, None)
             else let fill = \<lparr>f_t = now, f_leg = LegExit, f_actor = actor, f_units = units,
                              f_quote = amountOut, f_partial = (units < unitsRequested)\<rparr>;
                      s' = s\<lparr>s_outstandingUnits := s_outstandingUnits s - units,
                             s_lockedLiability := s_lockedLiability s - released,
                             s_exitPaid := s_exitPaid s + amountOut,
                             s_skew := decayedSkew M now s - bdiv (p_impactPerUnit p * units) WAD,
                             s_lastSkewTs := now,
                             s_fills := s_fills s @ [fill]\<rparr>
                  in andThen (decreaseLocked released v) (\<lambda>v1.
                       andThen (debit amountOut v1) (\<lambda>v2. Inr (v2, s', Some fill))))))"

definition settle ::
  "int \<Rightarrow> string \<Rightarrow> int \<Rightarrow> vault \<Rightarrow> series \<Rightarrow> js_error + (vault \<times> series \<times> fill option)"
where
  "settle now actor unitsRequested v s =
     (if \<not> s_finalized s then Inl NotFinalized
      else if s_payoutPerUnit s = 0 then Inr (v, s, None)
      else let units = min_big unitsRequested (s_outstandingUnits s) in
        if units \<le> 0 then Inr (v, s, None)
        else let out0 = settleProceeds units (s_payoutPerUnit s);
                 released = s_lockedLiability s
                   - finalLiability (s_outstandingUnits s - units) (s_payoutPerUnit s);
                 out1 = (if out0 > released then released else out0);
                 amountOut = (if out1 > v_balance v then v_balance v else out1)
             in if amountOut \<le> 0 then Inr (v, s, None)
                else let fill = \<lparr>f_t = now, f_leg = LegSettle, f_actor = actor, f_units = units,
                                 f_quote = amountOut, f_partial = (units < unitsRequested)\<rparr>;
                         s' = s\<lparr>s_outstandingUnits := s_outstandingUnits s - units,
                                s_lockedLiability := s_lockedLiability s - released,
                                s_settlePaid := s_settlePaid s + amountOut,
                                s_fills := s_fills s @ [fill]\<rparr>
                     in andThen (decreaseLocked released v) (\<lambda>v1.
                          andThen (debit amountOut v1) (\<lambda>v2. Inr (v2, s', Some fill))))"

definition burnWorthless :: "int \<Rightarrow> vault \<Rightarrow> series \<Rightarrow> js_error + (vault \<times> series)" where
  "burnWorthless units v s =
     (if \<not> s_finalized s \<or> s_payoutPerUnit s \<noteq> 0 then Inl PayoutNotZero
      else let u = min_big units (s_outstandingUnits s) in
        if u = 0 then Inr (v, s)
        else let released = s_lockedLiability s;
                 s' = s\<lparr>s_outstandingUnits := s_outstandingUnits s - u, s_lockedLiability := 0\<rparr>
             in andThen (if released > 0 then decreaseLocked released v else Inr v)
                  (\<lambda>v'. Inr (v', s')))"

definition stopIssuance :: "series \<Rightarrow> series" where
  "stopIssuance s = s\<lparr>s_issuanceStopped := True, s_unitsAvailable := 0\<rparr>"

definition close :: "vault \<Rightarrow> series \<Rightarrow> js_error + (vault \<times> series)" where
  "close v s =
     (if s_outstandingUnits s > 0 then Inl (ClaimsOutstanding (s_outstandingUnits s))
      else let s1 = s\<lparr>s_unitsAvailable := 0\<rparr> in
        if s_lockedLiability s1 > 0
        then andThen (decreaseLocked (s_lockedLiability s1) v)
               (\<lambda>v'. Inr (v', s1\<lparr>s_lockedLiability := 0\<rparr>))
        else Inr (v, s1))"

definition take_snapshot ::
  "js_math \<Rightarrow> int \<Rightarrow> vault \<Rightarrow> series \<Rightarrow> js_error + (series \<times> snapshot)" where
  "take_snapshot M now v s =
     andThen (quote_at M now s) (\<lambda>q.
       let sn = \<lparr>sn_t = now, sn_processedThrough = s_processedThrough s,
             sn_realizedVariance = (if s_finalized s then s_finalVariance s else q_realizedSoFar q),
             sn_marketVariance = q_marketVariance q, sn_projectedVariance = q_projectedVariance q,
             sn_bidVariance = q_bidVariance q, sn_askVariance = q_askVariance q,
             sn_bidPerUnit = q_bidPerUnit q, sn_askPerUnit = q_askPerUnit q,
             sn_outstandingUnits = s_outstandingUnits s, sn_unitsAvailable = s_unitsAvailable s,
             sn_lockedLiability = s_lockedLiability s, sn_vaultBalance = v_balance v,
             sn_vaultLocked = v_locked v, sn_vaultFree = vault_free v\<rparr>
       in Inr (s\<lparr>s_snapshots := s_snapshots s @ [sn]\<rparr>, sn))"

end
