(* ===== verification/Sim_Series_Inv.thy ===== *)
theory Sim_Series_Inv
  imports Sim_Series
begin

text \<open>
  The invariant of a series and its preservation by every method of \<open>Sim_Series\<close>: what a series has
  reserved is exactly its liability (at the cap while it is live, at the fixed payout once it is
  finalized), its oracle cursor sits on the sampling grid inside the window, and no count is negative.
  With it, no method throws for lack of collateral, and no clamp on the released liability or on the
  vault's balance ever changes an amount.
\<close>

definition params_ok :: "series_params \<Rightarrow> bool" where
  "params_ok p \<longleftrightarrow> 0 < p_sampleInterval p \<and> p_start p < p_expiry p
     \<and> p_sampleInterval p dvd p_expiry p - p_start p
     \<and> 0 < p_unitNotional p \<and> 0 \<le> p_capVariance p \<and> 0 \<le> p_impactPerUnit p
     \<and> 0 \<le> p_halfSpreadBps p \<and> p_halfSpreadBps p < BPS \<and> 0 \<le> p_maxUnits p"

definition liability_of :: "series \<Rightarrow> int" where
  "liability_of s =
     (if s_finalized s then finalLiability (s_outstandingUnits s) (s_payoutPerUnit s)
      else maxLiability (s_outstandingUnits s) (p_unitNotional (s_params s)) (p_capVariance (s_params s)))"

definition oracle_inv :: "series \<Rightarrow> bool" where
  "oracle_inv s \<longleftrightarrow> 1 \<le> s_samplesStored s
     \<and> s_processedThrough s =
         p_start (s_params s) + (s_samplesStored s - 1) * p_sampleInterval (s_params s)
     \<and> s_processedThrough s \<le> p_expiry (s_params s)
     \<and> 0 \<le> s_sumSquaredReturns s"

definition series_inv :: "series \<Rightarrow> bool" where
  "series_inv s \<longleftrightarrow> params_ok (s_params s) \<and> oracle_inv s
     \<and> 0 \<le> s_outstandingUnits s \<and> 0 \<le> s_unitsAvailable s
     \<and> s_lockedLiability s = liability_of s
     \<and> (s_finalized s \<longrightarrow> 0 \<le> s_finalVariance s \<and> s_payoutPerUnit s =
          payoutPerUnit (s_finalVariance s) (p_capVariance (s_params s)) (p_unitNotional (s_params s)))"

lemma series_invD:
  assumes "series_inv s"
  shows "params_ok (s_params s)" "oracle_inv s" "0 \<le> s_outstandingUnits s" "0 \<le> s_unitsAvailable s"
    "s_lockedLiability s = liability_of s"
    "s_finalized s \<Longrightarrow> 0 \<le> s_finalVariance s"
    "s_finalized s \<Longrightarrow> s_payoutPerUnit s =
       payoutPerUnit (s_finalVariance s) (p_capVariance (s_params s)) (p_unitNotional (s_params s))"
  using assms by (auto simp: series_inv_def)

lemma params_okD:
  assumes "params_ok p"
  shows "0 < p_sampleInterval p" "p_start p < p_expiry p"
    "p_sampleInterval p dvd p_expiry p - p_start p"
    "0 < p_unitNotional p" "0 \<le> p_unitNotional p" "0 \<le> p_capVariance p" "0 \<le> p_impactPerUnit p"
    "0 \<le> p_halfSpreadBps p" "p_halfSpreadBps p < BPS" "0 \<le> p_maxUnits p"
  using assms by (auto simp: params_ok_def)

lemma oracle_invD:
  assumes "oracle_inv s" "params_ok (s_params s)"
  shows "p_start (s_params s) \<le> s_processedThrough s" "s_processedThrough s \<le> p_expiry (s_params s)"
    "0 \<le> s_sumSquaredReturns s" "1 \<le> s_samplesStored s"
  using assms params_okD(1) [OF assms(2)] by (auto simp: oracle_inv_def)

lemma ppu_nonneg: "series_inv s \<Longrightarrow> s_finalized s \<Longrightarrow> 0 \<le> s_payoutPerUnit s"
  using payoutPerUnit_range(1) params_okD(5,6) series_invD by metis

lemma liability_nonneg:
  assumes "series_inv s"
  shows "0 \<le> s_lockedLiability s"
  using series_invD [OF assms] params_okD(5,6) [OF series_invD(1) [OF assms]] ppu_nonneg [OF assms]
  by (auto simp: liability_of_def intro: finalLiability_nonneg maxLiability_nonneg)

lemma init_series_inv: "params_ok p \<Longrightarrow> series_inv (init_series i p)"
  by (auto simp: series_inv_def init_series_def oracle_inv_def liability_of_def maxLiability_def
      dest: params_okD)

subsection \<open>The quote of a series in its invariant\<close>

definition quote_ok :: "series_params \<Rightarrow> quote \<Rightarrow> bool" where
  "quote_ok p q \<longleftrightarrow> 0 \<le> q_bidVariance q \<and> q_bidVariance q \<le> q_askVariance q
     \<and> q_askVariance q \<le> p_capVariance p \<and> 0 \<le> q_askSlope q \<and> 0 \<le> q_bidSlope q
     \<and> 0 \<le> q_marketVariance q \<and> q_marketVariance q \<le> p_capVariance p
     \<and> 0 \<le> q_projectedVariance q \<and> 0 \<le> q_realizedSoFar q
     \<and> q_bidPerUnit q \<le> q_askPerUnit q
     \<and> q_askPerUnit q \<le> maxPayoutPerUnit (p_unitNotional p) (p_capVariance p)"

lemma quote_at_ok:
  assumes "series_inv s"
  obtains q where "quote_at M now s = Inr q" "quote_ok (s_params s) q"
proof -
  note p = params_okD [OF series_invD(1) [OF assms]]
  note o = oracle_invD [OF series_invD(2,1) [OF assms]]
  let ?p = "s_params s"
  let ?mk = "forwardVariance (p_anchorVariance ?p) (decayedSkew M now s) (p_capVariance ?p)"
  let ?el = "s_processedThrough s - p_start ?p" and ?rem = "p_expiry ?p - s_processedThrough s"
  let ?pv = "projectedVariance (realizedSoFar s) ?el ?mk ?rem"
  have mk: "0 \<le> ?mk" "?mk \<le> p_capVariance ?p" using forwardVariance_range p by auto
  have rz: "0 \<le> realizedSoFar s" using o by (simp add: realizedSoFar_def annualize_nonneg)
  have pv: "0 \<le> ?pv" using o p rz mk by (intro projectedVariance_nonneg) auto
  obtain ba where ba: "bidAskVariance ?pv (p_halfSpreadBps ?p) (p_capVariance ?p) = Inr ba"
    "0 \<le> bidVariance ba" "bidVariance ba \<le> askVariance ba" "askVariance ba \<le> p_capVariance ?p"
    using bidAskVariance_ok [OF pv p(8,9,6)] by blast
  have th: "min (s_processedThrough s) (p_expiry ?p) = s_processedThrough s" using o by simp
  let ?q = "\<lparr>q_marketVariance = ?mk, q_projectedVariance = ?pv, q_realizedSoFar = realizedSoFar s,
       q_bidVariance = bidVariance ba, q_askVariance = askVariance ba,
       q_bidPerUnit = perUnitPrice (p_unitNotional ?p) (bidVariance ba),
       q_askPerUnit = perUnitPrice (p_unitNotional ?p) (askVariance ba),
       q_askSlope = askImpactSlope (p_impactPerUnit ?p) ?rem (?el + ?rem) (p_halfSpreadBps ?p),
       q_bidSlope = bidImpactSlope (p_impactPerUnit ?p) ?rem (?el + ?rem) (p_halfSpreadBps ?p)\<rparr>"
  have "quote_at M now s = Inr ?q" by (simp add: quote_at_def Let_def th ba)
  moreover have "quote_ok ?p ?q"
    using ba mk pv rz p o perUnitPrice_mono [of "p_unitNotional ?p" "bidVariance ba" "askVariance ba"]
      perUnitPrice_mono [of "p_unitNotional ?p" "askVariance ba" "p_capVariance ?p"]
    by (simp add: quote_ok_def askImpactSlope_nonneg bidImpactSlope_nonneg
        maxPayoutPerUnit_def perUnitPrice_def)
  ultimately show ?thesis using that by blast
qed

lemma quote_at_okD: "series_inv s \<Longrightarrow> quote_at M now s = Inr q \<Longrightarrow> quote_ok (s_params s) q"
  by (metis quote_at_ok sum.inject(2))

lemma quote_okD:
  assumes "quote_ok p q"
  shows "0 \<le> q_bidVariance q" "q_bidVariance q \<le> q_askVariance q" "q_askVariance q \<le> p_capVariance p"
    "0 \<le> q_askSlope q" "0 \<le> q_bidSlope q" "0 \<le> q_askVariance q" "q_bidVariance q \<le> p_capVariance p"
  using assms by (auto simp: quote_ok_def)

subsection \<open>The oracle\<close>

lemma store_sample_frame [simp]:
  "s_params (store_sample M pr s) = s_params s"
  "s_outstandingUnits (store_sample M pr s) = s_outstandingUnits s"
  "s_unitsAvailable (store_sample M pr s) = s_unitsAvailable s"
  "s_lockedLiability (store_sample M pr s) = s_lockedLiability s"
  "s_finalized (store_sample M pr s) = s_finalized s"
  "s_finalVariance (store_sample M pr s) = s_finalVariance s"
  "s_payoutPerUnit (store_sample M pr s) = s_payoutPerUnit s"
  "s_samplesStored (store_sample M pr s) = s_samplesStored s + 1"
  "s_premiumTaken (store_sample M pr s) = s_premiumTaken s"
  "s_exitPaid (store_sample M pr s) = s_exitPaid s"
  "s_settlePaid (store_sample M pr s) = s_settlePaid s"
  "s_fills (store_sample M pr s) = s_fills s"
  "s_id (store_sample M pr s) = s_id s"
  "s_issuanceStopped (store_sample M pr s) = s_issuanceStopped s"
  "s_skew (store_sample M pr s) = s_skew s"
  "s_lastSkewTs (store_sample M pr s) = s_lastSkewTs s"
  "s_snapshots (store_sample M pr s) = s_snapshots s"
  by (simp_all add: store_sample_def Let_def)

lemma availableSamples_cong: "s_params s = s_params s' \<Longrightarrow> availableSamples now s = availableSamples now s'"
  by (simp add: availableSamples_def Let_def)

lemma square_term_nonneg: "0 \<le> bdiv (r * r) WAD"
  by (simp add: bdiv_ge_0)

lemma availableSamples_on_grid:
  assumes "params_ok (s_params s)" "i < availableSamples now s" "0 \<le> i"
  shows "p_start (s_params s) + i * p_sampleInterval (s_params s) \<le> min now (p_expiry (s_params s))"
proof -
  let ?p = "s_params s" and ?c = "min now (p_expiry (s_params s))"
  have "i \<le> (?c - p_start ?p) div p_sampleInterval ?p" "p_start ?p \<le> ?c"
    using assms by (auto simp: availableSamples_def Let_def split: if_splits)
  then have "i * p_sampleInterval ?p \<le> ?c - p_start ?p"
    using params_okD(1) [OF assms(1)] le_div_iff [of "p_sampleInterval ?p" i "?c - p_start ?p"] by blast
  then show ?thesis by linarith
qed

lemma store_sample_inv:
  assumes "series_inv s" "s_samplesStored s < availableSamples now s"
  shows "series_inv (store_sample M pr s)"
proof -
  note p = series_invD(1) [OF assms(1)]
  note o = series_invD(2) [OF assms(1)]
  have "0 \<le> s_samplesStored s" using o by (simp add: oracle_inv_def)
  then have "p_start (s_params s) + s_samplesStored s * p_sampleInterval (s_params s)
      \<le> p_expiry (s_params s)"
    using availableSamples_on_grid [OF p assms(2)] by simp
  then have "oracle_inv (store_sample M pr s)"
    using o by (auto simp: oracle_inv_def store_sample_def Let_def intro: add_nonneg_nonneg square_term_nonneg)
  then show ?thesis
    using assms(1) by (simp add: series_inv_def liability_of_def)
qed


text \<open>
  A bounded call stores a whole number of samples, one after the other: as many as are available,
  but no more than the bound.
\<close>

lemma checkpoint_loop_eq:
  "checkpoint_loop M pr av mx s st =
     (let k = nat (min (av - s_samplesStored s) (mx - st)) in
      ((store_sample M pr ^^ k) s, st + int k))"
proof (induction M pr av mx s st rule: checkpoint_loop.induct)
  case (1 M pr av mx s st)
  show ?case
  proof (cases "s_samplesStored s < av \<and> st < mx")
    case True
    let ?k = "nat (min (av - s_samplesStored s) (mx - st))"
    have k: "nat (min (av - s_samplesStored (store_sample M pr s)) (mx - (st + 1))) = ?k - 1" "0 < ?k"
      using True by auto
    then obtain j where j: "?k = Suc j" by (metis gr0_implies_Suc)
    have "checkpoint_loop M pr av mx s st = checkpoint_loop M pr av mx (store_sample M pr s) (st + 1)"
      using True by (simp add: checkpoint_loop.simps [of M pr av mx s st])
    also have "\<dots> = ((store_sample M pr ^^ j) (store_sample M pr s), st + 1 + int j)"
      using "1.IH" [OF True] k(1) j by (simp only: Let_def) simp
    finally show ?thesis
      by (simp add: j funpow_swap1 Let_def)
  next
    case False
    then have "nat (min (av - s_samplesStored s) (mx - st)) = 0" by auto
    moreover have "checkpoint_loop M pr av mx s st = (s, st)"
      using False by (subst checkpoint_loop.simps) (simp only: if_False)
    ultimately show ?thesis by (simp only: Let_def funpow_0) simp
  qed
qed

definition batch_size :: "int \<Rightarrow> int \<Rightarrow> series \<Rightarrow> nat" where
  "batch_size now mx s = nat (min (availableSamples now s - s_samplesStored s) mx)"

lemma checkpoint_eq:
  "checkpoint M now pr mx s = ((store_sample M pr ^^ batch_size now mx s) s, int (batch_size now mx s))"
  by (simp add: checkpoint_def checkpoint_loop_eq batch_size_def Let_def)

lemma store_samples_frame [simp]:
  "s_params ((store_sample M pr ^^ k) s) = s_params s"
  "s_outstandingUnits ((store_sample M pr ^^ k) s) = s_outstandingUnits s"
  "s_unitsAvailable ((store_sample M pr ^^ k) s) = s_unitsAvailable s"
  "s_lockedLiability ((store_sample M pr ^^ k) s) = s_lockedLiability s"
  "s_finalized ((store_sample M pr ^^ k) s) = s_finalized s"
  "s_samplesStored ((store_sample M pr ^^ k) s) = s_samplesStored s + int k"
  "s_premiumTaken ((store_sample M pr ^^ k) s) = s_premiumTaken s"
  "s_exitPaid ((store_sample M pr ^^ k) s) = s_exitPaid s"
  "s_settlePaid ((store_sample M pr ^^ k) s) = s_settlePaid s"
  "s_fills ((store_sample M pr ^^ k) s) = s_fills s"
  "s_id ((store_sample M pr ^^ k) s) = s_id s"
  "s_issuanceStopped ((store_sample M pr ^^ k) s) = s_issuanceStopped s"
  "s_snapshots ((store_sample M pr ^^ k) s) = s_snapshots s"
  "availableSamples now ((store_sample M pr ^^ k) s) = availableSamples now s"
  by (induction k) (auto intro: availableSamples_cong)

lemma store_samples_inv:
  assumes "series_inv s" "s_samplesStored s + int k \<le> availableSamples now s \<or> k = 0"
  shows "series_inv ((store_sample M pr ^^ k) s)"
  using assms(2)
proof (induction k)
  case (Suc k)
  then have "series_inv ((store_sample M pr ^^ k) s)" by auto
  moreover have "s_samplesStored ((store_sample M pr ^^ k) s) < availableSamples now ((store_sample M pr ^^ k) s)"
    using Suc.prems by simp
  ultimately show ?case by (simp add: store_sample_inv)
qed (use assms(1) in simp)

lemma checkpoint_inv: "series_inv s \<Longrightarrow> series_inv (fst (checkpoint M now pr mx s))"
  unfolding checkpoint_eq fst_conv
  by (rule store_samples_inv [of _ _ now]) (auto simp: batch_size_def)

lemma batch_size_bounds: "int (batch_size now mx s) \<le> max 0 mx"
  by (simp add: batch_size_def)

text \<open>Two bounded calls store what one call with the two bounds added stores.\<close>

lemma checkpoint_batches:
  assumes "0 \<le> m" "0 \<le> n"
  shows "fst (checkpoint M now pr n (fst (checkpoint M now pr m s))) = fst (checkpoint M now pr (m + n) s)"
    and "snd (checkpoint M now pr m s) + snd (checkpoint M now pr n (fst (checkpoint M now pr m s)))
         = snd (checkpoint M now pr (m + n) s)"
proof -
  let ?s' = "(store_sample M pr ^^ batch_size now m s) s"
  have "batch_size now n ?s' + batch_size now m s = batch_size now (m + n) s"
    using assms by (auto simp: batch_size_def)
  then show "fst (checkpoint M now pr n (fst (checkpoint M now pr m s))) = fst (checkpoint M now pr (m + n) s)"
    "snd (checkpoint M now pr m s) + snd (checkpoint M now pr n (fst (checkpoint M now pr m s)))
         = snd (checkpoint M now pr (m + n) s)"
    by (simp_all add: checkpoint_eq flip: funpow_add [unfolded o_def, THEN fun_cong])
qed

text \<open>The stored sum is the sum over the grid, whatever the batching was.\<close>

definition sample_term :: "js_math \<Rightarrow> (int \<Rightarrow> rat) \<Rightarrow> series_params \<Rightarrow> int \<Rightarrow> int" where
  "sample_term M pr p i =
     (let r = returnWad M pr (p_start p + (i - 1) * p_sampleInterval p) (p_start p + i * p_sampleInterval p)
      in bdiv (r * r) WAD)"

lemma store_samples_sum:
  "s_sumSquaredReturns ((store_sample M pr ^^ k) s) =
     s_sumSquaredReturns s + (\<Sum>i<k. sample_term M pr (s_params s) (s_samplesStored s + int i))"
proof (induction k)
  case (Suc k)
  have "s_sumSquaredReturns (store_sample M pr ((store_sample M pr ^^ k) s)) =
      s_sumSquaredReturns ((store_sample M pr ^^ k) s)
      + sample_term M pr (s_params s) (s_samplesStored s + int k)"
    by (simp add: store_sample_def [of M pr "(store_sample M pr ^^ k) s"] sample_term_def Let_def)
  then show ?case using Suc.IH by simp
qed simp

lemma checkpoint_makes_current:
  assumes "availableSamples now s - s_samplesStored s \<le> mx"
  shows "isCurrent now (fst (checkpoint M now pr mx s))"
  using assms by (simp add: isCurrent_def checkpoint_eq batch_size_def)

text \<open>Any sequence of bounded calls, and how many of them bring a series current.\<close>

definition checkpoints :: "js_math \<Rightarrow> int \<Rightarrow> (int \<Rightarrow> rat) \<Rightarrow> int list \<Rightarrow> series \<Rightarrow> series" where
  "checkpoints M now pr ms s = fold (\<lambda>m s. fst (checkpoint M now pr m s)) ms s"

lemma checkpoints_eq:
  "\<forall>m\<in>set ms. 0 \<le> m \<Longrightarrow> checkpoints M now pr ms s = fst (checkpoint M now pr (sum_list ms) s)"
proof (induction ms arbitrary: s)
  case (Cons m ms)
  then have "0 \<le> m" "0 \<le> sum_list ms" by (auto intro: sum_list_nonneg)
  then show ?case
    using Cons checkpoint_batches(1) [of m "sum_list ms" M now pr s] by (simp add: checkpoints_def)
qed (simp add: checkpoints_def checkpoint_eq batch_size_def)

lemma checkpoint_init_sum:
  assumes "params_ok p" "0 \<le> mx" "availableSamples now (init_series i p) - 1 \<le> mx"
  shows "s_sumSquaredReturns (fst (checkpoint M now pr mx (init_series i p))) =
      (\<Sum>k<nat (availableSamples now (init_series i p) - 1). sample_term M pr p (1 + int k))"
proof -
  have "batch_size now mx (init_series i p) = nat (availableSamples now (init_series i p) - 1)"
    using assms by (simp add: batch_size_def init_series_def)
  then show ?thesis
    by (simp add: checkpoint_eq store_samples_sum) (simp add: init_series_def)
qed

lemma replicate_checkpoints_current:
  assumes "0 < mx"
  shows "isCurrent now (checkpoints M now pr (replicate k mx) s)
    \<longleftrightarrow> availableSamples now s - s_samplesStored s \<le> int k * mx"
proof -
  have e: "checkpoints M now pr (replicate k mx) s = fst (checkpoint M now pr (int k * mx) s)"
    using assms checkpoints_eq [of "replicate k mx" M now pr s] by (simp add: sum_list_replicate)
  have "0 \<le> int k * mx" using assms by simp
  then show ?thesis
    unfolding e by (auto simp: isCurrent_def checkpoint_eq batch_size_def)
qed

lemma checkpointCallsNeeded_le_iff:
  assumes "0 < mx" "0 \<le> k"
  shows "checkpointCallsNeeded now mx s \<le> k \<longleftrightarrow> availableSamples now s - s_samplesStored s \<le> k * mx"
proof -
  let ?n = "max 0 (availableSamples now s - s_samplesStored s)"
  have "checkpointCallsNeeded now mx s \<le> k \<longleftrightarrow> (of_int ?n :: rat) / of_int mx \<le> of_int k"
    by (simp add: checkpointCallsNeeded_def ceiling_le_iff)
  also have "\<dots> \<longleftrightarrow> (of_int ?n :: rat) \<le> of_int (k * mx)"
    using assms by (simp add: pos_divide_le_eq)
  also have "\<dots> \<longleftrightarrow> ?n \<le> k * mx" by (rule of_int_le_iff)
  also have "\<dots> \<longleftrightarrow> availableSamples now s - s_samplesStored s \<le> k * mx" using assms by simp
  finally show ?thesis .
qed

lemma checkpointCallsNeeded_nonneg: "0 < mx \<Longrightarrow> 0 \<le> checkpointCallsNeeded now mx s"
  unfolding checkpointCallsNeeded_def
  by (rule order_trans [OF _ ceiling_mono [of 0]]) (auto intro!: divide_nonneg_nonneg)

subsection \<open>The legs\<close>

text \<open>
  What a method that moves value does to the vault: the balance by \<open>cash\<close>, the lock by what the
  series' own liability moved.
\<close>

definition vault_moves :: "vault \<Rightarrow> vault \<Rightarrow> series \<Rightarrow> series \<Rightarrow> int \<Rightarrow> bool" where
  "vault_moves v v' s s' cash \<longleftrightarrow> solvent v'
     \<and> v_balance v' = v_balance v + cash
     \<and> v_locked v' = v_locked v + (s_lockedLiability s' - s_lockedLiability s)
     \<and> v_deposited v' = v_deposited v \<and> v_withdrawn v' = v_withdrawn v"

definition backed :: "vault \<Rightarrow> series \<Rightarrow> bool" where
  "backed v s \<longleftrightarrow> solvent v \<and> s_lockedLiability s \<le> v_locked v"

lemma vault_moves_refl: "solvent v \<Longrightarrow> s_lockedLiability s' = s_lockedLiability s \<Longrightarrow> vault_moves v v s s' 0"
  by (simp add: vault_moves_def)

subsubsection \<open>ISSUE\<close>

lemma issue_clamp_bounds:
  assumes "u = issue_clamp v s q req"
  shows "u \<le> req" "u \<le> s_unitsAvailable s"
    "u \<le> issueUnitsToCap (q_askVariance q) (q_askSlope q) (p_capVariance (s_params s))"
    "u \<le> issueUnitsToCollateral (s_outstandingUnits s) (s_lockedLiability s) (vault_free v)
           (p_unitNotional (s_params s)) (p_capVariance (s_params s))"
  using assms by (simp_all add: issue_clamp_def Let_def)

text \<open>
  The two ways an open, current issue can end: no fill, when the clamps leave no unit or the premium of
  what they leave is zero, or a fill of exactly the clamped units, with these effects.
\<close>

definition issue_noop :: "js_math \<Rightarrow> int \<Rightarrow> int \<Rightarrow> vault \<Rightarrow> series \<Rightarrow> bool" where
  "issue_noop M now amt v s \<longleftrightarrow> (\<exists>q req.
     quote_at M now s = Inr q
     \<and> issueUnitsFor (q_askVariance q) (q_askSlope q) (p_unitNotional (s_params s)) amt = Inr req
     \<and> (issue_clamp v s q req \<le> 0
        \<or> issuePremium (q_askVariance q) (q_askSlope q) (p_unitNotional (s_params s)) (issue_clamp v s q req) \<le> 0))"

definition issue_effect ::
  "js_math \<Rightarrow> int \<Rightarrow> int \<Rightarrow> vault \<Rightarrow> series \<Rightarrow> vault \<Rightarrow> series \<Rightarrow> fill \<Rightarrow> bool" where
  "issue_effect M now amt v s v' s' f \<longleftrightarrow> (\<exists>q req.
     quote_at M now s = Inr q
     \<and> issueUnitsFor (q_askVariance q) (q_askSlope q) (p_unitNotional (s_params s)) amt = Inr req
     \<and> f_units f = issue_clamp v s q req \<and> (f_partial f \<longleftrightarrow> f_units f < req) \<and> f_t f = now
     \<and> 0 < f_units f \<and> f_units f \<le> s_unitsAvailable s
     \<and> f_units f \<le> issueUnitsToCap (q_askVariance q) (q_askSlope q) (p_capVariance (s_params s))
     \<and> f_quote f = issuePremium (q_askVariance q) (q_askSlope q) (p_unitNotional (s_params s)) (f_units f)
     \<and> 0 < f_quote f \<and> f_quote f \<le> amt \<and> f_leg f = LegIssue
     \<and> vault_moves v v' s s' (f_quote f)
     \<and> s' = s\<lparr>s_lockedLiability := maxLiability (s_outstandingUnits s + f_units f)
                  (p_unitNotional (s_params s)) (p_capVariance (s_params s)),
              s_outstandingUnits := s_outstandingUnits s + f_units f,
              s_unitsAvailable := s_unitsAvailable s - f_units f,
              s_premiumTaken := s_premiumTaken s + f_quote f,
              s_skew := decayedSkew M now s + bdiv (p_impactPerUnit (s_params s) * f_units f) WAD,
              s_lastSkewTs := now, s_fills := s_fills s @ [f]\<rparr>)"

lemma issue_open:
  assumes inv: "series_inv s" and b: "backed v s" and amt: "0 \<le> amt"
    and op: "issuanceOpen now s" "isCurrent now s"
  shows "issue M now a amt v s = Inr (v, s, None) \<and> issue_noop M now amt v s \<or>
    (\<exists>v' s' f. issue M now a amt v s = Inr (v', s', Some f) \<and> issue_effect M now amt v s v' s' f)"
proof -
  let ?p = "s_params s"
  note p = params_okD [OF series_invD(1) [OF inv]]
  have live: "\<not> s_finalized s" using op by (simp add: issuanceOpen_def)
  obtain q where q: "quote_at M now s = Inr q" "quote_ok ?p q" using quote_at_ok [OF inv] by blast
  note qd = quote_okD [OF q(2)]
  obtain req where req: "issueUnitsFor (q_askVariance q) (q_askSlope q) (p_unitNotional ?p) amt = Inr req"
    "0 \<le> req" "issuePremium (q_askVariance q) (q_askSlope q) (p_unitNotional ?p) req \<le> amt"
  proof (cases "q_askVariance q = 0")
    case True
    then show ?thesis using amt that [of 0] by (simp add: issueUnitsFor_def issuePremium_def)
  next
    case False
    then have "0 < q_askVariance q" using qd(6) by simp
    then show ?thesis by (rule issueUnitsFor_affordable [OF _ qd(4) p(4) amt]) (rule that)
  qed
  define u where "u = issue_clamp v s q req"
  define pr where "pr = issuePremium (q_askVariance q) (q_askSlope q) (p_unitNotional ?p) u"
  note c = issue_clamp_bounds [OF u_def]
  show ?thesis
  proof (cases "u \<le> 0 \<or> pr \<le> 0")
    case True
    then have "issue_noop M now amt v s"
      unfolding issue_noop_def u_def pr_def using q(1) req(1) by blast
    then show ?thesis
      using True op q(1) req(1) by (auto simp: issue_def Let_def u_def [symmetric] pr_def [symmetric])
  next
    case False
    then have u: "0 < u" and pr: "0 < pr" by auto
    have "pr \<le> issuePremium (q_askVariance q) (q_askSlope q) (p_unitNotional ?p) req"
      unfolding pr_def using c(1) u qd p by (intro issuePremium_mono) auto
    then have afford: "pr \<le> amt" using req(3) by simp
    define nl where "nl = maxLiability (s_outstandingUnits s + u) (p_unitNotional ?p) (p_capVariance ?p)"
    have "nl \<le> s_lockedLiability s + vault_free v"
      unfolding nl_def
      using c(4) u p series_invD(3) [OF inv] liability_nonneg [OF inv] b
      by (intro issueUnitsToCollateral_covers) (auto simp: backed_def solvent_def vault_free_def)
    then have "v_locked v + (nl - s_lockedLiability s) \<le> v_balance v" by (simp add: vault_free_def)
    then obtain w where w: "andThen (increaseLocked (nl - s_lockedLiability s) v) (credit pr) = Inr w"
      "v_balance w = v_balance v + pr" "v_locked w = v_locked v + (nl - s_lockedLiability s)"
      using va.reserve_then_receive [of v _ pr] pr by auto
    then obtain v1 where v1: "increaseLocked (nl - s_lockedLiability s) v = Inr v1" "credit pr v1 = Inr w"
      by (auto simp: andThen_eq_Inr)
    define f where "f = \<lparr>f_t = now, f_leg = LegIssue, f_actor = a, f_units = u, f_quote = pr,
      f_partial = (u < req)\<rparr>"
    define s' where "s' = s\<lparr>s_lockedLiability := nl, s_outstandingUnits := s_outstandingUnits s + u,
        s_unitsAvailable := s_unitsAvailable s - u, s_premiumTaken := s_premiumTaken s + pr,
        s_skew := decayedSkew M now s + bdiv (p_impactPerUnit ?p * u) WAD,
        s_lastSkewTs := now, s_fills := s_fills s @ [f]\<rparr>"
    have "issue M now a amt v s = Inr (w, s', Some f)"
      unfolding issue_def Let_def
      by (simp only: op q(1) req(1) andThen_Inr u_def [symmetric] pr_def [symmetric] nl_def [symmetric]
          f_def [symmetric] s'_def [symmetric] v1 not_le [THEN iffD2, OF u] not_le [THEN iffD2, OF pr]
          if_False simp_thms)
    moreover have "vault_moves v w s s' pr"
      using w v1 vault_ops_solvent(3) [OF v1(2)] vault_ops_totals(1) [OF v1(2)] vault_ops_totals(3) [OF v1(1)]
      by (simp add: vault_moves_def s'_def)
    then have "issue_effect M now amt v s w s' f"
      using q(1) req(1) u u_def pr afford c
      by (intro exI [of _ q] exI [of _ req] iffD2 [OF issue_effect_def]) (simp add: f_def s'_def nl_def pr_def)
    ultimately show ?thesis by blast
  qed
qed

lemma issue_effect_inv:
  assumes "series_inv s" "\<not> s_finalized s" "issue_effect M now amt v s v' s' f"
  shows "series_inv s'"
  using assms series_invD(3,4) [OF assms(1)]
  by (auto simp: issue_effect_def series_inv_def oracle_inv_def liability_of_def)

subsubsection \<open>EXIT\<close>

definition exit_noop :: "js_math \<Rightarrow> int \<Rightarrow> int \<Rightarrow> series \<Rightarrow> bool" where
  "exit_noop M now req s \<longleftrightarrow> (\<exists>q u.
     quote_at M now s = Inr q
     \<and> u = min (min req (s_outstandingUnits s)) (exitUnitsToZeroBid (q_bidVariance q) (q_bidSlope q))
     \<and> (u \<le> 0 \<or> exitProceeds (q_bidVariance q) (q_bidSlope q) (p_unitNotional (s_params s)) u = Inr 0))"

definition exit_effect ::
  "js_math \<Rightarrow> int \<Rightarrow> int \<Rightarrow> vault \<Rightarrow> series \<Rightarrow> vault \<Rightarrow> series \<Rightarrow> fill \<Rightarrow> bool" where
  "exit_effect M now req v s v' s' f \<longleftrightarrow> (\<exists>q.
     quote_at M now s = Inr q \<and> 0 < f_units f
     \<and> f_units f = min (min req (s_outstandingUnits s)) (exitUnitsToZeroBid (q_bidVariance q) (q_bidSlope q))
     \<and> (f_partial f \<longleftrightarrow> f_units f < req) \<and> f_t f = now
     \<and> exitProceeds (q_bidVariance q) (q_bidSlope q) (p_unitNotional (s_params s)) (f_units f) = Inr (f_quote f)
     \<and> 0 < f_quote f \<and> f_leg f = LegExit
     \<and> f_quote f \<le> s_lockedLiability s - s_lockedLiability s'
     \<and> vault_moves v v' s s' (- f_quote f)
     \<and> s' = s\<lparr>s_outstandingUnits := s_outstandingUnits s - f_units f,
              s_lockedLiability := maxLiability (s_outstandingUnits s - f_units f)
                  (p_unitNotional (s_params s)) (p_capVariance (s_params s)),
              s_exitPaid := s_exitPaid s + f_quote f,
              s_skew := decayedSkew M now s - bdiv (p_impactPerUnit (s_params s) * f_units f) WAD,
              s_lastSkewTs := now, s_fills := s_fills s @ [f]\<rparr>)"

lemma vault_pays:
  assumes "backed v s" "0 \<le> s_lockedLiability s'" "0 \<le> amt" "amt \<le> r"
    and r: "s_lockedLiability s' = s_lockedLiability s - r"
  obtains v1 w where "decreaseLocked r v = Inr v1" "debit amt v1 = Inr w" "vault_moves v w s s' (- amt)"
proof -
  have "r \<le> v_locked v" "v_locked v \<le> v_balance v" "0 \<le> v_locked v"
    using assms by (auto simp: backed_def solvent_def)
  then obtain w where w: "andThen (decreaseLocked r v) (debit amt) = Inr w"
      "v_balance w = v_balance v - amt" "v_locked w = v_locked v - r"
    using va.release_then_pay [of v amt r] assms by blast
  then obtain v1 where v1: "decreaseLocked r v = Inr v1" "debit amt v1 = Inr w"
    by (auto simp: andThen_eq_Inr)
  show ?thesis
    using that [OF v1] w r vault_ops_solvent(4) [OF v1(2)] vault_ops_totals(2) [OF v1(2)]
      vault_ops_totals(4) [OF v1(1)]
    by (simp add: vault_moves_def)
qed

lemma exit_open:
  assumes inv: "series_inv s" and b: "backed v s" and op: "exitOpen now s" "isCurrent now s"
  shows "exit M now a req v s = Inr (v, s, None) \<and> exit_noop M now req s \<or>
    (\<exists>v' s' f. exit M now a req v s = Inr (v', s', Some f) \<and> exit_effect M now req v s v' s' f)"
proof -
  let ?p = "s_params s"
  note p = params_okD [OF series_invD(1) [OF inv]]
  have live: "\<not> s_finalized s" using op by (simp add: exitOpen_def)
  have lk: "s_lockedLiability s = maxLiability (s_outstandingUnits s) (p_unitNotional ?p) (p_capVariance ?p)"
    using series_invD(5) [OF inv] live by (simp add: liability_of_def)
  obtain q where q: "quote_at M now s = Inr q" "quote_ok ?p q" using quote_at_ok [OF inv] by blast
  note qd = quote_okD [OF q(2)]
  define u where "u = min_big (min_big req (s_outstandingUnits s))
      (exitUnitsToZeroBid (q_bidVariance q) (q_bidSlope q))"
  show ?thesis
  proof (cases "u \<le> 0")
    case True
    then have "exit_noop M now req s"
      unfolding exit_noop_def using q(1) by (intro exI [of _ q] exI [of _ u]) (simp add: u_def)
    with True show ?thesis
      unfolding exit_def Let_def
      by (simp only: op q(1) andThen_Inr u_def [symmetric] if_True if_False simp_thms)
  next
    case False
    then have u: "0 < u" "u \<le> req" "u \<le> s_outstandingUnits s"
      "u \<le> exitUnitsToZeroBid (q_bidVariance q) (q_bidSlope q)" by (auto simp: u_def)
    then have u0: "0 \<le> u" by simp
    obtain x where x: "exitProceeds (q_bidVariance q) (q_bidSlope q) (p_unitNotional ?p) u = Inr x"
      "0 \<le> x" "x \<le> bdiv (p_unitNotional ?p * (q_bidVariance q * u)) WAD2"
      by (rule exitProceeds_ok [OF qd(1,5) p(5) u0 u(4)])
    define nl where "nl = maxLiability (s_outstandingUnits s - u) (p_unitNotional ?p) (p_capVariance ?p)"
    define r where "r = s_lockedLiability s - nl"
    have nl: "0 \<le> nl" unfolding nl_def using u p by (intro maxLiability_nonneg) auto
    have xr: "x \<le> r"
      using x(3) exit_within_release [OF u0 u(3) p(5) qd(1,7)] by (simp add: r_def nl_def lk)
    have rb: "r \<le> v_balance v" using b nl by (auto simp: r_def backed_def solvent_def)
    have c1: "(if x > r then r else x) = x" using xr by simp
    have c2: "(if x > v_balance v then v_balance v else x) = x" using xr rb by simp
    show ?thesis
    proof (cases "x \<le> 0")
      case True
      then have "x = 0" using x(2) by simp
      then have "exit_noop M now req s"
        unfolding exit_noop_def using q(1) x(1) by (intro exI [of _ q] exI [of _ u]) (simp add: u_def)
      with True show ?thesis
        unfolding exit_def Let_def
        by (simp only: op q(1) x(1) andThen_Inr u_def [symmetric] nl_def [symmetric] r_def [symmetric]
            c1 c2 not_le [THEN iffD2, OF u(1)] if_True if_False simp_thms)
    next
      case False
      define f where "f = \<lparr>f_t = now, f_leg = LegExit, f_actor = a, f_units = u, f_quote = x,
        f_partial = (u < req)\<rparr>"
      define s' where "s' = s\<lparr>s_outstandingUnits := s_outstandingUnits s - u,
          s_lockedLiability := s_lockedLiability s - r, s_exitPaid := s_exitPaid s + x,
          s_skew := decayedSkew M now s - bdiv (p_impactPerUnit ?p * u) WAD,
          s_lastSkewTs := now, s_fills := s_fills s @ [f]\<rparr>"
      have sl: "s_lockedLiability s' = s_lockedLiability s - r" "0 \<le> s_lockedLiability s'"
        using nl by (auto simp: s'_def r_def)
      obtain v1 w where w: "decreaseLocked r v = Inr v1" "debit x v1 = Inr w" "vault_moves v w s s' (- x)"
        by (rule vault_pays [OF b sl(2) x(2) xr sl(1)])
      have "exit M now a req v s = Inr (w, s', Some f)"
        unfolding exit_def Let_def
        by (simp only: op q(1) x(1) andThen_Inr u_def [symmetric] nl_def [symmetric] r_def [symmetric]
            c1 c2 w(1,2) not_le [THEN iffD2, OF u(1)] False if_True if_False simp_thms
            f_def [symmetric] s'_def [symmetric])
      moreover have fu: "f_units f = min (min req (s_outstandingUnits s))
          (exitUnitsToZeroBid (q_bidVariance q) (q_bidSlope q))"
        by (simp add: f_def u_def)
      have "exit_effect M now req v s w s' f"
        unfolding exit_effect_def
        by (intro exI [of _ q] conjI fu)
          (use q(1) u x w(3) False xr in \<open>simp_all add: f_def s'_def nl_def r_def\<close>)
      ultimately show ?thesis by blast
    qed
  qed
qed

lemma exit_effectD:
  assumes "exit_effect M now req v s v' s' f"
  shows "0 < f_units f" "f_units f \<le> req" "f_units f \<le> s_outstandingUnits s" "0 < f_quote f"
    "f_quote f \<le> s_lockedLiability s - s_lockedLiability s'" "vault_moves v v' s s' (- f_quote f)"
    "s' = s\<lparr>s_outstandingUnits := s_outstandingUnits s - f_units f,
        s_lockedLiability := maxLiability (s_outstandingUnits s - f_units f)
            (p_unitNotional (s_params s)) (p_capVariance (s_params s)),
        s_exitPaid := s_exitPaid s + f_quote f,
        s_skew := decayedSkew M now s - bdiv (p_impactPerUnit (s_params s) * f_units f) WAD,
        s_lastSkewTs := now, s_fills := s_fills s @ [f]\<rparr>"
    "f_leg f = LegExit" "f_t f = now"
  using assms unfolding exit_effect_def by (elim exE conjE; linarith | assumption)+

lemma exit_effect_inv:
  assumes "series_inv s" "\<not> s_finalized s" "exit_effect M now req v s v' s' f"
  shows "series_inv s'"
proof -
  note d = exit_effectD(7) [OF assms(3)]
  show ?thesis
    using assms(1,2) exit_effectD(3) [OF assms(3)] series_invD(3,4) [OF assms(1)]
    by (simp add: d series_inv_def oracle_inv_def liability_of_def)
qed

subsubsection \<open>SETTLE\<close>

definition settle_effect ::
  "int \<Rightarrow> vault \<Rightarrow> series \<Rightarrow> vault \<Rightarrow> series \<Rightarrow> fill \<Rightarrow> bool" where
  "settle_effect req v s v' s' f \<longleftrightarrow>
     0 < f_units f \<and> f_units f = min req (s_outstandingUnits s)
     \<and> f_quote f = settleProceeds (f_units f) (s_payoutPerUnit s) \<and> 0 < f_quote f \<and> f_leg f = LegSettle
     \<and> f_quote f \<le> s_lockedLiability s - s_lockedLiability s'
     \<and> vault_moves v v' s s' (- f_quote f)
     \<and> s' = s\<lparr>s_outstandingUnits := s_outstandingUnits s - f_units f,
              s_lockedLiability := finalLiability (s_outstandingUnits s - f_units f) (s_payoutPerUnit s),
              s_settlePaid := s_settlePaid s + f_quote f, s_fills := s_fills s @ [f]\<rparr>"

text \<open>
  A redemption fills unless its floored proceeds are zero, and then it pays exactly those proceeds.
\<close>

lemma settle_finalized:
  assumes inv: "series_inv s" and b: "backed v s" and fin: "s_finalized s"
  shows "if min req (s_outstandingUnits s) \<le> 0
            \<or> settleProceeds (min req (s_outstandingUnits s)) (s_payoutPerUnit s) = 0
         then settle now a req v s = Inr (v, s, None)
         else \<exists>v' s' f. settle now a req v s = Inr (v', s', Some f) \<and> settle_effect req v s v' s' f"
proof -
  define u where "u = min_big req (s_outstandingUnits s)"
  define x where "x = settleProceeds u (s_payoutPerUnit s)"
  have um: "min req (s_outstandingUnits s) = u" by (simp add: u_def)
  note ppu = ppu_nonneg [OF inv fin]
  have lk: "s_lockedLiability s = finalLiability (s_outstandingUnits s) (s_payoutPerUnit s)"
    using series_invD(5) [OF inv] fin by (simp add: liability_of_def)
  consider "s_payoutPerUnit s = 0" | "s_payoutPerUnit s \<noteq> 0" "u \<le> 0" | "s_payoutPerUnit s \<noteq> 0" "0 < u"
    by linarith
  then show ?thesis
  proof cases
    case 1
    then have "settle now a req v s = Inr (v, s, None)" using fin by (simp add: settle_def)
    then show ?thesis using 1 by (simp add: settleProceeds_def)
  next
    case 2
    then have "settle now a req v s = Inr (v, s, None)"
      unfolding settle_def Let_def by (simp only: fin u_def [symmetric] if_True if_False simp_thms)
    then show ?thesis using 2 um by simp
  next
    case 3
    then have u: "0 \<le> u" "u \<le> s_outstandingUnits s" by (auto simp: u_def)
    define nl where "nl = finalLiability (s_outstandingUnits s - u) (s_payoutPerUnit s)"
    define r where "r = s_lockedLiability s - nl"
    have nl: "0 \<le> nl" unfolding nl_def using u ppu by (intro finalLiability_nonneg) auto
    have x0: "0 \<le> x" unfolding x_def using settle_leg.proceeds_nonneg [OF ppu u(1)] .
    have xr: "x \<le> r"
      unfolding x_def r_def nl_def lk using settle_leg.within_release [OF ppu u] .
    have rb: "r \<le> v_balance v" using b nl by (auto simp: r_def backed_def solvent_def)
    have c1: "(if x > r then r else x) = x" using xr by simp
    have c2: "(if x > v_balance v then v_balance v else x) = x" using xr rb by simp
    have up: "\<not> u \<le> 0" using 3 by simp
    show ?thesis
    proof (cases "x \<le> 0")
      case True
      then have "settle now a req v s = Inr (v, s, None)"
        unfolding settle_def Let_def
        by (simp only: fin 3 u_def [symmetric] x_def [symmetric] nl_def [symmetric] r_def [symmetric]
            c1 c2 up if_True if_False simp_thms)
      then show ?thesis using True x0 um x_def by simp
    next
      case False
      define f where "f = \<lparr>f_t = now, f_leg = LegSettle, f_actor = a, f_units = u, f_quote = x,
        f_partial = (u < req)\<rparr>"
      define s' where "s' = s\<lparr>s_outstandingUnits := s_outstandingUnits s - u,
          s_lockedLiability := s_lockedLiability s - r, s_settlePaid := s_settlePaid s + x,
          s_fills := s_fills s @ [f]\<rparr>"
      have sl: "s_lockedLiability s' = s_lockedLiability s - r" "0 \<le> s_lockedLiability s'"
        using nl by (auto simp: s'_def r_def)
      obtain v1 w where w: "decreaseLocked r v = Inr v1" "debit x v1 = Inr w" "vault_moves v w s s' (- x)"
        by (rule vault_pays [OF b sl(2) x0 xr sl(1)])
      have "settle now a req v s = Inr (w, s', Some f)"
        unfolding settle_def Let_def
        by (simp only: fin 3 u_def [symmetric] x_def [symmetric] nl_def [symmetric] r_def [symmetric]
            c1 c2 w(1,2) andThen_Inr up False if_True if_False simp_thms f_def [symmetric] s'_def [symmetric])
      moreover have "settle_effect req v s w s' f"
        using 3 x_def w(3) False xr um by (simp add: settle_effect_def f_def s'_def nl_def r_def)
      ultimately show ?thesis using up False um x_def by auto
    qed
  qed
qed

lemma settle_effect_inv:
  assumes "series_inv s" "s_finalized s" "settle_effect req v s v' s' f"
  shows "series_inv s'"
  using assms series_invD(3,4) [OF assms(1)]
  by (auto simp: settle_effect_def series_inv_def oracle_inv_def liability_of_def)

subsubsection \<open>FINALIZE\<close>

lemma oracle_complete:
  assumes "series_inv s"
  shows "\<not> of_int (s_samplesStored s) < totalSamples s \<longleftrightarrow>
     s_samplesStored s = (p_expiry (s_params s) - p_start (s_params s)) div p_sampleInterval (s_params s) + 1"
proof -
  let ?p = "s_params s"
  note p = params_okD [OF series_invD(1) [OF assms]]
  note o = series_invD(2) [OF assms]
  define n where "n = (p_expiry ?p - p_start ?p) div p_sampleInterval ?p"
  have n: "p_expiry ?p - p_start ?p = n * p_sampleInterval ?p"
    using p(3) by (simp add: n_def)
  then have "totalSamples s = of_int (n + 1)"
    using p(1) by (simp add: totalSamples_def)
  then have "of_int (s_samplesStored s) < totalSamples s \<longleftrightarrow> s_samplesStored s < n + 1"
    by (simp only: of_int_less_iff)
  moreover have "(s_samplesStored s - 1) * p_sampleInterval ?p \<le> n * p_sampleInterval ?p"
    using o n by (simp add: oracle_inv_def)
  then have "s_samplesStored s - 1 \<le> n" using p(1) by simp
  ultimately show ?thesis by (auto simp: n_def)
qed

definition finalize_effect :: "vault \<Rightarrow> series \<Rightarrow> vault \<Rightarrow> series \<Rightarrow> int \<Rightarrow> bool" where
  "finalize_effect v s v' s' released \<longleftrightarrow> 0 \<le> released
     \<and> released = s_lockedLiability s - s_lockedLiability s'
     \<and> vault_moves v v' s s' 0
     \<and> (let fv = annualize (s_sumSquaredReturns s) (p_expiry (s_params s) - p_start (s_params s));
            ppu = payoutPerUnit fv (p_capVariance (s_params s)) (p_unitNotional (s_params s))
        in s' = s\<lparr>s_finalized := True, s_finalVariance := fv, s_payoutPerUnit := ppu,
                  s_lockedLiability := finalLiability (s_outstandingUnits s) ppu\<rparr>)"

lemma vault_releases:
  assumes "backed v s" "0 \<le> r" "r \<le> s_lockedLiability s" "s_lockedLiability s' = s_lockedLiability s - r"
  obtains w where "(if r > 0 then decreaseLocked r v else Inr v) = Inr w" "vault_moves v w s s' 0"
proof (cases "r > 0")
  case True
  have "r \<le> v_locked v" "v_locked v - r \<le> v_balance v" using assms by (auto simp: backed_def solvent_def)
  then obtain w where w: "decreaseLocked r v = Inr w" "v_balance w = v_balance v" "v_locked w = v_locked v - r"
    using va.release_ok by blast
  show ?thesis
    using that [of w] True w assms(4) vault_ops_solvent(6) [OF w(1)] vault_ops_totals(4) [OF w(1)]
    by (simp add: vault_moves_def)
next
  case False
  then show ?thesis using that [of v] assms by (simp add: vault_moves_def backed_def)
qed

lemma finalize_ready:
  assumes inv: "series_inv s" and b: "backed v s"
    and ready: "p_expiry (s_params s) \<le> now" "\<not> of_int (s_samplesStored s) < totalSamples s" "\<not> s_finalized s"
  obtains v' s' r where "finalize now v s = Inr (v', s', r)" "finalize_effect v s v' s' r"
proof -
  let ?p = "s_params s"
  note p = params_okD [OF series_invD(1) [OF inv]]
  note o = oracle_invD [OF series_invD(2,1) [OF inv]]
  define fv where "fv = annualize (s_sumSquaredReturns s) (p_expiry ?p - p_start ?p)"
  define ppu where "ppu = payoutPerUnit fv (p_capVariance ?p) (p_unitNotional ?p)"
  define nl where "nl = finalLiability (s_outstandingUnits s) ppu"
  define r where "r = s_lockedLiability s - nl"
  define s' where "s' = s\<lparr>s_finalized := True, s_finalVariance := fv, s_payoutPerUnit := ppu,
      s_lockedLiability := nl\<rparr>"
  have fv: "0 \<le> fv" unfolding fv_def using o p by (intro annualize_nonneg) auto
  have "nl \<le> s_lockedLiability s"
    using finalLiability_le_maxLiability [OF series_invD(3) [OF inv] fv p(6,5)] series_invD(5) [OF inv] ready
    by (simp add: nl_def ppu_def liability_of_def)
  then have r: "0 \<le> r" by (simp add: r_def)
  have "0 \<le> nl"
    unfolding nl_def ppu_def using payoutPerUnit_range(1) [OF fv p(6,5)] series_invD(3) [OF inv]
    by (intro finalLiability_nonneg) auto
  then have rl: "r \<le> s_lockedLiability s" by (simp add: r_def)
  have sl: "s_lockedLiability s' = s_lockedLiability s - r" by (simp add: s'_def r_def)
  obtain w where w: "(if r > 0 then decreaseLocked r v else Inr v) = Inr w" "vault_moves v w s s' 0"
    by (rule vault_releases [OF b r rl sl])
  have "finalize now v s = Inr (w, s', r)"
    unfolding finalize_def Let_def
    by (simp only: ready not_less [THEN iffD2, OF ready(1)] fv_def [symmetric] ppu_def [symmetric]
        nl_def [symmetric] r_def [symmetric] s'_def [symmetric] w(1) andThen_Inr if_False)
  moreover have "finalize_effect v s w s' r"
    using r w(2) by (simp add: finalize_effect_def Let_def s'_def r_def fv_def [symmetric]
        ppu_def [symmetric] nl_def [symmetric])
  ultimately show ?thesis by (rule that)
qed

lemma finalize_effect_inv:
  assumes "series_inv s" "finalize_effect v s v' s' r"
  shows "series_inv s'"
proof -
  note p = params_okD [OF series_invD(1) [OF assms(1)]]
  note o = oracle_invD [OF series_invD(2,1) [OF assms(1)]]
  have "0 \<le> annualize (s_sumSquaredReturns s) (p_expiry (s_params s) - p_start (s_params s))"
    using o p by (intro annualize_nonneg) auto
  then show ?thesis
    using assms by (auto simp: finalize_effect_def series_inv_def oracle_inv_def liability_of_def Let_def)
qed

subsubsection \<open>Burning worthless claims, stopping, closing, snapshots\<close>

lemma burnWorthless_run:
  assumes inv: "series_inv s" and b: "backed v s" and "s_finalized s" "s_payoutPerUnit s = 0" "0 \<le> units"
  shows "burnWorthless units v s =
    Inr (v, s\<lparr>s_outstandingUnits := s_outstandingUnits s - min units (s_outstandingUnits s)\<rparr>)"
proof -
  have "s_lockedLiability s = 0"
    using assms series_invD(5) [OF inv] by (simp add: liability_of_def finalLiability_def)
  moreover from this have "s\<lparr>s_outstandingUnits := n, s_lockedLiability := 0\<rparr> = s\<lparr>s_outstandingUnits := n\<rparr>" for n
    by (metis series.surjective series.update_convs(5) series.update_convs(7))
  ultimately show ?thesis
    using assms by (simp add: burnWorthless_def Let_def)
qed

lemma burnWorthless_inv:
  assumes "series_inv s" "s_finalized s" "s_payoutPerUnit s = 0" "0 \<le> units"
  shows "series_inv (s\<lparr>s_outstandingUnits := s_outstandingUnits s - min units (s_outstandingUnits s)\<rparr>)"
  using assms by (auto simp: series_inv_def oracle_inv_def liability_of_def finalLiability_def)

lemma stopIssuance_inv: "series_inv s \<Longrightarrow> series_inv (stopIssuance s)"
  by (auto simp: series_inv_def oracle_inv_def liability_of_def stopIssuance_def)

lemma close_run:
  assumes inv: "series_inv s" and b: "backed v s" and "s_outstandingUnits s = 0"
  shows "close v s = Inr (v, s\<lparr>s_unitsAvailable := 0\<rparr>)"
proof -
  have "s_lockedLiability s = 0"
    using assms series_invD(5) [OF inv] by (simp add: liability_of_def)
  then show ?thesis using assms by (simp add: close_def Let_def)
qed

lemma close_inv: "series_inv s \<Longrightarrow> series_inv (s\<lparr>s_unitsAvailable := 0\<rparr>)"
  by (auto simp: series_inv_def oracle_inv_def liability_of_def)

lemma take_snapshot_run:
  assumes "series_inv s"
  obtains sn where "take_snapshot M now v s = Inr (s\<lparr>s_snapshots := s_snapshots s @ [sn]\<rparr>, sn)"
    "sn_vaultBalance sn = v_balance v" "sn_vaultLocked sn = v_locked v"
    "sn_bidVariance sn \<le> sn_askVariance sn"
proof -
  obtain q where "quote_at M now s = Inr q" "quote_ok (s_params s) q" using quote_at_ok [OF assms] by blast
  then show ?thesis using that by (auto simp: take_snapshot_def Let_def quote_ok_def)
qed

lemma snapshot_inv: "series_inv s \<Longrightarrow> series_inv (s\<lparr>s_snapshots := x\<rparr>)"
  by (auto simp: series_inv_def oracle_inv_def liability_of_def)

end
