(* ===== verification/Sim_Market.thy ===== *)
theory Sim_Market
  imports Sim_Series_Inv
begin

text \<open>
  A writer's whole position: one vault and the series that share it, driven by any sequence of the
  operations of \<open>sim/src/market.ts\<close>, in any order and interleaving. The market invariant says that
  the vault's lock is exactly the sum of the series' liabilities, that the vault is solvent, and that
  its balance is deposits minus withdrawals plus premiums minus payouts. It holds in every reachable
  state, and no operation on a reachable state fails for lack of collateral.
\<close>

record market =
  m_vault :: vault
  m_series :: "series list"

datatype market_op =
    ODeposit int
  | OWithdraw int
  | OCreate series_params
  | OCheckpoint nat int "int \<Rightarrow> rat" int
  | OIssue nat int string int
  | OExit nat int string int
  | OSettle nat int string int
  | OFinalize nat int
  | OBurn nat int
  | OStop nat
  | OClose nat
  | OSnapshot nat int

definition with_vault :: "market \<Rightarrow> js_error + vault \<Rightarrow> js_error + market" where
  "with_vault m r = andThen r (\<lambda>v. Inr (m\<lparr>m_vault := v\<rparr>))"

definition with_series :: "market \<Rightarrow> nat \<Rightarrow> (vault \<Rightarrow> series \<Rightarrow> js_error + (vault \<times> series)) \<Rightarrow> js_error + market"
where
  "with_series m i f =
     (if i < length (m_series m)
      then andThen (f (m_vault m) (m_series m ! i))
             (\<lambda>(v, s). Inr (m\<lparr>m_vault := v, m_series := (m_series m)[i := s]\<rparr>))
      else Inl BadIndex)"

definition drop_result :: "js_error + (vault \<times> series \<times> 'r) \<Rightarrow> js_error + (vault \<times> series)" where
  "drop_result r = andThen r (\<lambda>(v, s, x). Inr (v, s))"

fun exec_op :: "js_math \<Rightarrow> market_op \<Rightarrow> market \<Rightarrow> js_error + market" where
  "exec_op M (ODeposit a) m = with_vault m (deposit a (m_vault m))"
| "exec_op M (OWithdraw a) m = with_vault m (withdrawFree a (m_vault m))"
| "exec_op M (OCreate p) m =
     andThen (new_series (int (length (m_series m)) + 1) p (m_vault m))
       (\<lambda>(v, s). Inr \<lparr>m_vault = v, m_series = m_series m @ [s]\<rparr>)"
| "exec_op M (OCheckpoint i now pr mx) m =
     with_series m i (\<lambda>v s. Inr (v, fst (checkpoint M now pr mx s)))"
| "exec_op M (OIssue i now a amt) m = with_series m i (\<lambda>v s. drop_result (issue M now a amt v s))"
| "exec_op M (OExit i now a u) m = with_series m i (\<lambda>v s. drop_result (exit M now a u v s))"
| "exec_op M (OSettle i now a u) m = with_series m i (\<lambda>v s. drop_result (settle now a u v s))"
| "exec_op M (OFinalize i now) m = with_series m i (\<lambda>v s. drop_result (finalize now v s))"
| "exec_op M (OBurn i u) m = with_series m i (\<lambda>v s. burnWorthless u v s)"
| "exec_op M (OStop i) m = with_series m i (\<lambda>v s. Inr (v, stopIssuance s))"
| "exec_op M (OClose i) m = with_series m i (\<lambda>v s. close v s)"
| "exec_op M (OSnapshot i now) m =
     with_series m i (\<lambda>v s. andThen (take_snapshot M now v s) (\<lambda>(s', sn). Inr (v, s')))"

text \<open>Amounts a caller passes are not negative, and a series is created with well-formed parameters.\<close>

fun op_ok :: "market_op \<Rightarrow> bool" where
  "op_ok (ODeposit a) = (0 \<le> a)"
| "op_ok (OCreate p) = params_ok p"
| "op_ok (OIssue i now a amt) = (0 \<le> amt)"
| "op_ok (OBurn i u) = (0 \<le> u)"
| "op_ok _ = True"

definition empty_market :: market where
  "empty_market = \<lparr>m_vault = new_vault, m_series = []\<rparr>"

inductive market_step :: "js_math \<Rightarrow> market \<Rightarrow> market \<Rightarrow> bool" for M where
  market_stepI: "op_ok op \<Longrightarrow> exec_op M op m = Inr m' \<Longrightarrow> market_step M m m'"

inductive reachable :: "js_math \<Rightarrow> market \<Rightarrow> bool" for M where
  reachable_init: "reachable M empty_market"
| reachable_step: "reachable M m \<Longrightarrow> market_step M m m' \<Longrightarrow> reachable M m'"

inductive_cases market_stepE: "market_step M m m'"

fun run_ops :: "js_math \<Rightarrow> market_op list \<Rightarrow> market \<Rightarrow> js_error + market" where
  "run_ops M [] m = Inr m"
| "run_ops M (op # ops) m = andThen (exec_op M op m) (run_ops M ops)"

subsection \<open>The invariant\<close>

definition total_liability :: "market \<Rightarrow> int" where
  "total_liability m = sum_list (map s_lockedLiability (m_series m))"

definition total_premium :: "market \<Rightarrow> int" where
  "total_premium m = sum_list (map s_premiumTaken (m_series m))"

definition total_paid :: "market \<Rightarrow> int" where
  "total_paid m = sum_list (map (\<lambda>s. s_exitPaid s + s_settlePaid s) (m_series m))"

definition market_inv :: "market \<Rightarrow> bool" where
  "market_inv m \<longleftrightarrow> (\<forall>s\<in>set (m_series m). series_inv s) \<and> solvent (m_vault m)
     \<and> v_locked (m_vault m) = total_liability m
     \<and> v_balance (m_vault m) = v_deposited (m_vault m) - v_withdrawn (m_vault m)
         + total_premium m - total_paid m"

lemma sum_list_update_int:
  "i < length xs \<Longrightarrow> sum_list (map f (xs[i := y])) = sum_list (map f xs) + f y - (f (xs ! i) :: int)"
proof (induction xs arbitrary: i)
  case (Cons x xs)
  then show ?case by (cases i) auto
qed simp

lemma member_le_sum: "x \<in> set xs \<Longrightarrow> \<forall>y\<in>set xs. (0::int) \<le> f y \<Longrightarrow> f x \<le> sum_list (map f xs)"
proof (induction xs)
  case (Cons a xs)
  have "0 \<le> sum_list (map f xs)" using Cons.prems by (intro sum_list_nonneg) auto
  then show ?case using Cons by auto
qed simp

lemma market_backed:
  assumes "market_inv m" "i < length (m_series m)"
  shows "series_inv (m_series m ! i)" "backed (m_vault m) (m_series m ! i)"
proof -
  show "series_inv (m_series m ! i)" using assms by (simp add: market_inv_def)
  have "s_lockedLiability (m_series m ! i) \<le> total_liability m"
    unfolding total_liability_def using assms
    by (intro member_le_sum) (auto simp: market_inv_def liability_nonneg)
  then show "backed (m_vault m) (m_series m ! i)"
    using assms by (simp add: market_inv_def backed_def)
qed

text \<open>
  The one lemma behind every operation on a series: if the vault moved by \<open>cash\<close> and by what the
  series' liability moved, and the series booked \<open>cash\<close>, the market invariant survives.
\<close>

definition booked :: "series \<Rightarrow> int" where
  "booked s = s_premiumTaken s - s_exitPaid s - s_settlePaid s"

lemma market_inv_update:
  assumes "market_inv m" "i < length (m_series m)" "series_inv s'"
    and "vault_moves (m_vault m) v' (m_series m ! i) s' cash"
    and "booked s' = booked (m_series m ! i) + cash"
  shows "market_inv (m\<lparr>m_vault := v', m_series := (m_series m)[i := s']\<rparr>)"
proof -
  have "\<forall>s\<in>set ((m_series m)[i := s']). series_inv s"
    using assms(1,3) set_update_subset_insert [of "m_series m" i s'] by (auto simp: market_inv_def)
  then show ?thesis
    using assms
    by (simp add: market_inv_def vault_moves_def total_liability_def total_premium_def total_paid_def
        sum_list_update_int booked_def)
qed

lemma with_series_InrE:
  assumes "with_series m i f = Inr m'"
  obtains v s where "i < length (m_series m)" "f (m_vault m) (m_series m ! i) = Inr (v, s)"
    "m' = m\<lparr>m_vault := v, m_series := (m_series m)[i := s]\<rparr>"
  using assms by (auto simp: with_series_def andThen_eq_Inr split: if_splits)

lemma drop_result_Inr: "drop_result r = Inr (v, s) \<longleftrightarrow> (\<exists>x. r = Inr (v, s, x))"
  by (cases r) (auto simp: drop_result_def)

text \<open>One lemma per method: the series after it, and what the vault and the books did.\<close>

definition sound_update :: "vault \<Rightarrow> series \<Rightarrow> vault \<Rightarrow> series \<Rightarrow> bool" where
  "sound_update v s v' s' \<longleftrightarrow> series_inv s' \<and>
     (\<exists>cash. vault_moves v v' s s' cash \<and> booked s' = booked s + cash)"

lemma sound_refl: "series_inv s' \<Longrightarrow> backed v s \<Longrightarrow> s_lockedLiability s' = s_lockedLiability s \<Longrightarrow>
    booked s' = booked s \<Longrightarrow> sound_update v s v s'"
  by (auto simp: sound_update_def backed_def intro!: exI [of _ 0] vault_moves_refl)

lemma sound_checkpoint:
  "series_inv s \<Longrightarrow> backed v s \<Longrightarrow> sound_update v s v (fst (checkpoint M now pr mx s))"
  by (rule sound_refl) (simp_all add: checkpoint_inv, simp_all add: checkpoint_eq booked_def)

lemma sound_issue:
  assumes "series_inv s" "backed v s" "0 \<le> amt" "issue M now a amt v s = Inr (v', s', r)"
  shows "sound_update v s v' s'"
proof (cases "issuanceOpen now s \<and> isCurrent now s")
  case True
  consider "v' = v" "s' = s" | f where "issue_effect M now amt v s v' s' f"
    using issue_open [of s v amt now M a] assms True by auto
  then show ?thesis
  proof cases
    case 2
    then have "booked s' = booked s + f_quote f" "vault_moves v v' s s' (f_quote f)"
      by (auto simp: issue_effect_def booked_def)
    moreover have "\<not> s_finalized s" using True by (simp add: issuanceOpen_def)
    ultimately show ?thesis
      using issue_effect_inv [OF assms(1) _ 2] by (auto simp: sound_update_def)
  qed (use assms sound_refl in simp)
next
  case False
  then show ?thesis using assms sound_refl by (auto simp: issue_def split: if_splits)
qed

lemma sound_exit:
  assumes "series_inv s" "backed v s" "exit M now a u v s = Inr (v', s', r)"
  shows "sound_update v s v' s'"
proof (cases "exitOpen now s \<and> isCurrent now s")
  case True
  consider "v' = v" "s' = s" | f where "exit_effect M now u v s v' s' f"
    using exit_open [of s v now M a u] assms True by auto
  then show ?thesis
  proof cases
    case 2
    then have "booked s' = booked s + (- f_quote f)" "vault_moves v v' s s' (- f_quote f)"
      using exit_effectD(6) [OF 2] by (simp_all add: exit_effectD(7) [OF 2] booked_def)
    moreover have "\<not> s_finalized s" using True by (simp add: exitOpen_def)
    ultimately show ?thesis
      using exit_effect_inv [OF assms(1) _ 2] unfolding sound_update_def by blast
  qed (use assms sound_refl in simp)
next
  case False
  then show ?thesis using assms sound_refl by (auto simp: exit_def split: if_splits)
qed

lemma sound_settle:
  assumes "series_inv s" "backed v s" "settle now a u v s = Inr (v', s', r)"
  shows "sound_update v s v' s'"
proof (cases "s_finalized s")
  case True
  consider "v' = v" "s' = s" | f where "settle_effect u v s v' s' f"
    using settle_finalized [OF assms(1,2) True, of u now a] assms(3) by (auto split: if_splits)
  then show ?thesis
  proof cases
    case 2
    then have "booked s' = booked s + (- f_quote f)" "vault_moves v v' s s' (- f_quote f)"
      by (auto simp: settle_effect_def booked_def)
    then show ?thesis
      using settle_effect_inv [OF assms(1) True 2] unfolding sound_update_def by blast
  qed (use assms sound_refl in simp)
next
  case False
  then show ?thesis using assms by (simp add: settle_def)
qed

lemma finalize_Inr_ready:
  "finalize now v s = Inr x \<Longrightarrow>
   p_expiry (s_params s) \<le> now \<and> \<not> of_int (s_samplesStored s) < totalSamples s \<and> \<not> s_finalized s"
  by (auto simp: finalize_def split: if_splits)

lemma sound_finalize:
  assumes "series_inv s" "backed v s" "finalize now v s = Inr (v', s', r)"
  shows "sound_update v s v' s'"
proof -
  have rd: "p_expiry (s_params s) \<le> now" "\<not> of_int (s_samplesStored s) < totalSamples s" "\<not> s_finalized s"
    using finalize_Inr_ready [OF assms(3)] by auto
  obtain v2 s2 r2 where "finalize now v s = Inr (v2, s2, r2)" "finalize_effect v s v2 s2 r2"
    by (rule finalize_ready [OF assms(1,2) rd])
  then have "finalize_effect v s v' s' r" using assms(3) by simp
  moreover from this have "booked s' = booked s + 0" by (simp add: finalize_effect_def booked_def Let_def)
  ultimately show ?thesis
    using finalize_effect_inv [OF assms(1)] unfolding sound_update_def finalize_effect_def by blast
qed

lemma sound_burn:
  assumes "series_inv s" "backed v s" "0 \<le> u" "burnWorthless u v s = Inr (v', s')"
  shows "sound_update v s v' s'"
proof -
  have c: "s_finalized s" "s_payoutPerUnit s = 0"
    using assms(4) by (auto simp: burnWorthless_def split: if_splits)
  then have "v' = v" "s' = s\<lparr>s_outstandingUnits := s_outstandingUnits s - min u (s_outstandingUnits s)\<rparr>"
    using burnWorthless_run [OF assms(1,2) c assms(3)] assms(4) by auto
  then show ?thesis
    using burnWorthless_inv [OF assms(1) c assms(3)] assms(2) by (simp add: booked_def sound_refl)
qed

lemma sound_close:
  assumes "series_inv s" "backed v s" "close v s = Inr (v', s')"
  shows "sound_update v s v' s'"
proof -
  have "s_outstandingUnits s = 0"
    using assms(3) series_invD(3) [OF assms(1)] by (auto simp: close_def split: if_splits)
  then have "v' = v" "s' = s\<lparr>s_unitsAvailable := 0\<rparr>"
    using close_run [OF assms(1,2)] assms(3) by auto
  then show ?thesis
    using close_inv [OF assms(1)] assms(2) by (simp add: booked_def sound_refl)
qed

subsection \<open>Every operation keeps the invariant\<close>

lemma with_series_inv:
  assumes "market_inv m" "with_series m i f = Inr m'"
    and "\<And>v s v' s'. series_inv s \<Longrightarrow> backed v s \<Longrightarrow> f v s = Inr (v', s') \<Longrightarrow> sound_update v s v' s'"
  shows "market_inv m'"
proof -
  obtain v s where r: "i < length (m_series m)" "f (m_vault m) (m_series m ! i) = Inr (v, s)"
    "m' = m\<lparr>m_vault := v, m_series := (m_series m)[i := s]\<rparr>"
    using assms(2) by (rule with_series_InrE)
  have "sound_update (m_vault m) (m_series m ! i) v s"
    using assms(3) market_backed [OF assms(1) r(1)] r(2) by blast
  then show ?thesis
    using market_inv_update [OF assms(1) r(1)] r(3) by (auto simp: sound_update_def)
qed

lemma sound_stop: "series_inv s \<Longrightarrow> backed v s \<Longrightarrow> sound_update v s v (stopIssuance s)"
  by (rule sound_refl) (simp_all add: stopIssuance_inv, simp_all add: stopIssuance_def booked_def)

lemma with_drop_inv:
  assumes "market_inv m" "with_series m i (\<lambda>v s. drop_result (g v s)) = Inr m'"
    and "\<And>v s v' s' r. series_inv s \<Longrightarrow> backed v s \<Longrightarrow> g v s = Inr (v', s', r) \<Longrightarrow> sound_update v s v' s'"
  shows "market_inv m'"
  by (rule with_series_inv [OF assms(1,2)]) (auto simp: drop_result_Inr intro: assms(3))

lemma vault_only_inv:
  assumes "market_inv m" "solvent v'" "v_locked v' = v_locked (m_vault m)"
    and "v_balance v' - v_balance (m_vault m)
       = (v_deposited v' - v_deposited (m_vault m)) - (v_withdrawn v' - v_withdrawn (m_vault m))"
  shows "market_inv (m\<lparr>m_vault := v'\<rparr>)"
  using assms by (simp add: market_inv_def total_liability_def total_premium_def total_paid_def)

lemma create_inv:
  assumes "market_inv m" "params_ok p" "new_series k p (m_vault m) = Inr (v, s)"
  shows "market_inv \<lparr>m_vault = v, m_series = m_series m @ [s]\<rparr>"
proof -
  have "s = init_series k p" "increaseLocked 0 (m_vault m) = Inr v"
    using assms(3) by (auto simp: new_series_def andThen_eq_Inr)
  moreover from this have "v = m_vault m" by (simp add: increaseLocked_def)
  ultimately show ?thesis
    using assms init_series_inv [OF assms(2), of k]
    by (simp add: market_inv_def total_liability_def total_premium_def total_paid_def init_series_def)
qed

lemma exec_op_inv:
  assumes "market_inv m" "op_ok op" "exec_op M op m = Inr m'"
  shows "market_inv m'"
proof (cases op)
  case (ODeposit a)
  then show ?thesis
    using assms vault_only_inv [OF assms(1)]
    by (auto simp: with_vault_def andThen_eq_Inr deposit_def)
next
  case (OWithdraw a)
  then show ?thesis
    using assms vault_only_inv [OF assms(1)]
    by (auto simp: with_vault_def andThen_eq_Inr withdrawFree_def split: if_splits)
next
  case (OCreate p)
  then show ?thesis using assms create_inv [OF assms(1)] by (auto simp: andThen_eq_Inr)
next
  case (OCheckpoint i now pr mx)
  then show ?thesis
    using assms by (auto intro!: with_series_inv [OF assms(1)] sound_checkpoint)
next
  case (OIssue i now a amt)
  have amt: "0 \<le> amt" using assms(2) OIssue by simp
  show ?thesis
    by (rule with_drop_inv [OF assms(1) assms(3) [unfolded OIssue exec_op.simps]]) (rule sound_issue [OF _ _ amt])
next
  case (OExit i now a u)
  show ?thesis
    by (rule with_drop_inv [OF assms(1) assms(3) [unfolded OExit exec_op.simps]]) (rule sound_exit)
next
  case (OSettle i now a u)
  show ?thesis
    by (rule with_drop_inv [OF assms(1) assms(3) [unfolded OSettle exec_op.simps]]) (rule sound_settle)
next
  case (OFinalize i now)
  show ?thesis
    by (rule with_drop_inv [OF assms(1) assms(3) [unfolded OFinalize exec_op.simps]]) (rule sound_finalize)
next
  case (OBurn i u)
  then show ?thesis
    using assms by (auto intro!: with_series_inv [OF assms(1)] sound_burn)
next
  case (OStop i)
  then show ?thesis
    using assms by (auto intro!: with_series_inv [OF assms(1)] sound_stop)
next
  case (OClose i)
  then show ?thesis
    using assms by (auto intro!: with_series_inv [OF assms(1)] sound_close)
next
  case (OSnapshot i now)
  then show ?thesis
    using assms by (auto intro!: with_series_inv [OF assms(1)] sound_refl snapshot_inv
      simp: take_snapshot_def andThen_eq_Inr Let_def booked_def)
qed

lemma empty_market_inv: "market_inv empty_market"
  by (simp add: market_inv_def empty_market_def new_vault_def solvent_def total_liability_def
      total_premium_def total_paid_def)

lemma reachable_inv: "reachable M m \<Longrightarrow> market_inv m"
  by (induction rule: reachable.induct)
     (auto simp: empty_market_inv elim!: market_stepE intro: exec_op_inv)

lemma run_ops_reachable:
  "reachable M m \<Longrightarrow> \<forall>op\<in>set ops. op_ok op \<Longrightarrow> run_ops M ops m = Inr m' \<Longrightarrow> reachable M m'"
proof (induction ops arbitrary: m)
  case (Cons op ops)
  then obtain m1 where "exec_op M op m = Inr m1" "run_ops M ops m1 = Inr m'"
    by (auto simp: andThen_eq_Inr)
  then show ?case using Cons by (meson list.set_intros market_stepI reachable_step)
qed simp

subsection \<open>No operation fails for lack of collateral\<close>

fun collateral_failure :: "js_error \<Rightarrow> bool" where
  "collateral_failure (Undercollateralized _ _) = True"
| "collateral_failure (ExceedsLocked _ _) = True"
| "collateral_failure (DebitExceedsBalance _ _) = True"
| "collateral_failure BeyondZeroBid = True"
| "collateral_failure HalfSpreadTooWide = True"
| "collateral_failure DivisionByZero = True"
| "collateral_failure NegativeIsqrt = True"
| "collateral_failure _ = False"

lemma with_series_error:
  assumes "market_inv m" "with_series m i f = Inl e"
    and "\<And>v s. series_inv s \<Longrightarrow> backed v s \<Longrightarrow> f v s = Inl e \<Longrightarrow> \<not> collateral_failure e"
  shows "\<not> collateral_failure e"
proof (cases "i < length (m_series m)")
  case True
  then have "f (m_vault m) (m_series m ! i) = Inl e"
    using assms(2) by (cases "f (m_vault m) (m_series m ! i)") (auto simp: with_series_def)
  then show ?thesis using assms(3) market_backed [OF assms(1) True] by blast
next
  case False
  then show ?thesis using assms(2) by (auto simp: with_series_def)
qed

lemma drop_result_Inl: "drop_result r = Inl e \<longleftrightarrow> r = Inl e"
  by (cases r) (auto simp: drop_result_def)

lemma issue_error:
  assumes "series_inv s" "backed v s" "0 \<le> amt" "issue M now a amt v s = Inl e"
  shows "e = CheckpointsStale"
  using issue_open [OF assms(1,2,3), of now M a] assms(4)
  by (cases "issuanceOpen now s"; cases "isCurrent now s") (auto simp: issue_def)

lemma exit_error:
  assumes "series_inv s" "backed v s" "exit M now a u v s = Inl e"
  shows "e = CheckpointsStale"
  using exit_open [OF assms(1,2), of now M a u] assms(3)
  by (cases "exitOpen now s"; cases "isCurrent now s") (auto simp: exit_def)

lemma settle_error:
  assumes "series_inv s" "backed v s" "settle now a u v s = Inl e"
  shows "e = NotFinalized"
  using settle_finalized [OF assms(1,2), of u now a] assms(3)
  by (cases "s_finalized s") (auto simp: settle_def split: if_splits)

lemma finalize_error:
  assumes "series_inv s" "backed v s" "finalize now v s = Inl e"
  shows "e = NotExpired \<or> e = IncompleteWindow \<or> e = AlreadyFinalized"
proof (rule ccontr)
  assume n: "\<not> ?thesis"
  then have "p_expiry (s_params s) \<le> now" "\<not> of_int (s_samplesStored s) < totalSamples s" "\<not> s_finalized s"
    using assms(3) by (auto simp: finalize_def split: if_splits)
  then obtain v' s' r where "finalize now v s = Inr (v', s', r)"
    using finalize_ready [OF assms(1,2)] by blast
  then show False using assms(3) by simp
qed

lemma burn_error:
  assumes "series_inv s" "backed v s" "0 \<le> u" "burnWorthless u v s = Inl e"
  shows "e = PayoutNotZero"
  using burnWorthless_run [OF assms(1,2) _ _ assms(3)] assms(4)
  by (cases "s_finalized s \<and> s_payoutPerUnit s = 0") (auto simp: burnWorthless_def)

lemma close_error:
  assumes "series_inv s" "backed v s" "close v s = Inl e"
  shows "e = ClaimsOutstanding (s_outstandingUnits s)"
  using close_run [OF assms(1,2)] assms(3) series_invD(3) [OF assms(1)]
  by (cases "s_outstandingUnits s = 0") (auto simp: close_def)

lemma snapshot_error:
  assumes "series_inv s" shows "take_snapshot M now v s \<noteq> Inl e"
  using take_snapshot_run [OF assms, of M now v] by (metis sum.distinct(1))

lemma exec_op_error:
  assumes inv: "market_inv m" and ok: "op_ok op" and e: "exec_op M op m = Inl e"
  shows "\<not> collateral_failure e"
proof (cases op)
  case (ODeposit a)
  then show ?thesis
    using assms by (auto simp: with_vault_def deposit_def market_inv_def solvent_def assertSolvent_def
        split: if_splits)
next
  case (OWithdraw a)
  then show ?thesis
    using assms by (auto simp: with_vault_def withdrawFree_def vault_free_def market_inv_def
        solvent_def assertSolvent_def split: if_splits)
next
  case (OCreate p)
  then show ?thesis
    using assms by (auto simp: new_series_def increaseLocked_def market_inv_def solvent_def
        assertSolvent_def split: if_splits)
next
  case (OCheckpoint i now pr mx)
  show ?thesis
    by (rule with_series_error [OF inv e [unfolded OCheckpoint exec_op.simps]]) simp
next
  case (OIssue i now a amt)
  then have amt: "0 \<le> amt" using ok by simp
  show ?thesis
    by (rule with_series_error [OF inv e [unfolded OIssue exec_op.simps]])
      (use issue_error [OF _ _ amt] in \<open>fastforce simp: drop_result_Inl\<close>)
next
  case (OExit i now a u)
  show ?thesis
    by (rule with_series_error [OF inv e [unfolded OExit exec_op.simps]])
      (use exit_error in \<open>fastforce simp: drop_result_Inl\<close>)
next
  case (OSettle i now a u)
  show ?thesis
    by (rule with_series_error [OF inv e [unfolded OSettle exec_op.simps]])
      (use settle_error in \<open>fastforce simp: drop_result_Inl\<close>)
next
  case (OFinalize i now)
  show ?thesis
    by (rule with_series_error [OF inv e [unfolded OFinalize exec_op.simps]])
      (use finalize_error in \<open>fastforce simp: drop_result_Inl\<close>)
next
  case (OBurn i u)
  then have u: "0 \<le> u" using ok by simp
  show ?thesis
    by (rule with_series_error [OF inv e [unfolded OBurn exec_op.simps]])
      (use burn_error [OF _ _ u] in fastforce)
next
  case (OStop i)
  show ?thesis
    by (rule with_series_error [OF inv e [unfolded OStop exec_op.simps]]) simp
next
  case (OClose i)
  show ?thesis
    by (rule with_series_error [OF inv e [unfolded OClose exec_op.simps]])
      (use close_error in fastforce)
next
  case (OSnapshot i now)
  show ?thesis
  proof (rule with_series_error [OF inv e [unfolded OSnapshot exec_op.simps]])
    fix v s assume "series_inv s" and "andThen (take_snapshot M now v s) (\<lambda>(s', sn). Inr (v, s')) = Inl e"
    then show "\<not> collateral_failure e"
      using snapshot_error [of s M now v e] by (cases "take_snapshot M now v s") auto
  qed
qed

end
