(* ===== verification/Sim_Properties.thy ===== *)
theory Sim_Properties
  imports Sim_Market
begin

text \<open>
  What the simulated market promises: the claims about \<open>sim/src/pricing.ts\<close> and
  \<open>sim/src/market.ts\<close>, each with a concrete run that meets its hypotheses.
\<close>

subsection \<open>A concrete market\<close>

definition demo_math :: js_math where
  "demo_math = \<lparr>math_exp = (\<lambda>_. 1/2), math_log = (\<lambda>x. x - 1), math_sqrt = (\<lambda>x. x), math_cos = (\<lambda>_. 1)\<rparr>"

definition demo_params :: series_params where
  "demo_params = \<lparr>p_start = 0, p_expiry = 28800, p_saleEnd = 7200, p_sampleInterval = 7200,
     p_unitNotional = 100 * 10 ^ 6, p_capVariance = 10 ^ 18, p_anchorVariance = 16 * 10 ^ 16,
     p_impactPerUnit = 8 * 10 ^ 14, p_halfLife = 21600, p_halfSpreadBps = 200,
     p_maxUnits = 400 * 10 ^ 18\<rparr>"

definition demo_ops :: "market_op list" where
  "demo_ops = [ODeposit (40000 * 10 ^ 6), OCreate demo_params, OIssue 0 0 ''a'' (600 * 10 ^ 6),
     OExit 0 0 ''a'' (10 ^ 18)]"

definition demo_market :: market where
  "demo_market = (case run_ops demo_math demo_ops empty_market of Inr m \<Rightarrow> m | Inl e \<Rightarrow> empty_market)"

definition demo_series :: series where
  "demo_series = init_series 1 demo_params"

definition demo_vault :: vault where
  "demo_vault = new_vault\<lparr>v_balance := 40000 * 10 ^ 6, v_deposited := 40000 * 10 ^ 6\<rparr>"

lemma demo_params_ok: "params_ok demo_params"
  unfolding params_ok_def demo_params_def BPS_def by simp

lemma demo_runs:
  "case run_ops demo_math demo_ops empty_market of Inr m \<Rightarrow> m_vault m \<noteq> new_vault | _ \<Rightarrow> False"
  by code_simp

lemma demo_ops_ok: "\<forall>op\<in>set demo_ops. op_ok op"
  by (simp add: demo_ops_def demo_params_ok)

lemma demo_reachable: "reachable demo_math demo_market"
proof -
  obtain m where "run_ops demo_math demo_ops empty_market = Inr m"
    using demo_runs by (cases "run_ops demo_math demo_ops empty_market") auto
  then show ?thesis
    using run_ops_reachable [OF reachable_init demo_ops_ok] by (simp add: demo_market_def)
qed

lemma demo_series_inv: "series_inv demo_series"
  unfolding demo_series_def by (rule init_series_inv [OF demo_params_ok])

lemma demo_backed: "backed demo_vault demo_series"
  by (simp add: backed_def demo_vault_def demo_series_def init_series_def solvent_def new_vault_def)

subsection \<open>The market as a whole\<close>

text \<open>C1: in every state a market can reach, by any interleaving of the operations of any of its series,
  the vault's lock is exactly the sum of the liabilities of the series that share it, the vault is
  solvent, and its balance is deposits minus withdrawals plus premiums minus payouts.\<close>

theorem market_solvent:
  assumes "reachable M m"
  shows "v_locked (m_vault m) = sum_list (map s_lockedLiability (m_series m))
    \<and> 0 \<le> v_locked (m_vault m) \<and> v_locked (m_vault m) \<le> v_balance (m_vault m)
    \<and> v_balance (m_vault m) = v_deposited (m_vault m) - v_withdrawn (m_vault m)
        + total_premium m - total_paid m"
proof -
  note inv = reachable_inv [OF assms]
  have "0 \<le> sum_list (map s_lockedLiability (m_series m))"
    using inv liability_nonneg by (auto simp: market_inv_def intro!: sum_list_nonneg)
  then show ?thesis using inv by (simp add: market_inv_def total_liability_def solvent_def)
qed

theorem market_solvent_witness:
  "0 \<le> v_locked (m_vault demo_market) \<and> v_locked (m_vault demo_market) \<le> v_balance (m_vault demo_market)"
  using market_solvent [OF demo_reachable] by blast

text \<open>C2: an operation on a reachable market never fails for lack of collateral: whatever it throws, it
  is not an underfunded vault, a lock or debit that exceeds what is there, a bid below zero, a spread
  above the whole, or a division by zero.\<close>

theorem market_never_short:
  assumes "reachable M m" "op_ok op" "exec_op M op m = Inl e"
  shows "\<not> collateral_failure e"
  using exec_op_error [OF reachable_inv [OF assms(1)] assms(2,3)] .

theorem market_never_short_witness: "\<not> collateral_failure BadIndex"
  using market_never_short [OF reachable_init, of "OStop 0" undefined BadIndex]
  by (simp add: with_series_def empty_market_def)

subsection \<open>Issuing, exiting, settling\<close>

text \<open>C3: an ISSUE into an open, current series either fills or leaves everything as it was. It fills
  exactly when the clamps leave a positive number of units with a positive premium; the fill is the
  clamped units at the integral of the rising ask, costs the buyer no more than they offered, never
  pushes the marginal ask above the cap, and moves the vault by the premium and by the new reservation.\<close>

theorem issue_fills:
  assumes "series_inv s" "backed v s" "0 \<le> amountIn" "issuanceOpen now s" "isCurrent now s"
  shows "(issue M now a amountIn v s = Inr (v, s, None) \<and> issue_noop M now amountIn v s)
    \<or> (\<exists>v' s' f q. issue M now a amountIn v s = Inr (v', s', Some f)
        \<and> issue_effect M now amountIn v s v' s' f
        \<and> 0 < f_units f \<and> 0 < f_quote f \<and> f_quote f \<le> amountIn
        \<and> quote_at M now s = Inr q
        \<and> f_quote f = issuePremium (q_askVariance q) (q_askSlope q) (p_unitNotional (s_params s)) (f_units f)
        \<and> q_askVariance q * WAD + q_askSlope q * f_units f \<le> p_capVariance (s_params s) * WAD
        \<and> v_balance v' = v_balance v + f_quote f
        \<and> v_locked v' - v_locked v = s_lockedLiability s' - s_lockedLiability s)"
proof (cases "issue M now a amountIn v s = Inr (v, s, None) \<and> issue_noop M now amountIn v s")
  case False
  then obtain v' s' f where f: "issue M now a amountIn v s = Inr (v', s', Some f)"
    "issue_effect M now amountIn v s v' s' f"
    using issue_open [OF assms, of M a] by blast
  then obtain q where q: "quote_at M now s = Inr q" "0 < f_units f"
    "f_units f \<le> issueUnitsToCap (q_askVariance q) (q_askSlope q) (p_capVariance (s_params s))"
    "f_quote f = issuePremium (q_askVariance q) (q_askSlope q) (p_unitNotional (s_params s)) (f_units f)"
    "0 < f_quote f" "f_quote f \<le> amountIn" "vault_moves v v' s s' (f_quote f)"
    unfolding issue_effect_def by blast
  note qd = quote_okD [OF quote_at_okD [OF assms(1) q(1)]]
  have "q_askVariance q * WAD + q_askSlope q * f_units f \<le> p_capVariance (s_params s) * WAD"
    using q(2) by (intro issueUnitsToCap_marginal [OF qd(4,3) _ q(3)]) simp
  then show ?thesis using f q unfolding vault_moves_def by fastforce
qed simp

theorem issue_fills_witness:
  "(issue demo_math 0 ''a'' 600000000 demo_vault demo_series = Inr (demo_vault, demo_series, None)
      \<and> issue_noop demo_math 0 600000000 demo_vault demo_series)
    \<or> (\<exists>v' s' f. issue demo_math 0 ''a'' 600000000 demo_vault demo_series = Inr (v', s', Some f))"
  using issue_fills [OF demo_series_inv demo_backed, of 600000000 0 demo_math "''a''"]
  by (auto simp: issuanceOpen_def isCurrent_def availableSamples_def demo_series_def init_series_def
      demo_params_def)

text \<open>C4: an EXIT from an open, current series either fills or leaves everything as it was; the fill is the
  requested units clamped to what is outstanding and to where the bid reaches zero, pays exactly the
  integral of the falling bid, never more than the reservation it releases, and leaves the vault
  solvent.\<close>

theorem exit_fills:
  assumes "series_inv s" "backed v s" "exitOpen now s" "isCurrent now s"
  shows "(exit M now a req v s = Inr (v, s, None) \<and> exit_noop M now req s)
    \<or> (\<exists>v' s' f. exit M now a req v s = Inr (v', s', Some f) \<and> exit_effect M now req v s v' s' f
        \<and> 0 < f_units f \<and> f_units f \<le> req \<and> 0 < f_quote f
        \<and> f_quote f \<le> s_lockedLiability s - s_lockedLiability s'
        \<and> s_outstandingUnits s' = s_outstandingUnits s - f_units f
        \<and> v_balance v' = v_balance v - f_quote f \<and> v_locked v' \<le> v_balance v')"
proof (cases "exit M now a req v s = Inr (v, s, None) \<and> exit_noop M now req s")
  case False
  then obtain v' s' f where f: "exit M now a req v s = Inr (v', s', Some f)"
    "exit_effect M now req v s v' s' f"
    using exit_open [OF assms, of M a req] by blast
  note d = exit_effectD [OF f(2)]
  have "s_outstandingUnits s' = s_outstandingUnits s - f_units f" by (simp add: d(7))
  moreover have "v_balance v' = v_balance v - f_quote f" "v_locked v' \<le> v_balance v'"
    using d(6) by (simp_all add: vault_moves_def solvent_def)
  ultimately show ?thesis using f d(1,2,4,5) by blast
qed simp

definition demo_sold :: series where
  "demo_sold = demo_series\<lparr>s_outstandingUnits := 10 ^ 18, s_unitsAvailable := 399 * 10 ^ 18,
     s_lockedLiability := 100 * 10 ^ 6\<rparr>"

definition demo_vault_sold :: vault where
  "demo_vault_sold = demo_vault\<lparr>v_locked := 100 * 10 ^ 6\<rparr>"

lemma demo_sold_inv: "series_inv demo_sold"
  using demo_series_inv
  by (simp add: demo_sold_def series_inv_def oracle_inv_def liability_of_def demo_series_def
      init_series_def demo_params_def maxLiability_def ceilDiv_def bdiv_def WAD2_def)

lemma demo_sold_backed: "backed demo_vault_sold demo_sold"
  by (simp add: backed_def demo_vault_sold_def demo_sold_def demo_vault_def solvent_def)

theorem exit_fills_witness:
  "(exit demo_math 0 ''a'' 7 demo_vault_sold demo_sold = Inr (demo_vault_sold, demo_sold, None)
      \<and> exit_noop demo_math 0 7 demo_sold)
    \<or> (\<exists>v' s' f. exit demo_math 0 ''a'' 7 demo_vault_sold demo_sold = Inr (v', s', Some f)
          \<and> f_units f \<le> 7)"
  using exit_fills [OF demo_sold_inv demo_sold_backed, of 0 demo_math "''a''" 7]
  by (auto simp: exitOpen_def isCurrent_def availableSamples_def demo_sold_def demo_series_def
      init_series_def demo_params_def)

text \<open>C5: a SETTLE of a finalized series burns the units asked for, up to what is outstanding, and pays
  exactly their floored payout, which never exceeds the reservation it releases; it is refused, with
  nothing changed, exactly when there is nothing to burn or the floored payout is zero.\<close>

theorem settle_pays:
  assumes "series_inv s" "backed v s" "s_finalized s"
  shows "if min req (s_outstandingUnits s) \<le> 0
            \<or> settleProceeds (min req (s_outstandingUnits s)) (s_payoutPerUnit s) = 0
         then settle now a req v s = Inr (v, s, None)
         else \<exists>v' s' f. settle now a req v s = Inr (v', s', Some f)
            \<and> f_units f = min req (s_outstandingUnits s)
            \<and> f_quote f = settleProceeds (f_units f) (s_payoutPerUnit s)
            \<and> f_quote f \<le> s_lockedLiability s - s_lockedLiability s'
            \<and> s_outstandingUnits s' = s_outstandingUnits s - f_units f
            \<and> v_balance v' = v_balance v - f_quote f \<and> solvent v'"
  using settle_finalized [OF assms, of req now a]
  by (auto simp: settle_effect_def vault_moves_def split: if_splits)

definition demo_final :: series where
  "demo_final = demo_sold\<lparr>s_finalized := True, s_finalVariance := 10 ^ 17, s_payoutPerUnit := 10 ^ 7,
     s_lockedLiability := 10 ^ 7\<rparr>"

lemma demo_final_inv: "series_inv demo_final"
  using demo_sold_inv
  by (simp add: demo_final_def demo_sold_def series_inv_def oracle_inv_def liability_of_def
      demo_series_def init_series_def demo_params_def finalLiability_def payoutPerUnit_def
      ceilDiv_def bdiv_def WAD_def)

lemma demo_final_backed: "backed demo_vault_sold demo_final"
  by (simp add: backed_def demo_vault_sold_def demo_final_def demo_vault_def solvent_def)

theorem settle_pays_witness:
  "\<exists>v' s' f. settle 0 ''a'' (10 ^ 18) demo_vault_sold demo_final = Inr (v', s', Some f)
     \<and> f_quote f = 10 ^ 7"
  using settle_pays [OF demo_final_inv demo_final_backed, of "10 ^ 18" 0 "''a''"]
  by (simp add: demo_final_def demo_sold_def settleProceeds_def bdiv_def WAD_def)
    (auto simp: settleProceeds_def bdiv_def WAD_def)

text \<open>C6: however a finalized series' claims are split into redemptions, together they are paid no more
  than the liability the series had when it was finalized, and what they leave reserved covers the
  rest.\<close>

theorem redemptions_covered:
  assumes "0 \<le> ppu" "\<forall>u\<in>set us. 0 \<le> u" "sum_list us \<le> outstanding"
  shows "sum_list (map (\<lambda>u. settleProceeds u ppu) us) + finalLiability (outstanding - sum_list us) ppu
    \<le> finalLiability outstanding ppu"
  using settle_leg.burns_within_release [OF assms] by simp

theorem redemptions_covered_witness:
  "settleProceeds 3 (10 ^ 17) + settleProceeds 4 (10 ^ 17) + finalLiability 3 (10 ^ 17) \<le> finalLiability 10 (10 ^ 17)"
  using redemptions_covered [of "10 ^ 17" "[3, 4]" 10] by simp

text \<open>C7: FINALIZE of a complete, expired, live series always succeeds; it only ever lowers the
  reservation, to the payout times the claims, releases exactly the difference to the writer without
  moving any cash, and fixes a payout per unit between zero and the cap.\<close>

theorem finalize_releases:
  assumes "series_inv s" "backed v s" "p_expiry (s_params s) \<le> now" "\<not> s_finalized s"
    and "\<not> of_int (s_samplesStored s) < totalSamples s"
  shows "\<exists>v' s' r. finalize now v s = Inr (v', s', r) \<and> 0 \<le> r
    \<and> r = maxLiability (s_outstandingUnits s) (p_unitNotional (s_params s)) (p_capVariance (s_params s))
        - finalLiability (s_outstandingUnits s) (s_payoutPerUnit s')
    \<and> v_locked v' = v_locked v - r \<and> v_balance v' = v_balance v \<and> solvent v'
    \<and> s_finalized s' \<and> 0 \<le> s_payoutPerUnit s'
    \<and> s_payoutPerUnit s' \<le> maxPayoutPerUnit (p_unitNotional (s_params s)) (p_capVariance (s_params s))"
proof -
  obtain v' s' r where f: "finalize now v s = Inr (v', s', r)" "finalize_effect v s v' s' r"
    using finalize_ready [OF assms(1,2,3,5,4)] by blast
  have i: "series_inv s'" using finalize_effect_inv [OF assms(1) f(2)] .
  have s': "s_finalized s'" "s_params s' = s_params s"
    "s_lockedLiability s' = finalLiability (s_outstandingUnits s) (s_payoutPerUnit s')"
    using f(2) by (auto simp: finalize_effect_def Let_def)
  have lk: "s_lockedLiability s = maxLiability (s_outstandingUnits s)
      (p_unitNotional (s_params s)) (p_capVariance (s_params s))"
    using series_invD(5) [OF assms(1)] assms(4) by (simp add: liability_of_def)
  have "s_payoutPerUnit s' \<le> maxPayoutPerUnit (p_unitNotional (s_params s)) (p_capVariance (s_params s))"
    using payoutPerUnit_range(2) series_invD(6,7) [OF i s'(1)] params_okD(5,6) [OF series_invD(1) [OF i]] s'(2)
    by metis
  moreover have "0 \<le> r" "r = s_lockedLiability s - s_lockedLiability s'" "vault_moves v v' s s' 0"
    using f(2) by (simp_all add: finalize_effect_def)
  ultimately show ?thesis
    using f(1) s' lk ppu_nonneg [OF i s'(1)] unfolding vault_moves_def by fastforce
qed

definition demo_complete :: series where
  "demo_complete = demo_sold\<lparr>s_samplesStored := 5, s_processedThrough := 28800,
     s_sumSquaredReturns := 10 ^ 14\<rparr>"

lemma demo_complete_inv: "series_inv demo_complete"
  using demo_sold_inv
  by (simp add: demo_complete_def demo_sold_def series_inv_def oracle_inv_def liability_of_def
      demo_series_def init_series_def demo_params_def)

lemma demo_complete_backed: "backed demo_vault_sold demo_complete"
  by (simp add: backed_def demo_vault_sold_def demo_complete_def demo_sold_def demo_vault_def solvent_def)

theorem finalize_releases_witness:
  "\<exists>v' s' r. finalize 28800 demo_vault_sold demo_complete = Inr (v', s', r) \<and> 0 \<le> r"
  using finalize_releases [OF demo_complete_inv demo_complete_backed, of 28800]
  by (auto simp: demo_complete_def demo_sold_def demo_series_def init_series_def demo_params_def
      totalSamples_def)

subsection \<open>The oracle\<close>

text \<open>C8: what the oracle has stored does not depend on how the calls were batched: after any bounded
  calls that add up to enough, a new series' sum of squared returns is the sum over the grid points
  available by \<open>now\<close>, each sample counted once.\<close>

theorem checkpoint_batching:
  assumes "params_ok p" "\<forall>m\<in>set ms. 0 \<le> m"
    and "availableSamples now (init_series i p) - 1 \<le> sum_list ms"
  shows "s_sumSquaredReturns (checkpoints M now pr ms (init_series i p)) =
      (\<Sum>k<nat (availableSamples now (init_series i p) - 1). sample_term M pr p (1 + int k))
    \<and> isCurrent now (checkpoints M now pr ms (init_series i p))"
proof -
  have "0 \<le> sum_list ms" using assms(2) by (intro sum_list_nonneg) auto
  then show ?thesis
    using checkpoint_init_sum [OF assms(1) _ assms(3), of M pr]
      checkpoint_makes_current [of now "init_series i p" "sum_list ms" M pr] assms(3)
    by (simp add: checkpoints_eq [OF assms(2)] init_series_def)
qed

theorem checkpoint_batching_witness:
  "s_sumSquaredReturns (checkpoints demo_math 28800 (\<lambda>t. 100) [1, 2, 1] demo_series) =
     (\<Sum>k<4. sample_term demo_math (\<lambda>t. 100) demo_params (1 + int k))"
  using checkpoint_batching [OF demo_params_ok, of "[1, 2, 1]" 28800 1 demo_math "\<lambda>t. 100"]
  by (simp add: demo_series_def availableSamples_def init_series_def demo_params_def Let_def)

text \<open>\<open>checkpointCallsNeeded\<close> is exact: that many calls bring the series current and no smaller number
  does.\<close>

theorem checkpointCallsNeeded_exact:
  assumes "0 < maxSamples"
  shows "isCurrent now (checkpoints M now pr (replicate k maxSamples) s)
    \<longleftrightarrow> checkpointCallsNeeded now maxSamples s \<le> int k"
  using replicate_checkpoints_current [OF assms] checkpointCallsNeeded_le_iff [OF assms] by simp

theorem checkpointCallsNeeded_exact_witness:
  "isCurrent 28800 (checkpoints demo_math 28800 (\<lambda>t. 100) (replicate 2 3) demo_series)
    \<longleftrightarrow> checkpointCallsNeeded 28800 3 demo_series \<le> 2"
  using checkpointCallsNeeded_exact [of 3 28800 demo_math "\<lambda>t. 100" 2 demo_series] by simp

subsection \<open>Pricing\<close>

text \<open>C9: \<open>isqrt\<close> terminates on every input and is the floor of the square root on every non-negative one.\<close>

theorem isqrt_floor:
  assumes "0 \<le> n"
  shows "\<exists>r. isqrt n = Inr r \<and> 0 \<le> r \<and> r * r \<le> n \<and> n < (r + 1) * (r + 1)"
  using isqrt_correct [OF assms] by metis

theorem isqrt_floor_witness: "\<exists>r. isqrt 99 = Inr r \<and> r * r \<le> 99 \<and> 99 < (r + 1) * (r + 1)"
  using isqrt_floor [of 99] by auto

text \<open>Every well-formed series has a quote at every moment, and the quote is ordered: zero, bid, ask,
  cap, in variance and per unit, with slopes that are not negative.\<close>

theorem quote_ordered:
  assumes "series_inv s"
  shows "\<exists>q. quote_at M now s = Inr q \<and> 0 \<le> q_bidVariance q \<and> q_bidVariance q \<le> q_askVariance q
    \<and> q_askVariance q \<le> p_capVariance (s_params s) \<and> q_bidPerUnit q \<le> q_askPerUnit q
    \<and> q_askPerUnit q \<le> maxPayoutPerUnit (p_unitNotional (s_params s)) (p_capVariance (s_params s))
    \<and> 0 \<le> q_askSlope q \<and> 0 \<le> q_bidSlope q"
  using quote_at_ok [OF assms, of M now] unfolding quote_ok_def by metis

theorem quote_ordered_witness: "\<exists>q. quote_at demo_math 0 demo_sold = Inr q \<and> q_bidVariance q \<le> q_askVariance q"
  using quote_ordered [OF demo_sold_inv, of demo_math 0] by blast

text \<open>Decay only ever moves the skew towards zero: it never grows in size and never changes sign,
  provided \<open>Math.exp\<close> of a non-positive number lies between 0 and 1.\<close>

theorem decaySkew_towards_zero:
  assumes "exp_in_unit M" "0 \<le> dt" "0 \<le> halfLife"
  shows "\<bar>decaySkew M skew dt halfLife\<bar> \<le> \<bar>skew\<bar> \<and> 0 \<le> skew * decaySkew M skew dt halfLife"
  using decaySkew_shrinks [OF assms, of skew]
  by (cases "0 \<le> skew") (simp_all add: mult_nonneg_nonneg mult_nonpos_nonpos)

theorem decaySkew_towards_zero_witness: "\<bar>decaySkew demo_math (- 700) 5 60\<bar> \<le> 700"
proof -
  have "exp_in_unit demo_math" by (simp add: exp_in_unit_def demo_math_def)
  from decaySkew_towards_zero [OF this, of 5 60 "- 700"] show ?thesis by linarith
qed

text \<open>The projection is a weighted mean of the realized variance and the market's own view: it lies
  between the two, and is the view while nothing has elapsed and the realized once nothing remains.\<close>

theorem projectedVariance_mean:
  assumes "0 \<le> realized" "0 \<le> elapsed" "0 \<le> forward" "0 \<le> remaining" "0 < elapsed + remaining"
  shows "min realized forward \<le> projectedVariance realized elapsed forward remaining
    \<and> projectedVariance realized elapsed forward remaining \<le> max realized forward
    \<and> (elapsed = 0 \<longrightarrow> projectedVariance realized elapsed forward remaining = forward)
    \<and> (remaining = 0 \<longrightarrow> projectedVariance realized elapsed forward remaining = realized)"
  using projectedVariance_between [OF assms] assms
  by (auto simp: projectedVariance_def Let_def bdiv_def)

theorem projectedVariance_mean_witness: "projectedVariance 100 3 400 1 \<le> 400 \<and> 100 \<le> projectedVariance 100 3 400 1"
  using projectedVariance_mean [of 100 3 400 1] by simp

text \<open>The inverse of the premium is safe: for any budget, the units \<open>issueUnitsFor\<close> returns cost, at
  the premium \<open>issuePremium\<close> then charges, no more than the budget.\<close>

theorem issueUnitsFor_within_budget:
  assumes "0 < ask" "0 \<le> slope" "0 < notional" "0 \<le> budget"
  shows "\<exists>u. issueUnitsFor ask slope notional budget = Inr u \<and> 0 \<le> u \<and> issuePremium ask slope notional u \<le> budget"
  using issueUnitsFor_affordable [OF assms] by metis

theorem issueUnitsFor_within_budget_witness:
  "\<exists>u. issueUnitsFor (10 ^ 17) (10 ^ 14) 100000000 7000000 = Inr u \<and> issuePremium (10 ^ 17) (10 ^ 14) 100000000 u \<le> 7000000"
  using issueUnitsFor_within_budget [of "10 ^ 17" "10 ^ 14" 100000000 7000000] by auto

text \<open>Splitting a purchase never makes it cheaper: the second part is bought at an ask moved up by at
  least the slope of the first, and the two premiums together are at least the premium of the whole.\<close>

theorem premium_split:
  assumes "0 \<le> ask" "0 \<le> slope" "0 \<le> notional" "0 \<le> u" "0 \<le> v" "ask * WAD + slope * u \<le> ask' * WAD"
  shows "issuePremium ask slope notional (u + v)
    \<le> issuePremium ask slope notional u + issuePremium ask' slope notional v"
  using issuePremium_split [OF assms] .

theorem premium_split_witness:
  "issuePremium 10 (10 ^ 18) 5 7 \<le> issuePremium 10 (10 ^ 18) 5 3 + issuePremium 13 (10 ^ 18) 5 4"
  using premium_split [of 10 "10 ^ 18" 5 3 4 13] by (simp add: WAD_def)

end
