(* ===== verification/Sim_Paths.thy ===== *)
theory Sim_Paths
  imports "HOL-Library.Word" Js_Number
begin

text \<open>
  The price paths of \<open>sim/src/paths.ts\<close>: the mulberry32 generator on 32-bit words, the Box-Muller
  draw, the path generator and the path's realized variance. A generator is its state; every draw
  returns the state after it. The two loops of the source that are not bounded by a counter, the
  redraw of a zero and the walk over a window, are \<open>partial_function\<close>s whose termination is proved.
\<close>

unbundle bit_operations_syntax

subsection \<open>The generator\<close>

definition rng :: "int \<Rightarrow> 32 word" where
  "rng seed = word_of_int seed"

text \<open>
  \<open>Math.imul\<close>, \<open>^\<close> and \<open>>>> 0\<close> all reduce modulo \<open>2 ^ 32\<close>, and the sum of two of their results is
  reduced by the \<open>^\<close> it goes into, so every step is an operation on words.
\<close>

definition rng_state :: "32 word \<Rightarrow> 32 word" where
  "rng_state a = a + 0x6d2b79f5"

definition rng_out :: "32 word \<Rightarrow> 32 word" where
  "rng_out a =
     (let t = (a XOR drop_bit 15 a) * (1 OR a);
          t' = (t + (t XOR drop_bit 7 t) * (61 OR t)) XOR t
      in t' XOR drop_bit 14 t')"

definition rng_next :: "32 word \<Rightarrow> rat \<times> 32 word" where
  "rng_next a = (let a' = rng_state a in (of_int (uint (rng_out a')) / 4294967296, a'))"

text \<open>\<open>while (u === 0) u = next();\<close>\<close>

partial_function (option) draw_nonzero :: "32 word \<Rightarrow> (rat \<times> 32 word) option" where
  "draw_nonzero a =
     (let r = rng_next a in if fst r = 0 then draw_nonzero (snd r) else Some r)"

declare draw_nonzero.simps [code]

text \<open>\<open>Math.PI\<close> is the double \<open>884279719003555 / 2 ^ 48\<close>.\<close>

definition js_PI :: rat where "js_PI = 884279719003555 / 2 ^ 48"

definition normal :: "js_math \<Rightarrow> 32 word \<Rightarrow> (rat \<times> 32 word) option" where
  "normal M a =
     Option.bind (draw_nonzero a) (\<lambda>(u, a1).
     Option.bind (draw_nonzero a1) (\<lambda>(v, a2).
       Some (fl (math_sqrt M (fl (- 2 * math_log M u)) * math_cos M (fl (fl (2 * js_PI) * v))), a2)))"

subsection \<open>Paths\<close>

record segment =
  sg_share :: rat
  sg_vol :: rat

record path =
  pa_start :: int
  pa_interval :: int
  pa_times :: "int list"
  pa_prices :: "rat list"

definition path_at :: "path \<Rightarrow> int \<Rightarrow> rat" where
  "path_at p t =
     (if t \<le> pa_start p then pa_prices p ! 0
      else let idx = min (int (length (pa_prices p)) - 1) ((t - pa_start p) div pa_interval p)
           in pa_prices p ! nat idx)"

text \<open>Whole steps per segment; the last one takes what the floors of the others left.\<close>

definition segment_steps :: "int \<Rightarrow> segment list \<Rightarrow> int list" where
  "segment_steps n segs =
     (let steps = map (\<lambda>s. \<lfloor>fl (sg_share s * of_int n)\<rfloor>) segs
      in if steps = [] then [] else butlast steps @ [n - sum_list (butlast steps)])"

text \<open>The generator's loop state: the step count, the price, the generator and the two lists.\<close>

record walk =
  w_i :: int
  w_price :: rat
  w_rng :: "32 word"
  w_times :: "int list"
  w_prices :: "rat list"

definition walk_step :: "js_math \<Rightarrow> int \<Rightarrow> int \<Rightarrow> rat \<Rightarrow> walk \<Rightarrow> walk option" where
  "walk_step M start interval sigmaStep w =
     Option.bind (normal M (w_rng w)) (\<lambda>(n, a).
       let i = w_i w + 1;
           drift = fl (fl (1/2 * sigmaStep) * sigmaStep);
           price = fl (w_price w * math_exp M (fl (fl (sigmaStep * n) - drift)))
       in Some \<lparr>w_i = i, w_price = price, w_rng = a,
                w_times = w_times w @ [start + i * interval], w_prices = w_prices w @ [price]\<rparr>)"

fun walk_steps :: "js_math \<Rightarrow> int \<Rightarrow> int \<Rightarrow> rat \<Rightarrow> nat \<Rightarrow> walk \<Rightarrow> walk option" where
  "walk_steps M start interval sigmaStep 0 w = Some w"
| "walk_steps M start interval sigmaStep (Suc k) w =
     Option.bind (walk_step M start interval sigmaStep w) (walk_steps M start interval sigmaStep k)"

fun walk_segments :: "js_math \<Rightarrow> int \<Rightarrow> int \<Rightarrow> (segment \<times> int) list \<Rightarrow> walk \<Rightarrow> walk option" where
  "walk_segments M start interval [] w = Some w"
| "walk_segments M start interval ((s, k) # rest) w =
     (let sigmaStep = fl (sg_vol s * math_sqrt M (fl (of_int interval / 31536000))) in
      Option.bind (walk_steps M start interval sigmaStep (nat k) w)
        (walk_segments M start interval rest))"

definition buildPath ::
  "js_math \<Rightarrow> int \<Rightarrow> int \<Rightarrow> int \<Rightarrow> rat \<Rightarrow> segment list \<Rightarrow> int \<Rightarrow> path option" where
  "buildPath M start fin interval spot segs seed =
     (let n = math_round (fl (of_int (fin - start) / of_int interval));
          steps = segment_steps n segs;
          w0 = \<lparr>w_i = 0, w_price = spot, w_rng = rng seed, w_times = [start], w_prices = [spot]\<rparr>
      in Option.bind (walk_segments M start interval (zip segs steps) w0) (\<lambda>w.
           Some \<lparr>pa_start = start, pa_interval = interval, pa_times = w_times w,
                 pa_prices = w_prices w\<rparr>))"

partial_function (option) variance_loop :: "js_math \<Rightarrow> path \<Rightarrow> int \<Rightarrow> int \<Rightarrow> int \<Rightarrow> rat \<Rightarrow> rat option" where
  "variance_loop M p fin interval t acc =
     (if t \<le> fin
      then let r = math_log M (fl (path_at p t / path_at p (t - interval)))
           in variance_loop M p fin interval (t + interval) (fl (acc + fl (r * r)))
      else Some acc)"

declare variance_loop.simps [code]

definition pathVariance :: "js_math \<Rightarrow> path \<Rightarrow> int \<Rightarrow> int \<Rightarrow> int \<Rightarrow> rat option" where
  "pathVariance M p start fin interval =
     Option.bind (variance_loop M p fin interval (start + interval) 0) (\<lambda>acc.
       Some (fl (fl (acc * 31536000) / of_int (fin - start))))"

subsection \<open>The generator ends and stays in its range\<close>

lemma uint_range: "0 \<le> uint (w :: 32 word)" "uint (w :: 32 word) < 4294967296"
  using uint_lt2p [of w] by simp_all

lemma rng_next_range: "0 \<le> fst (rng_next a)" "fst (rng_next a) < 1"
proof -
  have "(of_int (uint (rng_out (rng_state a))) :: rat) < of_int 4294967296"
    using uint_range(2) by (simp only: of_int_less_iff)
  then show "fst (rng_next a) < 1" by (simp add: rng_next_def Let_def)
  have "(of_int 0 :: rat) \<le> of_int (uint (rng_out (rng_state a)))"
    using uint_range(1) by (simp only: of_int_le_iff)
  then show "0 \<le> fst (rng_next a)" by (simp only: rng_next_def Let_def fst_conv)
qed

text \<open>
  The state advances by an odd constant, so it runs through every word; one of them, \<open>1\<close>, does not
  hash to zero, so the redraw loop ends from every state.
\<close>

lemma rng_states: "(rng_state ^^ k) a = a + of_nat k * 0x6d2b79f5"
  by (induction k) (simp_all add: rng_state_def algebra_simps)

lemma rng_reaches: "\<exists>k. (rng_state ^^ k) a = 1"
proof -
  define d where "d = (1 - a) * (0xdc58aa5d :: 32 word)"
  have "(0xdc58aa5d :: 32 word) * 0x6d2b79f5 = 1" by simp
  then have "d * 0x6d2b79f5 = 1 - a" by (simp only: d_def mult.assoc mult_1_right)
  moreover have "of_nat (unat d) = d" by simp
  ultimately have "(rng_state ^^ unat d) a = 1" by (simp only: rng_states) simp
  then show ?thesis by blast
qed

lemma rng_out_1: "rng_out 1 = 63"
  by (simp add: rng_out_def Let_def)

lemma draw_nonzero_unfold:
  "draw_nonzero a = (if fst (rng_next a) = 0 then draw_nonzero (rng_state a) else Some (rng_next a))"
  by (subst draw_nonzero.simps) (simp add: rng_next_def Let_def)

lemma draw_nonzero_hit:
  assumes "fst (rng_next a) \<noteq> 0"
  shows "\<exists>u a'. draw_nonzero a = Some (u, a') \<and> 0 < u \<and> u < 1"
proof -
  have "0 < fst (rng_next a)" using rng_next_range(1) [of a] assms by linarith
  then show ?thesis
    using draw_nonzero_unfold [of a] rng_next_range(2) [of a] assms
    by (intro exI [of _ "fst (rng_next a)"] exI [of _ "snd (rng_next a)"]) simp
qed

lemma draw_nonzero_ends: "\<exists>u a'. draw_nonzero a = Some (u, a') \<and> 0 < u \<and> u < 1"
proof -
  obtain k where k: "(rng_state ^^ k) (rng_state a) = 1" using rng_reaches by blast
  have "(rng_state ^^ k) (rng_state a) = 1 \<Longrightarrow>
      \<exists>u a'. draw_nonzero a = Some (u, a') \<and> 0 < u \<and> u < 1" for a
  proof (induction k arbitrary: a)
    case 0
    then have "fst (rng_next a) \<noteq> 0" by (simp add: rng_next_def rng_out_1)
    then show ?case by (rule draw_nonzero_hit)
  next
    case (Suc k)
    show ?case
    proof (cases "fst (rng_next a) = 0")
      case True
      have "(rng_state ^^ k) (rng_state (rng_state a)) = 1"
        using Suc.prems by (simp add: funpow_swap1)
      from Suc.IH [OF this] show ?thesis using True draw_nonzero_unfold [of a] by simp
    next
      case False
      then show ?thesis by (rule draw_nonzero_hit)
    qed
  qed
  then show ?thesis using k by blast
qed

lemma normal_ends: obtains n a' where "normal M a = Some (n, a')"
proof -
  obtain u a1 where "draw_nonzero a = Some (u, a1)" using draw_nonzero_ends by blast
  moreover obtain v a2 where "draw_nonzero a1 = Some (v, a2)" using draw_nonzero_ends by blast
  ultimately show ?thesis using that by (simp add: normal_def)
qed

subsection \<open>The grid is covered exactly\<close>

definition walk_inv :: "int \<Rightarrow> int \<Rightarrow> walk \<Rightarrow> bool" where
  "walk_inv start interval w \<longleftrightarrow> 0 \<le> w_i w
     \<and> w_times w = map (\<lambda>k. start + int k * interval) [0..<nat (w_i w) + 1]
     \<and> length (w_prices w) = nat (w_i w) + 1 \<and> last (w_prices w) = w_price w"

lemma walk_step_inv:
  assumes "walk_inv start interval w"
  obtains w' where "walk_step M start interval sig w = Some w'" "walk_inv start interval w'" "w_i w' = w_i w + 1"
    "\<exists>x. w_prices w' = w_prices w @ [x]"
proof -
  obtain n a where n: "normal M (w_rng w) = Some (n, a)" by (rule normal_ends)
  have "nat (w_i w + 1) = Suc (nat (w_i w))" "int (Suc (nat (w_i w))) = w_i w + 1"
    using assms by (auto simp: walk_inv_def)
  then show ?thesis
    using assms by (intro that) (auto simp: walk_step_def n walk_inv_def Let_def)
qed

lemma walk_steps_inv:
  assumes "walk_inv start interval w"
  obtains w' where "walk_steps M start interval sig k w = Some w'" "walk_inv start interval w'"
    "w_i w' = w_i w + int k" "\<exists>xs. w_prices w' = w_prices w @ xs"
proof -
  have "\<exists>w'. walk_steps M start interval sig k w = Some w' \<and> walk_inv start interval w'
      \<and> w_i w' = w_i w + int k \<and> (\<exists>xs. w_prices w' = w_prices w @ xs)"
    using assms
  proof (induction k arbitrary: w)
    case (Suc k)
    obtain w1 where w1: "walk_step M start interval sig w = Some w1" "walk_inv start interval w1"
      "w_i w1 = w_i w + 1" "\<exists>x. w_prices w1 = w_prices w @ [x]"
      by (rule walk_step_inv [OF Suc.prems])
    then show ?case using Suc.IH [OF w1(2)] by fastforce
  qed simp
  then show ?thesis using that by blast
qed

lemma walk_segments_inv:
  assumes "walk_inv start interval w"
  obtains w' where "walk_segments M start interval segs w = Some w'" "walk_inv start interval w'"
    "w_i w' = w_i w + sum_list (map (\<lambda>(s, k). max 0 k) segs)" "\<exists>xs. w_prices w' = w_prices w @ xs"
proof -
  have "\<exists>w'. walk_segments M start interval segs w = Some w' \<and> walk_inv start interval w'
      \<and> w_i w' = w_i w + sum_list (map (\<lambda>(s, k). max 0 k) segs) \<and> (\<exists>xs. w_prices w' = w_prices w @ xs)"
    using assms
  proof (induction segs arbitrary: w)
    case (Cons sk segs)
    obtain s k where sk: "sk = (s, k)" by (cases sk)
    let ?sig = "fl (sg_vol s * math_sqrt M (fl (of_int interval / 31536000)))"
    obtain w1 where w1: "walk_steps M start interval ?sig (nat k) w = Some w1" "walk_inv start interval w1"
      "w_i w1 = w_i w + int (nat k)" "\<exists>xs. w_prices w1 = w_prices w @ xs"
      by (rule walk_steps_inv [OF Cons.prems])
    then show ?case using Cons.IH [OF w1(2)] by (fastforce simp: sk Let_def)
  qed simp
  then show ?thesis using that by blast
qed

lemma segment_steps_sum: "segs \<noteq> [] \<Longrightarrow> sum_list (segment_steps n segs) = n"
  by (simp add: segment_steps_def Let_def)

lemma segment_steps_length [simp]: "length (segment_steps n segs) = length segs"
  by (cases segs rule: rev_cases) (simp_all add: segment_steps_def Let_def)

lemma zip_steps_sum:
  "length ks = length segs \<Longrightarrow> \<forall>k\<in>set ks. (0::int) \<le> k \<Longrightarrow>
   sum_list (map (\<lambda>(s, k). max 0 k) (zip segs ks)) = sum_list ks"
proof (induction segs ks rule: list_induct2')
  case (4 s segs k ks)
  then show ?case by simp
qed simp_all

definition start_walk :: "int \<Rightarrow> rat \<Rightarrow> int \<Rightarrow> walk" where
  "start_walk start spot seed =
     \<lparr>w_i = 0, w_price = spot, w_rng = rng seed, w_times = [start], w_prices = [spot]\<rparr>"

lemma start_walk_inv: "walk_inv start interval (start_walk start spot seed)"
  by (simp add: walk_inv_def start_walk_def)

lemma buildPath_ends:
  obtains p w where "buildPath M start fin interval spot segs seed = Some p"
    "walk_inv start interval w" "pa_times p = w_times w" "pa_prices p = w_prices w"
    "pa_start p = start" "pa_interval p = interval" "pa_prices p ! 0 = spot"
    "w_i w = sum_list (map (\<lambda>(s, k). max 0 k) (zip segs
        (segment_steps (math_round (fl (of_int (fin - start) / of_int interval))) segs)))"
proof -
  let ?segs = "zip segs (segment_steps (math_round (fl (of_int (fin - start) / of_int interval))) segs)"
  obtain w where w: "walk_segments M start interval ?segs (start_walk start spot seed) = Some w"
    "walk_inv start interval w"
    "w_i w = w_i (start_walk start spot seed) + sum_list (map (\<lambda>(s, k). max 0 k) ?segs)"
    "\<exists>xs. w_prices w = w_prices (start_walk start spot seed) @ xs"
    by (rule walk_segments_inv [OF start_walk_inv])
  have "w_prices w ! 0 = spot" using w(4) by (auto simp: start_walk_def)
  moreover have "w_i w = sum_list (map (\<lambda>(s, k). max 0 k) ?segs)"
    using w(3) by (simp add: start_walk_def)
  ultimately show ?thesis
    using w(1,2)
    by (intro that [of "\<lparr>pa_start = start, pa_interval = interval, pa_times = w_times w,
        pa_prices = w_prices w\<rparr>" w]) (simp_all add: buildPath_def Let_def start_walk_def)
qed

lemma path_at_grid:
  assumes "0 < pa_interval p" "k < length (pa_prices p)" "0 \<le> d" "d < pa_interval p"
  shows "path_at p (pa_start p + int k * pa_interval p + d) = pa_prices p ! k"
proof (cases "pa_start p + int k * pa_interval p + d \<le> pa_start p")
  case True
  moreover have "0 \<le> int k * pa_interval p" using assms by simp
  ultimately have "int k * pa_interval p = 0" using assms(3) by linarith
  then have "k = 0" using assms(1) by simp
  then show ?thesis using True by (simp add: path_at_def)
next
  case False
  have "(int k * pa_interval p + d) div pa_interval p = int k" using assms by simp
  then have e: "(pa_start p + int k * pa_interval p + d - pa_start p) div pa_interval p = int k"
    by (simp only: add.assoc add_diff_cancel_left')
  have "min (int (length (pa_prices p)) - 1) (int k) = int k" using assms(2) by simp
  then show ?thesis using False by (simp only: path_at_def e if_False Let_def nat_int)
qed

lemma variance_loop_ends:
  assumes "0 < interval"
  shows "\<exists>x. variance_loop M p fin interval t acc = Some x"
proof (induction "nat (fin - t + 1)" arbitrary: t acc rule: less_induct)
  case less
  show ?case
  proof (cases "t \<le> fin")
    case True
    then show ?thesis
      using less [of "t + interval"] assms by (subst variance_loop.simps) (simp add: Let_def)
  qed (simp add: variance_loop.simps)
qed

lemma pathVariance_ends:
  assumes "0 < interval"
  obtains x where "pathVariance M p start fin interval = Some x"
  using variance_loop_ends [OF assms, of M p fin "start + interval" 0] that by (auto simp: pathVariance_def)

lemma path_grid_exact:
  assumes i: "0 < interval" and n: "fin - start = n * interval" "0 \<le> n" "n < 2 ^ 53"
    and s: "segs \<noteq> []" "\<forall>k\<in>set (segment_steps n segs). 0 \<le> k"
  obtains p where "buildPath M start fin interval spot segs seed = Some p"
    "pa_times p = map (\<lambda>k. start + int k * interval) [0..<nat n + 1]"
    "length (pa_prices p) = nat n + 1" "pa_prices p ! 0 = spot" "pa_start p = start" "pa_interval p = interval"
proof -
  have "of_int (fin - start) / of_int interval = (of_int n :: rat)" using i by (simp add: n(1))
  then have r: "math_round (fl (of_int (fin - start) / of_int interval)) = n"
    using n(2,3) by (simp add: fl_of_int math_round_def)
      (simp add: floor_unique)
  obtain p w where p: "buildPath M start fin interval spot segs seed = Some p"
    "walk_inv start interval w" "pa_times p = w_times w" "pa_prices p = w_prices w"
    "pa_start p = start" "pa_interval p = interval" "pa_prices p ! 0 = spot"
    "w_i w = sum_list (map (\<lambda>(s, k). max 0 k) (zip segs
        (segment_steps (math_round (fl (of_int (fin - start) / of_int interval))) segs)))"
    by (rule buildPath_ends)
  have "w_i w = n"
    using p(8) s unfolding r by (simp add: zip_steps_sum segment_steps_sum)
  then show ?thesis using p by (intro that) (auto simp: walk_inv_def)
qed

subsection \<open>What the generator promises\<close>

text \<open>A path over a whole number of sampling intervals covers the series' grid exactly, whatever the
  rounding of the segments: one time and one price per grid point from the spot on, and the price read
  at any moment is the price of the last grid point at or before it.\<close>

theorem path_covers_grid:
  assumes "0 < interval" "fin - start = n * interval" "0 \<le> n" "n < 2 ^ 53"
    and "segs \<noteq> []" "\<forall>k\<in>set (segment_steps n segs). 0 \<le> k"
  shows "\<exists>p. buildPath M start fin interval spot segs seed = Some p
    \<and> pa_times p = map (\<lambda>k. start + int k * interval) [0..<nat n + 1]
    \<and> length (pa_prices p) = nat n + 1 \<and> path_at p start = spot
    \<and> (\<forall>k\<le>nat n. \<forall>d\<in>{0..<interval}. path_at p (start + int k * interval + d) = pa_prices p ! k)"
proof -
  obtain p where p: "buildPath M start fin interval spot segs seed = Some p"
    "pa_times p = map (\<lambda>k. start + int k * interval) [0..<nat n + 1]"
    "length (pa_prices p) = nat n + 1" "pa_prices p ! 0 = spot" "pa_start p = start" "pa_interval p = interval"
    by (rule path_grid_exact [OF assms])
  have "path_at p (start + int k * interval + d) = pa_prices p ! k" if "k \<le> nat n" "d \<in> {0..<interval}" for k d
    using path_at_grid [of p k d] p that assms(1) by simp
  moreover have "path_at p start = spot" using p by (simp add: path_at_def)
  ultimately show ?thesis using p(1-3) by blast
qed

theorem path_covers_grid_witness:
  "\<exists>p. buildPath \<lparr>math_exp = \<lambda>x. 1, math_log = \<lambda>x. x, math_sqrt = \<lambda>x. x, math_cos = \<lambda>x. x\<rparr> 100 14500 7200 3000
      [\<lparr>sg_share = 1/2, sg_vol = 1\<rparr>, \<lparr>sg_share = 1/2, sg_vol = 2\<rparr>] 1 = Some p \<and> length (pa_prices p) = 3"
proof -
  have f: "fl (1 :: rat) = 1" using fl_of_int [of 1] by simp
  have "segment_steps 2 [\<lparr>sg_share = 1/2, sg_vol = 1\<rparr>, \<lparr>sg_share = 1/2, sg_vol = 2\<rparr>] = [1, 1]"
    by (simp add: segment_steps_def f)
  then show ?thesis
    using path_covers_grid [of 7200 14500 100 2 "[\<lparr>sg_share = 1/2, sg_vol = 1\<rparr>, \<lparr>sg_share = 1/2, sg_vol = 2\<rparr>]"
        "\<lparr>math_exp = \<lambda>x. 1, math_log = \<lambda>x. x, math_sqrt = \<lambda>x. x, math_cos = \<lambda>x. x\<rparr>" 3000 1]
    by auto
qed

text \<open>The redraw loop of the Box-Muller transform ends from every state of the generator, with a draw
  strictly between 0 and 1, so a normal draw always returns.\<close>

theorem normal_returns:
  "(\<exists>u a'. draw_nonzero a = Some (u, a') \<and> 0 < u \<and> u < 1) \<and> (\<exists>r. normal M a = Some r)"
  using draw_nonzero_ends normal_ends by metis

end
