(* ===== verification/Js_String.thy ===== *)
theory Js_String
  imports Tremor_Prelude Js_Number
begin

text \<open>
  Numbers as text: the decimal digits a template string or \<open>BigInt.prototype.toString\<close> prints, what
  \<open>BigInt(...)\<close> reads back from them, and \<open>Number.prototype.toFixed\<close>.
\<close>

subsection \<open>Decimal digits\<close>

definition digit_char :: "int \<Rightarrow> char" where
  "digit_char d = char_of (48 + nat d)"

definition is_digit :: "char \<Rightarrow> bool" where
  "is_digit c \<longleftrightarrow> 48 \<le> (of_char c :: nat) \<and> (of_char c :: nat) \<le> 57"

definition digit_val :: "char \<Rightarrow> int" where
  "digit_val c = int (of_char c) - 48"

function dec_digits :: "int \<Rightarrow> string" where
  "dec_digits n = (if n < 10 then [digit_char n] else dec_digits (n div 10) @ [digit_char (n mod 10)])"
  by pat_completeness auto
termination
  by (relation "measure nat") auto

declare dec_digits.simps [simp del]

definition dec_string :: "int \<Rightarrow> string" where
  "dec_string n = (if n < 0 then ''-'' @ dec_digits (- n) else dec_digits n)"

definition digits_val :: "string \<Rightarrow> int" where
  "digits_val cs = fold (\<lambda>c a. a * 10 + digit_val c) cs 0"

lemma digit_char_val:
  assumes "0 \<le> d" "d < 10"
  shows "digit_val (digit_char d) = d" "is_digit (digit_char d)"
proof -
  have c: "(of_char (digit_char d) :: nat) = 48 + nat d"
    using assms by (simp add: digit_char_def)
  then show "is_digit (digit_char d)" using assms by (simp add: is_digit_def)
  show "digit_val (digit_char d) = d" using assms c by (simp add: digit_val_def)
qed

lemma digits_val_snoc [simp]: "digits_val (cs @ [c]) = digits_val cs * 10 + digit_val c"
  by (simp add: digits_val_def)

lemma digits_val_Nil [simp]: "digits_val [] = 0"
  by (simp add: digits_val_def)

lemma dec_digits_digits:
  assumes "0 \<le> n"
  shows "list_all is_digit (dec_digits n)" "dec_digits n \<noteq> []"
proof -
  show "list_all is_digit (dec_digits n)"
    using assms by (induction n rule: dec_digits.induct) (subst dec_digits.simps, auto simp: digit_char_val)
  show "dec_digits n \<noteq> []" by (subst dec_digits.simps) simp
qed

lemma digits_val_dec_digits [simp]: "0 \<le> n \<Longrightarrow> digits_val (dec_digits n) = n"
proof (induction n rule: dec_digits.induct)
  case (1 n)
  show ?case
  proof (cases "n < 10")
    case True
    then show ?thesis
      using 1 digits_val_snoc [of "[]" "digit_char n"] by (simp add: dec_digits.simps digit_char_val)
  next
    case False
    then show ?thesis
      using 1 by (subst dec_digits.simps) (simp add: digit_char_val)
  qed
qed

lemma digits_val_append: "digits_val (xs @ ys) = digits_val xs * 10 ^ length ys + digits_val ys"
  by (induction ys rule: rev_induct) (simp_all add: append_assoc [symmetric] algebra_simps del: append_assoc)

lemma digits_val_zeros [simp]: "digits_val (replicate n (CHR ''0'')) = 0"
proof (induction n)
  case (Suc n)
  have "replicate (Suc n) (CHR ''0'') = replicate n (CHR ''0'') @ [CHR ''0'']"
    by (simp add: replicate_append_same)
  then show ?case using Suc by (simp only: digits_val_snoc) (simp add: digit_val_def)
qed simp

lemma digits_val_bounds: "list_all is_digit cs \<Longrightarrow> 0 \<le> digits_val cs \<and> digits_val cs < 10 ^ length cs"
proof (induction cs rule: rev_induct)
  case (snoc c cs)
  have "0 \<le> digit_val c" "digit_val c \<le> 9"
    using snoc.prems by (auto simp: digit_val_def is_digit_def)
  then show ?case using snoc by auto
qed simp

text \<open>\<open>padStart(w, "0")\<close> and \<open>padEnd(w, "0")\<close>.\<close>

definition pad_start :: "nat \<Rightarrow> string \<Rightarrow> string" where
  "pad_start w s = replicate (w - length s) (CHR ''0'') @ s"

definition pad_end :: "nat \<Rightarrow> string \<Rightarrow> string" where
  "pad_end w s = s @ replicate (w - length s) (CHR ''0'')"

lemma pad_length [simp]:
  "length (pad_start w s) = max w (length s)" "length (pad_end w s) = max w (length s)"
  by (simp_all add: pad_start_def pad_end_def)

lemma digits_val_pad [simp]:
  "digits_val (pad_start w s) = digits_val s"
  "digits_val (pad_end w s) = digits_val s * 10 ^ (w - length s)"
  by (simp_all add: pad_start_def pad_end_def digits_val_append)

text \<open>\<open>xs.join(sep)\<close>.\<close>

fun join_with :: "string \<Rightarrow> string list \<Rightarrow> string" where
  "join_with sep [] = ''''"
| "join_with sep [x] = x"
| "join_with sep (x # y # ys) = x @ sep @ join_with sep (y # ys)"

subsection \<open>Fixed-point text\<close>

text \<open>\<open>toFixed(d)\<close> below \<open>10 ^ 21\<close>: the nearest multiple of \<open>10 ^ - d\<close>, the larger one of a tie.\<close>

definition to_fixed :: "nat \<Rightarrow> rat \<Rightarrow> string" where
  "to_fixed d x =
     (let n = \<lfloor>\<bar>x\<bar> * 10 ^ d + 1/2\<rfloor>;
          ds = pad_start (d + 1) (dec_digits n);
          cut = length ds - d;
          body = (if d = 0 then ds else take cut ds @ ''.'' @ drop cut ds)
      in if x < 0 then ''-'' @ body else body)"

text \<open>\<open>Number(n)\<close> of a bigint, and a WAD read as a number.\<close>

definition js_Number :: "int \<Rightarrow> rat" where
  "js_Number n = fl (of_int n)"

definition wadNumber :: "int \<Rightarrow> rat" where
  "wadNumber n = fl (js_Number n / 10 ^ 18)"

end
