(* ===== verification/Sim_Scenarios.thy ===== *)
theory Sim_Scenarios
  imports Sim_Market Sim_Paths Js_String
begin

text \<open>
  The scenario driver of \<open>sim/src/scenarios.ts\<close>: the run's mutable variables as one record, the
  context a scenario's flow acts through, the ten scenarios, and \<open>runScenario\<close> itself. A
  \<open>Map<string, Holder>\<close> is the list of its values in insertion order, keyed by the holder's name. An
  exception ends the run, so a step that throws returns the error alone.
\<close>

subsection \<open>Parameters and specifications\<close>

definition HOUR :: int where "HOUR = 3600"
definition DAY :: int where "DAY = 86400"
definition USDC :: int where "USDC = 1000000"

definition baseParams :: "int \<Rightarrow> (series_params \<Rightarrow> series_params) \<Rightarrow> series_params" where
  "baseParams now over = over
     \<lparr>p_start = now, p_expiry = now + 7 * DAY, p_saleEnd = now + (7 * DAY) div 4,
      p_sampleInterval = 2 * HOUR, p_unitNotional = 100 * USDC, p_capVariance = WAD,
      p_anchorVariance = 16 * 10 ^ 16, p_impactPerUnit = 8 * 10 ^ 14, p_halfLife = 6 * HOUR,
      p_halfSpreadBps = 200, p_maxUnits = 400 * WAD\<rparr>"

record holder =
  h_name :: string
  h_units :: int
  h_paid :: int
  h_received :: int

record sibling =
  sib_series :: series
  sib_path :: path
  sib_units :: int

text \<open>The variables of one run.\<close>

record run_state =
  r_vault :: vault
  r_series :: series
  r_path :: path
  r_sibs :: "sibling list"
  r_holders :: "holder list"
  r_rng :: "32 word"
  r_calls :: int
  r_largest :: int
  r_partial :: int
  r_invariants :: "string list"
  r_notes :: "string list"

type_synonym step_result = "js_error + run_state"
type_synonym flow = "js_math \<Rightarrow> int \<Rightarrow> int \<Rightarrow> run_state \<Rightarrow> step_result"

record extra_series =
  xs_params :: "series_params \<Rightarrow> series_params"
  xs_segments :: "segment list"

record scenario_spec =
  sc_key :: string
  sc_segments :: "segment list"
  sc_params :: "series_params \<Rightarrow> series_params"
  sc_extra :: "extra_series list"
  sc_collateral :: int
  sc_flow :: flow

subsection \<open>Holders\<close>

fun find_holder :: "holder list \<Rightarrow> string \<Rightarrow> holder option" where
  "find_holder [] n = None"
| "find_holder (h # hs) n = (if h_name h = n then Some h else find_holder hs n)"

definition holder_of :: "holder list \<Rightarrow> string \<Rightarrow> holder" where
  "holder_of hs n = (case find_holder hs n of Some h \<Rightarrow> h
     | None \<Rightarrow> \<lparr>h_name = n, h_units = 0, h_paid = 0, h_received = 0\<rparr>)"

definition ensure_holder :: "holder list \<Rightarrow> string \<Rightarrow> holder list" where
  "ensure_holder hs n = (case find_holder hs n of Some h \<Rightarrow> hs | None \<Rightarrow> hs @ [holder_of hs n])"

definition update_holder :: "string \<Rightarrow> (holder \<Rightarrow> holder) \<Rightarrow> holder list \<Rightarrow> holder list" where
  "update_holder n f hs = map (\<lambda>h. if h_name h = n then f h else h) hs"

subsection \<open>Loops over a list that may throw\<close>

fun for_each :: "('x \<Rightarrow> 's \<Rightarrow> js_error + 's) \<Rightarrow> 'x list \<Rightarrow> 's \<Rightarrow> js_error + 's" where
  "for_each f [] s = Inr s"
| "for_each f (x # xs) s = andThen (f x s) (for_each f xs)"

subsection \<open>Bringing a window current\<close>

text \<open>Bounded 32-sample calls until the series is current; the number of calls and the largest batch.\<close>

function bring_loop ::
  "js_math \<Rightarrow> int \<Rightarrow> (int \<Rightarrow> rat) \<Rightarrow> series \<Rightarrow> int \<Rightarrow> int \<Rightarrow> series \<times> int \<times> int" where
  "bring_loop M t pr s calls largest =
     (if isCurrent t s then (s, calls, largest)
      else let (s', stored) = checkpoint M t pr 32 s;
               calls' = calls + 1;
               largest' = (if stored > largest then stored else largest)
           in if stored = 0 then (s', calls', largest') else bring_loop M t pr s' calls' largest')"
  by pat_completeness auto
termination
  by (relation "measure (\<lambda>(M, t, pr, s, c, l). nat (availableSamples t s - s_samplesStored s))")
    (auto simp: isCurrent_def checkpoint_eq batch_size_def)

declare bring_loop.simps [simp del]

definition bringCurrent :: "js_math \<Rightarrow> int \<Rightarrow> run_state \<Rightarrow> run_state" where
  "bringCurrent M t st =
     (let (s, c, l) = bring_loop M t (path_at (r_path st)) (r_series st) (r_calls st) (r_largest st)
      in st\<lparr>r_series := s, r_calls := c, r_largest := l\<rparr>)"

definition bringSibCurrent :: "js_math \<Rightarrow> int \<Rightarrow> nat \<Rightarrow> run_state \<Rightarrow> run_state" where
  "bringSibCurrent M t j st =
     (let sib = r_sibs st ! j;
          (s, c, l) = bring_loop M t (path_at (sib_path sib)) (sib_series sib) (r_calls st) (r_largest st)
      in st\<lparr>r_sibs := (r_sibs st)[j := sib\<lparr>sib_series := s\<rparr>], r_calls := c, r_largest := l\<rparr>)"

subsection \<open>The context of a flow\<close>

definition ctx_sync :: "js_math \<Rightarrow> int \<Rightarrow> run_state \<Rightarrow> step_result" where
  "ctx_sync M t st = Inr (bringCurrent M t st)"

definition bump_partial :: "fill \<Rightarrow> run_state \<Rightarrow> run_state" where
  "bump_partial f st = (if f_partial f then st\<lparr>r_partial := r_partial st + 1\<rparr> else st)"

definition buy :: "js_math \<Rightarrow> int \<Rightarrow> string \<Rightarrow> int \<Rightarrow> run_state \<Rightarrow> step_result" where
  "buy M t name amountIn st0 =
     (let st = bringCurrent M t st0 in
      andThen (issue M t name amountIn (r_vault st) (r_series st)) (\<lambda>(v, s, fill).
        let st1 = st\<lparr>r_vault := v, r_series := s\<rparr> in
        case fill of None \<Rightarrow> Inr st1
        | Some f \<Rightarrow> Inr (bump_partial f (st1\<lparr>r_holders :=
            update_holder name (\<lambda>h. h\<lparr>h_units := h_units h + f_units f, h_paid := h_paid h + f_quote f\<rparr>)
              (ensure_holder (r_holders st1) name)\<rparr>))))"

definition exitUnits :: "js_math \<Rightarrow> int \<Rightarrow> string \<Rightarrow> int \<Rightarrow> run_state \<Rightarrow> step_result" where
  "exitUnits M t name units st0 =
     (let st1 = st0\<lparr>r_holders := ensure_holder (r_holders st0) name\<rparr>;
          want = min_big units (h_units (holder_of (r_holders st1) name))
      in if want \<le> 0 then Inr st1
         else let st = bringCurrent M t st1 in
           andThen (exit M t name want (r_vault st) (r_series st)) (\<lambda>(v, s, fill).
             let st2 = st\<lparr>r_vault := v, r_series := s\<rparr> in
             case fill of None \<Rightarrow> Inr st2
             | Some f \<Rightarrow> Inr (bump_partial f (st2\<lparr>r_holders :=
                 update_holder name (\<lambda>h. h\<lparr>h_units := h_units h - f_units f,
                     h_received := h_received h + f_quote f\<rparr>) (r_holders st2)\<rparr>))))"

definition ctx_stop :: "run_state \<Rightarrow> step_result" where
  "ctx_stop st = Inr (st\<lparr>r_series := stopIssuance (r_series st)\<rparr>)"

text \<open>\<open>for (const h of ctx.holders.values()) ctx.exitUnits(h.name, h.units / k)\<close>\<close>

definition exit_all :: "js_math \<Rightarrow> int \<Rightarrow> int \<Rightarrow> run_state \<Rightarrow> step_result" where
  "exit_all M t k st =
     for_each (\<lambda>n st. exitUnits M t n (bdiv (h_units (holder_of (r_holders st) n)) k) st)
       (map h_name (r_holders st)) st"

subsection \<open>One step of the window\<close>

definition step_time :: "series_params \<Rightarrow> int \<Rightarrow> int" where
  "step_time p step = p_start p + step * p_sampleInterval p"

text \<open>\<open>if (!ok) invariants.push(label)\<close>\<close>

definition check :: "string \<Rightarrow> bool \<Rightarrow> run_state \<Rightarrow> run_state" where
  "check label ok st = (if ok then st else st\<lparr>r_invariants := r_invariants st @ [label]\<rparr>)"

definition push_note :: "string \<Rightarrow> run_state \<Rightarrow> run_state" where
  "push_note n st = st\<lparr>r_notes := r_notes st @ [n]\<rparr>"

definition sib_name :: "series \<Rightarrow> string" where
  "sib_name s = ''sib'' @ dec_string (s_id s)"

definition sib_trickle :: "js_math \<Rightarrow> int \<Rightarrow> int \<Rightarrow> nat \<Rightarrow> run_state \<Rightarrow> step_result" where
  "sib_trickle M t step j st0 =
     (if issuanceOpen t (sib_series (r_sibs st0 ! j)) \<and> step mod 6 = 0
      then let st = bringSibCurrent M t j st0;
               sib = r_sibs st ! j
           in andThen (issue M t (sib_name (sib_series sib)) (400 * USDC) (r_vault st) (sib_series sib))
                (\<lambda>(v, s, fill).
                  let bought = (case fill of None \<Rightarrow> 0 | Some f \<Rightarrow> f_units f) in
                  Inr (st\<lparr>r_vault := v, r_sibs := (r_sibs st)[j :=
                    sib\<lparr>sib_series := s, sib_units := sib_units sib + bought\<rparr>]\<rparr>))
      else Inr st0)"

definition run_snapshot :: "js_math \<Rightarrow> int \<Rightarrow> run_state \<Rightarrow> step_result" where
  "run_snapshot M t st =
     andThen (take_snapshot M t (r_vault st) (r_series st)) (\<lambda>(s, sn). Inr (st\<lparr>r_series := s\<rparr>))"

definition step_checks :: "int \<Rightarrow> run_state \<Rightarrow> run_state" where
  "step_checks step st =
     (let p = s_params (r_series st);
          st1 = check (''vault solvency at t+'' @ dec_string step)
                  (v_balance (r_vault st) \<ge> v_locked (r_vault st)) st
      in check (''series liability never exceeds the cap reservation at t+'' @ dec_string step)
           (s_lockedLiability (r_series st1)
              \<le> maxLiability (s_outstandingUnits (r_series st1)) (p_unitNotional p) (p_capVariance p)
                + (if s_finalized (r_series st1) then 0 else 1)) st1)"

definition window_step :: "js_math \<Rightarrow> flow \<Rightarrow> series_params \<Rightarrow> int \<Rightarrow> run_state \<Rightarrow> step_result" where
  "window_step M flow p step st =
     (let t = step_time p step in
      andThen (if t < p_expiry p then flow M t step st else Inr st) (\<lambda>st1.
      andThen (for_each (sib_trickle M t step) [0..<length (r_sibs st1)] st1) (\<lambda>st2.
      andThen (run_snapshot M t st2) (\<lambda>st3.
        Inr (step_checks step st3)))))"

definition window_steps :: "series_params \<Rightarrow> rat" where
  "window_steps p = fl (of_int (p_expiry p - p_start p) / of_int (p_sampleInterval p))"

function window_loop :: "js_math \<Rightarrow> flow \<Rightarrow> series_params \<Rightarrow> int \<Rightarrow> run_state \<Rightarrow> step_result" where
  "window_loop M flow p step st =
     (if of_int step \<le> window_steps p
      then andThen (window_step M flow p step st) (window_loop M flow p (step + 1))
      else Inr st)"
  by pat_completeness auto
termination
  by (relation "measure (\<lambda>(M, flow, p, step, st). nat (\<lfloor>window_steps p\<rfloor> + 1 - step))")
    (auto simp: le_floor_iff)

declare window_loop.simps [simp del]

subsection \<open>Expiry, finalization, redemption\<close>

definition sib_finalize :: "int \<Rightarrow> nat \<Rightarrow> run_state \<Rightarrow> step_result" where
  "sib_finalize t j st =
     (let sib = r_sibs st ! j; s = sib_series sib in
      if \<not> s_finalized s \<and> of_int (s_samplesStored s) \<ge> totalSamples s
      then andThen (finalize t (r_vault st) s) (\<lambda>(v, s', r).
             Inr (st\<lparr>r_vault := v, r_sibs := (r_sibs st)[j := sib\<lparr>sib_series := s'\<rparr>]\<rparr>))
      else Inr st)"

definition sib_redeem :: "int \<Rightarrow> nat \<Rightarrow> run_state \<Rightarrow> step_result" where
  "sib_redeem t j st =
     (let sib = r_sibs st ! j; s = sib_series sib in
      if sib_units sib \<le> 0 then Inr st
      else andThen
        (if s_payoutPerUnit s = 0 then burnWorthless (sib_units sib) (r_vault st) s
         else andThen (settle t (sib_name s) (sib_units sib) (r_vault st) s) (\<lambda>(v, s', f). Inr (v, s')))
        (\<lambda>(v, s'). Inr (st\<lparr>r_vault := v,
           r_sibs := (r_sibs st)[j := sib\<lparr>sib_series := s', sib_units := 0\<rparr>]\<rparr>)))"

definition holder_burn :: "string \<Rightarrow> run_state \<Rightarrow> step_result" where
  "holder_burn n st =
     (let h = holder_of (r_holders st) n in
      if h_units h > 0
      then andThen (burnWorthless (h_units h) (r_vault st) (r_series st)) (\<lambda>(v, s).
             Inr (st\<lparr>r_vault := v, r_series := s,
                     r_holders := update_holder n (\<lambda>h. h\<lparr>h_units := 0\<rparr>) (r_holders st)\<rparr>))
      else Inr st)"

definition holder_redeem :: "int \<Rightarrow> string \<Rightarrow> run_state \<Rightarrow> step_result" where
  "holder_redeem t n st =
     (let h = holder_of (r_holders st) n in
      if h_units h \<le> 0 then Inr st
      else andThen (settle t n (h_units h) (r_vault st) (r_series st)) (\<lambda>(v, s, fill).
        let st1 = st\<lparr>r_vault := v, r_series := s\<rparr> in
        case fill of None \<Rightarrow> Inr st1
        | Some f \<Rightarrow> Inr (bump_partial f (st1\<lparr>r_holders :=
            update_holder n (\<lambda>h. h\<lparr>h_units := h_units h - f_units f,
                h_received := h_received h + f_quote f\<rparr>) (r_holders st1)\<rparr>))))"

definition zero_note :: string where
  "zero_note = ''Finalized at zero realized variance: the SETTLE leg cannot pay a zero output, so the holders' receipts are burned through burnWorthless, which still releases the reservation.''"

definition redeem_all :: "int \<Rightarrow> run_state \<Rightarrow> step_result" where
  "redeem_all t st =
     (if s_payoutPerUnit (r_series st) = 0 \<and> s_outstandingUnits (r_series st) > 0
      then for_each holder_burn (map h_name (r_holders st)) (push_note zero_note st)
      else for_each (holder_redeem t) (map h_name (r_holders st)) st)"

definition sib_close :: "nat \<Rightarrow> run_state \<Rightarrow> step_result" where
  "sib_close j st =
     (let sib = r_sibs st ! j in
      if s_outstandingUnits (sib_series sib) = 0
      then andThen (close (r_vault st) (sib_series sib)) (\<lambda>(v, s).
             Inr (st\<lparr>r_vault := v, r_sibs := (r_sibs st)[j := sib\<lparr>sib_series := s\<rparr>]\<rparr>))
      else Inr st)"

definition totalPremium :: "series \<Rightarrow> sibling list \<Rightarrow> int" where
  "totalPremium s sibs = s_premiumTaken s + sum_list (map (\<lambda>x. s_premiumTaken (sib_series x)) sibs)"

definition totalPaid :: "series \<Rightarrow> sibling list \<Rightarrow> int" where
  "totalPaid s sibs = s_exitPaid s + s_settlePaid s
     + sum_list (map (\<lambda>x. s_exitPaid (sib_series x) + s_settlePaid (sib_series x)) sibs)"

text \<open>From the last step of the window to the closed series; the amount finalization released.\<close>

definition wind_up :: "js_math \<Rightarrow> series_params \<Rightarrow> int \<Rightarrow> run_state \<Rightarrow> js_error + (run_state \<times> int)" where
  "wind_up M p collateral st0 =
     (let t = p_expiry p;
          st1 = fold (bringSibCurrent M t) [0..<length (r_sibs st0)] (bringCurrent M t st0);
          lockedBefore = v_locked (r_vault st1);
          sibs = [0..<length (r_sibs st1)]
      in andThen (finalize t (r_vault st1) (r_series st1)) (\<lambda>(v, s, released).
         andThen (for_each (sib_finalize t) sibs (st1\<lparr>r_vault := v, r_series := s\<rparr>)) (\<lambda>st2.
         andThen (for_each (sib_redeem t) sibs st2) (\<lambda>st3.
         andThen (redeem_all t (check ''finalization released no more than was locked''
            (released \<le> lockedBefore) st3)) (\<lambda>st4.
         andThen (run_snapshot M t st4) (\<lambda>st5.
           let st6 = check ''every claim was extinguished'' (s_outstandingUnits (r_series st5) = 0) st5;
               st7 = check ''no liability remains after redemption'' (s_lockedLiability (r_series st6) = 0) st6;
               st8 = check ''vault solvency after redemption'' (v_balance (r_vault st7) \<ge> v_locked (r_vault st7)) st7
           in andThen (close (r_vault st8) (r_series st8)) (\<lambda>(v, s).
              andThen (for_each sib_close sibs (st8\<lparr>r_vault := v, r_series := s\<rparr>)) (\<lambda>st9.
                let st10 = check ''all capital is free once every series is closed'' (v_locked (r_vault st9) = 0) st9;
                    st11 = check ''the vault's balance equals deposits plus premiums minus payouts''
                      (v_balance (r_vault st10) = collateral + totalPremium (r_series st10) (r_sibs st10)
                         - totalPaid (r_series st10) (r_sibs st10)) st10
                in Inr (st11, released)))))))))"

subsection \<open>Metrics\<close>

definition leg_units :: "leg \<Rightarrow> series \<Rightarrow> int" where
  "leg_units l s = sum_list (map f_units (filter (\<lambda>f. f_leg f = l) (s_fills s)))"

definition peakLocked :: "snapshot list \<Rightarrow> int" where
  "peakLocked sns = fold (\<lambda>s a. if sn_vaultLocked s > a then sn_vaultLocked s else a) sns 0"

definition utilization :: "snapshot \<Rightarrow> rat" where
  "utilization s = (if sn_vaultBalance s = 0 then 0
     else fl (js_Number (bdiv (sn_vaultLocked s * 10000) (sn_vaultBalance s)) / 100))"

definition meanUtilizationPct :: "snapshot list \<Rightarrow> rat" where
  "meanUtilizationPct sns =
     fl (fold (\<lambda>s a. fl (a + utilization s)) sns 0 / of_int (int (length sns)))"

record lvr =
  lv_poolValue :: int
  lv_hedgeUnits :: int
  lv_hedgeCost :: int
  lv_expectedLvr :: int
  lv_hedgePayout :: int
  lv_residual :: int

definition run_lvr :: "js_math \<Rightarrow> series_params \<Rightarrow> path \<Rightarrow> series \<Rightarrow> js_error + lvr" where
  "run_lvr M p pth s =
     (let poolValue = 1000000 * USDC; horizon = p_expiry p - p_start p in
      andThen (bigDiv (poolValue * horizon * WAD) (8 * YEAR * p_unitNotional p)) (\<lambda>hedgeUnits.
      andThen (quote_at M (p_start p) s) (\<lambda>q0.
      andThen (or_diverge (pathVariance M pth (p_start p) (p_expiry p) (p_sampleInterval p))) (\<lambda>pv.
        let hedgeCost = issuePremium (q_askVariance q0) (q_askSlope q0) (p_unitNotional p) hedgeUnits;
            realizedVarianceWad = math_round (fl (pv * 10 ^ 18));
            expectedLvr = bdiv (poolValue * realizedVarianceWad * horizon) (8 * YEAR * WAD);
            hedgePayout = settleProceeds hedgeUnits (s_payoutPerUnit s)
        in Inr \<lparr>lv_poolValue = poolValue, lv_hedgeUnits = hedgeUnits, lv_hedgeCost = hedgeCost,
             lv_expectedLvr = expectedLvr, lv_hedgePayout = hedgePayout,
             lv_residual = hedgePayout - hedgeCost - expectedLvr\<rparr>))))"

record scenario_result =
  o_key :: string
  o_realizedVolPct :: rat
  o_openingAskVolPct :: rat
  o_largestCheckpointBatch :: int
  o_finalVariance :: int
  o_payoutPerUnit :: int
  o_unitsSold :: int
  o_unitsExited :: int
  o_unitsRedeemed :: int
  o_unitsUnsold :: int
  o_premiumRevenue :: int
  o_exitPayouts :: int
  o_settlementPayouts :: int
  o_writerPnl :: int
  o_buyerPnl :: int
  o_collateral :: int
  o_peakLocked :: int
  o_meanUtilizationPct :: rat
  o_releasedAtFinalization :: int
  o_checkpointCalls :: int
  o_partialFills :: int
  o_snapshots :: "snapshot list"
  o_holders :: "holder list"
  o_lvr :: lvr
  o_invariants :: "string list"
  o_notes :: "string list"

definition cap_note :: "series \<Rightarrow> series_params \<Rightarrow> string" where
  "cap_note s p = ''Realized variance finished above the cap ('' @ to_fixed 4 (wadNumber (s_finalVariance s))
     @ '' vs '' @ to_fixed 4 (wadNumber (p_capVariance p))
     @ ''), so the payout is truncated and the hedge under-pays by exactly the excess.''"

definition partial_note :: "int \<Rightarrow> string" where
  "partial_note n = dec_string n @ '' fills were clamped and re-priced rather than reverted.''"

definition run_notes :: "series_params \<Rightarrow> run_state \<Rightarrow> run_state" where
  "run_notes p st =
     (let st1 = (if s_finalVariance (r_series st) > p_capVariance p
                 then push_note (cap_note (r_series st) p) st else st)
      in if r_partial st1 > 0 then push_note (partial_note (r_partial st1)) st1 else st1)"

definition run_result ::
  "js_math \<Rightarrow> scenario_spec \<Rightarrow> series_params \<Rightarrow> quote \<Rightarrow> run_state \<Rightarrow> int \<Rightarrow> js_error + scenario_result" where
  "run_result M spec p openingQuote st released =
     (let s = r_series st in
      andThen (or_diverge (pathVariance M (r_path st) (p_start p) (p_expiry p) (p_sampleInterval p))) (\<lambda>pv.
      andThen (run_lvr M p (r_path st) s) (\<lambda>lv.
        let st' = run_notes p st in
        Inr \<lparr>o_key = sc_key spec,
          o_realizedVolPct = fl (math_sqrt M pv * 100),
          o_openingAskVolPct = fl (math_sqrt M (wadNumber (q_askVariance openingQuote)) * 100),
          o_largestCheckpointBatch = r_largest st, o_finalVariance = s_finalVariance s,
          o_payoutPerUnit = s_payoutPerUnit s, o_unitsSold = leg_units LegIssue s,
          o_unitsExited = leg_units LegExit s, o_unitsRedeemed = leg_units LegSettle s,
          o_unitsUnsold = p_maxUnits p - leg_units LegIssue s, o_premiumRevenue = s_premiumTaken s,
          o_exitPayouts = s_exitPaid s, o_settlementPayouts = s_settlePaid s,
          o_writerPnl = s_premiumTaken s - s_exitPaid s - s_settlePaid s,
          o_buyerPnl = sum_list (map (\<lambda>h. h_received h - h_paid h) (r_holders st)),
          o_collateral = sc_collateral spec, o_peakLocked = peakLocked (s_snapshots s),
          o_meanUtilizationPct = meanUtilizationPct (s_snapshots s),
          o_releasedAtFinalization = released, o_checkpointCalls = r_calls st,
          o_partialFills = r_partial st, o_snapshots = s_snapshots s, o_holders = r_holders st,
          o_lvr = lv, o_invariants = r_invariants st', o_notes = r_notes st'\<rparr>)))"

subsection \<open>The run\<close>

text \<open>The siblings, with ids from 2 and seeds from \<open>seed + 1000\<close>; each registers with the vault.\<close>

fun make_sibs :: "js_math \<Rightarrow> int \<Rightarrow> int \<Rightarrow> int \<Rightarrow> extra_series list \<Rightarrow> vault \<Rightarrow> js_error + (vault \<times> sibling list)" where
  "make_sibs M now seed i [] v = Inr (v, [])"
| "make_sibs M now seed i (x # xs) v =
     (let p = baseParams now (xs_params x) in
      andThen (or_diverge (buildPath M (p_start p) (p_expiry p) (p_sampleInterval p) 3000
          (xs_segments x) (seed + 1000 + i))) (\<lambda>pth.
      andThen (new_series (2 + i) p v) (\<lambda>(v1, s).
      andThen (make_sibs M now seed (i + 1) xs v1) (\<lambda>(v2, sibs).
        Inr (v2, \<lparr>sib_series = s, sib_path = pth, sib_units = 0\<rparr> # sibs)))))"

definition start_run :: "js_math \<Rightarrow> scenario_spec \<Rightarrow> int \<Rightarrow> int \<Rightarrow> js_error + run_state" where
  "start_run M spec now seed =
     (let p = baseParams now (sc_params spec) in
      andThen (deposit (sc_collateral spec) new_vault) (\<lambda>v.
      andThen (or_diverge (buildPath M (p_start p) (p_expiry p) (p_sampleInterval p) 3000
          (sc_segments spec) seed)) (\<lambda>pth.
      andThen (new_series 1 p v) (\<lambda>(v1, s).
      andThen (make_sibs M now seed 0 (sc_extra spec) v1) (\<lambda>(v2, sibs).
        Inr \<lparr>r_vault = v2, r_series = s, r_path = pth, r_sibs = sibs, r_holders = [],
             r_rng = word_of_int seed XOR 0x5eed, r_calls = 0, r_largest = 0, r_partial = 0,
             r_invariants = [], r_notes = []\<rparr>)))))"

definition runScenario :: "js_math \<Rightarrow> scenario_spec \<Rightarrow> int \<Rightarrow> int \<Rightarrow> js_error + scenario_result" where
  "runScenario M spec now seed =
     (let p = baseParams now (sc_params spec) in
      andThen (start_run M spec now seed) (\<lambda>st0.
      andThen (quote_at M (p_start p) (r_series st0)) (\<lambda>openingQuote.
      andThen (window_loop M (sc_flow spec) p 0 st0) (\<lambda>st1.
      andThen (wind_up M p (sc_collateral spec) st1) (\<lambda>(st2, released).
        run_result M spec p openingQuote st2 released)))))"

subsection \<open>The ten scenarios\<close>

definition COLLATERAL :: int where "COLLATERAL = 40000 * USDC"

definition saleEnded :: "int \<Rightarrow> run_state \<Rightarrow> bool" where
  "saleEnded t st \<longleftrightarrow> t > p_saleEnd (s_params (r_series st))"

definition buyers :: "string \<Rightarrow> nat \<Rightarrow> string list" where
  "buyers prefix n = map (\<lambda>i. prefix @ dec_string (int i + 1)) [0..<n]"

definition steadyDemand :: "int \<Rightarrow> nat \<Rightarrow> flow" where
  "steadyDemand perStep n M t step st =
     (if saleEnded t st then Inr st
      else for_each (\<lambda>name. buy M t name perStep) (buyers ''buyer'' n) st)"

definition flow_whales :: flow where
  "flow_whales M t step st =
     (if saleEnded t st then Inr st
      else for_each (\<lambda>name. buy M t name (4000 * USDC)) (buyers ''whale'' 8) st)"

definition flow_early_exits :: flow where
  "flow_early_exits M t step st =
     (if step < 12 then steadyDemand (900 * USDC) 4 M t step st
      else if step < 24 then exit_all M t 2 st else Inr st)"

definition flow_alternating :: flow where
  "flow_alternating M t step st =
     (if saleEnded t st then exit_all M t 4 st
      else if step mod 2 = 0 then steadyDemand (800 * USDC) 3 M t step st
      else exit_all M t 3 st)"

definition flow_stopped :: flow where
  "flow_stopped M t step st =
     (if step = 8 then ctx_stop st
      else if step < 8 then steadyDemand (900 * USDC) 4 M t step st
      else if step mod 6 = 0 then exit_all M t 5 st else Inr st)"

definition scenario :: "string \<Rightarrow> segment list \<Rightarrow> extra_series list \<Rightarrow> flow \<Rightarrow> scenario_spec" where
  "scenario key segs extra flow =
     \<lparr>sc_key = key, sc_segments = segs, sc_params = id, sc_extra = extra,
      sc_collateral = COLLATERAL, sc_flow = flow\<rparr>"

definition seg :: "rat \<Rightarrow> rat \<Rightarrow> segment" where
  "seg share vol = \<lparr>sg_share = fl share, sg_vol = fl vol\<rparr>"

definition SCENARIOS :: "scenario_spec list" where
  "SCENARIOS =
    [scenario ''low-realized'' [seg 1 (2/10)] [] (steadyDemand (600 * USDC) 4),
     scenario ''near-quote'' [seg 1 (4/10)] [] (steadyDemand (600 * USDC) 4),
     scenario ''at-cap'' [seg 1 (11/10)] [] (steadyDemand (600 * USDC) 4),
     scenario ''early-spike'' [seg (25/100) (12/10), seg (75/100) (15/100)] [] (steadyDemand (600 * USDC) 4),
     scenario ''late-spike'' [seg (7/10) (15/100), seg (3/10) (13/10)] [] (steadyDemand (600 * USDC) 4),
     scenario ''heavy-issuance'' [seg 1 (45/100)] [] flow_whales,
     scenario ''heavy-early-exits'' [seg 1 (4/10)] [] flow_early_exits,
     scenario ''alternating-flow'' [seg 1 (4/10)] [] flow_alternating,
     scenario ''issuance-stopped'' [seg 1 (5/10)] [] flow_stopped,
     scenario ''shared-vault'' [seg 1 (4/10)]
       [\<lparr>xs_params = id, xs_segments = [seg 1 (6/10)]\<rparr>, \<lparr>xs_params = id, xs_segments = [seg 1 (25/100)]\<rparr>]
       (steadyDemand (700 * USDC) 4)]"

end
