(* ===== verification/Sim_Scenario_Inv.thy ===== *)
theory Sim_Scenario_Inv
  imports Sim_Scenarios
begin

text \<open>
  What every run of the scenario driver keeps: the market invariant of the run's vault and series, and
  the holders' ledger, which mirrors the main series (the holders' units are its outstanding units, what
  they paid is its premium, what they received is what it paid out). While the window is open no step
  throws; after it, the only exception a run can end in is the close that finds dust claims.
\<close>

subsection \<open>Lists of holders\<close>

definition hsum :: "(holder \<Rightarrow> int) \<Rightarrow> holder list \<Rightarrow> int" where
  "hsum g hs = sum_list (map g hs)"

lemma hsum_simps [simp]: "hsum g [] = 0" "hsum g (h # hs) = g h + hsum g hs" "hsum g (xs @ ys) = hsum g xs + hsum g ys"
  by (simp_all add: hsum_def)

definition names_ok :: "holder list \<Rightarrow> bool" where
  "names_ok hs \<longleftrightarrow> distinct (map h_name hs)"

lemma find_holder_Some: "find_holder hs n = Some h \<Longrightarrow> h \<in> set hs \<and> h_name h = n"
  by (induction hs) (auto split: if_splits)

lemma find_holder_None: "find_holder hs n = None \<longleftrightarrow> n \<notin> h_name ` set hs"
  by (induction hs) auto

lemma find_holder_mem:
  assumes "names_ok hs" "h \<in> set hs" shows "find_holder hs (h_name h) = Some h"
  using assms by (induction hs) (auto simp: names_ok_def)

lemma update_holder_names [simp]:
  assumes "\<And>h. h_name (f h) = h_name h"
  shows "map h_name (update_holder n f hs) = map h_name hs"
  using assms by (induction hs) (auto simp: update_holder_def)

lemma hsum_update:
  assumes "names_ok hs" "n \<in> h_name ` set hs"
  shows "hsum g (update_holder n f hs) = hsum g hs + g (f (holder_of hs n)) - g (holder_of hs n)"
  using assms
proof (induction hs)
  case (Cons h hs)
  show ?case
  proof (cases "h_name h = n")
    case True
    then have "n \<notin> h_name ` set hs" using Cons.prems(1) by (auto simp: names_ok_def)
    then have "update_holder n f hs = hs" by (auto simp: update_holder_def intro!: map_idI)
    then show ?thesis using True by (simp add: update_holder_def holder_of_def)
  next
    case False
    moreover have "holder_of (h # hs) n = holder_of hs n" using False by (simp add: holder_of_def)
    ultimately show ?thesis using Cons by (auto simp: names_ok_def update_holder_def)
  qed
qed simp

lemma ensure_holder:
  assumes "names_ok hs"
  shows "names_ok (ensure_holder hs n)" "n \<in> h_name ` set (ensure_holder hs n)"
    "holder_of (ensure_holder hs n) n = holder_of hs n"
    "\<And>g. g \<lparr>h_name = n, h_units = 0, h_paid = 0, h_received = 0\<rparr> = 0 \<Longrightarrow> hsum g (ensure_holder hs n) = hsum g hs"
    "\<forall>h\<in>set hs. 0 \<le> h_units h \<Longrightarrow> \<forall>h\<in>set (ensure_holder hs n). 0 \<le> h_units h"
proof -
  have find_snoc: "find_holder hs n = None \<Longrightarrow> find_holder (hs @ [h]) n = (if h_name h = n then Some h else None)" for h
    by (induction hs) (auto split: if_splits)
  show "names_ok (ensure_holder hs n)" "n \<in> h_name ` set (ensure_holder hs n)"
    "holder_of (ensure_holder hs n) n = holder_of hs n"
    "\<And>g. g \<lparr>h_name = n, h_units = 0, h_paid = 0, h_received = 0\<rparr> = 0 \<Longrightarrow> hsum g (ensure_holder hs n) = hsum g hs"
    "\<forall>h\<in>set hs. 0 \<le> h_units h \<Longrightarrow> \<forall>h\<in>set (ensure_holder hs n). 0 \<le> h_units h"
    using assms find_holder_None [of hs n] find_holder_Some [of hs n] find_snoc
    by (auto simp: ensure_holder_def holder_of_def names_ok_def split: option.splits)
qed

lemma holder_of_nonneg:
  assumes "\<forall>h\<in>set hs. 0 \<le> h_units h" shows "0 \<le> h_units (holder_of hs n)"
  using assms find_holder_Some [of hs n] by (auto simp: holder_of_def split: option.splits)

lemma update_holder_nonneg:
  assumes "\<forall>h\<in>set hs. 0 \<le> h_units h" "names_ok hs" "0 \<le> h_units (f (holder_of hs n))"
  shows "\<forall>h\<in>set (update_holder n f hs). 0 \<le> h_units h"
  using assms find_holder_mem [of hs] by (auto simp: update_holder_def holder_of_def)

lemma names_ok_update: "(\<And>h. h_name (f h) = h_name h) \<Longrightarrow> names_ok (update_holder n f hs) = names_ok hs"
  by (simp add: names_ok_def)

text \<open>The ledger of a series.\<close>

definition ledger :: "holder list \<Rightarrow> series \<Rightarrow> bool" where
  "ledger hs s \<longleftrightarrow> names_ok hs \<and> (\<forall>h\<in>set hs. 0 \<le> h_units h)
     \<and> hsum h_units hs = s_outstandingUnits s \<and> hsum h_paid hs = s_premiumTaken s
     \<and> hsum h_received hs = s_exitPaid s + s_settlePaid s"

lemma ledger_ensure: "ledger hs s \<Longrightarrow> ledger (ensure_holder hs n) s"
  unfolding ledger_def using ensure_holder [where hs = hs and n = n] by simp

lemma ledger_update:
  assumes "ledger hs s" "n \<in> h_name ` set hs" "h = holder_of hs n" "\<And>h. h_name (f h) = h_name h"
    and "0 \<le> h_units (f h)" "s_outstandingUnits s' = s_outstandingUnits s + (h_units (f h) - h_units h)"
    and "s_premiumTaken s' = s_premiumTaken s + (h_paid (f h) - h_paid h)"
    and "s_exitPaid s' + s_settlePaid s' = s_exitPaid s + s_settlePaid s + (h_received (f h) - h_received h)"
  shows "ledger (update_holder n f hs) s'"
proof -
  have n: "names_ok hs" "\<forall>h\<in>set hs. 0 \<le> h_units h" using assms(1) by (auto simp: ledger_def)
  have "\<forall>h\<in>set (update_holder n f hs). 0 \<le> h_units h"
    using update_holder_nonneg [OF n(2,1), of f n] assms(3,5) by simp
  then show ?thesis
    using assms n by (simp add: ledger_def hsum_update names_ok_update)
qed

text \<open>The fills of a series account for its units.\<close>

definition fills_ok :: "series \<Rightarrow> bool" where
  "fills_ok s \<longleftrightarrow> leg_units LegIssue s + s_unitsAvailable s \<le> p_maxUnits (s_params s)
     \<and> leg_units LegIssue s = leg_units LegExit s + leg_units LegSettle s + s_outstandingUnits s"

lemma leg_units_snoc:
  "s_fills s' = s_fills s @ [f] \<Longrightarrow> leg_units l s' = leg_units l s + (if f_leg f = l then f_units f else 0)"
  by (simp add: leg_units_def)

lemma leg_units_cong: "s_fills s' = s_fills s \<Longrightarrow> leg_units l s' = leg_units l s"
  by (simp add: leg_units_def)

subsection \<open>The run invariant\<close>

definition abs_market :: "run_state \<Rightarrow> market" where
  "abs_market st = \<lparr>m_vault = r_vault st, m_series = r_series st # map sib_series (r_sibs st)\<rparr>"

definition run_core :: "series_params \<Rightarrow> series_params list \<Rightarrow> int \<Rightarrow> run_state \<Rightarrow> bool" where
  "run_core p ps c st \<longleftrightarrow> market_inv (abs_market st)
     \<and> s_params (r_series st) = p \<and> map (\<lambda>x. s_params (sib_series x)) (r_sibs st) = ps
     \<and> v_deposited (r_vault st) = c \<and> v_withdrawn (r_vault st) = 0
     \<and> ledger (r_holders st) (r_series st)"

definition sib_live :: "sibling \<Rightarrow> bool" where
  "sib_live x \<longleftrightarrow> \<not> s_finalized (sib_series x) \<and> sib_units x = s_outstandingUnits (sib_series x)"

definition live_inv :: "series_params \<Rightarrow> series_params list \<Rightarrow> int \<Rightarrow> run_state \<Rightarrow> bool" where
  "live_inv p ps c st \<longleftrightarrow> run_core p ps c st \<and> \<not> s_finalized (r_series st)
     \<and> (\<forall>x\<in>set (r_sibs st). sib_live x) \<and> fills_ok (r_series st) \<and> r_invariants st = []"

text \<open>A step that neither throws nor leaves the invariant.\<close>

definition safe :: "('s \<Rightarrow> bool) \<Rightarrow> ('s \<Rightarrow> js_error + 's) \<Rightarrow> bool" where
  "safe I f \<longleftrightarrow> (\<forall>st. I st \<longrightarrow> (\<exists>st'. f st = Inr st' \<and> I st'))"

lemma safeI: "(\<And>st. I st \<Longrightarrow> \<exists>st'. f st = Inr st' \<and> I st') \<Longrightarrow> safe I f"
  by (simp add: safe_def)

lemma safeE:
  assumes "safe I f" "I st" obtains st' where "f st = Inr st'" "I st'"
  using assms by (auto simp: safe_def)

lemma safe_skip [intro]: "safe I Inr"
  by (simp add: safe_def)

lemma safe_if [intro]: "(\<And>st. b st \<Longrightarrow> safe I f) \<Longrightarrow> (\<And>st. \<not> b st \<Longrightarrow> safe I g) \<Longrightarrow> safe I (\<lambda>st. if b st then f st else g st)"
  by (auto simp: safe_def)

lemma safe_andThen [intro]: "safe I f \<Longrightarrow> safe I g \<Longrightarrow> safe I (\<lambda>st. andThen (f st) g)"
  by (fastforce simp: safe_def)

lemma safe_for_each [intro]: "(\<And>x. x \<in> set xs \<Longrightarrow> safe I (f x)) \<Longrightarrow> safe I (for_each f xs)"
proof (induction xs)
  case (Cons x xs)
  have "safe I (\<lambda>st. andThen (f x st) (for_each f xs))"
    using Cons by (intro safe_andThen) auto
  then show ?case by (simp add: safe_def)
qed (simp add: safe_def)

subsection \<open>Updates of the market\<close>

lemma run_coreD:
  assumes "run_core p ps c st"
  shows "series_inv (r_series st)" "backed (r_vault st) (r_series st)"
    "j < length (r_sibs st) \<Longrightarrow> series_inv (sib_series (r_sibs st ! j))"
    "j < length (r_sibs st) \<Longrightarrow> backed (r_vault st) (sib_series (r_sibs st ! j))"
  using assms market_backed [of "abs_market st" 0] market_backed [of "abs_market st" "Suc j"]
  by (auto simp: run_core_def abs_market_def)

lemma main_update:
  assumes "market_inv (abs_market st)" "sound_update (r_vault st) (r_series st) v' s'"
  shows "market_inv (abs_market (st\<lparr>r_vault := v', r_series := s'\<rparr>))"
proof -
  obtain cash where c: "series_inv s'" "vault_moves (r_vault st) v' (r_series st) s' cash"
    "booked s' = booked (r_series st) + cash"
    using assms(2) by (auto simp: sound_update_def)
  show ?thesis
    using market_inv_update [OF assms(1), of 0 s' v' cash] c by (simp add: abs_market_def)
qed

lemma sib_update:
  assumes "market_inv (abs_market st)" "j < length (r_sibs st)"
    and "sound_update (r_vault st) (sib_series (r_sibs st ! j)) v' (sib_series x)"
  shows "market_inv (abs_market (st\<lparr>r_vault := v', r_sibs := (r_sibs st)[j := x]\<rparr>))"
proof -
  obtain cash where c: "series_inv (sib_series x)"
    "vault_moves (r_vault st) v' (sib_series (r_sibs st ! j)) (sib_series x) cash"
    "booked (sib_series x) = booked (sib_series (r_sibs st ! j)) + cash"
    using assms(3) by (auto simp: sound_update_def)
  show ?thesis
    using market_inv_update [OF assms(1), of "Suc j" "sib_series x" v' cash] c assms(2)
    by (simp add: abs_market_def map_update)
qed

lemma abs_market_cong:
  "r_vault st = r_vault st' \<Longrightarrow> r_series st = r_series st' \<Longrightarrow>
   map sib_series (r_sibs st) = map sib_series (r_sibs st') \<Longrightarrow> abs_market st = abs_market st'"
  by (simp add: abs_market_def)

subsection \<open>Bringing a window current\<close>

definition to_store :: "int \<Rightarrow> series \<Rightarrow> nat" where
  "to_store t s = nat (availableSamples t s - s_samplesStored s)"

lemma bring_loop_eq: "fst (bring_loop M t pr s c l) = (store_sample M pr ^^ to_store t s) s"
proof (induction M t pr s c l rule: bring_loop.induct)
  case (1 M t pr s c l)
  show ?case
  proof (cases "isCurrent t s")
    case True
    then have "to_store t s = 0" by (simp add: to_store_def isCurrent_def)
    then show ?thesis using True by (simp add: bring_loop.simps [of M t pr s])
  next
    case False
    define k where "k = batch_size t 32 s"
    have cp: "checkpoint M t pr 32 s = ((store_sample M pr ^^ k) s, int k)"
      by (simp add: checkpoint_eq k_def)
    have k: "0 < k" using False by (simp add: k_def batch_size_def isCurrent_def)
    have e: "to_store t ((store_sample M pr ^^ k) s) + k = to_store t s"
      using False by (simp add: to_store_def k_def batch_size_def isCurrent_def)
    have "fst (bring_loop M t pr s c l) = fst (bring_loop M t pr ((store_sample M pr ^^ k) s) (c + 1)
        (if int k > l then int k else l))"
      using False k by (simp add: bring_loop.simps [of M t pr s] cp Let_def)
    also have "\<dots> = (store_sample M pr ^^ to_store t ((store_sample M pr ^^ k) s)) ((store_sample M pr ^^ k) s)"
      using False k cp by (intro "1.IH" [of "((store_sample M pr ^^ k) s, int k)"]) auto
    also have "\<dots> = (store_sample M pr ^^ to_store t s) s"
      unfolding e [symmetric] by (simp add: funpow_add)
    finally show ?thesis .
  qed
qed

definition brought :: "js_math \<Rightarrow> int \<Rightarrow> (int \<Rightarrow> rat) \<Rightarrow> series \<Rightarrow> series" where
  "brought M t pr s = (store_sample M pr ^^ to_store t s) s"

lemma brought_current: "isCurrent t (brought M t pr s)"
  by (simp add: brought_def isCurrent_def to_store_def)

lemma brought_frame [simp]:
  "s_params (brought M t pr s) = s_params s"
  "s_outstandingUnits (brought M t pr s) = s_outstandingUnits s"
  "s_unitsAvailable (brought M t pr s) = s_unitsAvailable s"
  "s_lockedLiability (brought M t pr s) = s_lockedLiability s"
  "s_finalized (brought M t pr s) = s_finalized s"
  "s_premiumTaken (brought M t pr s) = s_premiumTaken s"
  "s_exitPaid (brought M t pr s) = s_exitPaid s"
  "s_settlePaid (brought M t pr s) = s_settlePaid s"
  "s_fills (brought M t pr s) = s_fills s"
  "s_id (brought M t pr s) = s_id s"
  "s_issuanceStopped (brought M t pr s) = s_issuanceStopped s"
  by (simp_all add: brought_def)

lemma brought_inv: "series_inv s \<Longrightarrow> series_inv (brought M t pr s)"
  unfolding brought_def by (rule store_samples_inv [of _ _ t]) (auto simp: to_store_def)

lemma brought_sound: "series_inv s \<Longrightarrow> backed v s \<Longrightarrow> sound_update v s v (brought M t pr s)"
  by (rule sound_refl) (simp_all add: brought_inv booked_def)

lemma bringCurrent_eq:
  obtains c l where "bringCurrent M t st =
    st\<lparr>r_series := brought M t (path_at (r_path st)) (r_series st), r_calls := c, r_largest := l\<rparr>"
  using bring_loop_eq [of M t "path_at (r_path st)" "r_series st" "r_calls st" "r_largest st"]
  by (cases "bring_loop M t (path_at (r_path st)) (r_series st) (r_calls st) (r_largest st)")
    (simp add: bringCurrent_def brought_def)

lemma bringSibCurrent_eq:
  obtains c l where "bringSibCurrent M t j st =
    st\<lparr>r_sibs := (r_sibs st)[j := (r_sibs st ! j)\<lparr>sib_series :=
         brought M t (path_at (sib_path (r_sibs st ! j))) (sib_series (r_sibs st ! j))\<rparr>],
       r_calls := c, r_largest := l\<rparr>"
  using bring_loop_eq [of M t "path_at (sib_path (r_sibs st ! j))" "sib_series (r_sibs st ! j)" "r_calls st" "r_largest st"]
  by (cases "bring_loop M t (path_at (sib_path (r_sibs st ! j))) (sib_series (r_sibs st ! j)) (r_calls st) (r_largest st)")
    (simp add: bringSibCurrent_def brought_def Let_def)

text \<open>Updates of the main series, and of a sibling, that keep the run's core.\<close>

lemma run_core_main:
  assumes "run_core p ps c st" "sound_update (r_vault st) (r_series st) v' s'" "s_params s' = p"
    and "v_deposited v' = c" "v_withdrawn v' = 0" "ledger hs s'"
    and "r_vault st' = v'" "r_series st' = s'" "r_holders st' = hs" "r_sibs st' = r_sibs st"
  shows "run_core p ps c st'"
proof -
  have "market_inv (abs_market (st\<lparr>r_vault := v', r_series := s'\<rparr>))"
    using assms(1) by (intro main_update [OF _ assms(2)]) (simp add: run_core_def)
  moreover have "abs_market (st\<lparr>r_vault := v', r_series := s'\<rparr>) = abs_market st'"
    by (rule abs_market_cong) (simp_all add: assms)
  ultimately show ?thesis using assms by (simp add: run_core_def)
qed

lemma run_core_sib:
  assumes "run_core p ps c st" "j < length (r_sibs st)"
    and "sound_update (r_vault st) (sib_series (r_sibs st ! j)) v' (sib_series x)"
    and "s_params (sib_series x) = s_params (sib_series (r_sibs st ! j))"
    and "v_deposited v' = c" "v_withdrawn v' = 0"
    and "r_vault st' = v'" "r_series st' = r_series st" "r_holders st' = r_holders st"
    and "r_sibs st' = (r_sibs st)[j := x]"
  shows "run_core p ps c st'"
proof -
  have "market_inv (abs_market (st\<lparr>r_vault := v', r_sibs := (r_sibs st)[j := x]\<rparr>))"
    using assms(1) by (intro sib_update [OF _ assms(2,3)]) (simp add: run_core_def)
  moreover have "abs_market (st\<lparr>r_vault := v', r_sibs := (r_sibs st)[j := x]\<rparr>) = abs_market st'"
    by (rule abs_market_cong) (simp_all add: assms)
  moreover have "map (\<lambda>x. s_params (sib_series x)) ((r_sibs st)[j := x]) = ps"
    using assms(1,2,4) by (simp add: run_core_def map_update list_update_same_conv)
      (metis (no_types, lifting) list_update_id map_update nth_map)
  ultimately show ?thesis using assms by (simp add: run_core_def)
qed

subsection \<open>The context's operations are safe\<close>

lemma run_core_money:
  assumes "run_core p ps c st"
  shows "v_deposited (r_vault st) = c" "v_withdrawn (r_vault st) = 0" "s_params (r_series st) = p"
    "ledger (r_holders st) (r_series st)" "market_inv (abs_market st)"
  using assms by (auto simp: run_core_def)

lemma core_bring:
  assumes "run_core p ps c st" shows "run_core p ps c (bringCurrent M t st)"
proof -
  obtain k l where b: "bringCurrent M t st =
      st\<lparr>r_series := brought M t (path_at (r_path st)) (r_series st), r_calls := k, r_largest := l\<rparr>"
    by (rule bringCurrent_eq)
  show ?thesis
    using run_core_money [OF assms] run_coreD [OF assms] unfolding b
    by (intro run_core_main [OF assms brought_sound]) (simp_all add: ledger_def)
qed

lemma live_bring:
  assumes "live_inv p ps c st" shows "live_inv p ps c (bringCurrent M t st)"
proof -
  obtain k l where b: "bringCurrent M t st =
      st\<lparr>r_series := brought M t (path_at (r_path st)) (r_series st), r_calls := k, r_largest := l\<rparr>"
    by (rule bringCurrent_eq)
  show ?thesis
    using assms core_bring [of p ps c st M t] unfolding b live_inv_def by (simp add: fills_ok_def leg_units_def)
qed

lemma bring_current: "isCurrent t (r_series (bringCurrent M t st))"
  by (rule bringCurrent_eq [of M t st]) (simp add: brought_current)

lemma bring_holders [simp]: "r_holders (bringCurrent M t st) = r_holders st"
  "r_sibs (bringCurrent M t st) = r_sibs st" "r_invariants (bringCurrent M t st) = r_invariants st"
  by (rule bringCurrent_eq [of M t st], simp)+

lemma bump_partial_simps [simp]:
  "r_vault (bump_partial f st) = r_vault st" "r_series (bump_partial f st) = r_series st"
  "r_sibs (bump_partial f st) = r_sibs st" "r_holders (bump_partial f st) = r_holders st"
  "r_invariants (bump_partial f st) = r_invariants st"
  by (simp_all add: bump_partial_def)

lemma live_core: "live_inv p ps c st \<Longrightarrow> run_core p ps c st"
  by (simp add: live_inv_def)

lemma safe_sync: "safe (live_inv p ps c) (ctx_sync M t)"
  by (auto simp: safe_def ctx_sync_def live_bring)

lemma safe_stop: "safe (live_inv p ps c) ctx_stop"
proof (rule safeI)
  fix st assume l: "live_inv p ps c st"
  note r = live_core [OF l]
  have "run_core p ps c (st\<lparr>r_series := stopIssuance (r_series st)\<rparr>)"
    using run_core_money [OF r] run_coreD [OF r]
    by (intro run_core_main [OF r sound_stop]) (simp_all add: stopIssuance_def ledger_def)
  moreover have "fills_ok (stopIssuance (r_series st))"
    using l series_invD(4) [OF run_coreD(1) [OF r]]
    by (auto simp: live_inv_def stopIssuance_def fills_ok_def leg_units_def)
  ultimately show "\<exists>st'. ctx_stop st = Inr st' \<and> live_inv p ps c st'"
    using l by (auto simp: ctx_stop_def live_inv_def stopIssuance_def)
qed

lemma issue_effect_fields:
  assumes "issue_effect M now amt v s v' s' f"
  shows "s_outstandingUnits s' = s_outstandingUnits s + f_units f" "s_premiumTaken s' = s_premiumTaken s + f_quote f"
    "s_exitPaid s' = s_exitPaid s" "s_settlePaid s' = s_settlePaid s" "s_params s' = s_params s"
    "s_finalized s' = s_finalized s" "s_fills s' = s_fills s @ [f]" "f_leg f = LegIssue"
    "s_unitsAvailable s' = s_unitsAvailable s - f_units f" "0 < f_units f" "s_id s' = s_id s"
    "v_deposited v' = v_deposited v" "v_withdrawn v' = v_withdrawn v"
  using assms unfolding issue_effect_def vault_moves_def by (elim exE conjE; simp)+

lemma issue_cases:
  assumes "series_inv s" "backed v s" "0 \<le> amt" "isCurrent now s"
  obtains "issue M now a amt v s = Inr (v, s, None)"
  | v' s' f where "issue M now a amt v s = Inr (v', s', Some f)" "issue_effect M now amt v s v' s' f"
proof (cases "issuanceOpen now s")
  case True
  then show ?thesis using issue_open [OF assms(1-3) True assms(4), of M a] that by blast
next
  case False
  then show ?thesis using that(1) by (simp add: issue_def)
qed

lemma exit_cases:
  assumes "series_inv s" "backed v s" "isCurrent now s"
  obtains "exit M now a req v s = Inr (v, s, None)"
  | v' s' f where "exit M now a req v s = Inr (v', s', Some f)" "exit_effect M now req v s v' s' f"
proof (cases "exitOpen now s")
  case True
  then show ?thesis using exit_open [OF assms(1,2) True assms(3), of M a req] that by blast
next
  case False
  then show ?thesis using that(1) by (simp add: exit_def)
qed

lemma fills_snoc:
  assumes "fills_ok s" "s_fills s' = s_fills s @ [f]" "s_params s' = s_params s"
    and "s_outstandingUnits s' = s_outstandingUnits s + (if f_leg f = LegIssue then f_units f else - f_units f)"
    and "s_unitsAvailable s' = s_unitsAvailable s - (if f_leg f = LegIssue then f_units f else 0)"
  shows "fills_ok s'"
  using assms by (cases "f_leg f") (simp_all add: fills_ok_def leg_units_snoc)

lemma safe_buy:
  assumes amt: "0 \<le> amt" shows "safe (live_inv p ps c) (buy M t name amt)"
proof (rule safeI)
  fix st0 assume l0: "live_inv p ps c st0"
  define st where "st = bringCurrent M t st0"
  have l: "live_inv p ps c st" unfolding st_def by (rule live_bring [OF l0])
  have cur: "isCurrent t (r_series st)" unfolding st_def by (rule bring_current)
  note r = live_core [OF l]
  note d = run_coreD [OF r] and m = run_core_money [OF r]
  show "\<exists>st'. buy M t name amt st0 = Inr st' \<and> live_inv p ps c st'"
  proof (rule issue_cases [OF d(1,2) amt cur, of M name])
    assume "issue M t name amt (r_vault st) (r_series st) = Inr (r_vault st, r_series st, None)"
    then show ?thesis using l by (simp add: buy_def st_def [symmetric] Let_def)
  next
    fix v' s' f
    assume i: "issue M t name amt (r_vault st) (r_series st) = Inr (v', s', Some f)"
      and e: "issue_effect M t amt (r_vault st) (r_series st) v' s' f"
    note x = issue_effect_fields [OF e]
    let ?hs = "ensure_holder (r_holders st) name"
    let ?f = "\<lambda>h. h\<lparr>h_units := h_units h + f_units f, h_paid := h_paid h + f_quote f\<rparr>"
    let ?st' = "bump_partial f (st\<lparr>r_vault := v', r_series := s', r_holders := update_holder name ?f ?hs\<rparr>)"
    have le: "ledger ?hs (r_series st)" by (rule ledger_ensure [OF m(4)])
    have "names_ok (r_holders st)" using m(4) by (simp add: ledger_def)
    then have n: "name \<in> h_name ` set ?hs" by (rule ensure_holder)
    have nn: "0 \<le> h_units (holder_of ?hs name)"
      using le by (intro holder_of_nonneg) (simp add: ledger_def)
    have "ledger (update_holder name ?f ?hs) s'"
      using x nn by (intro ledger_update [OF le n refl]) simp_all
    moreover have "sound_update (r_vault st) (r_series st) v' s'"
      by (rule sound_issue [OF d(1,2) amt i])
    ultimately have "run_core p ps c ?st'"
      using m x by (intro run_core_main [OF r]) simp_all
    moreover have "fills_ok s'"
      using l x by (intro fills_snoc [of "r_series st" s' f]) (simp_all add: live_inv_def)
    ultimately have "live_inv p ps c ?st'" using l x by (simp add: live_inv_def)
    then show ?thesis using i by (simp add: buy_def st_def [symmetric] Let_def)
  qed
qed

lemma exit_effect_fields:
  assumes "exit_effect M now req v s v' s' f"
  shows "s_outstandingUnits s' = s_outstandingUnits s - f_units f" "s_premiumTaken s' = s_premiumTaken s"
    "s_exitPaid s' = s_exitPaid s + f_quote f" "s_settlePaid s' = s_settlePaid s" "s_params s' = s_params s"
    "s_finalized s' = s_finalized s" "s_fills s' = s_fills s @ [f]" "f_leg f = LegExit"
    "s_unitsAvailable s' = s_unitsAvailable s" "f_units f \<le> req"
    "v_deposited v' = v_deposited v" "v_withdrawn v' = v_withdrawn v"
  using exit_effectD(2,6,8) [OF assms] by (simp_all add: exit_effectD(7) [OF assms] vault_moves_def)

lemma live_ensure:
  assumes "live_inv p ps c st"
  shows "live_inv p ps c (st\<lparr>r_holders := ensure_holder (r_holders st) n\<rparr>)"
  using assms ledger_ensure [of "r_holders st" "r_series st" n]
  by (simp add: live_inv_def run_core_def abs_market_def)

lemma safe_exit_units: "safe (live_inv p ps c) (exitUnits M t name units)"
proof (rule safeI)
  fix st0 assume l0: "live_inv p ps c st0"
  let ?hs = "ensure_holder (r_holders st0) name"
  define st1 where "st1 = st0\<lparr>r_holders := ?hs\<rparr>"
  define st where "st = bringCurrent M t st1"
  define want where "want = min_big units (h_units (holder_of ?hs name))"
  have l1: "live_inv p ps c st1" unfolding st1_def by (rule live_ensure [OF l0])
  have l: "live_inv p ps c st" unfolding st_def by (rule live_bring [OF l1])
  have cur: "isCurrent t (r_series st)" unfolding st_def by (rule bring_current)
  have hs1: "r_holders st1 = ?hs" by (simp add: st1_def)
  have hs: "r_holders st = ?hs" by (simp add: st_def hs1)
  note r = live_core [OF l]
  note d = run_coreD [OF r] and m = run_core_money [OF r]
  show "\<exists>st'. exitUnits M t name units st0 = Inr st' \<and> live_inv p ps c st'"
  proof (cases "want \<le> 0")
    case True
    then show ?thesis using l1 by (simp add: exitUnits_def Let_def want_def st1_def)
  next
    case w: False
    have run: "exitUnits M t name units st0 = andThen (exit M t name want (r_vault st) (r_series st)) (\<lambda>(v, s, fill).
        case fill of None \<Rightarrow> Inr (st\<lparr>r_vault := v, r_series := s\<rparr>)
        | Some f \<Rightarrow> Inr (bump_partial f (st\<lparr>r_vault := v, r_series := s, r_holders :=
            update_holder name (\<lambda>h. h\<lparr>h_units := h_units h - f_units f, h_received := h_received h + f_quote f\<rparr>)
              (r_holders st)\<rparr>)))"
      unfolding exitUnits_def Let_def st1_def [symmetric] st_def [symmetric]
      by (simp only: hs1 want_def [symmetric] w if_False) simp
    show ?thesis
    proof (rule exit_cases [OF d(1,2) cur, of M name want])
      assume "exit M t name want (r_vault st) (r_series st) = Inr (r_vault st, r_series st, None)"
      then show ?thesis using l by (simp add: run)
    next
      fix v' s' f
      assume i: "exit M t name want (r_vault st) (r_series st) = Inr (v', s', Some f)"
        and e: "exit_effect M t want (r_vault st) (r_series st) v' s' f"
      note x = exit_effect_fields [OF e]
      let ?f = "\<lambda>h. h\<lparr>h_units := h_units h - f_units f, h_received := h_received h + f_quote f\<rparr>"
      let ?st' = "bump_partial f (st\<lparr>r_vault := v', r_series := s', r_holders := update_holder name ?f (r_holders st)\<rparr>)"
      have n: "name \<in> h_name ` set (r_holders st)"
        unfolding hs using l0 by (intro ensure_holder) (simp add: live_inv_def run_core_def ledger_def)
      have "f_units f \<le> h_units (holder_of (r_holders st) name)"
        using x(10) unfolding hs want_def by simp
      then have "ledger (update_holder name ?f (r_holders st)) s'"
        using x by (intro ledger_update [OF m(4) n refl]) simp_all
      moreover have "sound_update (r_vault st) (r_series st) v' s'"
        by (rule sound_exit [OF d(1,2) i])
      ultimately have "run_core p ps c ?st'"
        using m x by (intro run_core_main [OF r]) simp_all
      moreover have "fills_ok s'"
        using l x by (intro fills_snoc [of "r_series st" s' f]) (simp_all add: live_inv_def)
      ultimately have "live_inv p ps c ?st'" using l x by (simp add: live_inv_def)
      then show ?thesis using i by (simp add: run)
    qed
  qed
qed

lemma safe_exit_all: "safe (live_inv p ps c) (exit_all M t k)"
proof (rule safeI)
  fix st assume l: "live_inv p ps c st"
  have "safe (live_inv p ps c) (for_each
      (\<lambda>n st. exitUnits M t n (bdiv (h_units (holder_of (r_holders st) n)) k) st) (map h_name (r_holders st)))"
  proof (rule safe_for_each)
    fix n
    show "safe (live_inv p ps c) (\<lambda>st. exitUnits M t n (bdiv (h_units (holder_of (r_holders st) n)) k) st)"
      using safe_exit_units by (fastforce simp: safe_def)
  qed
  then show "\<exists>st'. exit_all M t k st = Inr st' \<and> live_inv p ps c st'"
    using l by (simp add: exit_all_def safe_def)
qed

lemma live_not_mem: "live_inv p ps c st \<Longrightarrow> j < length (r_sibs st) \<Longrightarrow> sib_live (r_sibs st ! j)"
  by (simp add: live_inv_def)

lemma sib_live_update:
  "\<forall>x\<in>set xs. sib_live x \<Longrightarrow> sib_live y \<Longrightarrow> \<forall>x\<in>set (xs[j := y]). sib_live x"
  using set_update_subset_insert [of xs j y] by auto

lemma live_bring_sib:
  assumes "live_inv p ps c st" "j < length (r_sibs st)"
  shows "live_inv p ps c (bringSibCurrent M t j st)"
proof -
  let ?x = "(r_sibs st ! j)\<lparr>sib_series := brought M t (path_at (sib_path (r_sibs st ! j))) (sib_series (r_sibs st ! j))\<rparr>"
  obtain k l where b: "bringSibCurrent M t j st = st\<lparr>r_sibs := (r_sibs st)[j := ?x], r_calls := k, r_largest := l\<rparr>"
    by (rule bringSibCurrent_eq)
  note r = live_core [OF assms(1)]
  have "run_core p ps c (bringSibCurrent M t j st)"
    using run_core_money [OF r] run_coreD(3,4) [OF r assms(2)] unfolding b
    by (intro run_core_sib [OF r assms(2), of _ ?x]) (simp_all add: brought_sound)
  moreover have "sib_live ?x"
    using live_not_mem [OF assms] by (simp add: sib_live_def)
  ultimately show ?thesis
    using assms(1) sib_live_update [of "r_sibs st" ?x j] unfolding b live_inv_def by simp
qed

subsection \<open>The window is safe\<close>

lemma core_sibs_length: "run_core p ps c st \<Longrightarrow> length (r_sibs st) = length ps"
  by (auto simp: run_core_def)

lemma safe_sib_trickle:
  assumes j: "j < length ps" shows "safe (live_inv p ps c) (sib_trickle M t step j)"
proof (rule safeI)
  fix st0 assume l0: "live_inv p ps c st0"
  show "\<exists>st'. sib_trickle M t step j st0 = Inr st' \<and> live_inv p ps c st'"
  proof (cases "issuanceOpen t (sib_series (r_sibs st0 ! j)) \<and> step mod 6 = 0")
    case False
    then show ?thesis using l0 by (auto simp: sib_trickle_def)
  next
    case True
    define st where "st = bringSibCurrent M t j st0"
    define x where "x = r_sibs st ! j"
    have j0: "j < length (r_sibs st0)" using j core_sibs_length [OF live_core [OF l0]] by simp
    have l: "live_inv p ps c st" unfolding st_def by (rule live_bring_sib [OF l0 j0])
    have jl: "j < length (r_sibs st)" using j core_sibs_length [OF live_core [OF l]] by simp
    have cur: "isCurrent t (sib_series x)"
    proof -
      obtain k q where "st = st0\<lparr>r_sibs := (r_sibs st0)[j := (r_sibs st0 ! j)\<lparr>sib_series :=
          brought M t (path_at (sib_path (r_sibs st0 ! j))) (sib_series (r_sibs st0 ! j))\<rparr>], r_calls := k, r_largest := q\<rparr>"
        unfolding st_def by (rule bringSibCurrent_eq)
      then show ?thesis using j0 by (simp add: x_def brought_current)
    qed
    note r = live_core [OF l]
    note m = run_core_money [OF r]
    have d: "series_inv (sib_series x)" "backed (r_vault st) (sib_series x)" "sib_live x"
      using run_coreD(3,4) [OF r jl] live_not_mem [OF l jl] by (simp_all add: x_def)
    have run: "sib_trickle M t step j st0 =
        andThen (issue M t (sib_name (sib_series x)) (400 * USDC) (r_vault st) (sib_series x)) (\<lambda>(v, s, fill).
          Inr (st\<lparr>r_vault := v, r_sibs := (r_sibs st)[j := x\<lparr>sib_series := s,
            sib_units := sib_units x + (case fill of None \<Rightarrow> 0 | Some f \<Rightarrow> f_units f)\<rparr>]\<rparr>))"
      using True unfolding sib_trickle_def Let_def st_def [symmetric] x_def [symmetric] by (simp only: if_True simp_thms)
    have amt: "0 \<le> 400 * USDC" by (simp add: USDC_def)
    have keep: "live_inv p ps c (st\<lparr>r_vault := v', r_sibs := (r_sibs st)[j := y]\<rparr>)"
      if "sound_update (r_vault st) (sib_series x) v' (sib_series y)" "s_params (sib_series y) = s_params (sib_series x)"
        "v_deposited v' = v_deposited (r_vault st)" "v_withdrawn v' = v_withdrawn (r_vault st)" "sib_live y" for v' y
    proof -
      have "run_core p ps c (st\<lparr>r_vault := v', r_sibs := (r_sibs st)[j := y]\<rparr>)"
        using that m by (intro run_core_sib [OF r jl, of v' y]) (simp_all add: x_def)
      then show ?thesis using l sib_live_update [OF _ that(5), of "r_sibs st" j] by (simp add: live_inv_def)
    qed
    show ?thesis
    proof (rule issue_cases [OF d(1,2) amt cur, of M "sib_name (sib_series x)"])
      assume "issue M t (sib_name (sib_series x)) (400 * USDC) (r_vault st) (sib_series x)
          = Inr (r_vault st, sib_series x, None)"
      moreover have "st\<lparr>r_vault := r_vault st, r_sibs := (r_sibs st)[j := x\<lparr>sib_series := sib_series x, sib_units := sib_units x\<rparr>]\<rparr> = st"
        by (simp add: x_def)
      ultimately show ?thesis using l by (simp add: run)
    next
      fix v' s' f
      assume i: "issue M t (sib_name (sib_series x)) (400 * USDC) (r_vault st) (sib_series x) = Inr (v', s', Some f)"
        and e: "issue_effect M t (400 * USDC) (r_vault st) (sib_series x) v' s' f"
      note y = issue_effect_fields [OF e]
      have "live_inv p ps c (st\<lparr>r_vault := v', r_sibs := (r_sibs st)[j :=
          x\<lparr>sib_series := s', sib_units := sib_units x + f_units f\<rparr>]\<rparr>)"
        using y d(3) sound_issue [OF d(1,2) amt i] by (intro keep) (simp_all add: sib_live_def)
      then show ?thesis using i by (simp add: run)
    qed
  qed
qed

lemma core_snapshot:
  assumes "run_core p ps c st"
  obtains s where "run_snapshot M t st = Inr (st\<lparr>r_series := s\<rparr>)" "run_core p ps c (st\<lparr>r_series := s\<rparr>)"
    "s_finalized s = s_finalized (r_series st)" "s_fills s = s_fills (r_series st)"
    "s_outstandingUnits s = s_outstandingUnits (r_series st)" "s_unitsAvailable s = s_unitsAvailable (r_series st)"
    "s_params s = s_params (r_series st)" "s_lockedLiability s = s_lockedLiability (r_series st)"
    "s_payoutPerUnit s = s_payoutPerUnit (r_series st)"
proof -
  note d = run_coreD [OF assms] and m = run_core_money [OF assms]
  obtain sn where sn: "take_snapshot M t (r_vault st) (r_series st) =
      Inr ((r_series st)\<lparr>s_snapshots := s_snapshots (r_series st) @ [sn]\<rparr>, sn)"
    by (rule take_snapshot_run [OF d(1)])
  let ?s = "(r_series st)\<lparr>s_snapshots := s_snapshots (r_series st) @ [sn]\<rparr>"
  have "sound_update (r_vault st) (r_series st) (r_vault st) ?s"
    using d by (intro sound_refl) (simp_all add: snapshot_inv booked_def)
  then have "run_core p ps c (st\<lparr>r_series := ?s\<rparr>)"
    using m by (intro run_core_main [OF assms]) (simp_all add: ledger_def)
  then show ?thesis using sn by (intro that [of ?s]) (simp_all add: run_snapshot_def)
qed

lemma live_lock:
  assumes "live_inv p ps c st"
  shows "s_lockedLiability (r_series st) = maxLiability (s_outstandingUnits (r_series st)) (p_unitNotional p) (p_capVariance p)"
    "v_locked (r_vault st) \<le> v_balance (r_vault st)"
proof -
  note r = live_core [OF assms]
  note d = run_coreD [OF r] and m = run_core_money [OF r]
  show "s_lockedLiability (r_series st) = maxLiability (s_outstandingUnits (r_series st)) (p_unitNotional p) (p_capVariance p)"
    using series_invD(5) [OF d(1)] assms m(3) by (simp add: liability_of_def live_inv_def)
  show "v_locked (r_vault st) \<le> v_balance (r_vault st)"
    using d(2) by (simp add: backed_def solvent_def)
qed

lemma safe_window_step:
  assumes f: "step_time p step < p_expiry p \<Longrightarrow> safe (live_inv p ps c) (flow M (step_time p step) step)"
  shows "safe (live_inv p ps c) (window_step M flow p step)"
proof (rule safeI)
  fix st assume l: "live_inv p ps c st"
  let ?t = "step_time p step"
  obtain st1 where s1: "(if ?t < p_expiry p then flow M ?t step st else Inr st) = Inr st1" "live_inv p ps c st1"
    using l safeE [OF f l] by (cases "?t < p_expiry p") auto
  have n: "length (r_sibs st1) = length ps" by (rule core_sibs_length [OF live_core [OF s1(2)]])
  have "safe (live_inv p ps c) (for_each (sib_trickle M ?t step) [0..<length ps])"
    by (intro safe_for_each safe_sib_trickle) simp
  then obtain st2 where s2: "for_each (sib_trickle M ?t step) [0..<length (r_sibs st1)] st1 = Inr st2" "live_inv p ps c st2"
    unfolding n using s1(2) by (rule safeE)
  obtain s where s3: "run_snapshot M ?t st2 = Inr (st2\<lparr>r_series := s\<rparr>)" "run_core p ps c (st2\<lparr>r_series := s\<rparr>)"
    "s_finalized s = s_finalized (r_series st2)" "s_fills s = s_fills (r_series st2)"
    "s_outstandingUnits s = s_outstandingUnits (r_series st2)" "s_unitsAvailable s = s_unitsAvailable (r_series st2)"
    "s_params s = s_params (r_series st2)"
    by (rule core_snapshot [OF live_core [OF s2(2)]])
  have l3: "live_inv p ps c (st2\<lparr>r_series := s\<rparr>)"
    using s2(2) s3 by (simp add: live_inv_def fills_ok_def leg_units_def)
  have "step_checks step (st2\<lparr>r_series := s\<rparr>) = st2\<lparr>r_series := s\<rparr>"
    using live_lock [OF l3] run_core_money(3) [OF s3(2)] by (simp add: step_checks_def check_def Let_def)
  then show "\<exists>st'. window_step M flow p step st = Inr st' \<and> live_inv p ps c st'"
    using l3 by (simp add: window_step_def Let_def s1(1) s2(1) s3(1))
qed

lemma safe_window_loop:
  assumes f: "\<And>step. 0 \<le> step \<Longrightarrow> step_time p step < p_expiry p \<Longrightarrow> safe (live_inv p ps c) (flow M (step_time p step) step)"
  shows "0 \<le> step \<Longrightarrow> safe (live_inv p ps c) (window_loop M flow p step)"
proof (induction "nat (\<lfloor>window_steps p\<rfloor> + 1 - step)" arbitrary: step rule: less_induct)
  case less
  show ?case
  proof (cases "of_int step \<le> window_steps p")
    case True
    then have m: "nat (\<lfloor>window_steps p\<rfloor> + 1 - (step + 1)) < nat (\<lfloor>window_steps p\<rfloor> + 1 - step)"
      by (simp add: le_floor_iff [symmetric])
    have "safe (live_inv p ps c) (\<lambda>st. andThen (window_step M flow p step st) (window_loop M flow p (step + 1)))"
      using less.hyps [OF m] less.prems f by (intro safe_andThen safe_window_step) auto
    moreover have "window_loop M flow p step = (\<lambda>st. andThen (window_step M flow p step st) (window_loop M flow p (step + 1)))"
      using True by (intro ext, subst window_loop.simps) (simp only: if_True)
    ultimately show ?thesis by simp
  next
    case False
    then have "window_loop M flow p step st = Inr st" for st by (subst window_loop.simps) (simp only: if_False)
    then show ?thesis by (simp add: safe_def)
  qed
qed

end
