(* ===== verification/Sim_Scenario_End.thy ===== *)
theory Sim_Scenario_End
  imports Sim_Scenario_Inv
begin

text \<open>
  The end of a run: finalization, the redemption of every holder, the close, and the run as a whole.
\<close>

subsection \<open>Loops with a growing postcondition\<close>

lemma for_each_prefix:
  assumes step: "\<And>ys y zs st. xs = ys @ y # zs \<Longrightarrow> J ys st \<Longrightarrow> \<exists>st'. f y st = Inr st' \<and> J (ys @ [y]) st'"
    and start: "J [] st"
  obtains st' where "for_each f xs st = Inr st'" "J xs st'"
proof -
  have "xs = ys @ zs \<Longrightarrow> J ys st \<Longrightarrow> \<exists>st'. for_each f zs st = Inr st' \<and> J xs st'" for ys zs st
  proof (induction zs arbitrary: ys st)
    case (Cons z zs)
    then obtain st1 where s1: "f z st = Inr st1" "J (ys @ [z]) st1" using step [of ys z zs st] by blast
    then show ?case using Cons.IH [of "ys @ [z]" st1] Cons.prems by simp
  qed simp
  from this [of "[]" xs st] start that show ?thesis by auto
qed

subsection \<open>Series that are complete and finalized\<close>

definition complete :: "series \<Rightarrow> bool" where
  "complete s \<longleftrightarrow> \<not> of_int (s_samplesStored s) < totalSamples s"

lemma current_complete:
  assumes "series_inv s" "isCurrent (p_expiry (s_params s)) s"
  shows "complete s"
proof -
  note p = params_okD [OF series_invD(1) [OF assms(1)]]
  let ?n = "(p_expiry (s_params s) - p_start (s_params s)) div p_sampleInterval (s_params s)"
  have a: "?n + 1 \<le> s_samplesStored s"
    using assms(2) p(2) by (simp add: isCurrent_def availableSamples_def Let_def)
  have "(s_samplesStored s - 1) * p_sampleInterval (s_params s) \<le> p_expiry (s_params s) - p_start (s_params s)"
    using series_invD(2) [OF assms(1)] by (simp add: oracle_inv_def)
  then have "s_samplesStored s - 1 \<le> ?n"
    using p(1) by (metis nonzero_mult_div_cancel_right order_less_irrefl zdiv_mono1)
  then show ?thesis using a unfolding complete_def oracle_complete [OF assms(1)] by linarith
qed

lemma finalize_sound:
  assumes "series_inv s" "backed v s" "complete s" "\<not> s_finalized s" "p_expiry (s_params s) \<le> t"
  obtains v' s' r where "finalize t v s = Inr (v', s', r)" "sound_update v s v' s'"
    "v_deposited v' = v_deposited v" "v_withdrawn v' = v_withdrawn v" "r \<le> v_locked v" "s_finalized s'"
    "s_params s' = s_params s" "s_outstandingUnits s' = s_outstandingUnits s" "s_premiumTaken s' = s_premiumTaken s"
    "s_exitPaid s' = s_exitPaid s" "s_settlePaid s' = s_settlePaid s" "s_fills s' = s_fills s"
    "s_unitsAvailable s' = s_unitsAvailable s" "complete s'"
proof -
  obtain v' s' r where f: "finalize t v s = Inr (v', s', r)" "finalize_effect v s v' s' r"
    using finalize_ready [OF assms(1,2,5) _ assms(4)] assms(3) by (auto simp: complete_def)
  have i: "series_inv s'" by (rule finalize_effect_inv [OF assms(1) f(2)])
  have "r \<le> s_lockedLiability s"
    using f(2) liability_nonneg [OF i] by (simp add: finalize_effect_def)
  then have "r \<le> v_locked v" using assms(2) by (simp add: backed_def)
  moreover have fr: "s_finalized s'" "s_params s' = s_params s" "s_outstandingUnits s' = s_outstandingUnits s"
    "s_premiumTaken s' = s_premiumTaken s" "s_exitPaid s' = s_exitPaid s" "s_settlePaid s' = s_settlePaid s"
    "s_fills s' = s_fills s" "s_unitsAvailable s' = s_unitsAvailable s" "s_samplesStored s' = s_samplesStored s"
    using f(2) by (simp_all add: finalize_effect_def Let_def)
  moreover have "v_deposited v' = v_deposited v" "v_withdrawn v' = v_withdrawn v"
    using f(2) by (simp_all add: finalize_effect_def vault_moves_def)
  moreover have "complete s'" using assms(3) fr by (simp add: complete_def totalSamples_def)
  ultimately show ?thesis
    using that [OF f(1) sound_finalize [OF assms(1,2) f(1)]] by blast
qed

subsection \<open>The siblings after expiry\<close>

text \<open>After finalization: the core, a finalized main series and no failed check; \<open>Q\<close> adds what is known of it.\<close>

definition fills_done :: "series \<Rightarrow> bool" where
  "fills_done s \<longleftrightarrow> leg_units LegIssue s + s_unitsAvailable s \<le> p_maxUnits (s_params s)
     \<and> leg_units LegExit s + leg_units LegSettle s + s_outstandingUnits s \<le> leg_units LegIssue s
     \<and> (s_payoutPerUnit s \<noteq> 0 \<longrightarrow>
          leg_units LegExit s + leg_units LegSettle s + s_outstandingUnits s = leg_units LegIssue s)"

definition done_inv :: "series_params \<Rightarrow> series_params list \<Rightarrow> int \<Rightarrow> run_state \<Rightarrow> bool" where
  "done_inv p ps c st \<longleftrightarrow> run_core p ps c st \<and> s_finalized (r_series st) \<and> fills_done (r_series st)
     \<and> r_invariants st = []"

definition sib_ready :: "int \<Rightarrow> sibling \<Rightarrow> bool" where
  "sib_ready t x \<longleftrightarrow> p_expiry (s_params (sib_series x)) = t \<and> complete (sib_series x)"

lemma done_sib:
  assumes d: "done_inv p ps c st" and j: "j < length (r_sibs st)"
    and "sound_update (r_vault st) (sib_series (r_sibs st ! j)) v' (sib_series x)"
    and "s_params (sib_series x) = s_params (sib_series (r_sibs st ! j))"
    and "v_deposited v' = v_deposited (r_vault st)" "v_withdrawn v' = v_withdrawn (r_vault st)"
  shows "done_inv p ps c (st\<lparr>r_vault := v', r_sibs := (r_sibs st)[j := x]\<rparr>)"
proof -
  have r: "run_core p ps c st" using d by (simp add: done_inv_def)
  have "run_core p ps c (st\<lparr>r_vault := v', r_sibs := (r_sibs st)[j := x]\<rparr>)"
    using assms run_core_money [OF r] by (intro run_core_sib [OF r j assms(3,4)]) simp_all
  then show ?thesis using d by (simp add: done_inv_def)
qed

lemma sib_finalize_step:
  assumes d: "done_inv p ps c st" and j: "j < length (r_sibs st)"
    and ready: "\<forall>x\<in>set (r_sibs st). sib_ready t x" and fin: "\<forall>i<j. s_finalized (sib_series (r_sibs st ! i))"
  obtains st' where "sib_finalize t j st = Inr st'" "done_inv p ps c st'" "length (r_sibs st') = length (r_sibs st)"
    "\<forall>x\<in>set (r_sibs st'). sib_ready t x" "\<forall>i<Suc j. s_finalized (sib_series (r_sibs st' ! i))"
    "r_series st' = r_series st"
proof (cases "s_finalized (sib_series (r_sibs st ! j))")
  case True
  then show ?thesis
    using d ready fin by (intro that [of st]) (auto simp: sib_finalize_def Let_def less_Suc_eq)
next
  case False
  let ?x = "r_sibs st ! j"
  have r: "run_core p ps c st" using d by (simp add: done_inv_def)
  note s = run_coreD(3,4) [OF r j]
  have x: "sib_ready t ?x" using ready j by simp
  then have cx: "complete (sib_series ?x)" "p_expiry (s_params (sib_series ?x)) \<le> t" by (auto simp: sib_ready_def)
  obtain v' s' rr where f: "finalize t (r_vault st) (sib_series ?x) = Inr (v', s', rr)"
    "sound_update (r_vault st) (sib_series ?x) v' s'" "v_deposited v' = v_deposited (r_vault st)"
    "v_withdrawn v' = v_withdrawn (r_vault st)" "s_finalized s'" "s_params s' = s_params (sib_series ?x)"
    and co: "complete s'"
    by (rule finalize_sound [OF s cx(1) False cx(2)])
  let ?y = "?x\<lparr>sib_series := s'\<rparr>"
  let ?st' = "st\<lparr>r_vault := v', r_sibs := (r_sibs st)[j := ?y]\<rparr>"
  have "sib_finalize t j st = Inr ?st'"
    using False cx(1) f(1) by (simp add: sib_finalize_def Let_def complete_def not_less)
  moreover have "done_inv p ps c ?st'" using f by (intro done_sib [OF d j]) simp_all
  moreover have "\<forall>z\<in>set (r_sibs ?st'). sib_ready t z"
    using ready x co f(6) set_update_subset_insert [of "r_sibs st" j ?y] by (auto simp: sib_ready_def)
  moreover have "\<forall>i<Suc j. s_finalized (sib_series (r_sibs ?st' ! i))"
    using fin f(5) j by (auto simp: less_Suc_eq nth_list_update)
  ultimately show ?thesis by (intro that [of ?st']) simp_all
qed

text \<open>A finalized sibling's redemption never throws; its claims may be left as dust.\<close>

lemma settle_sound:
  assumes "series_inv s" "backed v s" "s_finalized s"
  obtains "settle t a u v s = Inr (v, s, None)"
  | v' s' f where "settle t a u v s = Inr (v', s', Some f)" "settle_effect u v s v' s' f"
  using settle_finalized [OF assms, of u t a] that by (auto split: if_splits)

lemma settle_effect_fields:
  assumes "settle_effect u v s v' s' f"
  shows "s_outstandingUnits s' = s_outstandingUnits s - f_units f" "s_premiumTaken s' = s_premiumTaken s"
    "s_exitPaid s' = s_exitPaid s" "s_settlePaid s' = s_settlePaid s + f_quote f" "s_params s' = s_params s"
    "s_finalized s' = s_finalized s" "s_fills s' = s_fills s @ [f]" "f_leg f = LegSettle"
    "s_unitsAvailable s' = s_unitsAvailable s" "f_units f \<le> u"
    "v_deposited v' = v_deposited v" "v_withdrawn v' = v_withdrawn v" "s_payoutPerUnit s' = s_payoutPerUnit s"
  using assms by (simp_all add: settle_effect_def vault_moves_def)

lemma sib_redeem_step:
  assumes d: "done_inv p ps c st" and j: "j < length (r_sibs st)"
    and fin: "\<forall>x\<in>set (r_sibs st). s_finalized (sib_series x)"
  obtains st' where "sib_redeem t j st = Inr st'" "done_inv p ps c st'" "length (r_sibs st') = length (r_sibs st)"
    "\<forall>x\<in>set (r_sibs st'). s_finalized (sib_series x)" "r_series st' = r_series st"
proof -
  note finish = that
  let ?x = "r_sibs st ! j"
  have r: "run_core p ps c st" using d by (simp add: done_inv_def)
  note s = run_coreD(3,4) [OF r j]
  have f: "s_finalized (sib_series ?x)" using fin j by simp
  have upd: thesis
    if "sib_redeem t j st = Inr (st\<lparr>r_vault := v', r_sibs := (r_sibs st)[j := ?x\<lparr>sib_series := s', sib_units := 0\<rparr>]\<rparr>)"
      "sound_update (r_vault st) (sib_series ?x) v' s'" "s_params s' = s_params (sib_series ?x)"
      "v_deposited v' = v_deposited (r_vault st)" "v_withdrawn v' = v_withdrawn (r_vault st)" "s_finalized s'" for v' s'
  proof (rule finish)
    let ?y = "?x\<lparr>sib_series := s', sib_units := 0\<rparr>"
    show "done_inv p ps c (st\<lparr>r_vault := v', r_sibs := (r_sibs st)[j := ?y]\<rparr>)"
      using that by (intro done_sib [OF d j]) simp_all
    show "\<forall>x\<in>set (r_sibs (st\<lparr>r_vault := v', r_sibs := (r_sibs st)[j := ?y]\<rparr>)). s_finalized (sib_series x)"
      using fin that(6) set_update_subset_insert [of "r_sibs st" j ?y] by auto
  qed (use \<open>sib_redeem t j st = _\<close> in simp_all)
  show thesis
  proof (cases "sib_units ?x \<le> 0")
    case True
    then show ?thesis using d fin by (intro that [of st]) (simp_all add: sib_redeem_def Let_def)
  next
    case False
    then have u: "0 \<le> sib_units ?x" by simp
    show ?thesis
    proof (cases "s_payoutPerUnit (sib_series ?x) = 0")
      case True
      let ?s = "(sib_series ?x)\<lparr>s_outstandingUnits := s_outstandingUnits (sib_series ?x)
             - min (sib_units ?x) (s_outstandingUnits (sib_series ?x))\<rparr>"
      have b: "burnWorthless (sib_units ?x) (r_vault st) (sib_series ?x) = Inr (r_vault st, ?s)"
        by (rule burnWorthless_run [OF s f True u])
      show ?thesis
        using False True b sound_burn [OF s u b] f by (intro upd [where v' = "r_vault st" and s' = ?s]) (simp_all add: sib_redeem_def Let_def)
    next
      case nz: False
      show ?thesis
      proof (rule settle_sound [OF s f, of t "sib_name (sib_series ?x)" "sib_units ?x"])
        assume e: "settle t (sib_name (sib_series ?x)) (sib_units ?x) (r_vault st) (sib_series ?x)
          = Inr (r_vault st, sib_series ?x, None)"
        show ?thesis
          using False nz e sound_settle [OF s e] f by (intro upd [where v' = "r_vault st" and s' = "sib_series ?x"]) (simp_all add: sib_redeem_def Let_def)
      next
        fix v' s' g
        assume e: "settle t (sib_name (sib_series ?x)) (sib_units ?x) (r_vault st) (sib_series ?x) = Inr (v', s', Some g)"
          and g: "settle_effect (sib_units ?x) (r_vault st) (sib_series ?x) v' s' g"
        show ?thesis
          using False nz e sound_settle [OF s e] f settle_effect_fields [OF g]
          by (intro upd [where v' = v' and s' = s']) (simp_all add: sib_redeem_def Let_def)
      qed
    qed
  qed
qed

subsection \<open>Redeeming the holders\<close>

lemma done_main:
  assumes d: "done_inv p ps c st"
    and "sound_update (r_vault st) (r_series st) v' s'" "s_params s' = p" "s_finalized s'" "fills_done s'"
    and "v_deposited v' = v_deposited (r_vault st)" "v_withdrawn v' = v_withdrawn (r_vault st)" "ledger hs s'"
    and "r_vault st' = v'" "r_series st' = s'" "r_holders st' = hs" "r_sibs st' = r_sibs st" "r_invariants st' = r_invariants st"
  shows "done_inv p ps c st'"
proof -
  have r: "run_core p ps c st" using d by (simp add: done_inv_def)
  have "run_core p ps c st'"
    using assms run_core_money [OF r] by (intro run_core_main [OF r assms(2)]) simp_all
  then show ?thesis using assms by (simp add: done_inv_def)
qed

lemma holder_in_ledger:
  assumes "ledger hs s" "n \<in> h_name ` set hs"
  shows "0 \<le> h_units (holder_of hs n)" "h_units (holder_of hs n) \<le> s_outstandingUnits s"
proof -
  have l: "names_ok hs" "\<forall>h\<in>set hs. 0 \<le> h_units h" "hsum h_units hs = s_outstandingUnits s"
    using assms(1) by (auto simp: ledger_def)
  obtain h where h: "h \<in> set hs" "holder_of hs n = h"
    using assms(2) find_holder_mem [OF l(1)] by (auto simp: holder_of_def)
  show "0 \<le> h_units (holder_of hs n)" using l(2) h by simp
  show "h_units (holder_of hs n) \<le> s_outstandingUnits s"
    using member_le_sum [of h hs h_units] l(2,3) h by (simp add: hsum_def)
qed

lemma holder_redeem_step:
  assumes d: "done_inv p ps c st" and n: "n \<in> h_name ` set (r_holders st)"
  obtains st' where "holder_redeem t n st = Inr st'" "done_inv p ps c st'" "r_sibs st' = r_sibs st"
    "map h_name (r_holders st') = map h_name (r_holders st)"
    "s_payoutPerUnit (r_series st') = s_payoutPerUnit (r_series st)"
proof -
  note finish = that
  have r: "run_core p ps c st" using d by (simp add: done_inv_def)
  note s = run_coreD(1,2) [OF r] and m = run_core_money [OF r]
  have f: "s_finalized (r_series st)" "fills_done (r_series st)" using d by (auto simp: done_inv_def)
  let ?h = "holder_of (r_holders st) n"
  show thesis
  proof (cases "h_units ?h \<le> 0")
    case True
    then show ?thesis using d by (intro finish [of st]) (simp_all add: holder_redeem_def Let_def)
  next
    case pos: False
    show ?thesis
    proof (rule settle_sound [OF s f(1), of t n "h_units ?h"])
      assume "settle t n (h_units ?h) (r_vault st) (r_series st) = Inr (r_vault st, r_series st, None)"
      then show ?thesis using pos d by (intro finish [of st]) (simp_all add: holder_redeem_def Let_def)
    next
      fix v' s' g
      assume e: "settle t n (h_units ?h) (r_vault st) (r_series st) = Inr (v', s', Some g)"
        and g: "settle_effect (h_units ?h) (r_vault st) (r_series st) v' s' g"
      note x = settle_effect_fields [OF g]
      let ?f = "\<lambda>h. h\<lparr>h_units := h_units h - f_units g, h_received := h_received h + f_quote g\<rparr>"
      let ?st' = "bump_partial g (st\<lparr>r_vault := v', r_series := s', r_holders := update_holder n ?f (r_holders st)\<rparr>)"
      have "ledger (update_holder n ?f (r_holders st)) s'"
        using x by (intro ledger_update [OF m(4) n refl]) simp_all
      moreover have "fills_done s'"
        using f(2) x by (cases "s_payoutPerUnit (r_series st) = 0") (simp_all add: fills_done_def leg_units_snoc)
      ultimately have "done_inv p ps c ?st'"
        using m(3) f(1) x by (intro done_main [OF d sound_settle [OF s e]]) simp_all
      then show ?thesis
        using pos e x by (intro finish [of ?st']) (simp_all add: holder_redeem_def Let_def)
    qed
  qed
qed

lemma update_zero:
  assumes "h \<in> set (update_holder n (\<lambda>h. h\<lparr>h_units := 0\<rparr>) hs)"
  shows "h_units h = 0 \<or> h \<in> set hs" "h_name h = n \<Longrightarrow> h_units h = 0"
proof -
  obtain g where g: "g \<in> set hs" "h = (if h_name g = n then g\<lparr>h_units := 0\<rparr> else g)"
    using assms by (auto simp: update_holder_def)
  show "h_units h = 0 \<or> h \<in> set hs" using g by (cases "h_name g = n") simp_all
  show "h_name h = n \<Longrightarrow> h_units h = 0" using g by (cases "h_name g = n") simp_all
qed

lemma holder_burn_step:
  assumes d: "done_inv p ps c st" and n: "n \<in> h_name ` set (r_holders st)"
    and z: "s_payoutPerUnit (r_series st) = 0"
  obtains st' where "holder_burn n st = Inr st'" "done_inv p ps c st'" "r_sibs st' = r_sibs st"
    "map h_name (r_holders st') = map h_name (r_holders st)" "s_payoutPerUnit (r_series st') = 0"
    "\<forall>h\<in>set (r_holders st'). h_name h = n \<longrightarrow> h_units h = 0"
    "\<forall>m. (\<forall>h\<in>set (r_holders st). h_name h = m \<longrightarrow> h_units h = 0) \<longrightarrow> (\<forall>h\<in>set (r_holders st'). h_name h = m \<longrightarrow> h_units h = 0)"
proof -
  note finish = that
  have r: "run_core p ps c st" using d by (simp add: done_inv_def)
  note s = run_coreD(1,2) [OF r] and m = run_core_money [OF r]
  have f: "s_finalized (r_series st)" "fills_done (r_series st)" using d by (auto simp: done_inv_def)
  let ?h = "holder_of (r_holders st) n"
  note hb = holder_in_ledger [OF m(4) n]
  have nm: "names_ok (r_holders st)" using m(4) by (simp add: ledger_def)
  have hn: "h = ?h" if "h \<in> set (r_holders st)" "h_name h = n" for h
    using find_holder_mem [OF nm that(1)] that(2) by (simp add: holder_of_def)
  show thesis
  proof (cases "h_units ?h > 0")
    case False
    then have "h_units ?h = 0" using hb by simp
    then show ?thesis
      using False d z hn by (intro finish [of st]) (auto simp: holder_burn_def Let_def)
  next
    case True
    let ?s = "(r_series st)\<lparr>s_outstandingUnits := s_outstandingUnits (r_series st) - min (h_units ?h) (s_outstandingUnits (r_series st))\<rparr>"
    let ?f = "\<lambda>h. h\<lparr>h_units := 0\<rparr>"
    let ?st' = "st\<lparr>r_vault := r_vault st, r_series := ?s, r_holders := update_holder n ?f (r_holders st)\<rparr>"
    have b: "burnWorthless (h_units ?h) (r_vault st) (r_series st) = Inr (r_vault st, ?s)"
      by (rule burnWorthless_run [OF s f(1) z hb(1)])
    have mn: "min (h_units ?h) (s_outstandingUnits (r_series st)) = h_units ?h" using hb by simp
    have "ledger (update_holder n ?f (r_holders st)) ?s"
      unfolding mn by (intro ledger_update [OF m(4) n refl]) simp_all
    moreover have "fills_done ?s"
      using f(2) z hb unfolding mn by (simp add: fills_done_def leg_units_def)
    ultimately have "done_inv p ps c ?st'"
      using m(3) f(1) by (intro done_main [OF d sound_burn [OF s hb(1) b]]) simp_all
    moreover have "holder_burn n st = Inr ?st'" using True b by (simp add: holder_burn_def Let_def)
    moreover have "\<forall>h\<in>set (update_holder n ?f (r_holders st)). h_name h = n \<longrightarrow> h_units h = 0"
      and "\<forall>m. (\<forall>h\<in>set (r_holders st). h_name h = m \<longrightarrow> h_units h = 0) \<longrightarrow>
        (\<forall>h\<in>set (update_holder n ?f (r_holders st)). h_name h = m \<longrightarrow> h_units h = 0)"
      using update_zero [of _ n "r_holders st"] by blast+
    ultimately show ?thesis
      using z by (intro finish [of ?st']) simp_all
  qed
qed

lemma redeem_all_ends:
  assumes d: "done_inv p ps c st"
  obtains st' where "redeem_all t st = Inr st'" "done_inv p ps c st'" "length (r_sibs st') = length (r_sibs st)"
    "r_sibs st' = r_sibs st"
proof (cases "s_payoutPerUnit (r_series st) = 0 \<and> s_outstandingUnits (r_series st) > 0")
  case True
  let ?st0 = "push_note zero_note st"
  let ?J = "\<lambda>ys st'. done_inv p ps c st' \<and> r_sibs st' = r_sibs st
      \<and> map h_name (r_holders st') = map h_name (r_holders st) \<and> s_payoutPerUnit (r_series st') = 0"
  have d0: "done_inv p ps c ?st0"
    using d by (simp add: done_inv_def push_note_def run_core_def abs_market_def)
  obtain st' where "for_each holder_burn (map h_name (r_holders st)) ?st0 = Inr st'" "?J (map h_name (r_holders st)) st'"
  proof (rule for_each_prefix [of "map h_name (r_holders st)" ?J holder_burn ?st0])
    fix ys n zs st1
    assume n: "map h_name (r_holders st) = ys @ n # zs" and J: "?J ys st1"
    then have "n \<in> h_name ` set (r_holders st1)" by (metis in_set_conv_decomp list.set_map)
    then obtain st2 where "holder_burn n st1 = Inr st2" "done_inv p ps c st2" "r_sibs st2 = r_sibs st1"
      "map h_name (r_holders st2) = map h_name (r_holders st1)" "s_payoutPerUnit (r_series st2) = 0"
      using J by (elim conjE) (erule (2) holder_burn_step)
    then show "\<exists>st'. holder_burn n st1 = Inr st' \<and> ?J (ys @ [n]) st'" using J by simp
  qed (use d0 True in \<open>simp_all add: push_note_def\<close>)
  then show ?thesis using True by (intro that [of st']) (simp_all add: redeem_all_def)
next
  case False
  let ?J = "\<lambda>ys st'. done_inv p ps c st' \<and> r_sibs st' = r_sibs st
      \<and> map h_name (r_holders st') = map h_name (r_holders st)"
  obtain st' where "for_each (holder_redeem t) (map h_name (r_holders st)) st = Inr st'" "?J (map h_name (r_holders st)) st'"
  proof (rule for_each_prefix [of "map h_name (r_holders st)" ?J "holder_redeem t" st])
    fix ys n zs st1
    assume n: "map h_name (r_holders st) = ys @ n # zs" and J: "?J ys st1"
    then have "n \<in> h_name ` set (r_holders st1)" by (metis in_set_conv_decomp list.set_map)
    then obtain st2 where "holder_redeem t n st1 = Inr st2" "done_inv p ps c st2" "r_sibs st2 = r_sibs st1"
      "map h_name (r_holders st2) = map h_name (r_holders st1)"
      using J by (elim conjE) (erule (1) holder_redeem_step)
    then show "\<exists>st'. holder_redeem t n st1 = Inr st' \<and> ?J (ys @ [n]) st'" using J by simp
  qed (use d in simp_all)
  then show ?thesis using False by (intro that [of st']) (auto simp: redeem_all_def)
qed

subsection \<open>Closing\<close>

lemma close_frame:
  assumes "series_inv s" "backed v s" "s_outstandingUnits s = 0"
  obtains s' where "close v s = Inr (v, s')" "sound_update v s v s'" "s' = s\<lparr>s_unitsAvailable := 0\<rparr>"
  using close_run [OF assms] sound_close [OF assms(1,2) close_run [OF assms]] that by blast

lemma sib_close_step:
  assumes d: "done_inv p ps c st" and j: "j < length (r_sibs st)"
  obtains st' where "sib_close j st = Inr st'" "done_inv p ps c st'" "length (r_sibs st') = length (r_sibs st)"
    "r_series st' = r_series st"
proof (cases "s_outstandingUnits (sib_series (r_sibs st ! j)) = 0")
  case True
  let ?x = "r_sibs st ! j"
  have r: "run_core p ps c st" using d by (simp add: done_inv_def)
  note s = run_coreD(3,4) [OF r j]
  obtain s' where c: "close (r_vault st) (sib_series ?x) = Inr (r_vault st, s')"
    "sound_update (r_vault st) (sib_series ?x) (r_vault st) s'" "s' = (sib_series ?x)\<lparr>s_unitsAvailable := 0\<rparr>"
    by (rule close_frame [OF s True])
  let ?st' = "st\<lparr>r_vault := r_vault st, r_sibs := (r_sibs st)[j := ?x\<lparr>sib_series := s'\<rparr>]\<rparr>"
  have "done_inv p ps c ?st'" using c by (intro done_sib [OF d j]) simp_all
  then show ?thesis
    using True c(1) by (intro that [of ?st']) (simp_all add: sib_close_def Let_def)
next
  case False
  then show ?thesis using d by (intro that [of st]) (simp_all add: sib_close_def Let_def)
qed

lemma total_premium_abs: "total_premium (abs_market st) = totalPremium (r_series st) (r_sibs st)"
  by (simp add: total_premium_def abs_market_def totalPremium_def comp_def)

lemma total_paid_abs: "total_paid (abs_market st) = totalPaid (r_series st) (r_sibs st)"
  by (simp add: total_paid_def abs_market_def totalPaid_def comp_def)

lemma done_books:
  assumes "done_inv p ps c st"
  shows "v_balance (r_vault st) = c + totalPremium (r_series st) (r_sibs st) - totalPaid (r_series st) (r_sibs st)"
    "v_locked (r_vault st) \<le> v_balance (r_vault st)"
    "v_locked (r_vault st) = s_lockedLiability (r_series st) + sum_list (map (\<lambda>x. s_lockedLiability (sib_series x)) (r_sibs st))"
proof -
  have r: "run_core p ps c st" using assms by (simp add: done_inv_def)
  note m = run_core_money [OF r]
  have "market_inv (abs_market st)" using m by simp
  then have "v_balance (m_vault (abs_market st)) = v_deposited (m_vault (abs_market st))
      - v_withdrawn (m_vault (abs_market st)) + total_premium (abs_market st) - total_paid (abs_market st)"
    "solvent (m_vault (abs_market st))" "v_locked (m_vault (abs_market st)) = total_liability (abs_market st)"
    by (auto simp: market_inv_def)
  then show "v_balance (r_vault st) = c + totalPremium (r_series st) (r_sibs st) - totalPaid (r_series st) (r_sibs st)"
    "v_locked (r_vault st) \<le> v_balance (r_vault st)"
    "v_locked (r_vault st) = s_lockedLiability (r_series st) + sum_list (map (\<lambda>x. s_lockedLiability (sib_series x)) (r_sibs st))"
    using m by (simp_all add: total_premium_abs total_paid_abs total_liability_def solvent_def)
      (simp_all add: abs_market_def solvent_def comp_def)
qed

subsection \<open>Winding up\<close>

lemma live_bring_sibs:
  assumes "live_inv p ps c st" "n \<le> length ps"
  shows "live_inv p ps c (fold (bringSibCurrent M t) [0..<n] st)
    \<and> r_series (fold (bringSibCurrent M t) [0..<n] st) = r_series st
    \<and> (\<forall>i<n. isCurrent t (sib_series (r_sibs (fold (bringSibCurrent M t) [0..<n] st) ! i)))"
  using assms(2)
proof (induction n)
  case (Suc n)
  let ?st = "fold (bringSibCurrent M t) [0..<n] st"
  have IH: "live_inv p ps c ?st" "r_series ?st = r_series st" "\<forall>i<n. isCurrent t (sib_series (r_sibs ?st ! i))"
    using Suc by auto
  have n: "n < length (r_sibs ?st)" using Suc.prems core_sibs_length [OF live_core [OF IH(1)]] by simp
  obtain k l where b: "bringSibCurrent M t n ?st = ?st\<lparr>r_sibs := (r_sibs ?st)[n := (r_sibs ?st ! n)\<lparr>sib_series :=
      brought M t (path_at (sib_path (r_sibs ?st ! n))) (sib_series (r_sibs ?st ! n))\<rparr>], r_calls := k, r_largest := l\<rparr>"
    by (rule bringSibCurrent_eq)
  have "\<forall>i<Suc n. isCurrent t (sib_series (r_sibs (bringSibCurrent M t n ?st) ! i))"
    unfolding b using IH(3) n by (auto simp: less_Suc_eq nth_list_update brought_current)
  moreover have "r_series (bringSibCurrent M t n ?st) = r_series st" using IH(2) unfolding b by simp
  moreover have "fold (bringSibCurrent M t) [0..<Suc n] st = bringSibCurrent M t n ?st" by simp
  ultimately show ?case using live_bring_sib [OF IH(1) n, of M t] by (simp only:)
qed (use assms(1) in simp)

lemma live_finalize:
  assumes l: "live_inv p ps c st" and cur: "isCurrent (p_expiry p) (r_series st)"
  obtains v s rel where "finalize (p_expiry p) (r_vault st) (r_series st) = Inr (v, s, rel)"
    "done_inv p ps c (st\<lparr>r_vault := v, r_series := s\<rparr>)" "rel \<le> v_locked (r_vault st)"
proof -
  note r = live_core [OF l]
  note d = run_coreD(1,2) [OF r] and m = run_core_money [OF r]
  have f: "\<not> s_finalized (r_series st)" "fills_ok (r_series st)" "r_invariants st = []"
    using l by (auto simp: live_inv_def)
  have cm: "complete (r_series st)" using current_complete [OF d(1)] cur m(3) by simp
  obtain v s rel where e: "finalize (p_expiry p) (r_vault st) (r_series st) = Inr (v, s, rel)"
    "sound_update (r_vault st) (r_series st) v s" "v_deposited v = v_deposited (r_vault st)"
    "v_withdrawn v = v_withdrawn (r_vault st)" "rel \<le> v_locked (r_vault st)" "s_finalized s"
    "s_params s = s_params (r_series st)" "s_outstandingUnits s = s_outstandingUnits (r_series st)"
    "s_premiumTaken s = s_premiumTaken (r_series st)" "s_exitPaid s = s_exitPaid (r_series st)"
    "s_settlePaid s = s_settlePaid (r_series st)" "s_fills s = s_fills (r_series st)"
    "s_unitsAvailable s = s_unitsAvailable (r_series st)"
    by (rule finalize_sound [OF d cm f(1), of "p_expiry p"]) (use m(3) in simp_all)
  have "run_core p ps c (st\<lparr>r_vault := v, r_series := s\<rparr>)"
    using e m by (intro run_core_main [OF r e(2)]) (simp_all add: ledger_def)
  moreover have "fills_done s"
    using f(2) e by (simp add: fills_ok_def fills_done_def leg_units_def)
  ultimately show ?thesis using e f(3) by (intro that [OF e(1) _ e(5)]) (simp add: done_inv_def)
qed

lemma done_sib_loop:
  assumes d: "done_inv p ps c st"
    and step: "\<And>j st. j < length ps \<Longrightarrow> done_inv p ps c st \<Longrightarrow> Q j st \<Longrightarrow>
      \<exists>st'. f j st = Inr st' \<and> done_inv p ps c st' \<and> r_series st' = r_series st \<and> Q (Suc j) st'"
    and q: "Q 0 st"
  obtains st' where "for_each f [0..<length ps] st = Inr st'" "done_inv p ps c st'"
    "r_series st' = r_series st" "Q (length ps) st'"
proof -
  let ?J = "\<lambda>ys st'. done_inv p ps c st' \<and> r_series st' = r_series st \<and> Q (length ys) st'"
  obtain st' where "for_each f [0..<length ps] st = Inr st'" "?J [0..<length ps] st'"
  proof (rule for_each_prefix [of "[0..<length ps]" ?J f st])
    fix ys y zs st1
    assume e: "[0..<length ps] = ys @ y # zs" and J: "?J ys st1"
    have "length [0..<length ps] = length (ys @ y # zs)" using e by simp
    then have l: "length ys < length ps" by simp
    have "[0..<length ps] ! length ys = y" unfolding e by simp
    then have "y = length ys" using l by simp
    then show "\<exists>st'. f y st1 = Inr st' \<and> ?J (ys @ [y]) st'" using step [OF l, of st1] J by auto
  qed (use d q in simp_all)
  then show ?thesis using that by simp
qed

definition free_label :: string where
  "free_label = ''all capital is free once every series is closed''"

lemma check_True [simp]: "check l True st = st"
  by (simp add: check_def)

lemma wind_up_ends:
  assumes l0: "live_inv p ps c st0" and ex: "\<forall>q\<in>set ps. p_expiry q = p_expiry p"
  shows "(\<exists>n. 0 < n \<and> wind_up M p c st0 = Inl (ClaimsOutstanding n))
    \<or> (\<exists>st rel. wind_up M p c st0 = Inr (st, rel) \<and> run_core p ps c st \<and> fills_done (r_series st)
         \<and> s_outstandingUnits (r_series st) = 0
         \<and> (r_invariants st = [] \<or> ps \<noteq> [] \<and> r_invariants st = [free_label]))"
proof -
  let ?t = "p_expiry p"
  have n0: "length (r_sibs st0) = length ps" by (rule core_sibs_length [OF live_core [OF l0]])
  define st1 where "st1 = fold (bringSibCurrent M ?t) [0..<length ps] (bringCurrent M ?t st0)"
  have s1: "live_inv p ps c st1" "isCurrent ?t (r_series st1)" "\<forall>i<length ps. isCurrent ?t (sib_series (r_sibs st1 ! i))"
    using live_bring_sibs [OF live_bring [OF l0, of M ?t], of "length ps" M ?t] bring_current [of ?t M st0]
    by (simp_all add: st1_def)
  note r1 = live_core [OF s1(1)]
  have n1: "length (r_sibs st1) = length ps" by (rule core_sibs_length [OF r1])
  have mp: "map (\<lambda>x. s_params (sib_series x)) (r_sibs st1) = ps" using r1 by (simp add: run_core_def)
  have par: "s_params (sib_series (r_sibs st1 ! i)) = ps ! i" if "i < length ps" for i
    using nth_map [of i "r_sibs st1" "\<lambda>x. s_params (sib_series x)"] that n1 mp by simp
  have ready: "\<forall>x\<in>set (r_sibs st1). sib_ready ?t x"
  proof
    fix x assume "x \<in> set (r_sibs st1)"
    then obtain i where i: "i < length ps" "x = r_sibs st1 ! i" using n1 by (metis in_set_conv_nth)
    have e: "p_expiry (s_params (sib_series x)) = ?t" using par [OF i(1)] i ex by simp
    have "series_inv (sib_series x)" using run_coreD(3) [OF r1, of i] i n1 by simp
    then show "sib_ready ?t x" using current_complete s1(3) i e by (simp add: sib_ready_def)
  qed
  obtain v s rel where f: "finalize ?t (r_vault st1) (r_series st1) = Inr (v, s, rel)"
    "done_inv p ps c (st1\<lparr>r_vault := v, r_series := s\<rparr>)" "rel \<le> v_locked (r_vault st1)"
    by (rule live_finalize [OF s1(1,2)])
  let ?Q = "\<lambda>j st. (\<forall>x\<in>set (r_sibs st). sib_ready ?t x) \<and> (\<forall>i<j. s_finalized (sib_series (r_sibs st ! i)))"
  obtain st2 where s2: "for_each (sib_finalize ?t) [0..<length ps] (st1\<lparr>r_vault := v, r_series := s\<rparr>) = Inr st2"
    "done_inv p ps c st2" "?Q (length ps) st2"
  proof (rule done_sib_loop [OF f(2), of ?Q "sib_finalize ?t"])
    fix j st assume a: "j < length ps" "done_inv p ps c st" "?Q j st"
    then have "j < length (r_sibs st)" using core_sibs_length [of p ps c st] by (simp add: done_inv_def)
    then show "\<exists>st'. sib_finalize ?t j st = Inr st' \<and> done_inv p ps c st' \<and> r_series st' = r_series st \<and> ?Q (Suc j) st'"
      using sib_finalize_step [OF a(2)] a(3) by metis
  qed (use ready in simp_all)
  have n2: "length (r_sibs st2) = length ps" using core_sibs_length s2(2) by (auto simp: done_inv_def)
  let ?F = "\<lambda>j st. \<forall>x\<in>set (r_sibs st). s_finalized (sib_series x)"
  obtain st3 where s3: "for_each (sib_redeem ?t) [0..<length ps] st2 = Inr st3" "done_inv p ps c st3"
  proof (rule done_sib_loop [OF s2(2), of ?F "sib_redeem ?t"])
    fix j st assume a: "j < length ps" "done_inv p ps c st" "?F j st"
    then have "j < length (r_sibs st)" using core_sibs_length [of p ps c st] by (simp add: done_inv_def)
    then show "\<exists>st'. sib_redeem ?t j st = Inr st' \<and> done_inv p ps c st' \<and> r_series st' = r_series st \<and> ?F (Suc j) st'"
      using sib_redeem_step [OF a(2)] a(3) by metis
  next
    show "?F 0 st2" using s2(3) n2 by (metis in_set_conv_nth)
  qed
  obtain st4 where s4: "redeem_all ?t st3 = Inr st4" "done_inv p ps c st4" by (rule redeem_all_ends [OF s3(2)])
  have r4: "run_core p ps c st4" using s4(2) by (simp add: done_inv_def)
  obtain s5 where s5: "run_snapshot M ?t st4 = Inr (st4\<lparr>r_series := s5\<rparr>)" "run_core p ps c (st4\<lparr>r_series := s5\<rparr>)"
    "s_finalized s5 = s_finalized (r_series st4)" "s_fills s5 = s_fills (r_series st4)"
    "s_outstandingUnits s5 = s_outstandingUnits (r_series st4)" "s_unitsAvailable s5 = s_unitsAvailable (r_series st4)"
    "s_params s5 = s_params (r_series st4)" "s_payoutPerUnit s5 = s_payoutPerUnit (r_series st4)"
    by (rule core_snapshot [OF r4])
  define st5 where "st5 = st4\<lparr>r_series := s5\<rparr>"
  have d5: "done_inv p ps c st5"
    using s4(2) s5 by (simp add: st5_def done_inv_def fills_done_def leg_units_def)
  have r5: "run_core p ps c st5" using d5 by (simp add: done_inv_def)
  note i5 = run_coreD(1,2) [OF r5]
  have rl: "rel \<le> v_locked (r_vault st1)" by (rule f(3))
  have head: "wind_up M p c st0 = (
      let st6 = check ''every claim was extinguished'' (s_outstandingUnits (r_series st5) = 0) st5;
          st7 = check ''no liability remains after redemption'' (s_lockedLiability (r_series st6) = 0) st6;
          st8 = check ''vault solvency after redemption'' (v_balance (r_vault st7) \<ge> v_locked (r_vault st7)) st7
      in andThen (close (r_vault st8) (r_series st8)) (\<lambda>(v, s).
         andThen (for_each sib_close [0..<length ps] (st8\<lparr>r_vault := v, r_series := s\<rparr>)) (\<lambda>st9.
           let st10 = check ''all capital is free once every series is closed'' (v_locked (r_vault st9) = 0) st9;
               st11 = check ''the vault's balance equals deposits plus premiums minus payouts''
                 (v_balance (r_vault st10) = c + totalPremium (r_series st10) (r_sibs st10)
                    - totalPaid (r_series st10) (r_sibs st10)) st10
           in Inr (st11, rel))))"
    unfolding wind_up_def Let_def n0 st1_def [symmetric] n1
    by (simp only: f(1) s2(1) s3(1) s4(1) s5(1) rl check_True andThen_Inr prod.case st5_def)
  show ?thesis
  proof (cases "s_outstandingUnits (r_series st5) = 0")
    case False
    then have "0 < s_outstandingUnits (r_series st5)" using series_invD(3) [OF i5(1)] by simp
    then show ?thesis unfolding head by (simp add: Let_def check_def close_def)
  next
    case True
    have lk: "s_lockedLiability (r_series st5) = 0"
      using series_invD(5) [OF i5(1)] True by (simp add: liability_of_def)
    obtain s' where cl: "close (r_vault st5) (r_series st5) = Inr (r_vault st5, s')"
      "sound_update (r_vault st5) (r_series st5) (r_vault st5) s'" "s' = (r_series st5)\<lparr>s_unitsAvailable := 0\<rparr>"
      by (rule close_frame [OF i5 True])
    let ?st8 = "st5\<lparr>r_vault := r_vault st5, r_series := s'\<rparr>"
    have fd: "fills_done s'"
      using d5 series_invD(4) [OF i5(1)] by (simp add: cl(3) done_inv_def fills_done_def leg_units_def)
    have d8: "done_inv p ps c ?st8"
      using fd run_core_money [OF r5] d5 by (intro done_main [OF d5 cl(2)]) (simp_all add: cl(3) ledger_def done_inv_def)
    obtain st9 where s9: "for_each sib_close [0..<length ps] ?st8 = Inr st9" "done_inv p ps c st9"
      "r_series st9 = r_series ?st8"
    proof (rule done_sib_loop [OF d8, of "\<lambda>j st. True" sib_close])
      fix j st assume a: "j < length ps" "done_inv p ps c st"
      then have "j < length (r_sibs st)" using core_sibs_length [of p ps c st] by (simp add: done_inv_def)
      then show "\<exists>st'. sib_close j st = Inr st' \<and> done_inv p ps c st' \<and> r_series st' = r_series st \<and> True"
        using sib_close_step [OF a(2)] by metis
    qed simp_all
    let ?st = "check free_label (v_locked (r_vault st9) = 0) st9"
    have fields: "r_vault ?st = r_vault st9" "r_series ?st = r_series st9" "r_sibs ?st = r_sibs st9" "r_holders ?st = r_holders st9"
      by (simp_all add: check_def)
    have "wind_up M p c st0 = Inr (?st, rel)"
      unfolding head using True lk done_books(2) [OF d5] cl(1) s9(1) done_books(1) [OF s9(2)]
      by (simp add: Let_def free_label_def [symmetric] fields)
    moreover have "run_core p ps c ?st"
      using s9(2) unfolding done_inv_def run_core_def fields abs_market_def by blast
    moreover have "fills_done (r_series ?st)" "s_outstandingUnits (r_series ?st) = 0"
      unfolding fields s9(3) using fd True by (simp_all add: cl(3))
    moreover have "r_invariants ?st = [] \<or> ps \<noteq> [] \<and> r_invariants ?st = [free_label]"
    proof (cases "ps = []")
      case True
      have "r_sibs st9 = []" using core_sibs_length [of p ps c st9] s9(2) True by (simp add: done_inv_def)
      moreover have "s_lockedLiability (r_series st9) = 0" using lk by (simp add: s9(3) cl(3))
      ultimately have "v_locked (r_vault st9) = 0" using done_books(3) [OF s9(2)] by simp
      then show ?thesis using s9(2) by (simp add: done_inv_def)
    qed (use s9(2) in \<open>simp add: check_def done_inv_def\<close>)
    ultimately show ?thesis by blast
  qed
qed

end
