(* ===== verification/Sim_Scenario_Run.thy ===== *)
theory Sim_Scenario_Run
  imports Sim_Scenario_End
begin

text \<open>
  Whole runs: the start, the theorem about every specification whose flow acts through the context
  only, and the ten scenarios of \<open>SCENARIOS\<close>, whose flows all do.
\<close>

subsection \<open>The start of a run\<close>

definition spec_ok :: "int \<Rightarrow> scenario_spec \<Rightarrow> bool" where
  "spec_ok now spec \<longleftrightarrow> params_ok (baseParams now (sc_params spec)) \<and> 0 \<le> sc_collateral spec
     \<and> (\<forall>x\<in>set (sc_extra spec). params_ok (baseParams now (xs_params x))
          \<and> p_expiry (baseParams now (xs_params x)) = p_expiry (baseParams now (sc_params spec)))"

definition extra_params :: "int \<Rightarrow> scenario_spec \<Rightarrow> series_params list" where
  "extra_params now spec = map (\<lambda>x. baseParams now (xs_params x)) (sc_extra spec)"

lemma sum_list_map_0: "(\<And>x. x \<in> set xs \<Longrightarrow> f x = (0 :: int)) \<Longrightarrow> sum_list (map f xs) = 0"
  by (induction xs) auto

lemma new_series_solvent: "solvent v \<Longrightarrow> new_series i p v = Inr (v, init_series i p)"
  by (simp add: new_series_def increaseLocked_def assertSolvent_def solvent_def)

lemma make_sibs_ends:
  assumes "solvent v"
  shows "\<exists>sibs. make_sibs M now seed i xs v = Inr (v, sibs)
    \<and> map (\<lambda>x. s_params (sib_series x)) sibs = map (\<lambda>x. baseParams now (xs_params x)) xs
    \<and> (\<forall>x\<in>set sibs. sib_units x = 0 \<and> (\<exists>k. sib_series x = init_series k (s_params (sib_series x))))"
proof (induction xs arbitrary: i)
  case (Cons x xs)
  let ?p = "baseParams now (xs_params x)"
  obtain pth where "buildPath M (p_start ?p) (p_expiry ?p) (p_sampleInterval ?p) 3000 (xs_segments x) (seed + 1000 + i) = Some pth"
    by (rule buildPath_ends)
  moreover obtain sibs where "make_sibs M now seed (i + 1) xs v = Inr (v, sibs)"
    "map (\<lambda>x. s_params (sib_series x)) sibs = map (\<lambda>x. baseParams now (xs_params x)) xs"
    "\<forall>x\<in>set sibs. sib_units x = 0 \<and> (\<exists>k. sib_series x = init_series k (s_params (sib_series x)))"
    using Cons.IH by blast
  ultimately show ?case
    using new_series_solvent [OF assms, of "2 + i" ?p] by (auto simp: Let_def init_series_def)
qed simp

lemma start_run_ends:
  assumes "spec_ok now spec"
  obtains st where "start_run M spec now seed = Inr st"
    "live_inv (baseParams now (sc_params spec)) (extra_params now spec) (sc_collateral spec) st"
proof -
  let ?p = "baseParams now (sc_params spec)" and ?c = "sc_collateral spec"
  let ?v = "new_vault\<lparr>v_balance := ?c, v_deposited := ?c\<rparr>"
  have c: "0 \<le> ?c" "params_ok ?p" using assms by (auto simp: spec_ok_def)
  have v: "solvent ?v" "deposit ?c new_vault = Inr ?v"
    using c by (simp_all add: solvent_def new_vault_def deposit_def assertSolvent_def)
  obtain pth where pth: "buildPath M (p_start ?p) (p_expiry ?p) (p_sampleInterval ?p) 3000 (sc_segments spec) seed = Some pth"
    by (rule buildPath_ends)
  obtain sibs where s: "make_sibs M now seed 0 (sc_extra spec) ?v = Inr (?v, sibs)"
    "map (\<lambda>x. s_params (sib_series x)) sibs = extra_params now spec"
    "\<forall>x\<in>set sibs. sib_units x = 0 \<and> (\<exists>k. sib_series x = init_series k (s_params (sib_series x)))"
    using make_sibs_ends [OF v(1), of M now seed 0 "sc_extra spec"] by (auto simp: extra_params_def)
  let ?st = "\<lparr>r_vault = ?v, r_series = init_series 1 ?p, r_path = pth, r_sibs = sibs, r_holders = [],
      r_rng = word_of_int seed XOR 0x5eed, r_calls = 0, r_largest = 0, r_partial = 0,
      r_invariants = [], r_notes = []\<rparr>"
  have run: "start_run M spec now seed = Inr ?st"
    by (simp add: start_run_def Let_def v pth s(1) new_series_solvent [OF v(1)])
  have sf: "\<exists>k q. sib_series x = init_series k q \<and> params_ok q \<and> sib_units x = 0" if "x \<in> set sibs" for x
  proof -
    have "s_params (sib_series x) \<in> set (extra_params now spec)"
      using that unfolding s(2) [symmetric] by simp
    then have "params_ok (s_params (sib_series x))"
      using assms by (auto simp: extra_params_def spec_ok_def)
    then show ?thesis using s(3) that by blast
  qed
  have new: "s_lockedLiability (sib_series x) = 0 \<and> s_premiumTaken (sib_series x) = 0 \<and> s_exitPaid (sib_series x) = 0
      \<and> s_settlePaid (sib_series x) = 0 \<and> series_inv (sib_series x) \<and> sib_live x" if "x \<in> set sibs" for x
    using sf [OF that] init_series_inv by (auto simp: init_series_def sib_live_def)
  have z: "sum_list (map s_lockedLiability (map sib_series sibs)) = 0" "sum_list (map s_premiumTaken (map sib_series sibs)) = 0"
    "sum_list (map (\<lambda>s. s_exitPaid s + s_settlePaid s) (map sib_series sibs)) = 0"
    using new by (simp_all add: sum_list_map_0)
  have ini: "s_lockedLiability (init_series 1 ?p) = 0" "s_premiumTaken (init_series 1 ?p) = 0" "s_exitPaid (init_series 1 ?p) = 0"
    "s_settlePaid (init_series 1 ?p) = 0" "s_outstandingUnits (init_series 1 ?p) = 0" "s_fills (init_series 1 ?p) = []"
    "s_finalized (init_series 1 ?p) = False" "s_params (init_series 1 ?p) = ?p" "s_unitsAvailable (init_series 1 ?p) = p_maxUnits ?p"
    by (simp_all add: init_series_def)
  have vf: "v_balance ?v = ?c" "v_deposited ?v = ?c" "v_withdrawn ?v = 0" "v_locked ?v = 0"
    by (simp_all add: new_vault_def)
  have "market_inv (abs_market ?st)"
    using v(1) z init_series_inv [OF c(2)] new ini vf
    by (simp add: market_inv_def abs_market_def total_liability_def total_premium_def total_paid_def)
  then have "live_inv ?p (extra_params now spec) ?c ?st"
    using s(2) new ini vf
    by (simp add: live_inv_def run_core_def ledger_def names_ok_def fills_ok_def leg_units_def)
  then show ?thesis using run that by blast
qed

subsection \<open>The run\<close>

definition flow_safe :: "js_math \<Rightarrow> flow \<Rightarrow> bool" where
  "flow_safe M flow \<longleftrightarrow> (\<forall>p ps c t step. 0 \<le> step \<longrightarrow> safe (live_inv p ps c) (flow M t step))"

lemma hsum_diff: "sum_list (map (\<lambda>h. h_received h - h_paid h) hs) = hsum h_received hs - hsum h_paid hs"
  by (induction hs) (simp_all add: hsum_def)

lemma hsum_zero: "\<forall>h\<in>set hs. 0 \<le> h_units h \<Longrightarrow> hsum h_units hs = 0 \<Longrightarrow> \<forall>h\<in>set hs. h_units h = 0"
proof (induction hs)
  case (Cons h hs)
  have "0 \<le> hsum h_units hs" unfolding hsum_def using Cons.prems(1) by (intro sum_list_nonneg) auto
  then show ?case using Cons by auto
qed simp

lemma run_notes_frame [simp]: "r_invariants (run_notes p st) = r_invariants st"
  by (simp add: run_notes_def push_note_def Let_def)

definition settled_result :: "scenario_spec \<Rightarrow> scenario_result \<Rightarrow> bool" where
  "settled_result spec r \<longleftrightarrow> o_writerPnl r + o_buyerPnl r = 0
     \<and> (\<forall>h\<in>set (o_holders r). h_units h = 0) \<and> 0 \<le> o_unitsUnsold r
     \<and> o_unitsExited r + o_unitsRedeemed r \<le> o_unitsSold r
     \<and> (o_payoutPerUnit r \<noteq> 0 \<longrightarrow> o_unitsExited r + o_unitsRedeemed r = o_unitsSold r)
     \<and> (o_invariants r = [] \<or> sc_extra spec \<noteq> [] \<and> o_invariants r = [free_label])"

lemma run_result_ok:
  assumes core: "run_core p ps c st" and fd: "fills_done (r_series st)" and out: "s_outstandingUnits (r_series st) = 0"
    and inv: "r_invariants st = [] \<or> sc_extra spec \<noteq> [] \<and> r_invariants st = [free_label]"
  obtains r where "run_result M spec p q st rel = Inr r" "settled_result spec r"
proof -
  note d = run_coreD(1) [OF core] and m = run_core_money [OF core]
  have p: "0 < p_sampleInterval p" "0 < p_unitNotional p"
    using params_okD(1,4) [OF series_invD(1) [OF d]] m(3) by simp_all
  obtain pv where pv: "pathVariance M (r_path st) (p_start p) (p_expiry p) (p_sampleInterval p) = Some pv"
    by (rule pathVariance_ends [OF p(1)])
  obtain q0 where q0: "quote_at M (p_start p) (r_series st) = Inr q0" using quote_at_ok [OF d] by blast
  have nz: "8 * YEAR * p_unitNotional p \<noteq> 0" using p(2) by (simp add: YEAR_def)
  obtain lv where lv: "run_lvr M p (r_path st) (r_series st) = Inr lv"
    using nz by (simp add: run_lvr_def Let_def bigDiv_def q0 pv)
  have l: "hsum h_units (r_holders st) = 0" "hsum h_paid (r_holders st) = s_premiumTaken (r_series st)"
    "hsum h_received (r_holders st) = s_exitPaid (r_series st) + s_settlePaid (r_series st)"
    "\<forall>h\<in>set (r_holders st). 0 \<le> h_units h"
    using m(4) out by (auto simp: ledger_def)
  have u: "0 \<le> s_unitsAvailable (r_series st)" by (rule series_invD(4) [OF d])
  obtain r where r: "run_result M spec p q st rel = Inr r" "o_writerPnl r = s_premiumTaken (r_series st)
      - s_exitPaid (r_series st) - s_settlePaid (r_series st)" "o_holders r = r_holders st"
    "o_buyerPnl r = sum_list (map (\<lambda>h. h_received h - h_paid h) (r_holders st))"
    "o_unitsUnsold r = p_maxUnits p - leg_units LegIssue (r_series st)" "o_unitsSold r = leg_units LegIssue (r_series st)"
    "o_unitsExited r = leg_units LegExit (r_series st)" "o_unitsRedeemed r = leg_units LegSettle (r_series st)"
    "o_payoutPerUnit r = s_payoutPerUnit (r_series st)" "o_invariants r = r_invariants st"
    by (simp add: run_result_def Let_def pv lv)
  have "settled_result spec r"
    using l hsum_zero [OF l(4,1)] fd out u m(3) inv r
    by (simp add: settled_result_def hsum_diff fills_done_def)
  then show ?thesis using r(1) that by blast
qed

lemma run_ends:
  assumes spec: "spec_ok now spec" and flow: "flow_safe M (sc_flow spec)"
  shows "(\<exists>n. 0 < n \<and> runScenario M spec now seed = Inl (ClaimsOutstanding n))
    \<or> (\<exists>r. runScenario M spec now seed = Inr r \<and> settled_result spec r)"
proof -
  let ?p = "baseParams now (sc_params spec)" and ?ps = "extra_params now spec" and ?c = "sc_collateral spec"
  obtain st0 where s0: "start_run M spec now seed = Inr st0" "live_inv ?p ?ps ?c st0"
    by (rule start_run_ends [OF spec])
  obtain q where q: "quote_at M (p_start ?p) (r_series st0) = Inr q"
    using quote_at_ok [OF run_coreD(1) [OF live_core [OF s0(2)]]] by blast
  have "safe (live_inv ?p ?ps ?c) (window_loop M (sc_flow spec) ?p 0)"
    using flow by (intro safe_window_loop) (simp_all add: flow_safe_def)
  then obtain st1 where s1: "window_loop M (sc_flow spec) ?p 0 st0 = Inr st1" "live_inv ?p ?ps ?c st1"
    using s0(2) by (rule safeE)
  have run: "runScenario M spec now seed = andThen (wind_up M ?p ?c st1)
      (\<lambda>(st2, rel). run_result M spec ?p q st2 rel)"
    by (simp add: runScenario_def Let_def s0(1) q s1(1))
  have ex: "\<forall>q\<in>set ?ps. p_expiry q = p_expiry ?p" and ne: "?ps \<noteq> [] \<longleftrightarrow> sc_extra spec \<noteq> []"
    using spec by (auto simp: spec_ok_def extra_params_def)
  show ?thesis
    using wind_up_ends [OF s1(2) ex, of M] unfolding run ne
  proof (elim disjE exE conjE)
    fix st rel
    assume w: "wind_up M ?p ?c st1 = Inr (st, rel)" "run_core ?p ?ps ?c st" "fills_done (r_series st)"
      "s_outstandingUnits (r_series st) = 0" "r_invariants st = []"
    obtain r where "run_result M spec ?p q st rel = Inr r" "settled_result spec r"
      by (rule run_result_ok [OF w(2-4)]) (use w(5) in auto)
    then show "(\<exists>n>0. andThen (wind_up M ?p ?c st1) (\<lambda>(st2, rel). run_result M spec ?p q st2 rel) = Inl (ClaimsOutstanding n))
      \<or> (\<exists>r. andThen (wind_up M ?p ?c st1) (\<lambda>(st2, rel). run_result M spec ?p q st2 rel) = Inr r \<and> settled_result spec r)"
      using w(1) by simp
  next
    fix st rel
    assume w: "wind_up M ?p ?c st1 = Inr (st, rel)" "run_core ?p ?ps ?c st" "fills_done (r_series st)"
      "s_outstandingUnits (r_series st) = 0" "sc_extra spec \<noteq> []" "r_invariants st = [free_label]"
    obtain r where "run_result M spec ?p q st rel = Inr r" "settled_result spec r"
      by (rule run_result_ok [OF w(2-4)]) (use w(5,6) in auto)
    then show "(\<exists>n>0. andThen (wind_up M ?p ?c st1) (\<lambda>(st2, rel). run_result M spec ?p q st2 rel) = Inl (ClaimsOutstanding n))
      \<or> (\<exists>r. andThen (wind_up M ?p ?c st1) (\<lambda>(st2, rel). run_result M spec ?p q st2 rel) = Inr r \<and> settled_result spec r)"
      using w(1) by simp
  qed auto
qed

subsection \<open>The ten scenarios\<close>

text \<open>What a flow can do with its context: buy with a non-negative amount, sell, bring the window current, stop
  the issuance and draw from the scenario's generator, any number of times and choosing each call by
  anything the state shows.\<close>

inductive context_step :: "js_math \<Rightarrow> int \<Rightarrow> (run_state \<Rightarrow> step_result) \<Rightarrow> bool" for M t where
  idle [intro!]: "context_step M t Inr"
| buys [intro!]: "0 \<le> amt \<Longrightarrow> context_step M t (buy M t name amt)"
| sells [intro!]: "context_step M t (exitUnits M t name units)"
| syncs [intro!]: "context_step M t (ctx_sync M t)"
| stops [intro!]: "context_step M t ctx_stop"
| chains: "context_step M t f \<Longrightarrow> context_step M t g \<Longrightarrow> context_step M t (\<lambda>st. andThen (f st) g)"
| chooses: "(\<And>seen. context_step M t (f seen)) \<Longrightarrow> context_step M t (\<lambda>st. f st st)"
| draws: "(\<And>u. context_step M t (f u)) \<Longrightarrow>
    context_step M t (\<lambda>st. f (fst (rng_next (r_rng st))) (st\<lparr>r_rng := snd (rng_next (r_rng st))\<rparr>))"

definition acts_through_context :: "js_math \<Rightarrow> flow \<Rightarrow> bool" where
  "acts_through_context M flow \<longleftrightarrow> (\<forall>t step. context_step M t (flow M t step))"

lemma step_chooses: "(\<And>seen. context_step M t (\<lambda>st. f seen st)) \<Longrightarrow> (\<And>st. g st = f st st) \<Longrightarrow> context_step M t g"
proof -
  assume f: "\<And>seen. context_step M t (\<lambda>st. f seen st)" and g: "\<And>st. g st = f st st"
  have "g = (\<lambda>st. f st st)" by (rule ext) (rule g)
  then show ?thesis using context_step.chooses [of M t f] f by simp
qed

lemma step_for_each: "(\<And>x. context_step M t (f x)) \<Longrightarrow> context_step M t (for_each f xs)"
proof (induction xs)
  case Nil
  have "for_each f [] = (Inr :: run_state \<Rightarrow> step_result)" by (simp add: fun_eq_iff)
  then show ?case by auto
next
  case (Cons x xs)
  have "for_each f (x # xs) = (\<lambda>st. andThen (f x st) (for_each f xs))" by (simp add: fun_eq_iff)
  then show ?case using Cons by (auto intro: context_step.chains)
qed

lemma step_exit_all: "context_step M t (exit_all M t k)"
proof (rule step_chooses)
  show "context_step M t (for_each (\<lambda>n st. exitUnits M t n (bdiv (h_units (holder_of (r_holders st) n)) k) st)
      (map h_name (r_holders seen)))" for seen
    by (rule step_for_each, rule context_step.chooses) auto
qed (simp add: exit_all_def)

lemma step_if: "context_step M t f \<Longrightarrow> context_step M t g \<Longrightarrow> context_step M t (\<lambda>st. if b st then f st else g st)"
  by (rule step_chooses [where f = "\<lambda>seen. if b seen then f else g"]) auto

lemma live_rng: "live_inv p ps c (st\<lparr>r_rng := a\<rparr>) = live_inv p ps c st"
  by (simp add: live_inv_def run_core_def abs_market_def)

lemma context_step_safe: "context_step M t f \<Longrightarrow> safe (live_inv p ps c) f"
proof (induction rule: context_step.induct)
  case (chains f g)
  then show ?case by (intro safe_andThen)
next
  case (chooses f)
  then show ?case by (auto simp: safe_def)
next
  case (draws f)
  then show ?case by (auto simp: safe_def live_rng)
qed (auto intro: safe_buy safe_exit_units safe_sync safe_stop)

lemma acts_safe: "acts_through_context M flow \<Longrightarrow> flow_safe M flow"
  unfolding acts_through_context_def flow_safe_def using context_step_safe by blast

lemma step_steady: "0 \<le> amt \<Longrightarrow> context_step M t (steadyDemand amt n M t step)"
  unfolding steadyDemand_def [abs_def] by (intro step_if step_for_each context_step.idle context_step.buys)

lemma acts_steady: "0 \<le> amt \<Longrightarrow> acts_through_context M (steadyDemand amt n)"
  by (simp add: acts_through_context_def step_steady)

lemma acts_whales: "acts_through_context M flow_whales"
  unfolding acts_through_context_def flow_whales_def [abs_def]
  by (intro allI step_if step_for_each context_step.idle context_step.buys) (simp add: USDC_def)

lemma USDC_pos: "0 \<le> 900 * USDC" "0 \<le> 800 * USDC" by (simp_all add: USDC_def)

lemma acts_early: "acts_through_context M flow_early_exits"
  unfolding acts_through_context_def flow_early_exits_def [abs_def]
  by (intro allI step_if step_exit_all step_steady context_step.idle USDC_pos)

lemma acts_alternating: "acts_through_context M flow_alternating"
  unfolding acts_through_context_def flow_alternating_def [abs_def]
  by (intro allI step_if step_exit_all step_steady USDC_pos)

lemma acts_stopped: "acts_through_context M flow_stopped"
  unfolding acts_through_context_def flow_stopped_def [abs_def]
  by (intro allI step_if step_exit_all step_steady context_step.idle context_step.stops USDC_pos)

lemma baseParams_ok: "params_ok (baseParams now id)"
  by (simp add: params_ok_def baseParams_def DAY_def HOUR_def USDC_def WAD_def BPS_def)

lemma scenarios_ok:
  assumes "spec \<in> set SCENARIOS"
  shows "spec_ok now spec" "acts_through_context M (sc_flow spec)"
proof -
  have c: "0 \<le> COLLATERAL" "0 \<le> 600 * USDC" "0 \<le> 700 * USDC" by (simp_all add: COLLATERAL_def USDC_def)
  show "spec_ok now spec"
    using assms c(1) baseParams_ok by (auto simp: SCENARIOS_def scenario_def spec_ok_def)
  show "acts_through_context M (sc_flow spec)"
    using assms acts_steady [OF c(2)] acts_steady [OF c(3)] acts_whales acts_early acts_alternating acts_stopped
    by (auto simp: SCENARIOS_def scenario_def)
qed

subsection \<open>What a run promises\<close>

definition identity_math :: js_math where
  "identity_math = \<lparr>math_exp = \<lambda>x. x, math_log = \<lambda>x. x, math_sqrt = \<lambda>x. x, math_cos = \<lambda>x. x\<rparr>"

text \<open>C10: a run of any scenario whose flow acts only through its context, by buys of non-negative amounts,
  sales, syncs, stopping the issuance and random draws in any combination chosen by what it sees, with
  non-negative collateral and over well-formed series that share an expiry, either returns a settled
  result or ends in the one exception the close can throw, for claims left outstanding. In a settled
  result the writer's and the buyers' profits cancel exactly, no holder is left with units, every unit
  sold was exited or redeemed (unless the payout was zero and the units were burned), and no invariant
  check failed, except that with siblings some of the shared capital may still be backing their dust.\<close>

theorem scenario_settles:
  assumes "spec_ok now spec" "acts_through_context M (sc_flow spec)"
  shows "(\<exists>n. 0 < n \<and> runScenario M spec now seed = Inl (ClaimsOutstanding n))
    \<or> (\<exists>r. runScenario M spec now seed = Inr r
        \<and> o_writerPnl r + o_buyerPnl r = 0
        \<and> (\<forall>h\<in>set (o_holders r). h_units h = 0) \<and> 0 \<le> o_unitsUnsold r
        \<and> o_unitsExited r + o_unitsRedeemed r \<le> o_unitsSold r
        \<and> (o_payoutPerUnit r \<noteq> 0 \<longrightarrow> o_unitsExited r + o_unitsRedeemed r = o_unitsSold r)
        \<and> (o_invariants r = [] \<or> sc_extra spec \<noteq> [] \<and> o_invariants r = [free_label]))"
  using run_ends [OF assms(1) acts_safe [OF assms(2)], of seed] unfolding settled_result_def .

theorem scenario_settles_witness:
  "case runScenario identity_math (scenario ''low-realized'' [seg 1 (2/10)] [] (steadyDemand (600 * USDC) 4)) 1800000000 1
   of Inl e \<Rightarrow> (\<exists>n. e = ClaimsOutstanding n) | Inr r \<Rightarrow> o_writerPnl r + o_buyerPnl r = 0 \<and> o_invariants r = []"
proof -
  let ?s = "scenario ''low-realized'' [seg 1 (2/10)] [] (steadyDemand (600 * USDC) 4)"
  have s: "?s \<in> set SCENARIOS" "sc_extra ?s = []" by (simp_all add: SCENARIOS_def scenario_def)
  show ?thesis
    using scenario_settles [OF scenarios_ok(1) [OF s(1), of 1800000000] scenarios_ok(2) [OF s(1), of identity_math],
        of 1] s(2) by (auto split: sum.splits)
qed

text \<open>C11: this holds of every one of the ten scenarios the simulation ships, for every start time, every
  seed and every engine's \<open>Math\<close>: none of them ever runs short of collateral, trades on a stale window
  or fails to finalize.\<close>

theorem shipped_scenarios_settle:
  assumes "spec \<in> set SCENARIOS"
  shows "(\<exists>n. 0 < n \<and> runScenario M spec now seed = Inl (ClaimsOutstanding n))
    \<or> (\<exists>r. runScenario M spec now seed = Inr r \<and> o_writerPnl r = - o_buyerPnl r
        \<and> (o_invariants r = [] \<or> sc_key spec = ''shared-vault'' \<and> o_invariants r = [free_label]))"
proof -
  have "sc_extra spec \<noteq> [] \<Longrightarrow> sc_key spec = ''shared-vault''"
    using assms by (auto simp: SCENARIOS_def scenario_def)
  then show ?thesis
    using run_ends [OF scenarios_ok(1) [OF assms] acts_safe [OF scenarios_ok(2) [OF assms]], of M now seed] unfolding settled_result_def by fastforce
qed

theorem shipped_scenarios_settle_witness:
  "case runScenario identity_math (scenario ''issuance-stopped'' [seg 1 (5/10)] [] flow_stopped) 0 7
   of Inl e \<Rightarrow> (\<exists>n. e = ClaimsOutstanding n) | Inr r \<Rightarrow> o_writerPnl r = - o_buyerPnl r"
proof -
  have "scenario ''issuance-stopped'' [seg 1 (5/10)] [] flow_stopped \<in> set SCENARIOS" by (simp add: SCENARIOS_def)
  from shipped_scenarios_settle [OF this, of identity_math 0 7] show ?thesis by auto
qed

end
