(* ===== verification/Sim_Vectors.thy ===== *)
theory Sim_Vectors
  imports Sim_Pricing Js_String
begin

text \<open>
  \<open>sim/src/check.ts\<close>: the comparison of the simulator's arithmetic with the reference vectors of the Solidity
  library (\<open>contracts/test/vectors/pricing_vectors.json\<close>), and the run of it on the named vectors. An exception
  ends the program. The file, the counters and the printed summary are left out.
\<close>

record vector_case =
  c_anchor :: int
  c_cap :: int
  c_skew :: int
  c_dt :: int
  c_half_life :: int
  c_realized :: int
  c_elapsed :: int
  c_remaining :: int
  c_impact :: int
  c_spread :: int
  c_notional :: int
  c_units :: int
  c_amount_in :: int
  c_outstanding :: int
  c_free :: int
  c_final_variance :: int
  c_sum_squared :: int
  c_decayed_skew :: int
  c_forward :: int
  c_projected :: int
  c_bid_variance :: int
  c_ask_variance :: int
  c_ask_slope :: int
  c_bid_slope :: int
  c_premium :: int
  c_units_for :: int
  c_units_to_cap :: int
  c_units_to_collateral :: int
  c_exit_units :: int
  c_exit_proceeds :: int
  c_units_to_zero_bid :: int
  c_payout_per_unit :: int
  c_settle_proceeds :: int
  c_max_liability :: int
  c_final_liability :: int
  c_locked_for_outstanding :: int
  c_annualized :: int

text \<open>A comparison adds the name of what differs; the formulas that throw end the case.\<close>

definition differs :: "string \<Rightarrow> int \<Rightarrow> int \<Rightarrow> string list" where
  "differs what got want = (if got \<noteq> want then [what] else [])"

definition differs_sum :: "string \<Rightarrow> js_error + int \<Rightarrow> int \<Rightarrow> js_error + string list" where
  "differs_sum what got want = andThen got (\<lambda>g. Inr (differs what g want))"

text \<open>The decay is measured: its relative error must not pass \<open>10 ^ - 9\<close>.\<close>

definition decay_error :: "js_math \<Rightarrow> vector_case \<Rightarrow> rat" where
  "decay_error M c =
     (let got = decaySkew M (c_skew c) (c_dt c) (c_half_life c); want = c_decayed_skew c;
          scale = (if want = 0 then 1 else if want < 0 then - want else want);
          diff = (if got > want then got - want else want - got)
      in fl (js_Number diff / js_Number scale))"

definition decay_differs :: "js_math \<Rightarrow> vector_case \<Rightarrow> string list" where
  "decay_differs M c = (if decay_error M c > fl (1 / 10 ^ 9) then [''decaySkew''] else [])"

definition quote_differs :: "vector_case \<Rightarrow> js_error + string list" where
  "quote_differs c =
     andThen (bidAskVariance (c_projected c) (c_spread c) (c_cap c)) (\<lambda>ba. Inr
       (differs ''forwardVariance'' (forwardVariance (c_anchor c) (c_decayed_skew c) (c_cap c)) (c_forward c)
        @ differs ''projectedVariance'' (projectedVariance (c_realized c) (c_elapsed c) (c_forward c) (c_remaining c)) (c_projected c)
        @ differs ''annualize'' (annualize (c_sum_squared c) (c_elapsed c)) (c_annualized c)
        @ differs ''bidVariance'' (bidVariance ba) (c_bid_variance c)
        @ differs ''askVariance'' (askVariance ba) (c_ask_variance c)
        @ differs ''askImpactSlope'' (askImpactSlope (c_impact c) (c_remaining c) (c_elapsed c + c_remaining c) (c_spread c)) (c_ask_slope c)
        @ differs ''bidImpactSlope'' (bidImpactSlope (c_impact c) (c_remaining c) (c_elapsed c + c_remaining c) (c_spread c)) (c_bid_slope c)))"

definition issue_differs :: "vector_case \<Rightarrow> js_error + string list" where
  "issue_differs c =
     andThen (differs_sum ''issueUnitsFor'' (issueUnitsFor (c_ask_variance c) (c_ask_slope c) (c_notional c) (c_amount_in c)) (c_units_for c))
       (\<lambda>unitsFor. Inr
       (differs ''issuePremium'' (issuePremium (c_ask_variance c) (c_ask_slope c) (c_notional c) (c_units c)) (c_premium c)
        @ unitsFor
        @ differs ''issueUnitsToCap'' (issueUnitsToCap (c_ask_variance c) (c_ask_slope c) (c_cap c)) (c_units_to_cap c)
        @ differs ''issueUnitsToCollateral''
            (issueUnitsToCollateral (c_outstanding c) (maxLiability (c_outstanding c) (c_notional c) (c_cap c)) (c_free c) (c_notional c) (c_cap c))
            (c_units_to_collateral c)))"

definition payout_differs :: "vector_case \<Rightarrow> js_error + string list" where
  "payout_differs c =
     andThen (differs_sum ''exitProceeds'' (exitProceeds (c_bid_variance c) (c_bid_slope c) (c_notional c) (c_exit_units c)) (c_exit_proceeds c))
       (\<lambda>proceeds. Inr
       (proceeds
        @ differs ''exitUnitsToZeroBid'' (exitUnitsToZeroBid (c_bid_variance c) (c_bid_slope c)) (c_units_to_zero_bid c)
        @ differs ''payoutPerUnit'' (payoutPerUnit (c_final_variance c) (c_cap c) (c_notional c)) (c_payout_per_unit c)
        @ differs ''settleProceeds'' (settleProceeds (c_units c) (c_payout_per_unit c)) (c_settle_proceeds c)
        @ differs ''maxLiability'' (maxLiability (c_units c) (c_notional c) (c_cap c)) (c_max_liability c)
        @ differs ''finalLiability'' (finalLiability (c_units c) (c_payout_per_unit c)) (c_final_liability c)
        @ differs ''maxLiability(outstanding)'' (maxLiability (c_outstanding c) (c_notional c) (c_cap c)) (c_locked_for_outstanding c)))"

definition case_differs :: "js_math \<Rightarrow> vector_case \<Rightarrow> js_error + string list" where
  "case_differs M c =
     andThen (quote_differs c) (\<lambda>a. andThen (issue_differs c) (\<lambda>b. andThen (payout_differs c) (\<lambda>d.
       Inr (decay_differs M c @ a @ b @ d))))"

subsection \<open>The vectors\<close>

text \<open>
  The root inside \<open>issueUnitsFor\<close> takes a hundred steps of the loop; a number that is the floor of the root takes its
  place (\<open>issueUnitsFor_root\<close>), so each vector comes with it.
\<close>

definition units_discriminant :: "int \<Rightarrow> int \<Rightarrow> int \<Rightarrow> int \<Rightarrow> int" where
  "units_discriminant ask slope N amountIn = ask * ask + ceilDiv (2 * slope * bdiv (amountIn * WAD2) N) WAD"

definition units_with_root :: "int \<Rightarrow> int \<Rightarrow> int \<Rightarrow> int \<Rightarrow> int \<Rightarrow> js_error + int" where
  "units_with_root r ask slope N amountIn =
     (let x = bdiv (amountIn * WAD2) N in
      if ask = 0 \<or> amountIn = 0 then Inr 0
      else if slope = 0 then bigDiv x ask
      else bigDiv (2 * x) (ask + (if r * r < units_discriminant ask slope N amountIn then r + 1 else r)))"

lemma isqrt_is: "0 \<le> r \<Longrightarrow> r * r \<le> n \<Longrightarrow> n < (r + 1) * (r + 1) \<Longrightarrow> isqrt n = Inr r"
proof -
  assume r: "0 \<le> r" "r * r \<le> n" "n < (r + 1) * (r + 1)"
  then have "0 \<le> n" using order_trans [OF zero_le_square r(2)] by simp
  then obtain q where q: "isqrt n = Inr q" "0 \<le> q" "q * q \<le> n" "n < (q + 1) * (q + 1)" by (rule isqrt_correct)
  have "\<not> q < r" "\<not> r < q"
    using mult_mono [of "q + 1" r "q + 1" r] mult_mono [of "r + 1" q "r + 1" q] r q by auto
  then show "isqrt n = Inr r" using q(1) by simp
qed

lemma issueUnitsFor_root:
  assumes "N \<noteq> 0" "0 \<le> r" "r * r \<le> units_discriminant ask slope N a" "units_discriminant ask slope N a < (r + 1) * (r + 1)"
  shows "issueUnitsFor ask slope N a = units_with_root r ask slope N a"
  using isqrt_is [OF assms(2-4)] assms(1)
  by (simp add: issueUnitsFor_def units_with_root_def units_discriminant_def Let_def)

definition exact_agree :: "vector_case \<Rightarrow> bool" where
  "exact_agree c \<longleftrightarrow> quote_differs c = Inr [] \<and> issue_differs c = Inr [] \<and> payout_differs c = Inr []"

definition agree_with :: "int \<times> vector_case \<Rightarrow> bool" where
  "agree_with rc \<longleftrightarrow> (let r = fst rc; c = snd rc; D = units_discriminant (c_ask_variance c) (c_ask_slope c) (c_notional c) (c_amount_in c) in
     c_notional c \<noteq> 0 \<and> 0 \<le> r \<and> r * r \<le> D \<and> D < (r + 1) * (r + 1)
     \<and> units_with_root r (c_ask_variance c) (c_ask_slope c) (c_notional c) (c_amount_in c) = Inr (c_units_for c)
     \<and> issuePremium (c_ask_variance c) (c_ask_slope c) (c_notional c) (c_units c) = c_premium c
     \<and> issueUnitsToCap (c_ask_variance c) (c_ask_slope c) (c_cap c) = c_units_to_cap c
     \<and> issueUnitsToCollateral (c_outstanding c) (maxLiability (c_outstanding c) (c_notional c) (c_cap c)) (c_free c) (c_notional c) (c_cap c)
         = c_units_to_collateral c
     \<and> quote_differs c = Inr [] \<and> payout_differs c = Inr [])"

lemma agree_with_exact: "agree_with (r, c) \<Longrightarrow> exact_agree c"
  by (auto simp: agree_with_def exact_agree_def issue_differs_def Let_def differs_sum_def differs_def
    issueUnitsFor_root [of "c_notional c" r "c_ask_variance c" "c_ask_slope c" "c_amount_in c"])

definition vectors_1 :: "(int \<times> vector_case) list" where
  "vectors_1 = [
     (518676199569635159, vector_case.make 250000000000000000 1000000000000000000 0 0 21600 0 0 604800 10000000000000000 200 100000000 10000000000000000000 1000000000 0 100000000000 300000000000000000 5000000000000000 0 250000000000000000 250000000000000000 245000000000000000 255000000000000000 10200000000000000 9800000000000000 306000000 25850607800944623461 73039215686274509803 1000000000000000000000 10000000000000000000 196000000 25000000000000000000 30000000 300000000 1000000000 300000000 0 0) \<comment> \<open>fresh forward market\<close>,
     (531676828534025921, vector_case.make 250000000000000000 1000000000000000000 50000000000000000 21600 21600 0 0 604800 10000000000000000 200 100000000 10000000000000000000 1000000000 0 100000000000 300000000000000000 5000000000000000 25000000000000000 275000000000000000 275000000000000000 269500000000000000 280500000000000000 10200000000000000 9800000000000000 331500000 24625179268041756957 70539215686274509803 1000000000000000000000 10000000000000000000 220500000 27500000000000000000 30000000 300000000 1000000000 300000000 0 0) \<comment> \<open>positive skew, one half-life old\<close>,
     (495596610157898477, vector_case.make 250000000000000000 1000000000000000000 (- 50000000000000000) 259200 0 0 0 604800 10000000000000000 200 100000000 10000000000000000000 1000000000 0 100000000000 300000000000000000 5000000000000000 (- 50000000000000000) 200000000000000000 200000000000000000 196000000000000000 204000000000000000 10200000000000000 9800000000000000 255000000 28587902956656713407 78039215686274509803 1000000000000000000000 10000000000000000000 147000000 20000000000000000000 30000000 300000000 1000000000 300000000 0 0) \<comment> \<open>negative skew, no decay\<close>,
     (518676199569635159, vector_case.make 250000000000000000 1000000000000000000 100000000000000000 31536000 300 0 0 604800 10000000000000000 200 100000000 10000000000000000000 1000000000 0 100000000000 300000000000000000 5000000000000000 0 250000000000000000 250000000000000000 245000000000000000 255000000000000000 10200000000000000 9800000000000000 306000000 25850607800944623461 73039215686274509803 1000000000000000000000 10000000000000000000 196000000 25000000000000000000 30000000 300000000 1000000000 300000000 0 0) \<comment> \<open>skew decayed to dust\<close>,
     (451663591625448596, vector_case.make 250000000000000000 1000000000000000000 (- 1000000000000000000) 0 21600 0 0 604800 10000000000000000 200 100000000 10000000000000000000 1000000000 0 100000000000 300000000000000000 5000000000000000 (- 1000000000000000000) 0 0 0 0 10200000000000000 9800000000000000 51000000 0 98039215686274509803 1000000000000000000000 0 0 0 30000000 300000000 1000000000 300000000 0 0) \<comment> \<open>skew below zero floor\<close>,
     (1097269337947616214, vector_case.make 250000000000000000 1000000000000000000 3000000000000000000 0 21600 0 0 604800 10000000000000000 200 100000000 10000000000000000000 1000000000 0 100000000000 300000000000000000 5000000000000000 3000000000000000000 1000000000000000000 1000000000000000000 980000000000000000 1000000000000000000 10200000000000000 9800000000000000 1051000000 9536209602707471973 0 1000000000000000000000 10000000000000000000 931000000 100000000000000000000 30000000 300000000 1000000000 300000000 0 0) \<comment> \<open>skew above the cap\<close>,
     (365871903813342846, vector_case.make 250000000000000000 1000000000000000000 0 0 21600 100000000000000000 302400 302400 10000000000000000 200 100000000 10000000000000000000 1000000000 0 100000000000 300000000000000000 5000000000000000 0 250000000000000000 175000000000000000 171500000000000000 178500000000000000 5100000000000000 4900000000000000 204000000 36739588983008401333 161078431372549019607 1000000000000000000000 10000000000000000000 147000000 35000000000000000000 30000000 300000000 1000000000 300000000 0 521428571428571428) \<comment> \<open>half elapsed, realized under the market\<close>,
     (1056679435103867524, vector_case.make 250000000000000000 1000000000000000000 0 0 21600 2000000000000000000 259200 345600 10000000000000000 200 100000000 10000000000000000000 1000000000 0 100000000000 300000000000000000 5000000000000000 0 250000000000000000 1000000000000000000 980000000000000000 1000000000000000000 5828571428571429 5600000000000000 1029142858 9724412885467466786 0 1000000000000000000000 10000000000000000000 952000000 175000000000000000000 30000000 300000000 1000000000 300000000 0 608333333333333333) \<comment> \<open>half elapsed, realized over the cap\<close>,
     (408000000000000000, vector_case.make 250000000000000000 1000000000000000000 0 0 21600 400000000000000000 604800 0 10000000000000000 200 100000000 10000000000000000000 1000000000 0 100000000000 300000000000000000 5000000000000000 0 250000000000000000 400000000000000000 392000000000000000 408000000000000000 0 0 408000000 24509803921568627450 115792089237316195423570985008687907853269984665640564039457584007913129639935 1000000000000000000000 10000000000000000000 392000000 115792089237316195423570985008687907853269984665640564039457584007913129639935 30000000 300000000 1000000000 300000000 0 260714285714285714) \<comment> \<open>at expiry, projection is realized\<close>,
     (255000000000000000, vector_case.make 250000000000000000 1000000000000000000 0 0 21600 0 0 604800 0 200 100000000 10000000000000000000 1000000000 0 100000000000 300000000000000000 5000000000000000 0 250000000000000000 250000000000000000 245000000000000000 255000000000000000 0 0 255000000 39215686274509803921 115792089237316195423570985008687907853269984665640564039457584007913129639935 1000000000000000000000 10000000000000000000 245000000 115792089237316195423570985008687907853269984665640564039457584007913129639935 30000000 300000000 1000000000 300000000 0 0) \<comment> \<open>zero impact, flat book\<close>]"

definition vectors_2 :: "(int \<times> vector_case) list" where
  "vectors_2 = [
     (574456264653802865, vector_case.make 250000000000000000 1000000000000000000 0 0 21600 0 0 604800 10000000000000000 2000 100000000 10000000000000000000 1000000000 0 100000000000 300000000000000000 5000000000000000 0 250000000000000000 250000000000000000 200000000000000000 300000000000000000 12000000000000000 8000000000000000 360000000 22871355387816905498 58333333333333333333 1000000000000000000000 10000000000000000000 160000000 25000000000000000000 30000000 300000000 1000000000 300000000 0 0) \<comment> \<open>widest allowed spread\<close>,
     (512664668667541395, vector_case.make 250000000000000000 1000000000000000000 0 0 21600 0 0 604800 10000000000000000 10 100000000 10000000000000000000 1000000000 0 100000000000 300000000000000000 5000000000000000 0 250000000000000000 250000000000000000 249750000000000000 250250000000000000 10010000000000000 9990000000000000 300300000 26215251615139000500 74900099900099900099 1000000000000000000000 10000000000000000000 199800000 25000000000000000000 30000000 300000000 1000000000 300000000 0 0) \<comment> \<open>tightest allowed spread\<close>,
     (518676199569635159, vector_case.make 250000000000000000 1000000000000000000 0 0 21600 0 0 604800 10000000000000000 200 100000000 10000000000000000000 1000000000 90000000000000000000 1000000000 300000000000000000 5000000000000000 0 250000000000000000 250000000000000000 245000000000000000 255000000000000000 10200000000000000 9800000000000000 306000000 25850607800944623461 73039215686274509803 10000000000000000000 10000000000000000000 196000000 25000000000000000000 30000000 300000000 1000000000 300000000 9000000000 0) \<comment> \<open>collateral almost exhausted\<close>,
     (518676199569635159, vector_case.make 250000000000000000 1000000000000000000 0 0 21600 0 0 604800 10000000000000000 200 100000000 10000000000000000000 1000000000 50000000000000000000 0 300000000000000000 5000000000000000 0 250000000000000000 250000000000000000 245000000000000000 255000000000000000 10200000000000000 9800000000000000 306000000 25850607800944623461 73039215686274509803 0 10000000000000000000 196000000 25000000000000000000 30000000 300000000 1000000000 300000000 5000000000 0) \<comment> \<open>no free collateral\<close>,
     (255000000399999999, vector_case.make 250000000000000000 1000000000000000000 0 0 21600 0 0 604800 10000000000000000 200 100000000 10000000000000000000 1 0 100000000000 300000000000000000 5000000000000000 0 250000000000000000 250000000000000000 245000000000000000 255000000000000000 10200000000000000 9800000000000000 306000000 39215686243 73039215686274509803 1000000000000000000000 10000000000000000000 196000000 25000000000000000000 30000000 300000000 1000000000 300000000 0 0) \<comment> \<open>one wei of quote in\<close>,
     (518676199569635159, vector_case.make 250000000000000000 1000000000000000000 0 0 21600 0 0 604800 10000000000000000 200 100000000 1 1000000000 0 100000000000 300000000000000000 5000000000000000 0 250000000000000000 250000000000000000 245000000000000000 255000000000000000 10200000000000000 9800000000000000 1 25850607800944623461 73039215686274509803 1000000000000000000000 1 0 25000000000000000000 30000000 0 1 1 0 0) \<comment> \<open>single base unit of receipt\<close>,
     (518676199569635159, vector_case.make 250000000000000000 1000000000000000000 0 0 21600 0 0 604800 10000000000000000 200 100000000 10000000000000000000 1000000000 0 100000000000 9000000000000000000 5000000000000000 0 250000000000000000 250000000000000000 245000000000000000 255000000000000000 10200000000000000 9800000000000000 306000000 25850607800944623461 73039215686274509803 1000000000000000000000 10000000000000000000 196000000 25000000000000000000 100000000 1000000000 1000000000 1000000000 0 0) \<comment> \<open>final variance above the cap\<close>,
     (518676199569635159, vector_case.make 250000000000000000 1000000000000000000 0 0 21600 0 0 604800 10000000000000000 200 100000000 10000000000000000000 1000000000 0 100000000000 0 5000000000000000 0 250000000000000000 250000000000000000 245000000000000000 255000000000000000 10200000000000000 9800000000000000 306000000 25850607800944623461 73039215686274509803 1000000000000000000000 10000000000000000000 196000000 25000000000000000000 0 0 1000000000 0 0 0) \<comment> \<open>final variance zero\<close>,
     (4523828577654109121, vector_case.make 250000000000000000 1000000000000000000 0 0 21600 0 0 604800 10000000000000000 200 1000000000000 1000000000000000000000 1000000000000000 0 1000000000000000000000000 300000000000000000 5000000000000000 0 250000000000000000 250000000000000000 245000000000000000 255000000000000000 10200000000000000 9800000000000000 5355000000000000 418512605652363639276 73039215686274509803 1000000000000000000000000000000 25000000000000000000 3062500000000 25000000000000000000 300000000000 300000000000000 1000000000000000 300000000000000 0 0) \<comment> \<open>big notional and units\<close>,
     (9036870310013306813, vector_case.make 250000000000000000 4000000000000000000 0 0 21600 0 0 604800 4000000000000000000 200 100000000 10000000000000000000 1000000000 0 100000000000 300000000000000000 5000000000000000 0 250000000000000000 250000000000000000 245000000000000000 255000000000000000 4080000000000000000 3920000000000000000 20655000000 2152419193630712454 917892156862745098 250000000000000000000 62500000000000000 765625 62500000000000000 30000000 300000000 4000000000 300000000 0 0) \<comment> \<open>cap at the factory ceiling\<close>]"

lemma vectors_1_agree: "list_all agree_with vectors_1"
  by code_simp

lemma vectors_2_agree: "list_all agree_with vectors_2"
  by code_simp

text \<open>
  The arithmetic of the simulator is the contracts': on the named reference vectors of the Solidity library, whatever
  the engine's exponential, no formula throws and the only thing the check can report is the measured decay.
\<close>

theorem vectors_agree: "list_all (\<lambda>(r, c). case_differs M c = Inr (decay_differs M c)) (vectors_1 @ vectors_2)"
proof -
  have "case_differs M c = Inr (decay_differs M c)" if "agree_with (r, c)" for r c
    using agree_with_exact [OF that] by (simp add: case_differs_def exact_agree_def)
  then show ?thesis using vectors_1_agree vectors_2_agree by (auto simp: list_all_iff)
qed

end
