(* ===== verification/Web_Format.thy ===== *)
theory Web_Format
  imports Sim_Pricing Js_String
begin

text \<open>
  The exact fixed-point helpers of \<open>web/src/lib/format.ts\<close>: parsing a decimal, the integer square root
  with its floating-point seed, and the string formatting that never goes through a float. A string is
  a list of 8-bit characters. Helpers that delegate to \<open>Intl\<close> or \<open>Date\<close> are left out.
\<close>

subsection \<open>Parsing\<close>

text \<open>A text is the bytes of its UTF-8; the white space that takes more than one byte is not told apart from other characters.\<close>

definition js_space :: "char \<Rightarrow> bool" where
  "js_space c \<longleftrightarrow> (let n = (of_char c :: nat) in 9 \<le> n \<and> n \<le> 13 \<or> n = 32)"

definition trim :: "string \<Rightarrow> string" where
  "trim s = rev (dropWhile js_space (rev (dropWhile js_space s)))"

text \<open>\<open>replace(/c/g, "")\<close>\<close>

definition remove_char :: "char \<Rightarrow> string \<Rightarrow> string" where
  "remove_char c s = filter (\<lambda>d. d \<noteq> c) s"

text \<open>The part before the first dot and the part after it, which \<open>/^\d*(\.\d*)?$/\<close> makes all there is.\<close>

definition int_part :: "string \<Rightarrow> string" where
  "int_part s = takeWhile (\<lambda>c. c \<noteq> CHR ''.'') s"

definition frac_part :: "string \<Rightarrow> string" where
  "frac_part s = drop 1 (dropWhile (\<lambda>c. c \<noteq> CHR ''.'') s)"

definition decimal_body :: "string \<Rightarrow> bool" where
  "decimal_body s \<longleftrightarrow> list_all is_digit (int_part s) \<and> list_all is_digit (frac_part s)"

definition parseDecimal :: "string \<Rightarrow> nat \<Rightarrow> js_error + int" where
  "parseDecimal input decimals =
     (let s = remove_char (CHR ''_'') (remove_char (CHR '','') (trim input)) in
      if s = '''' \<or> s = ''.'' \<or> s = ''-'' then Inl EmptyNumber
      else let neg = (hd s = CHR ''-''); body = (if neg then tl s else s) in
        if \<not> decimal_body body then Inl (InvalidNumber input)
        else let frac = take decimals (frac_part body @ replicate decimals (CHR ''0''));
                 v = digits_val (int_part body) * 10 ^ decimals + digits_val frac
             in Inr (if neg then - v else v))"

definition tryParseDecimal :: "string \<Rightarrow> nat \<Rightarrow> int option" where
  "tryParseDecimal input decimals = (case parseDecimal input decimals of Inl e \<Rightarrow> None | Inr v \<Rightarrow> Some v)"

text \<open>
  \<open>toBigInt\<close> of an unknown value: a bigint, a finite number, a string in one of four notations, or
  something else. A string in exponent notation goes through \<open>Number\<close>, a double.
\<close>

datatype js_value = JBig int | JNum rat | JNonFinite | JStr string | JOther

definition all_digits :: "string \<Rightarrow> bool" where
  "all_digits s \<longleftrightarrow> s \<noteq> '''' \<and> list_all is_digit s"

definition unsign :: "string \<Rightarrow> bool \<times> string" where
  "unsign s = (if s \<noteq> '''' \<and> hd s = CHR ''-'' then (True, tl s) else (False, s))"

definition hex_val :: "char \<Rightarrow> int option" where
  "hex_val c = (let n = (of_char c :: nat) in
     if is_digit c then Some (digit_val c)
     else if 97 \<le> n \<and> n \<le> 102 then Some (int n - 87)
     else if 65 \<le> n \<and> n \<le> 70 then Some (int n - 55) else None)"

text \<open>The digits of a base up to 16.\<close>

definition radix_parse :: "int \<Rightarrow> string \<Rightarrow> int option" where
  "radix_parse b s = (if s = '''' then None
     else fold (\<lambda>c a. Option.bind a (\<lambda>x. Option.bind (hex_val c) (\<lambda>d. if d < b then Some (x * b + d) else None))) s (Some 0))"

definition hex_parse :: "string \<Rightarrow> int option" where
  "hex_parse s = (if s = '''' then None
     else fold (\<lambda>c a. Option.bind a (\<lambda>x. map_option (\<lambda>d. x * 16 + d) (hex_val c))) s (Some 0))"

definition js_trunc :: "rat \<Rightarrow> int" where
  "js_trunc x = (if x < 0 then - \<lfloor>- x\<rfloor> else \<lfloor>x\<rfloor>)"

text \<open>The number an exponent notation denotes, before rounding: mantissa, exponent sign and digits.\<close>

definition is_e :: "char \<Rightarrow> bool" where
  "is_e c \<longleftrightarrow> c = CHR ''e'' \<or> c = CHR ''E''"

definition exponent_parse :: "string \<Rightarrow> rat option" where
  "exponent_parse s =
     (let (neg, b) = unsign s;
          m = takeWhile (\<lambda>c. \<not> is_e c) b;
          e = drop 1 (dropWhile (\<lambda>c. \<not> is_e c) b);
          (eneg, ed) = (if e \<noteq> '''' \<and> hd e = CHR ''+'' then (False, tl e) else unsign e);
          frac = frac_part m
      in if all_digits (int_part m) \<and> (CHR ''.'' \<in> set m \<longrightarrow> all_digits frac) \<and> all_digits ed
         then let v = of_int (digits_val (int_part m @ frac)) / 10 ^ length frac;
                  k = nat (digits_val ed);
                  x = (if eneg then v / 10 ^ k else v * 10 ^ k)
              in Some (if neg then - x else x)
         else None)"

definition toBigInt_string :: "string \<Rightarrow> js_error + int" where
  "toBigInt_string input =
     (let s = trim input; (neg, b) = unsign s; signed = (\<lambda>v. if neg then - v else v :: int) in
      if all_digits b then Inr (signed (digits_val b))
      else if take 2 s = ''0x'' \<and> hex_parse (drop 2 s) \<noteq> None then Inr (the (hex_parse (drop 2 s)))
      else if list_all is_digit (int_part b) \<and> CHR ''.'' \<in> set b \<and> all_digits (frac_part b)
           then (if s \<noteq> b \<and> int_part b = '''' then Inl (InvalidNumber ''-'')
                 else Inr (signed (digits_val (int_part b))))
      else case exponent_parse s of Some x \<Rightarrow> Inr (js_trunc (fl x)) | None \<Rightarrow> Inl (InvalidNumber input))"

fun toBigInt :: "js_value \<Rightarrow> js_error + int" where
  "toBigInt (JBig n) = Inr n"
| "toBigInt (JNum x) = Inr (js_trunc x)"
| "toBigInt JNonFinite = Inl (InvalidNumber ''non-finite'')"
| "toBigInt (JStr s) = toBigInt_string s"
| "toBigInt JOther = Inl (InvalidNumber ''cannot convert to bigint'')"

subsection \<open>Integer square root\<close>

function newton_down :: "nat \<Rightarrow> nat \<Rightarrow> nat" where
  "newton_down n x = (let y = (x + n div x) div 2 in if x \<le> y then x else newton_down n y)"
  by pat_completeness auto
termination
  by (relation "measure snd") auto

declare newton_down.simps [simp del]

function step_down :: "nat \<Rightarrow> nat \<Rightarrow> nat" where
  "step_down n x = (if n < x * x then step_down n (x - 1) else x)"
  by pat_completeness auto
termination
proof (relation "measure snd")
  fix n x :: nat
  assume "n < x * x"
  then have "x \<noteq> 0" by (cases x) auto
  then show "((n, x - 1), n, x) \<in> measure snd" by simp
qed simp

declare step_down.simps [simp del]

function step_up :: "nat \<Rightarrow> nat \<Rightarrow> nat" where
  "step_up n x = (if (x + 1) * (x + 1) \<le> n then step_up n (x + 1) else x)"
  by pat_completeness auto
termination
proof (relation "measure (\<lambda>(n, x). n - x)")
  fix n x :: nat
  assume "(x + 1) * (x + 1) \<le> n"
  then have "x < n" by simp
  then show "((n, x + 1), n, x) \<in> measure (\<lambda>(n, x). n - x)" by simp
qed simp

declare step_up.simps [simp del]

definition isqrt_seed :: "js_math \<Rightarrow> int \<Rightarrow> int" where
  "isqrt_seed M n = (let x = \<lfloor>math_sqrt M (js_Number n)\<rfloor> in if x = 0 then 1 else x)"

definition isqrt_web :: "js_math \<Rightarrow> int \<Rightarrow> js_error + int" where
  "isqrt_web M n = (if n < 0 then Inl NegativeIsqrt
     else if n < 2 then Inr n
     else Inr (int (step_up (nat n) (step_down (nat n) (newton_down (nat n) (nat (isqrt_seed M n)))))))"

definition sqrtWad :: "js_math \<Rightarrow> int \<Rightarrow> js_error + int" where
  "sqrtWad M varianceWad = isqrt_web M (varianceWad * WAD)"

definition varianceFromVolPct :: "string \<Rightarrow> js_error + int" where
  "varianceFromVolPct pct =
     andThen (parseDecimal pct 18) (\<lambda>v. let volWad = bdiv v 100 in Inr (bdiv (volWad * volWad) WAD))"

subsection \<open>Formatting\<close>

text \<open>A comma before every group of three digits counted from the right.\<close>

function groupInt :: "string \<Rightarrow> string" where
  "groupInt s = (if length s \<le> 3 then s
     else groupInt (take (length s - 3) s) @ '','' @ drop (length s - 3) s)"
  by pat_completeness auto
termination
  by (relation "measure length") auto

declare groupInt.simps [simp del]

record fmt_opts =
  maxFrac :: nat
  minFrac :: nat
  group :: bool
  round_half_up :: bool

definition fmt_default :: fmt_opts where
  "fmt_default = \<lparr>maxFrac = 2, minFrac = 0, group = True, round_half_up = True\<rparr>"

definition strip_zeros :: "string \<Rightarrow> string" where
  "strip_zeros s = rev (dropWhile (\<lambda>c. c = CHR ''0'') (rev s))"

definition fmt_round :: "nat \<Rightarrow> fmt_opts \<Rightarrow> int \<Rightarrow> int" where
  "fmt_round decimals opts v =
     (if round_half_up opts \<and> maxFrac opts < decimals
      then let cut = 10 ^ (decimals - maxFrac opts) in bdiv (v + bdiv cut 2) cut * cut
      else v)"

definition formatFixed :: "int \<Rightarrow> nat \<Rightarrow> fmt_opts \<Rightarrow> string" where
  "formatFixed value decimals opts =
     (let neg = value < 0;
          v = fmt_round decimals opts (if neg then - value else value);
          scale = 10 ^ decimals;
          intPart = bdiv v scale;
          frac = pad_end (minFrac opts)
            (strip_zeros (take (maxFrac opts) (pad_start decimals (dec_string (v - bdiv v scale * scale)))));
          intStr = (if group opts then groupInt (dec_string intPart) else dec_string intPart)
      in (if neg then ''-'' else '''') @ intStr @ (if frac = '''' then '''' else ''.'' @ frac))"

definition fmtUsdc :: "int \<Rightarrow> nat \<Rightarrow> string" where
  "fmtUsdc v m = formatFixed v 6 (fmt_default\<lparr>maxFrac := m\<rparr>)"

definition fmtPriceUsdc :: "int \<Rightarrow> nat \<Rightarrow> string" where
  "fmtPriceUsdc v m =
     (if v = 0 then ''0.00''
      else let a = (if v < 0 then - v else v) in
        if a < 10000 then formatFixed v 6 (fmt_default\<lparr>maxFrac := max m 6, minFrac := 2\<rparr>)
        else if a mod 10000 \<noteq> 0 then formatFixed v 6 (fmt_default\<lparr>maxFrac := max m 4, minFrac := 2\<rparr>)
        else formatFixed v 6 (fmt_default\<lparr>maxFrac := 2, minFrac := 2\<rparr>))"

definition fmtUnits :: "int \<Rightarrow> nat \<Rightarrow> string" where
  "fmtUnits v m = formatFixed v 18 (fmt_default\<lparr>maxFrac := m\<rparr>)"

definition fmtWad :: "int \<Rightarrow> nat \<Rightarrow> string" where
  "fmtWad v m = formatFixed v 18 (fmt_default\<lparr>maxFrac := m\<rparr>)"

definition fmtVolPct :: "js_math \<Rightarrow> int \<Rightarrow> nat \<Rightarrow> js_error + string" where
  "fmtVolPct M varianceWad m =
     andThen (sqrtWad M varianceWad) (\<lambda>v. Inr (formatFixed (v * 100) 18 (fmt_default\<lparr>maxFrac := m, minFrac := m\<rparr>)))"

definition fmtVariancePct :: "int \<Rightarrow> nat \<Rightarrow> string" where
  "fmtVariancePct varianceWad m = formatFixed (varianceWad * 100) 18 (fmt_default\<lparr>maxFrac := m, minFrac := m\<rparr>)"

definition fmtBps :: "int \<Rightarrow> nat \<Rightarrow> string" where
  "fmtBps bps m = formatFixed bps 2 (fmt_default\<lparr>maxFrac := m\<rparr>) @ ''%''"

definition toNumber :: "int \<Rightarrow> nat \<Rightarrow> rat" where
  "toNumber v decimals = fl (js_Number v / 10 ^ decimals)"

definition fmtPctNum :: "rat \<Rightarrow> nat \<Rightarrow> string" where
  "fmtPctNum n m = to_fixed m n @ ''%''"

definition fmtDuration :: "rat \<Rightarrow> string" where
  "fmtDuration seconds =
     (let s = max 0 (math_round seconds);
          d = s div 86400; h = (s mod 86400) div 3600; m = (s mod 3600) div 60
      in if d > 0 then (if h > 0 then dec_string d @ ''d '' @ dec_string h @ ''h'' else dec_string d @ ''d'')
         else if h > 0 then (if m > 0 then dec_string h @ ''h '' @ dec_string m @ ''m'' else dec_string h @ ''h'')
         else if m > 0 then dec_string m @ ''m''
         else dec_string s @ ''s'')"

definition fmtRelative :: "int \<Rightarrow> int \<Rightarrow> string" where
  "fmtRelative ts now =
     (let diff = ts - now in
      if \<bar>diff\<bar> < 30 then ''now''
      else if diff > 0 then ''in '' @ fmtDuration (of_int diff)
      else fmtDuration (of_int (- diff)) @ '' ago'')"

definition UNLIMITED_ALLOWANCE_THRESHOLD :: int where "UNLIMITED_ALLOWANCE_THRESHOLD = 2 ^ 255"

definition isUnlimitedAllowance :: "int \<Rightarrow> bool" where
  "isUnlimitedAllowance v \<longleftrightarrow> v \<ge> UNLIMITED_ALLOWANCE_THRESHOLD \<or> v \<ge> 10 ^ 30"

subsection \<open>The square root is exact\<close>

lemma newton_down_bound:
  "0 < x \<Longrightarrow> 2 \<le> n \<Longrightarrow> 0 < newton_down n x"
proof (induction n x rule: newton_down.induct)
  case (1 n x)
  then show ?case
    using newton_step_pos [of x n] by (subst newton_down.simps) (auto simp: Let_def)
qed

lemma step_down_le: "step_down n x * step_down n x \<le> n"
proof (induction n x rule: step_down.induct)
  case (1 n x)
  then show ?case by (subst step_down.simps) (auto split: if_splits simp: step_down.simps)
qed

lemma step_up_floor:
  "x * x \<le> n \<Longrightarrow> step_up n x * step_up n x \<le> n \<and> n < (step_up n x + 1) * (step_up n x + 1)"
proof (induction n x rule: step_up.induct)
  case (1 n x)
  show ?case
  proof (cases "(x + 1) * (x + 1) \<le> n")
    case True
    have "step_up n x = step_up n (x + 1)" using True by (subst step_up.simps) simp
    then show ?thesis using "1.IH" [OF True True] by simp
  next
    case False
    have "step_up n x = x" using False by (subst step_up.simps) simp
    then show ?thesis using "1.prems" False by simp
  qed
qed

lemma isqrt_web_exact:
  assumes "0 \<le> n"
  obtains r where "isqrt_web M n = Inr r" "0 \<le> r" "r * r \<le> n" "n < (r + 1) * (r + 1)"
proof (cases "n < 2")
  case True
  then have "n = 0 \<or> n = 1" using assms by linarith
  then show ?thesis using that [of n] True by (auto simp: isqrt_web_def)
next
  case False
  define r where "r = step_up (nat n) (step_down (nat n) (newton_down (nat n) (nat (isqrt_seed M n))))"
  have r: "r * r \<le> nat n" "nat n < (r + 1) * (r + 1)"
    unfolding r_def using step_up_floor [OF step_down_le] by blast+
  have "int (r * r) \<le> n" using r(1) assms by linarith
  moreover have "n < int ((r + 1) * (r + 1))" using r(2) assms by linarith
  ultimately have b: "int r * int r \<le> n" "n < (int r + 1) * (int r + 1)" by (simp_all add: algebra_simps)
  have "isqrt_web M n = Inr (int r)" using False by (simp add: isqrt_web_def r_def)
  then show ?thesis using b by (intro that) simp_all
qed

subsection \<open>Reading back what was printed\<close>

lemma digit_not:
  assumes "is_digit c"
  shows "c \<noteq> CHR '',''" "c \<noteq> CHR ''.''" "c \<noteq> CHR ''-''" "c \<noteq> CHR ''_''" "\<not> js_space c"
  using assms by (auto simp: is_digit_def js_space_def Let_def)

lemma trim_id: "list_all (\<lambda>c. \<not> js_space c) s \<Longrightarrow> trim s = s"
proof -
  assume a: "list_all (\<lambda>c. \<not> js_space c) s"
  then have "dropWhile js_space s = s" by (cases s) auto
  moreover have "dropWhile js_space (rev s) = rev s" using a by (cases s rule: rev_cases) auto
  ultimately show ?thesis by (simp add: trim_def)
qed

lemma remove_char_id: "c \<notin> set s \<Longrightarrow> remove_char c s = s"
  by (auto simp: remove_char_def intro!: filter_True)

lemma remove_char_append [simp]: "remove_char c (xs @ ys) = remove_char c xs @ remove_char c ys"
  by (simp add: remove_char_def)

lemma digits_no: "list_all is_digit s \<Longrightarrow> CHR '','' \<notin> set s \<and> CHR ''.'' \<notin> set s \<and> CHR ''-'' \<notin> set s \<and> CHR ''_'' \<notin> set s"
proof -
  assume "list_all is_digit s"
  then have "is_digit c" if "c \<in> set s" for c using that by (simp add: list_all_iff)
  then show ?thesis using digit_not(1-4) by blast
qed

lemma groupInt_remove: "list_all is_digit s \<Longrightarrow> remove_char (CHR '','') (groupInt s) = s"
proof (induction s rule: groupInt.induct)
  case (1 s)
  show ?case
  proof (cases "length s \<le> 3")
    case True
    then show ?thesis using 1 digits_no by (subst groupInt.simps) (simp add: remove_char_id)
  next
    case False
    have d: "list_all is_digit (take (length s - 3) s)" "list_all is_digit (drop (length s - 3) s)"
      using "1.prems" by (auto simp: list_all_iff dest: in_set_takeD in_set_dropD)
    have "groupInt s = groupInt (take (length s - 3) s) @ '','' @ drop (length s - 3) s"
      using False by (subst groupInt.simps) simp
    moreover have "remove_char (CHR '','') (drop (length s - 3) s) = drop (length s - 3) s"
      using digits_no [OF d(2)] by (simp add: remove_char_id)
    moreover have "remove_char (CHR '','') '','' = ''''" by (simp add: remove_char_def)
    ultimately have "remove_char (CHR '','') (groupInt s) = take (length s - 3) s @ drop (length s - 3) s"
      using "1.IH" [OF False d(1)] by (simp only: remove_char_append append_Nil)
    then show ?thesis by simp
  qed
qed

lemma groupInt_chars: "list_all is_digit s \<Longrightarrow> set (groupInt s) \<subseteq> insert (CHR '','') (set s)"
proof (induction s rule: groupInt.induct)
  case (1 s)
  show ?case
  proof (cases "length s \<le> 3")
    case True
    then show ?thesis by (subst groupInt.simps) auto
  next
    case False
    have "list_all is_digit (take (length s - 3) s)"
      using "1.prems" by (auto simp: list_all_iff dest: in_set_takeD)
    then have "set (groupInt (take (length s - 3) s)) \<subseteq> insert (CHR '','') (set s)"
      using "1.IH" [OF False] set_take_subset by fastforce
    moreover have "groupInt s = groupInt (take (length s - 3) s) @ '','' @ drop (length s - 3) s"
      using False by (subst groupInt.simps) simp
    ultimately show ?thesis using set_drop_subset [of "length s - 3" s] by auto
  qed
qed

text \<open>The value of fraction digits at \<open>d\<close> places.\<close>

definition frac_val :: "nat \<Rightarrow> string \<Rightarrow> int" where
  "frac_val d s = digits_val (take d (s @ replicate d (CHR ''0'')))"

lemma frac_val_zeros: "frac_val d (s @ replicate k (CHR ''0'')) = frac_val d s"
proof -
  have "take d ((s @ replicate k (CHR ''0'')) @ replicate d (CHR ''0'')) = take d (s @ replicate d (CHR ''0''))"
    by (simp add: take_append replicate_add [symmetric])
  then show ?thesis by (simp add: frac_val_def)
qed

lemma strip_zeros_append: "\<exists>k. s = strip_zeros s @ replicate k (CHR ''0'')"
proof -
  have "rev s = takeWhile (\<lambda>c. c = CHR ''0'') (rev s) @ dropWhile (\<lambda>c. c = CHR ''0'') (rev s)" by simp
  then have "s = rev (dropWhile (\<lambda>c. c = CHR ''0'') (rev s)) @ rev (takeWhile (\<lambda>c. c = CHR ''0'') (rev s))"
    by (metis rev_append rev_rev_ident)
  moreover have "takeWhile (\<lambda>c. c = CHR ''0'') (rev s) = replicate (length (takeWhile (\<lambda>c. c = CHR ''0'') (rev s))) (CHR ''0'')"
    by (intro replicate_length_same [symmetric]) (auto dest: set_takeWhileD)
  ultimately show ?thesis unfolding strip_zeros_def by (metis rev_replicate)
qed

lemma frac_val_strip: "frac_val d (strip_zeros s) = frac_val d s"
  using strip_zeros_append [of s] frac_val_zeros by metis

lemma frac_val_pad: "frac_val d (pad_end k s) = frac_val d s"
  by (simp add: pad_end_def frac_val_zeros)

lemma frac_val_short: "length s \<le> d \<Longrightarrow> frac_val d s = digits_val s * 10 ^ (d - length s)"
  by (simp add: frac_val_def digits_val_append)

lemma digits_val_take:
  assumes "list_all is_digit s" "m \<le> length s"
  shows "digits_val (take m s) = digits_val s div 10 ^ (length s - m)"
proof -
  have "digits_val s = digits_val (take m s) * 10 ^ (length s - m) + digits_val (drop m s)"
    using digits_val_append [of "take m s" "drop m s"] by simp
  moreover have "list_all is_digit (drop m s)" using assms(1) by (auto simp: list_all_iff dest: in_set_dropD)
  then have "0 \<le> digits_val (drop m s)" "digits_val (drop m s) < 10 ^ (length s - m)"
    using digits_val_bounds [of "drop m s"] by simp_all
  ultimately show ?thesis by simp
qed

lemma dec_digits_length: "0 \<le> n \<Longrightarrow> n < 10 ^ d \<Longrightarrow> 0 < d \<Longrightarrow> length (dec_digits n) \<le> d"
proof (induction n arbitrary: d rule: dec_digits.induct)
  case (1 n)
  show ?case
  proof (cases "n < 10")
    case True
    then show ?thesis using "1.prems" by (subst dec_digits.simps) simp
  next
    case False
    then obtain e where e: "d = Suc e" "0 < e"
      using "1.prems" by (cases d; cases "d - 1") auto
    define k :: int where "k = 10 ^ e"
    have "n < 10 * k" using "1.prems" e by (simp add: k_def)
    then have "n div 10 < 10 ^ e" unfolding k_def [symmetric] by linarith
    then have "length (dec_digits (n div 10)) \<le> e"
      using False "1.prems" e by (intro "1.IH") auto
    then show ?thesis using False e by (subst dec_digits.simps) simp
  qed
qed

text \<open>What formatting keeps of a value: it is rounded, or cut, to a multiple of the last printed place.\<close>

definition fmt_kept :: "nat \<Rightarrow> fmt_opts \<Rightarrow> int \<Rightarrow> int" where
  "fmt_kept decimals opts v =
     (if maxFrac opts < decimals
      then fmt_round decimals opts v div 10 ^ (decimals - maxFrac opts) * 10 ^ (decimals - maxFrac opts)
      else v)"

lemma fmt_round_nonneg: "0 \<le> v \<Longrightarrow> 0 \<le> fmt_round d opts v"
  by (simp add: fmt_round_def Let_def bdiv_ge_0)

lemma dec_string_nonneg: "0 \<le> n \<Longrightarrow> dec_string n = dec_digits n"
  by (simp add: dec_string_def)

lemma fraction_digits:
  assumes "0 \<le> r" "r < 10 ^ d" "m \<le> d"
  shows "frac_val d (take m (pad_start d (dec_digits r))) = r div 10 ^ (d - m) * 10 ^ (d - m)"
    and "list_all is_digit (pad_start d (dec_digits r))"
proof -
  have dg: "list_all is_digit (dec_digits r)" using dec_digits_digits assms(1) by simp
  have z: "is_digit (CHR ''0'')" by (simp add: is_digit_def)
  show p: "list_all is_digit (pad_start d (dec_digits r))"
    using dg z by (auto simp: pad_start_def list_all_iff)
  show "frac_val d (take m (pad_start d (dec_digits r))) = r div 10 ^ (d - m) * 10 ^ (d - m)"
  proof (cases "d = 0")
    case True
    then show ?thesis using assms by (simp add: frac_val_def)
  next
    case False
    then have l: "length (pad_start d (dec_digits r)) = d" using dec_digits_length [OF assms(1,2)] by simp
    have "frac_val d (take m (pad_start d (dec_digits r))) = digits_val (take m (pad_start d (dec_digits r))) * 10 ^ (d - m)"
      using l assms(3) by (subst frac_val_short) simp_all
    then show ?thesis using digits_val_take [OF p, of m] l assms by simp
  qed
qed

lemma take_any: "d \<le> m \<Longrightarrow> 0 < d \<Longrightarrow> 0 \<le> r \<Longrightarrow> r < 10 ^ d \<Longrightarrow>
    take m (pad_start d (dec_digits r)) = pad_start d (dec_digits r)"
  using dec_digits_length [of r d] by simp

text \<open>Parsing a sign, a digit string with or without commas, and a fraction.\<close>

lemma list_all_digits_space: "list_all is_digit s \<Longrightarrow> list_all (\<lambda>c. \<not> js_space c) s"
  using digit_not(5) by (auto simp: list_all_iff)

lemma parse_text:
  assumes i: "list_all is_digit i" "i \<noteq> ''''" and f: "list_all is_digit f" and g: "g = i \<or> g = groupInt i"
  shows "parseDecimal ((if neg then ''-'' else '''') @ g @ (if f = '''' then '''' else ''.'' @ f)) d =
    Inr (if neg then - (digits_val i * 10 ^ d + frac_val d f) else digits_val i * 10 ^ d + frac_val d f)"
proof -
  let ?F = "if f = '''' then '''' else ''.'' @ f"
  let ?S = "(if neg then ''-'' else '''') @ g @ ?F"
  note ni = digits_no [OF i(1)] and nf = digits_no [OF f]
  have comma: "\<not> js_space (CHR '','')" "\<not> js_space (CHR ''.'')" "\<not> js_space (CHR ''-'')"
    by (simp_all add: js_space_def Let_def)
  have "set g \<subseteq> insert (CHR '','') (set i)" using g groupInt_chars [OF i(1)] by auto
  then have gs: "list_all (\<lambda>c. \<not> js_space c) g" "CHR ''_'' \<notin> set g"
    using list_all_digits_space [OF i(1)] comma(1) ni by (auto simp: list_all_iff)
  have "trim ?S = ?S"
    using gs(1) list_all_digits_space [OF f] comma by (intro trim_id) simp
  moreover have "remove_char (CHR '','') g = i" using g groupInt_remove [OF i(1)] ni remove_char_id by auto
  moreover have "remove_char (CHR '','') ?F = ?F" "remove_char (CHR ''_'') ?F = ?F"
    "remove_char (CHR '','') (if neg then ''-'' else '''') = (if neg then ''-'' else '''')"
    "remove_char (CHR ''_'') (if neg then ''-'' else '''') = (if neg then ''-'' else '''')"
    using remove_char_id [of _ f] nf by (auto simp: remove_char_def)
  moreover have "remove_char (CHR ''_'') i = i" using ni by (simp add: remove_char_id)
  ultimately have s: "remove_char (CHR ''_'') (remove_char (CHR '','') (trim ?S)) =
      (if neg then ''-'' else '''') @ i @ ?F" by simp
  obtain c cs where c: "i = c # cs" using i(2) by (cases i) auto
  have cd: "c \<noteq> CHR ''-''" "c \<noteq> CHR ''.''" using ni c by auto
  have "takeWhile (\<lambda>c. c \<noteq> CHR ''.'') (i @ ?F) = i" "dropWhile (\<lambda>c. c \<noteq> CHR ''.'') (i @ ?F) = ?F"
    using ni by (auto simp: takeWhile_append dropWhile_append)
  then have ip: "int_part (i @ ?F) = i" "frac_part (i @ ?F) = f"
    by (simp_all add: int_part_def frac_part_def)
  then have "decimal_body (i @ ?F)" using i f by (simp add: decimal_body_def)
  then show ?thesis
    unfolding parseDecimal_def Let_def s using c cd ip
    by (simp add: frac_val_def)
qed

lemma frac_val_fraction:
  assumes "0 \<le> w"
  shows "w div 10 ^ d * 10 ^ d + frac_val d (take m (pad_start d (dec_digits (w mod 10 ^ d)))) =
    (if m < d then w div 10 ^ (d - m) * 10 ^ (d - m) else w)"
proof -
  define r where "r = w mod 10 ^ d"
  have r: "0 \<le> r" "r < 10 ^ d" by (simp_all add: r_def)
  have w: "w = w div 10 ^ d * 10 ^ d + r" unfolding r_def by (rule div_mult_mod_eq [symmetric])
  consider "m < d" | "d \<le> m" "d = 0" | "d \<le> m" "0 < d" by linarith
  then show ?thesis
  proof cases
    case 1
    define c :: int where "c = 10 ^ (d - m)"
    have c: "0 < c" by (simp add: c_def)
    have e: "(10::int) ^ d = 10 ^ m * c" using 1 by (simp add: c_def power_add [symmetric])
    have "w div c = (w div 10 ^ d * 10 ^ m * c + r) div c" using w by (simp add: e mult.assoc)
    also have "\<dots> = w div 10 ^ d * 10 ^ m + r div c" using c by simp
    finally have "w div c * c = w div 10 ^ d * 10 ^ d + r div c * c" by (simp add: e distrib_right mult.assoc)
    then show ?thesis using 1 fraction_digits(1) [OF r, of m] by (simp add: r_def c_def)
  next
    case 2
    then show ?thesis by (simp add: frac_val_def)
  next
    case 3
    then have "take m (pad_start d (dec_digits r)) = take d (pad_start d (dec_digits r))"
      using take_any [OF 3 r] take_any [OF order_refl 3(2) r] by simp
    then show ?thesis using 3 fraction_digits(1) [OF r, of d] w by (simp add: r_def)
  qed
qed

lemma strip_zeros_digits: "list_all is_digit s \<Longrightarrow> list_all is_digit (strip_zeros s)"
  by (auto simp: strip_zeros_def list_all_iff dest: set_dropWhileD)

lemma pad_end_digits: "list_all is_digit s \<Longrightarrow> list_all is_digit (pad_end k s)"
  by (auto simp: pad_end_def list_all_iff is_digit_def)

lemma format_parse:
  "parseDecimal (formatFixed v d opts) d =
     Inr (if v < 0 then - fmt_kept d opts (- v) else fmt_kept d opts v)"
proof -
  define u where "u = (if v < 0 then - v else v)"
  define w where "w = fmt_round d opts u"
  define i where "i = dec_digits (w div 10 ^ d)"
  define p where "p = take (maxFrac opts) (pad_start d (dec_digits (w mod 10 ^ d)))"
  define f where "f = pad_end (minFrac opts) (strip_zeros p)"
  have w0: "0 \<le> w" unfolding w_def u_def by (intro fmt_round_nonneg) simp
  have q0: "0 \<le> w div 10 ^ d" using w0 by (simp add: pos_imp_zdiv_nonneg_iff)
  have id: "list_all is_digit i" "i \<noteq> ''''" "digits_val i = w div 10 ^ d"
    unfolding i_def using dec_digits_digits [OF q0] q0 by simp_all
  have "list_all is_digit p"
    unfolding p_def using fraction_digits(2) [of "w mod 10 ^ d" d 0] by (auto simp: list_all_iff dest: in_set_takeD)
  then have fd: "list_all is_digit f" unfolding f_def by (intro pad_end_digits strip_zeros_digits)
  have b: "bdiv w (10 ^ d) = w div 10 ^ d" "w - w div 10 ^ d * 10 ^ d = w mod 10 ^ d"
    using w0 by (simp_all add: bdiv_def minus_div_mult_eq_mod)
  have shown: "formatFixed v d opts = (if v < 0 then ''-'' else '''') @ (if group opts then groupInt i else i)
      @ (if f = '''' then '''' else ''.'' @ f)"
    unfolding formatFixed_def Let_def u_def [symmetric] w_def [symmetric] b dec_string_nonneg [OF q0]
    by (simp add: i_def f_def p_def dec_string_nonneg)
  have kept: "digits_val i * 10 ^ d + frac_val d f = fmt_kept d opts u"
    using frac_val_fraction [OF w0, of d "maxFrac opts"] w_def
    by (simp add: id(3) f_def p_def frac_val_pad frac_val_strip fmt_kept_def fmt_round_def)
  have "parseDecimal (formatFixed v d opts) d = Inr (if v < 0 then - (digits_val i * 10 ^ d + frac_val d f)
      else digits_val i * 10 ^ d + frac_val d f)"
    unfolding shown by (rule parse_text [OF id(1,2) fd]) simp
  then show ?thesis unfolding kept by (simp add: u_def)
qed

lemma fmt_kept_exact: "d \<le> maxFrac opts \<Longrightarrow> fmt_kept d opts v = v"
  by (simp add: fmt_kept_def)

lemma fmt_kept_rounded:
  assumes "0 \<le> v" "maxFrac opts < d" "round_half_up opts"
  shows "2 * \<bar>fmt_kept d opts v - v\<bar> \<le> 10 ^ (d - maxFrac opts)"
proof -
  define c :: int where "c = 10 ^ (d - maxFrac opts)"
  have c: "0 < c" "c = 2 * (c div 2)"
    using assms(2) by (simp_all add: c_def)
  define x where "x = (v + c div 2) div c"
  have "bdiv c 2 = c div 2" "bdiv (v + c div 2) c = x" using assms(1) c by (simp_all add: bdiv_def x_def)
  then have k: "fmt_kept d opts v = x * c"
    using assms c(1) by (simp add: fmt_kept_def fmt_round_def Let_def c_def [symmetric])
  define h m where "h = c div 2" and "m = (v + c div 2) mod c"
  have "v + h = x * c + m" by (simp add: x_def h_def m_def)
  then have e: "x * c - v = h - m" by (simp add: algebra_simps)
  have m: "0 \<le> m" "m < c" "c = 2 * h" using c by (simp_all add: m_def h_def)
  then have "2 * \<bar>h - m\<bar> \<le> c" by (simp add: abs_if)
  then show ?thesis unfolding k c_def [symmetric] e .
qed

lemma dec_string_shape:
  "trim (dec_string n) = dec_string n" "unsign (dec_string n) = (n < 0, dec_digits \<bar>n\<bar>)"
  "dec_string n \<noteq> ''''" "hd (dec_string n) \<noteq> CHR ''+''"
proof -
  define m where "m = \<bar>n\<bar>"
  have d: "list_all is_digit (dec_digits m)" "dec_digits m \<noteq> ''''"
    using dec_digits_digits [of m] by (simp_all add: m_def)
  have s: "dec_string n = (if n < 0 then ''-'' else '''') @ dec_digits m" by (simp add: dec_string_def m_def)
  have h: "is_digit (hd (dec_digits m))" using d by (cases "dec_digits m") simp_all
  have nd: "hd (dec_digits m) \<noteq> CHR ''-''" "hd (dec_digits m) \<noteq> CHR ''+''"
    using h by (auto simp: is_digit_def)
  have "\<not> js_space (CHR ''-'')" by (simp add: js_space_def Let_def)
  then show "trim (dec_string n) = dec_string n"
    unfolding s using list_all_digits_space [OF d(1)] by (intro trim_id) simp
  show "unsign (dec_string n) = (n < 0, dec_digits \<bar>n\<bar>)"
    unfolding s using nd(1) d(2) by (auto simp: unsign_def m_def)
  show "dec_string n \<noteq> ''''" "hd (dec_string n) \<noteq> CHR ''+''"
    unfolding s using nd(2) d(2) by simp_all
qed

lemma toBigInt_dec: "toBigInt_string (dec_string n) = Inr n"
  using dec_digits_digits [of "\<bar>n\<bar>"] digits_val_dec_digits [of "\<bar>n\<bar>"]
  by (simp add: toBigInt_string_def dec_string_shape all_digits_def Let_def)

lemma floor_sqrt_le:
  fixes r q :: int
  assumes "0 \<le> r" "r * r \<le> n" "0 \<le> q" "n < (q + 1) * (q + 1)"
  shows "r \<le> q"
proof (rule ccontr)
  assume "\<not> r \<le> q"
  then have "(q + 1) * (q + 1) \<le> r * r" using assms by (intro mult_mono) auto
  then show False using assms by linarith
qed

subsection \<open>What the helpers promise\<close>

text \<open>C12: printing a fixed-point amount with at least as many places as it has, and parsing the text back,
  returns the amount, whatever its sign, the padding, the grouping commas and the rounding mode.\<close>

theorem format_parse_roundtrip:
  assumes "decimals \<le> maxFrac opts"
  shows "parseDecimal (formatFixed v decimals opts) decimals = Inr v"
  using assms by (simp add: format_parse fmt_kept_exact)

theorem format_parse_roundtrip_witness:
  "parseDecimal (formatFixed (- 1234567) 6 (fmt_default\<lparr>maxFrac := 6\<rparr>)) 6 = Inr (- 1234567)"
  using format_parse_roundtrip [of 6 "fmt_default\<lparr>maxFrac := 6\<rparr>" "- 1234567"] by simp

text \<open>Printing with fewer places rounds: the text parses, to an amount within half a unit of the last
  printed place.\<close>

theorem format_rounds:
  assumes "maxFrac opts < decimals" "round_half_up opts"
  shows "\<exists>x. parseDecimal (formatFixed v decimals opts) decimals = Inr x
    \<and> 2 * \<bar>x - v\<bar> \<le> 10 ^ (decimals - maxFrac opts)"
proof (cases "v < 0")
  case True
  have "\<bar>- fmt_kept decimals opts (- v) - v\<bar> = \<bar>fmt_kept decimals opts (- v) - (- v)\<bar>" by linarith
  then show ?thesis
    using True format_parse [of v decimals opts] fmt_kept_rounded [OF _ assms, of "- v"] by simp
next
  case False
  then show ?thesis
    using format_parse [of v decimals opts] fmt_kept_rounded [OF _ assms, of v] by simp
qed

theorem format_rounds_witness:
  "\<exists>x. parseDecimal (formatFixed 1239999 6 fmt_default) 6 = Inr x \<and> 2 * \<bar>x - 1239999\<bar> \<le> 10000"
  using format_rounds [of fmt_default 6 1239999] by (simp add: fmt_default_def)

text \<open>The web app's square root is the simulator's, on every input: its floating-point seed, and
  whatever the engine's \<open>Math.sqrt\<close> rounds it to, never shows in the result.\<close>

theorem isqrt_web_eq_sim:
  assumes "0 \<le> math_sqrt M (js_Number n)"
  shows "isqrt_web M n = isqrt n"
proof (cases "n < 0")
  case True
  then show ?thesis by (simp add: isqrt_web_def isqrt_def)
next
  case False
  then have n: "0 \<le> n" by simp
  obtain r where r: "isqrt_web M n = Inr r" "0 \<le> r" "r * r \<le> n" "n < (r + 1) * (r + 1)"
    by (rule isqrt_web_exact [OF n])
  obtain q where q: "isqrt n = Inr q" "0 \<le> q" "q * q \<le> n" "n < (q + 1) * (q + 1)"
    by (rule isqrt_correct [OF n])
  show ?thesis using floor_sqrt_le [OF r(2,3) q(2,4)] floor_sqrt_le [OF q(2,3) r(2,4)] r(1) q(1) by simp
qed

theorem isqrt_web_eq_sim_witness:
  "isqrt_web \<lparr>math_exp = \<lambda>x. x, math_log = \<lambda>x. x, math_sqrt = \<lambda>x. 5, math_cos = \<lambda>x. x\<rparr> 99
    = isqrt 99"
  by (rule isqrt_web_eq_sim) simp

text \<open>An amount printed by \<open>toString\<close> is read back by \<open>toBigInt\<close>, negative amounts and amounts of any
  size included.\<close>

theorem toBigInt_roundtrip: "toBigInt (JStr (dec_string n)) = Inr n"
  by (simp add: toBigInt_dec)

end
