(* ===== verification/Sim_Report.thy ===== *)
theory Sim_Report
  imports Sim_Scenario_Run Web_Format
begin

text \<open>
  The command over the scenarios: \<open>sim/src/run.ts\<close>, which selects, runs and counts failures, and the figures of
  \<open>sim/src/report.ts\<close>, the rows of its tables and the statistics of its findings. Titles, prose and the writing
  of the files are left out; the seed is the number its argument denotes.
\<close>

subsection \<open>The arguments\<close>

definition arg :: "string \<Rightarrow> string list \<Rightarrow> string option" where
  "arg name argv = (case dropWhile (\<lambda>x. x \<noteq> ''--'' @ name) argv of _ # v # _ \<Rightarrow> Some v | _ \<Rightarrow> None)"

fun split_comma :: "string \<Rightarrow> string list" where
  "split_comma [] = ['''']"
| "split_comma (c # s) =
     (if c = CHR '','' then '''' # split_comma s
      else case split_comma s of [] \<Rightarrow> [[c]] | w # ws \<Rightarrow> (c # w) # ws)"

definition only_keys :: "string list \<Rightarrow> string list option" where
  "only_keys argv = map_option (\<lambda>t. filter (\<lambda>k. k \<noteq> '''') (map trim (split_comma t))) (arg ''only'' argv)"

definition selected :: "string list \<Rightarrow> scenario_spec list" where
  "selected argv = (case only_keys argv of None \<Rightarrow> SCENARIOS | Some ks \<Rightarrow> filter (\<lambda>s. sc_key s \<in> set ks) SCENARIOS)"

subsection \<open>The run\<close>

definition NOW :: int where "NOW = 1800000000"

definition run_usd :: "int \<Rightarrow> string" where
  "run_usd v = to_fixed 2 (fl (js_Number v / 10 ^ 6))"

definition units_text :: "int \<Rightarrow> string" where
  "units_text v = to_fixed 2 (wadNumber v)"

definition mid_dot_bytes :: string where "mid_dot_bytes = [CHR 0xC2, CHR 0xB7]"

definition pad_right :: "nat \<Rightarrow> string \<Rightarrow> string" where
  "pad_right n s = s @ replicate (n - length s) (CHR '' '')"

definition result_line :: "scenario_result \<Rightarrow> string" where
  "result_line r =
     ''realized '' @ to_fixed 1 (o_realizedVolPct r) @ ''% vol '' @ mid_dot_bytes @ '' sold '' @ units_text (o_unitsSold r)
     @ '' units '' @ mid_dot_bytes @ '' writer '' @ run_usd (o_writerPnl r) @ '' USDC '' @ mid_dot_bytes @ '' ''
     @ (if o_invariants r = [] then ''invariants OK'' else dec_string (int (length (o_invariants r))) @ '' INVARIANT FAILURES'')"

record sim_run =
  sm_results :: "scenario_result list"
  sm_failed :: nat
  sm_lines :: "string list"

definition run_step :: "js_math \<Rightarrow> (js_error \<Rightarrow> string) \<Rightarrow> int \<Rightarrow> scenario_spec \<Rightarrow> sim_run \<Rightarrow> sim_run" where
  "run_step M message seed spec R =
     (let key = pad_right 20 (sc_key spec) @ '' '' in
      case runScenario M spec NOW seed of
        Inl e \<Rightarrow> R\<lparr>sm_failed := sm_failed R + 1, sm_lines := sm_lines R @ [key @ ''THREW: '' @ message e]\<rparr>
      | Inr r \<Rightarrow> \<lparr>sm_results = sm_results R @ [r], sm_failed = sm_failed R + length (o_invariants r),
                  sm_lines = sm_lines R @ [key @ result_line r]\<rparr>)"

definition run_specs :: "js_math \<Rightarrow> (js_error \<Rightarrow> string) \<Rightarrow> int \<Rightarrow> scenario_spec list \<Rightarrow> sim_run" where
  "run_specs M message seed specs = fold (run_step M message seed) specs \<lparr>sm_results = [], sm_failed = 0, sm_lines = []\<rparr>"

definition exit_code :: "js_math \<Rightarrow> (js_error \<Rightarrow> string) \<Rightarrow> int \<Rightarrow> string list \<Rightarrow> int" where
  "exit_code M message seed argv =
     (if selected argv = [] then 2 else if sm_failed (run_specs M message seed (selected argv)) > 0 then 1 else 0)"

subsection \<open>The figures of the report\<close>

definition report_usd :: "int \<Rightarrow> string" where
  "report_usd v =
     (let a = (if v < 0 then - v else v)
      in (if v < 0 then [CHR 0xE2, CHR 0x88, CHR 0x92] else '''') @ groupInt (dec_string (bdiv a USDC)) @ ''.''
         @ take 2 (pad_start 6 (dec_string (a - bdiv a USDC * USDC))))"

definition vol_pct :: "js_math \<Rightarrow> int \<Rightarrow> string" where
  "vol_pct M v = to_fixed 1 (fl (math_sqrt M (wadNumber v) * 100))"

definition pct_text :: "rat \<Rightarrow> string" where "pct_text n = to_fixed 1 n @ ''%''"

text \<open>\<open>reduce\<close> from the first element; of none it is \<open>undefined\<close>.\<close>

definition reduce_first :: "('a \<Rightarrow> 'a \<Rightarrow> 'a) \<Rightarrow> 'a list \<Rightarrow> 'a option" where
  "reduce_first f xs = (case xs of [] \<Rightarrow> None | x # _ \<Rightarrow> Some (foldl f x xs))"

definition bidAskRange :: "scenario_result \<Rightarrow> string option" where
  "bidAskRange r =
     (case (reduce_first (\<lambda>a b. if b < a then b else a) (map sn_bidPerUnit (o_snapshots r)),
            reduce_first (\<lambda>a b. if b > a then b else a) (map sn_askPerUnit (o_snapshots r))) of
        (Some lo, Some hi) \<Rightarrow> Some (report_usd lo @ '' '' @ [CHR 0xE2, CHR 0x80, CHR 0x93] @ '' '' @ report_usd hi)
      | _ \<Rightarrow> None)"

definition failure_lines :: "scenario_result list \<Rightarrow> string list" where
  "failure_lines rs = concat (map (\<lambda>r. map (\<lambda>i. o_key r @ '': '' @ i) (o_invariants r)) rs)"

definition pnl_row :: "scenario_result \<Rightarrow> string list" where
  "pnl_row r =
     [pct_text (o_realizedVolPct r), pct_text (o_openingAskVolPct r), units_text (o_unitsSold r), report_usd (o_premiumRevenue r),
      report_usd (o_exitPayouts r), report_usd (o_settlementPayouts r), ''**'' @ report_usd (o_writerPnl r) @ ''**'', report_usd (o_buyerPnl r)]"

definition settlement_row :: "js_math \<Rightarrow> scenario_result \<Rightarrow> string list" where
  "settlement_row M r =
     [to_fixed 4 (wadNumber (o_finalVariance r)), vol_pct M (o_finalVariance r) @ ''%'', report_usd (o_payoutPerUnit r),
      units_text (o_unitsExited r), units_text (o_unitsRedeemed r), units_text (o_unitsUnsold r)]"

definition capital_row :: "scenario_result \<Rightarrow> string list" where
  "capital_row r =
     [report_usd (o_collateral r), report_usd (o_peakLocked r), pct_text (o_meanUtilizationPct r), report_usd (o_releasedAtFinalization r),
      dec_string (o_checkpointCalls r), dec_string (o_largestCheckpointBatch r), dec_string (o_partialFills r)]"

definition hedge_row :: "scenario_result \<Rightarrow> string list" where
  "hedge_row r =
     (let l = o_lvr r in [units_text (lv_hedgeUnits l), report_usd (lv_hedgeCost l), report_usd (lv_expectedLvr l),
       report_usd (lv_hedgePayout l), report_usd (lv_residual l)])"

record findings =
  fi_atCap :: nat
  fi_profitable :: nat
  fi_lossy :: nat
  fi_worst :: "scenario_result option"
  fi_best :: "scenario_result option"
  fi_floor :: "int option"
  fi_clamped :: "string list"
  fi_truncated :: nat

definition findings_of :: "scenario_result list \<Rightarrow> findings" where
  "findings_of rs =
     (let worst = reduce_first (\<lambda>a r. if o_writerPnl r < o_writerPnl a then r else a) rs in
      \<lparr>fi_atCap = length (filter (\<lambda>r. o_finalVariance r \<ge> 10 ^ 18) rs),
       fi_profitable = length (filter (\<lambda>r. o_writerPnl r > 0) rs),
       fi_lossy = length (filter (\<lambda>r. o_writerPnl r < 0) rs),
       fi_worst = worst,
       fi_best = reduce_first (\<lambda>a r. if lv_residual (o_lvr r) > lv_residual (o_lvr a) then r else a) rs,
       fi_floor = map_option (\<lambda>w. o_premiumRevenue w - o_collateral w) worst,
       fi_clamped = map (\<lambda>r. o_key r @ '': '' @ dec_string (o_partialFills r)) (filter (\<lambda>r. o_partialFills r > 0) rs),
       fi_truncated = length (filter (\<lambda>r. o_finalVariance r > 10 ^ 18) rs)\<rparr>)"

subsection \<open>What a run reports\<close>

lemma selected_shipped: "set (selected argv) \<subseteq> set SCENARIOS"
  by (auto simp: selected_def split: option.splits)

definition threw_dust :: "js_math \<Rightarrow> int \<Rightarrow> scenario_spec \<Rightarrow> bool" where
  "threw_dust M seed spec \<longleftrightarrow> (case runScenario M spec NOW seed of Inl (ClaimsOutstanding n) \<Rightarrow> 0 < n | _ \<Rightarrow> False)"

lemma shipped_ends:
  assumes "spec \<in> set SCENARIOS"
  shows "threw_dust M seed spec \<or> (\<exists>r. runScenario M spec NOW seed = Inr r \<and> settled_result spec r)"
  using run_ends [OF scenarios_ok(1) [OF assms] acts_safe [OF scenarios_ok(2) [OF assms]], of M NOW seed] by (auto simp: threw_dust_def)

text \<open>What one scenario adds to the results and to the failures counted.\<close>

definition returned_of :: "js_math \<Rightarrow> int \<Rightarrow> scenario_spec \<Rightarrow> scenario_result list" where
  "returned_of M seed spec = (case runScenario M spec NOW seed of Inl _ \<Rightarrow> [] | Inr r \<Rightarrow> [r])"

definition failures_of :: "js_math \<Rightarrow> int \<Rightarrow> scenario_spec \<Rightarrow> nat" where
  "failures_of M seed spec = (case runScenario M spec NOW seed of Inl _ \<Rightarrow> 1 | Inr r \<Rightarrow> length (o_invariants r))"

lemma run_step_adds:
  "sm_results (run_step M message seed spec R) = sm_results R @ returned_of M seed spec"
  "sm_failed (run_step M message seed spec R) = sm_failed R + failures_of M seed spec"
  "length (sm_lines (run_step M message seed spec R)) = length (sm_lines R) + 1"
  by (simp_all add: run_step_def returned_of_def failures_of_def Let_def split: sum.splits)

lemma run_specs_adds:
  "sm_results (run_specs M message seed specs) = concat (map (returned_of M seed) specs)
   \<and> sm_failed (run_specs M message seed specs) = sum_list (map (failures_of M seed) specs)
   \<and> length (sm_lines (run_specs M message seed specs)) = length specs"
proof -
  have "sm_results (fold (run_step M message seed) specs R) = sm_results R @ concat (map (returned_of M seed) specs)
    \<and> sm_failed (fold (run_step M message seed) specs R) = sm_failed R + sum_list (map (failures_of M seed) specs)
    \<and> length (sm_lines (fold (run_step M message seed) specs R)) = length (sm_lines R) + length specs" for R
    by (induction specs arbitrary: R) (simp_all add: run_step_adds)
  then show ?thesis by (simp add: run_specs_def)
qed

lemma returned_nets:
  assumes "set specs \<subseteq> set SCENARIOS"
  shows "sum_list (map o_writerPnl (concat (map (returned_of M seed) specs)))
    + sum_list (map o_buyerPnl (concat (map (returned_of M seed) specs))) = 0"
  using assms
proof (induction specs)
  case (Cons spec specs)
  then show ?case using shipped_ends [of spec M seed]
    by (auto simp: returned_of_def threw_dust_def settled_result_def split: sum.splits)
qed simp

lemma some_failure:
  "0 < sum_list (map (failures_of M seed) specs) \<longleftrightarrow>
   list_ex (\<lambda>spec. case runScenario M spec NOW seed of Inl _ \<Rightarrow> True | Inr r \<Rightarrow> o_invariants r \<noteq> []) specs"
  by (induction specs) (auto simp: failures_of_def split: sum.splits)

lemma shipped_outcome:
  assumes "spec \<in> set SCENARIOS"
  shows "case runScenario M spec NOW seed of
      Inl (ClaimsOutstanding n) \<Rightarrow> 0 < n
    | Inl _ \<Rightarrow> False
    | Inr r \<Rightarrow> o_invariants r = [] \<or> sc_key spec = ''shared-vault'' \<and> o_invariants r = [free_label]"
proof -
  have "sc_extra spec \<noteq> [] \<Longrightarrow> sc_key spec = ''shared-vault''"
    using assms by (auto simp: SCENARIOS_def scenario_def)
  then show ?thesis using shipped_ends [OF assms, of M seed]
    by (auto simp: threw_dust_def settled_result_def split: sum.splits js_error.splits)
qed

text \<open>C40: Whatever is selected, whatever the seed and the engine, the command runs every scenario selected and
  prints a line for it; its results are those of the scenarios that returned, in order. Each one either ends
  in the exception of the close for dust claims, or returns with no failed invariant, or is the shared vault
  with the one failed invariant that its dust explains. The profits of writers and buyers in the report sum to
  zero, the failures counted are one for each scenario that threw and the failed invariants of each that
  returned, and the exit code is 2 exactly for an empty selection, otherwise 1 exactly when a selected
  scenario threw or failed an invariant, and 0 when none did.\<close>

theorem simulation_run_accounts:
  "length (sm_lines (run_specs M message seed (selected argv))) = length (selected argv)
   \<and> sm_results (run_specs M message seed (selected argv))
       = concat (map (\<lambda>spec. case runScenario M spec NOW seed of Inl _ \<Rightarrow> [] | Inr r \<Rightarrow> [r]) (selected argv))
   \<and> list_all (\<lambda>spec. case runScenario M spec NOW seed of
         Inl (ClaimsOutstanding n) \<Rightarrow> 0 < n
       | Inl _ \<Rightarrow> False
       | Inr r \<Rightarrow> o_invariants r = [] \<or> sc_key spec = ''shared-vault'' \<and> o_invariants r = [free_label]) (selected argv)
   \<and> sum_list (map o_writerPnl (sm_results (run_specs M message seed (selected argv))))
       + sum_list (map o_buyerPnl (sm_results (run_specs M message seed (selected argv)))) = 0
   \<and> sm_failed (run_specs M message seed (selected argv))
       = sum_list (map (\<lambda>spec. case runScenario M spec NOW seed of Inl _ \<Rightarrow> 1 | Inr r \<Rightarrow> length (o_invariants r)) (selected argv))
   \<and> exit_code M message seed argv =
       (if selected argv = [] then 2
        else if list_ex (\<lambda>spec. case runScenario M spec NOW seed of Inl _ \<Rightarrow> True | Inr r \<Rightarrow> o_invariants r \<noteq> []) (selected argv)
        then 1 else 0)"
proof -
  have all: "list_all (\<lambda>spec. case runScenario M spec NOW seed of
         Inl (ClaimsOutstanding n) \<Rightarrow> 0 < n
       | Inl _ \<Rightarrow> False
       | Inr r \<Rightarrow> o_invariants r = [] \<or> sc_key spec = ''shared-vault'' \<and> o_invariants r = [free_label]) (selected argv)"
    unfolding list_all_iff using selected_shipped shipped_outcome by (intro ballI) blast
  have net: "sum_list (map o_writerPnl (sm_results (run_specs M message seed (selected argv))))
       + sum_list (map o_buyerPnl (sm_results (run_specs M message seed (selected argv)))) = 0"
    using returned_nets [OF selected_shipped] by (simp only: run_specs_adds)
  have "exit_code M message seed argv =
       (if selected argv = [] then 2
        else if list_ex (\<lambda>spec. case runScenario M spec NOW seed of Inl _ \<Rightarrow> True | Inr r \<Rightarrow> o_invariants r \<noteq> []) (selected argv)
        then 1 else 0)"
    by (simp only: exit_code_def run_specs_adds some_failure)
  then show ?thesis using all net run_specs_adds [of M message seed "selected argv"]
    by (simp only: returned_of_def [abs_def] failures_of_def [abs_def] simp_thms)
qed

text \<open>The selection reads its argument as the source does.\<close>

lemma selection_example:
  "map sc_key (selected [''--seed'', ''7'', ''--only'', ''at-cap, late-spike,'']) = [''at-cap'', ''late-spike'']
   \<and> selected [''--only'', ''none''] = []"
  by code_simp

end
