(* ===== verification/Js_Array.thy ===== *)
theory Js_Array
  imports "HOL-Library.Multiset" Tremor_Prelude
begin

text \<open>
  The array methods the web library uses. \<open>Array.prototype.sort\<close> is stable, so on a comparator that
  comes from a total order its result is the one stable sorting of the input; \<open>js_sort\<close> computes it
  by insertion, calling the comparator as the source gives it.
\<close>

fun js_insert :: "('a \<Rightarrow> 'a \<Rightarrow> int) \<Rightarrow> 'a \<Rightarrow> 'a list \<Rightarrow> 'a list" where
  "js_insert cmp x [] = [x]"
| "js_insert cmp x (y # ys) = (if cmp x y \<le> 0 then x # y # ys else y # js_insert cmp x ys)"

definition js_sort :: "('a \<Rightarrow> 'a \<Rightarrow> int) \<Rightarrow> 'a list \<Rightarrow> 'a list" where
  "js_sort cmp xs = foldr (js_insert cmp) xs []"

lemma set_js_insert [simp]: "set (js_insert cmp x xs) = insert x (set xs)"
  by (induction xs) auto

lemma mset_js_insert [simp]: "mset (js_insert cmp x xs) = add_mset x (mset xs)"
  by (induction xs) auto

lemma js_sort_simps [simp]: "js_sort cmp [] = []" "js_sort cmp (x # xs) = js_insert cmp x (js_sort cmp xs)"
  by (simp_all add: js_sort_def)

lemma set_js_sort [simp]: "set (js_sort cmp xs) = set xs"
  by (induction xs) auto

lemma mset_js_sort [simp]: "mset (js_sort cmp xs) = mset xs"
  by (induction xs) auto

lemma length_js_sort [simp]: "length (js_sort cmp xs) = length xs"
  by (metis mset_js_sort size_mset)

text \<open>A comparator given by a key of a linear order sorts by that key, ties in their old order.\<close>

lemma js_insert_key:
  assumes "\<forall>y\<in>set ys. cmp x y \<le> 0 \<longleftrightarrow> key x \<le> key y"
  shows "js_insert cmp x ys = insort_key key x ys"
  using assms by (induction ys) auto

lemma js_sort_key:
  assumes "\<forall>x\<in>set xs. \<forall>y\<in>set xs. cmp x y \<le> 0 \<longleftrightarrow> key x \<le> key y"
  shows "js_sort cmp xs = sort_key key xs"
  using assms
proof (induction xs)
  case (Cons x xs)
  have "js_sort cmp xs = sort_key key xs" using Cons by simp
  moreover have "js_insert cmp x (sort_key key xs) = insort_key key x (sort_key key xs)"
    using Cons.prems by (intro js_insert_key) auto
  ultimately show ?case by simp
qed simp

text \<open>The two-level comparator \<open>p(a) - p(b) || q(a) - q(b)\<close>.\<close>

definition by_two :: "('a \<Rightarrow> int) \<Rightarrow> ('a \<Rightarrow> int) \<Rightarrow> 'a \<Rightarrow> 'a \<Rightarrow> int" where
  "by_two p q a b = (if p a - p b \<noteq> 0 then p a - p b else q a - q b)"

definition before :: "('a \<Rightarrow> int) \<Rightarrow> ('a \<Rightarrow> int) \<Rightarrow> 'a \<Rightarrow> 'a \<Rightarrow> bool" where
  "before p q a b \<longleftrightarrow> p a < p b \<or> p a = p b \<and> q a \<le> q b"

lemma by_two_le [simp]: "by_two p q a b \<le> 0 \<longleftrightarrow> before p q a b"
  by (auto simp: by_two_def before_def)

lemma before_trans: "before p q a b \<Longrightarrow> before p q b c \<Longrightarrow> before p q a c"
  and before_linear: "before p q a b \<or> before p q b a"
  by (auto simp: before_def)

lemma js_insert_sorted:
  assumes "\<And>a b. cmp a b \<le> 0 \<longleftrightarrow> before p q a b" "sorted_wrt (before p q) ys"
  shows "sorted_wrt (before p q) (js_insert cmp x ys)"
  using assms(2)
proof (induction ys)
  case (Cons y ys)
  show ?case
  proof (cases "before p q x y")
    case True
    then show ?thesis using Cons.prems assms(1) by (auto intro: before_trans)
  next
    case False
    then have "before p q y x" using before_linear [of p q x y] by blast
    then show ?thesis using False Cons assms(1) by auto
  qed
qed simp

lemma js_sort_sorted: "sorted_wrt (before p q) (js_sort (by_two p q) xs)"
  by (induction xs) (simp_all add: js_insert_sorted)

lemma js_insert_filter:
  assumes "\<And>a b. cmp a b \<le> 0 \<longleftrightarrow> before p q a b"
  shows "filter (\<lambda>y. p y = i \<and> q y = j) (js_insert cmp x ys) = filter (\<lambda>y. p y = i \<and> q y = j) (x # ys)"
  by (induction ys) (auto simp: assms before_def)

lemma js_sort_stable:
  "filter (\<lambda>y. p y = i \<and> q y = j) (js_sort (by_two p q) xs) = filter (\<lambda>y. p y = i \<and> q y = j) xs"
proof (induction xs)
  case (Cons x xs)
  then show ?case using js_insert_filter [of "by_two p q" p q i j x "js_sort (by_two p q) xs"] by simp
qed simp

end
