(* ===== verification/Web_Series.thy ===== *)
theory Web_Series
  imports Web_Format Js_Array
begin

text \<open>
  \<open>web/src/lib/series.ts\<close>: the normalized series, its derived quantities, what a user can do with
  it, the order and the filters of the markets page. Labels and the receipt's name and symbol, which
  are text around a \<open>Date\<close>, are left out.
\<close>

type_synonym address = string
type_synonym hexstr = string

subsection \<open>Statuses and legs\<close>

text \<open>
  The numeric conversions cast any number of the enum's range to it, whole or not; \<open>OffEnum\<close> is
  what a fractional one gives.
\<close>

datatype status = Upcoming | Live | ExpiredUnfinalized | Finalized | Closed | OffEnum rat
datatype leg = LegNone | Issue | Exit | Settle | OffLeg rat

definition lower_char :: "char \<Rightarrow> char" where
  "lower_char c = (let n = (of_char c :: nat) in
     if 65 \<le> n \<and> n \<le> 90 \<or> 192 \<le> n \<and> n \<le> 222 \<and> n \<noteq> 215 then char_of (n + 32) else c)"

definition toLowerCase :: "string \<Rightarrow> string" where
  "toLowerCase s = map lower_char s"

definition status_of_num :: "rat \<Rightarrow> status" where
  "status_of_num n =
     (if 0 \<le> n \<and> n \<le> 4
      then (if n = 0 then Upcoming else if n = 1 then Live else if n = 2 then ExpiredUnfinalized
            else if n = 3 then Finalized else if n = 4 then Closed else OffEnum n)
      else Upcoming)"

definition status_of_string :: "string \<Rightarrow> status" where
  "status_of_string v =
     (let s = toLowerCase (trim v) in
      if all_digits s then status_of_num (js_Number (digits_val s))
      else if s = ''live'' then Live
      else if s = ''expired_unfinalized'' \<or> s = ''expired'' \<or> s = ''finalizing'' then ExpiredUnfinalized
      else if s = ''finalized'' \<or> s = ''settled'' then Finalized
      else if s = ''closed'' then Closed
      else Upcoming)"

fun statusFrom :: "js_value \<Rightarrow> status" where
  "statusFrom (JBig v) = status_of_num (js_Number v)"
| "statusFrom (JNum v) = status_of_num v"
| "statusFrom JNonFinite = Upcoming"
| "statusFrom (JStr v) = status_of_string v"
| "statusFrom JOther = Upcoming"

definition leg_of_num :: "rat \<Rightarrow> leg" where
  "leg_of_num n =
     (if 0 \<le> n \<and> n \<le> 3
      then (if n = 0 then LegNone else if n = 1 then Issue else if n = 2 then Exit
            else if n = 3 then Settle else OffLeg n)
      else LegNone)"

definition leg_of_string :: "string \<Rightarrow> leg" where
  "leg_of_string v =
     (let s = toLowerCase (trim v) in
      if s = ''issue'' then Issue else if s = ''exit'' then Exit else if s = ''settle'' then Settle else LegNone)"

fun legFrom :: "js_value \<Rightarrow> leg" where
  "legFrom (JBig v) = leg_of_num (js_Number v)"
| "legFrom (JNum v) = leg_of_num v"
| "legFrom JNonFinite = LegNone"
| "legFrom (JStr v) = leg_of_string v"
| "legFrom JOther = LegNone"

subsection \<open>The series record\<close>

record web_params =
  feed :: address
  quoteToken :: address
  start :: int
  expiry :: int
  saleEnd :: int
  sampleInterval :: int
  unitNotional :: int
  capVariance :: int
  anchorVariance :: int
  impactPerUnit :: int
  halfLife :: int
  halfSpreadBps :: int
  maxUnits :: int

record vault_state =
  vs_vault :: address
  vs_owner :: address
  vs_balance :: int
  vs_locked :: int
  vs_free :: int
  aquaAllowance :: int
  allowanceSufficient :: bool

record market_quote =
  q_marketVariance :: int
  q_projectedVariance :: int
  q_realizedVarianceSoFar :: int
  q_bidVariance :: int
  q_askVariance :: int
  q_bidPerUnit :: int
  q_askPerUnit :: int
  q_maxPayoutPerUnit :: int

record oracle_progress =
  samplesStored :: int
  samplesAvailable :: int
  samplesTotal :: int
  processedThrough :: int
  checkpointsCurrent :: bool

record leg_status =
  leg_issuanceOpen :: bool
  leg_exitOpen :: bool
  leg_settleOpen :: bool
  issueLegActive :: bool
  exitLegActive :: bool
  settleLegActive :: bool

datatype data_source = FromChain | FromApi

record series_state =
  id_of :: int
  writer :: address
  vault_of :: address
  receipt_of :: address
  params :: web_params
  issueOrderHash :: hexstr
  exitOrderHash :: hexstr
  settlementOrderHash :: hexstr
  status_of :: status
  legs :: leg_status
  quote_of :: market_quote
  unitsOutstanding :: int
  unitsAvailable :: int
  lockedLiability :: int
  finalVariance :: int
  payout_per_unit :: int
  oracle_of :: oracle_progress
  fullyCollateralized :: bool
  vaultState :: vault_state
  fillsCount :: "int option"
  issueCount :: "int option"
  exitCount :: "int option"
  settleCount :: "int option"
  premiumQuote :: "int option"
  exitQuote :: "int option"
  settlementQuote :: "int option"
  unitsIssued :: "int option"
  unitsExited :: "int option"
  unitsSettled :: "int option"
  lastFillAt :: "int option"
  source :: data_source

subsection \<open>Derived quantities\<close>

definition maxSeriesLiability :: "web_params \<Rightarrow> int" where
  "maxSeriesLiability p = ceilDiv ((maxUnits p * unitNotional p) * capVariance p) (WAD * WAD)"

definition maxLiabilityFor :: "int \<Rightarrow> web_params \<Rightarrow> int" where
  "maxLiabilityFor units p =
     (if units \<le> 0 then 0 else ceilDiv ((units * unitNotional p) * capVariance p) (WAD * WAD))"

definition maxPayoutPerUnit_web :: "web_params \<Rightarrow> int" where
  "maxPayoutPerUnit_web p = bdiv (unitNotional p * capVariance p) WAD"

definition perUnitPrice_web :: "int \<Rightarrow> int \<Rightarrow> int" where
  "perUnitPrice_web N variance = bdiv (N * variance) WAD"

definition payoutFor :: "int \<Rightarrow> int \<Rightarrow> int" where
  "payoutFor units ppu = bdiv (units * ppu) WAD"

definition issuePremium_web :: "int \<Rightarrow> int \<Rightarrow> int \<Rightarrow> int \<Rightarrow> int" where
  "issuePremium_web N ask slope units =
     (if units \<le> 0 then 0
      else let integral = ask * units + ceilDiv (slope * units * units) (2 * WAD)
           in ceilDiv (N * integral) (WAD * WAD))"

definition exitProceeds_web :: "int \<Rightarrow> int \<Rightarrow> int \<Rightarrow> int \<Rightarrow> int" where
  "exitProceeds_web N bid slope units =
     (if units \<le> 0 then 0
      else let gross = bid * units; impact = bdiv (slope * units * units) (2 * WAD)
           in if impact \<ge> gross then 0 else bdiv (N * (gross - impact)) (WAD * WAD))"

definition breakEvenVariance :: "int \<Rightarrow> int \<Rightarrow> int \<Rightarrow> int" where
  "breakEvenVariance quotePaid units N =
     (if units = 0 \<or> N = 0 then 0 else bdiv (quotePaid * WAD * WAD) (units * N))"

definition isFinalized :: "series_state \<Rightarrow> bool" where
  "isFinalized s \<longleftrightarrow> status_of s = Finalized \<or> status_of s = Closed"

definition effectiveVariance :: "series_state \<Rightarrow> int" where
  "effectiveVariance s = (if isFinalized s then finalVariance s else q_realizedVarianceSoFar (quote_of s))"

definition marketVolPct :: "js_math \<Rightarrow> series_state \<Rightarrow> js_error + string" where
  "marketVolPct M s = fmtVolPct M (q_marketVariance (quote_of s)) 1"

definition projectedVolPct :: "js_math \<Rightarrow> series_state \<Rightarrow> js_error + string" where
  "projectedVolPct M s = fmtVolPct M (q_projectedVariance (quote_of s)) 1"

definition realizedVolPct :: "js_math \<Rightarrow> series_state \<Rightarrow> js_error + string" where
  "realizedVolPct M s = fmtVolPct M (effectiveVariance s) 1"

definition volFromVariance :: "js_math \<Rightarrow> int \<Rightarrow> js_error + int" where
  "volFromVariance M v = sqrtWad M v"

definition checkpointProgressBps :: "series_state \<Rightarrow> int" where
  "checkpointProgressBps s =
     (if samplesTotal (oracle_of s) \<le> 1 then 0
      else bdiv (max 0 (samplesStored (oracle_of s) - 1) * 10000) (samplesTotal (oracle_of s) - 1))"

definition checkpointsBehind :: "series_state \<Rightarrow> int" where
  "checkpointsBehind s = max 0 (samplesAvailable (oracle_of s) - samplesStored (oracle_of s))"

subsection \<open>What a user can do\<close>

definition canBuy :: "series_state \<Rightarrow> bool" where
  "canBuy s \<longleftrightarrow> leg_issuanceOpen (legs s) \<and> checkpointsCurrent (oracle_of s)"

definition canExit :: "series_state \<Rightarrow> bool" where
  "canExit s \<longleftrightarrow> leg_exitOpen (legs s) \<and> checkpointsCurrent (oracle_of s)"

definition canRedeem :: "series_state \<Rightarrow> bool" where
  "canRedeem s \<longleftrightarrow> leg_settleOpen (legs s) \<and> payout_per_unit s > 0"

definition needsWorthlessBurn :: "series_state \<Rightarrow> bool" where
  "needsWorthlessBurn s \<longleftrightarrow> isFinalized s \<and> payout_per_unit s = 0 \<and> unitsOutstanding s > 0"

definition needsCheckpoint :: "series_state \<Rightarrow> bool" where
  "needsCheckpoint s \<longleftrightarrow> checkpointsBehind s > 0"

definition needsFinalize :: "series_state \<Rightarrow> bool" where
  "needsFinalize s \<longleftrightarrow> status_of s = ExpiredUnfinalized \<and> samplesStored (oracle_of s) \<ge> samplesTotal (oracle_of s)"

definition canClose :: "series_state \<Rightarrow> bool" where
  "canClose s \<longleftrightarrow> status_of s \<noteq> Closed \<and> unitsOutstanding s = 0"

text \<open>An off-enum status has no rank, the difference is NaN, and the expiries decide.\<close>

fun series_rank :: "status \<Rightarrow> int option" where
  "series_rank Live = Some 0"
| "series_rank Upcoming = Some 1"
| "series_rank ExpiredUnfinalized = Some 2"
| "series_rank Finalized = Some 3"
| "series_rank Closed = Some 4"
| "series_rank (OffEnum n) = None"

definition series_compare :: "series_state \<Rightarrow> series_state \<Rightarrow> int" where
  "series_compare a b =
     (case (series_rank (status_of a), series_rank (status_of b)) of
        (Some x, Some y) \<Rightarrow> (if x - y \<noteq> 0 then x - y else expiry (params a) - expiry (params b))
      | _ \<Rightarrow> expiry (params a) - expiry (params b))"

definition sortSeries :: "series_state list \<Rightarrow> series_state list" where
  "sortSeries list = js_sort series_compare list"

datatype market_filter = AllSeries | UpcomingOnly | LiveOnly | Finalizing | FinalizedOnly | ClosedOnly | IssuanceOpen

fun matchesFilter :: "series_state \<Rightarrow> market_filter \<Rightarrow> bool" where
  "matchesFilter s AllSeries = True"
| "matchesFilter s UpcomingOnly = (status_of s = Upcoming)"
| "matchesFilter s LiveOnly = (status_of s = Live)"
| "matchesFilter s Finalizing = (status_of s = ExpiredUnfinalized)"
| "matchesFilter s FinalizedOnly = (status_of s = Finalized)"
| "matchesFilter s ClosedOnly = (status_of s = Closed)"
| "matchesFilter s IssuanceOpen = leg_issuanceOpen (legs s)"

subsection \<open>The enum casts\<close>

lemma fl_large:
  assumes "2 ^ 53 \<le> x"
  shows "2 ^ 52 \<le> fl x"
proof -
  have x: "0 < x" using assms by (rule less_le_trans [rotated]) simp
  note b = ulp_bounds [OF x]
  have "2 ^ 53 * 1 \<le> 2 ^ 53 * ulp x" using assms b(2) by linarith
  then have u: "1 \<le> ulp x" by simp
  have "2 ^ 52 \<le> x / ulp x" using b(1) by (simp add: pos_le_divide_eq)
  then have "(2 ^ 52 :: int) \<le> round_half_even (x / ulp x)" by (intro round_half_even_ge) simp
  then have "of_int (2 ^ 52) \<le> (of_int (round_half_even (x / ulp x)) :: rat)" by (simp only: of_int_le_iff)
  then have "2 ^ 52 * 1 \<le> of_int (round_half_even (x / ulp x)) * ulp x"
    using u by (intro mult_mono) auto
  then show ?thesis using x by (simp add: fl_def)
qed

lemma js_Number_small: "\<bar>n\<bar> < 2 ^ 53 \<Longrightarrow> js_Number n = of_int n"
  using fl_of_int [of n] fl_of_int [of "- n"] fl_minus [of "of_int n"]
  by (cases "0 \<le> n") (auto simp: js_Number_def)

lemma js_Number_big: "2 ^ 53 \<le> n \<Longrightarrow> 2 ^ 52 \<le> js_Number n" for n :: int
  unfolding js_Number_def by (intro fl_large) (metis of_int_le_iff of_int_numeral of_int_power)

lemma js_Number_minus: "js_Number (- n) = - js_Number n"
  by (simp add: js_Number_def fl_minus)

lemma js_Number_range:
  assumes "0 \<le> js_Number n" "js_Number n \<le> 4"
  shows "js_Number n = of_int n" "n \<in> {0, 1, 2, 3, 4}"
proof -
  have "\<not> 2 ^ 53 \<le> n" using assms js_Number_big [of n] by auto
  moreover have "\<not> 2 ^ 53 \<le> - n" using assms js_Number_big [of "- n"] js_Number_minus [of n] by auto
  ultimately have "\<bar>n\<bar> < 2 ^ 53" by (cases "n < 0") (simp_all add: abs_if)
  then show *: "js_Number n = of_int n" by (rule js_Number_small)
  with assms have "0 \<le> n" "n \<le> 4" by simp_all
  then show "n \<in> {0, 1, 2, 3, 4}" by auto
qed

definition in_enum :: "status \<Rightarrow> bool" where
  "in_enum s \<longleftrightarrow> (case s of OffEnum n \<Rightarrow> False | _ \<Rightarrow> True)"

lemma in_enum_simps [simp]:
  "in_enum Upcoming" "in_enum Live" "in_enum ExpiredUnfinalized" "in_enum Finalized" "in_enum Closed" "\<not> in_enum (OffEnum n)"
  by (simp_all add: in_enum_def)

lemma status_of_num_int: "in_enum (status_of_num (js_Number n))"
  using js_Number_range [of n] by (auto simp: status_of_num_def)

lemma status_of_string_in_enum: "in_enum (status_of_string v)"
  by (simp add: status_of_string_def Let_def status_of_num_int)

definition fractional_status :: "js_value \<Rightarrow> bool" where
  "fractional_status v \<longleftrightarrow> (case v of JNum x \<Rightarrow> 0 \<le> x \<and> x \<le> 4 \<and> x \<noteq> of_int \<lfloor>x\<rfloor> | _ \<Rightarrow> False)"

lemma whole_0_4:
  fixes x :: rat
  assumes "0 \<le> x" "x \<le> 4" "x = of_int \<lfloor>x\<rfloor>"
  shows "x \<in> {0, 1, 2, 3, 4}"
proof -
  obtain n :: int where n: "x = of_int n" using assms(3) by blast
  then have "0 \<le> n" "n \<le> 4" using assms(1,2) by simp_all
  then have "n = 0 \<or> n = 1 \<or> n = 2 \<or> n = 3 \<or> n = 4" by linarith
  then show ?thesis using n by auto
qed

lemma statusFrom_in_enum: "in_enum (statusFrom v) \<longleftrightarrow> \<not> fractional_status v"
proof (cases v)
  case (JNum x)
  then show ?thesis
    using whole_0_4 [of x] by (auto simp: fractional_status_def status_of_num_def)
qed (simp_all add: fractional_status_def status_of_num_int status_of_string_in_enum)

definition status_filters :: "market_filter list" where
  "status_filters = [UpcomingOnly, LiveOnly, Finalizing, FinalizedOnly, ClosedOnly]"

lemma one_status_filter:
  "length (filter (matchesFilter s) status_filters) = (if in_enum (status_of s) then 1 else 0)"
  by (cases "status_of s") (simp_all add: status_filters_def)

subsection \<open>Sorting\<close>

definition rank_of :: "series_state \<Rightarrow> int" where
  "rank_of s = the (series_rank (status_of s))"

lemma js_sort_cong:
  assumes "\<forall>x\<in>set xs. \<forall>y\<in>set xs. f x y = g x y"
  shows "js_sort f xs = js_sort g xs"
  using assms
proof (induction xs)
  case (Cons x xs)
  have "js_insert f x ys = js_insert g x ys" if "set ys \<subseteq> set xs" for ys
    using that Cons.prems by (induction ys) auto
  with Cons show ?case by simp
qed simp

lemma sortSeries_by_two:
  assumes "\<forall>s\<in>set l. in_enum (status_of s)"
  shows "sortSeries l = js_sort (by_two rank_of (\<lambda>s. expiry (params s))) l"
proof -
  have r: "series_rank (status_of s) = Some (rank_of s)" if "s \<in> set l" for s
    using assms that by (cases "status_of s") (auto simp: rank_of_def)
  show ?thesis
    unfolding sortSeries_def by (intro js_sort_cong) (simp add: series_compare_def by_two_def r)
qed

subsection \<open>Break-even\<close>

lemma breakEven_bounds:
  assumes "0 \<le> paid" "0 < u" "0 < N"
  shows "payoutFor u (perUnitPrice_web N (breakEvenVariance paid u N)) \<le> paid"
    and "(paid - payoutFor u (perUnitPrice_web N (breakEvenVariance paid u N)) - 1) * (WAD * WAD) < u * WAD + u * N"
proof -
  define b where "b = bdiv (paid * WAD * WAD) (u * N)"
  define p where "p = bdiv (N * b) WAD"
  define y where "y = bdiv (u * p) WAD"
  have uN: "0 < u * N" and W: "0 \<le> paid * WAD * WAD" using assms by simp_all
  have b0: "0 \<le> b" unfolding b_def using W uN by (intro bdiv_ge_0) auto
  have p0: "0 \<le> p" unfolding p_def using b0 assms by (intro bdiv_ge_0) auto
  have eq: "payoutFor u (perUnitPrice_web N (breakEvenVariance paid u N)) = y"
    using assms by (simp add: payoutFor_def perUnitPrice_web_def breakEvenVariance_def y_def p_def b_def)
  have b1: "b * (u * N) \<le> paid * WAD * WAD" and b2: "paid * WAD * WAD < (b + 1) * (u * N)"
    unfolding b_def using W uN by (intro bdiv_mult_le bdiv_less; simp)+
  have p1: "p * WAD \<le> N * b" and p2: "N * b < (p + 1) * WAD"
    unfolding p_def using b0 assms by (intro bdiv_mult_le bdiv_less; simp)+
  have y1: "y * WAD \<le> u * p" and y2: "u * p < (y + 1) * WAD"
    unfolding y_def using p0 assms by (intro bdiv_mult_le bdiv_less; simp)+
  have "(y * WAD) * WAD \<le> (u * p) * WAD" using y1 by (intro mult_right_mono) auto
  also have "\<dots> \<le> u * (N * b)" using p1 assms by (simp add: mult.assoc)
  also have "\<dots> \<le> paid * WAD * WAD" using b1 by (simp add: algebra_simps)
  finally have "y * (WAD * WAD) \<le> paid * (WAD * WAD)" by (simp add: mult.assoc)
  then have "y \<le> paid" by (rule mult_right_le_imp_le) simp
  then show "payoutFor u (perUnitPrice_web N (breakEvenVariance paid u N)) \<le> paid" by (simp only: eq)
  have "paid * WAD * WAD < u * (N * b) + u * N" using b2 by (simp add: algebra_simps)
  also have "\<dots> \<le> u * ((p + 1) * WAD) + u * N"
    using p2 assms by (simp add: mult_left_mono)
  also have "\<dots> = (u * p) * WAD + u * WAD + u * N" by (simp add: algebra_simps)
  also have "\<dots> \<le> ((y + 1) * WAD) * WAD + u * WAD + u * N"
    using y2 by (simp add: mult_right_mono)
  finally have "paid * WAD * WAD < (y + 1) * WAD * WAD + u * WAD + u * N" .
  then show "(paid - payoutFor u (perUnitPrice_web N (breakEvenVariance paid u N)) - 1) * (WAD * WAD) < u * WAD + u * N"
    by (simp add: eq algebra_simps)
qed

subsection \<open>Properties\<close>

text \<open>C13: The web app's own quotes are the market's: for any non-negative number of units, the premium, the
  exit proceeds (zero where the market throws), the reserved liability and the settlement payout it
  shows are exactly those of the simulated market.\<close>

theorem web_quotes_match_market:
  assumes "0 \<le> units"
  shows "issuePremium_web N ask slope units = Sim_Pricing.issuePremium ask slope N units
    \<and> exitProceeds_web N bid slope units = (case Sim_Pricing.exitProceeds bid slope N units of Inl e \<Rightarrow> 0 | Inr p \<Rightarrow> p)
    \<and> maxLiabilityFor units p = Sim_Pricing.maxLiability units (unitNotional p) (capVariance p)
    \<and> payoutFor units ppu = Sim_Pricing.settleProceeds units ppu"
proof (intro conjI)
  show "issuePremium_web N ask slope units = Sim_Pricing.issuePremium ask slope N units"
    using assms by (auto simp: issuePremium_web_def Sim_Pricing.issuePremium_def Let_def WAD2_eq)
  show "exitProceeds_web N bid slope units = (case Sim_Pricing.exitProceeds bid slope N units of Inl e \<Rightarrow> 0 | Inr p \<Rightarrow> p)"
    using assms by (auto simp: exitProceeds_web_def Sim_Pricing.exitProceeds_def Let_def WAD2_eq)
  show "maxLiabilityFor units p = Sim_Pricing.maxLiability units (unitNotional p) (capVariance p)"
    using assms by (auto simp: maxLiabilityFor_def Sim_Pricing.maxLiability_def WAD2_eq)
qed (simp add: payoutFor_def Sim_Pricing.settleProceeds_def)

theorem web_quotes_match_market_witness:
  "issuePremium_web 50000000 400000000000000000 0 1000000000000000000
     = Sim_Pricing.issuePremium 400000000000000000 0 50000000 1000000000000000000"
  using web_quotes_match_market [of 1000000000000000000 50000000 400000000000000000 0] by simp

text \<open>Redeeming at the break-even variance the app shows never returns more than was paid, and falls short
  of it by less than one base unit plus the rounding of the per-unit price and of the variance.\<close>

theorem breakEven_recovers_paid:
  assumes "0 \<le> paid" "0 < u" "0 < N"
  shows "payoutFor u (perUnitPrice_web N (breakEvenVariance paid u N)) \<le> paid
    \<and> (paid - payoutFor u (perUnitPrice_web N (breakEvenVariance paid u N)) - 1) * (WAD * WAD) < u * WAD + u * N"
  using breakEven_bounds [OF assms] by blast

theorem breakEven_recovers_paid_witness:
  "payoutFor 2000000000000000000 (perUnitPrice_web 50000000 (breakEvenVariance 7000000 2000000000000000000 50000000)) \<le> 7000000"
  using breakEven_recovers_paid [of 7000000 2000000000000000000 50000000] by simp

text \<open>Whatever value the status comes from (a number, a bigint, text in any case, anything else), exactly
  one of the five status filters of the markets page shows the series, unless the value was a
  fractional number between 0 and 4: the cast lets that through, and then none of them does.\<close>

theorem status_filters_partition:
  "length (filter (matchesFilter (s\<lparr>status_of := statusFrom v\<rparr>)) status_filters)
     = (if fractional_status v then 0 else 1)"
  using statusFrom_in_enum [of v] by (simp add: one_status_filter)

text \<open>\<open>sortSeries\<close> keeps every series, orders them by lifecycle rank and then expiry, and leaves series
  that tie in the order they came in.\<close>

theorem sortSeries_sorts:
  assumes "\<forall>s\<in>set l. in_enum (status_of s)"
  shows "mset (sortSeries l) = mset l
    \<and> sorted_wrt (before rank_of (\<lambda>s. expiry (params s))) (sortSeries l)
    \<and> filter (\<lambda>s. rank_of s = i \<and> expiry (params s) = j) (sortSeries l)
       = filter (\<lambda>s. rank_of s = i \<and> expiry (params s) = j) l"
  unfolding sortSeries_by_two [OF assms] by (simp add: js_sort_sorted js_sort_stable)

definition demo_params :: web_params where
  "demo_params = \<lparr>feed = ''0x01'', quoteToken = ''0x02'', start = 0, expiry = 2000, saleEnd = 1500, sampleInterval = 100,
     unitNotional = 50000000, capVariance = 10 ^ 18, anchorVariance = 4 * 10 ^ 17, impactPerUnit = 10 ^ 15,
     halfLife = 3600, halfSpreadBps = 150, maxUnits = 10 ^ 20\<rparr>"

definition demo_series :: "status \<Rightarrow> int \<Rightarrow> int \<Rightarrow> series_state" where
  "demo_series st ex i = \<lparr>id_of = i, writer = ''0x03'', vault_of = ''0x04'', receipt_of = ''0x05'',
     params = demo_params\<lparr>expiry := ex\<rparr>, issueOrderHash = ''0x'', exitOrderHash = ''0x'', settlementOrderHash = ''0x'',
     status_of = st,
     legs = \<lparr>leg_issuanceOpen = True, leg_exitOpen = True, leg_settleOpen = False, issueLegActive = True,
       exitLegActive = True, settleLegActive = False\<rparr>,
     quote_of = \<lparr>q_marketVariance = 0, q_projectedVariance = 0, q_realizedVarianceSoFar = 0, q_bidVariance = 0,
       q_askVariance = 0, q_bidPerUnit = 0, q_askPerUnit = 0, q_maxPayoutPerUnit = 0\<rparr>,
     unitsOutstanding = 0, unitsAvailable = 0, lockedLiability = 0, finalVariance = 0, payout_per_unit = 0,
     oracle_of = \<lparr>samplesStored = 0, samplesAvailable = 0, samplesTotal = 21, processedThrough = 0, checkpointsCurrent = True\<rparr>,
     fullyCollateralized = True,
     vaultState = \<lparr>vs_vault = ''0x04'', vs_owner = ''0x03'', vs_balance = 0, vs_locked = 0, vs_free = 0,
       aquaAllowance = 0, allowanceSufficient = True\<rparr>,
     fillsCount = None, issueCount = None, exitCount = None, settleCount = None, premiumQuote = None, exitQuote = None,
     settlementQuote = None, unitsIssued = None, unitsExited = None, unitsSettled = None, lastFillAt = None,
     source = FromChain\<rparr>"

theorem sortSeries_sorts_witness:
  "mset (sortSeries [demo_series Closed 5 1, demo_series Live 9 2, demo_series Live 9 3])
     = mset [demo_series Closed 5 1, demo_series Live 9 2, demo_series Live 9 3]"
  using sortSeries_sorts [of "[demo_series Closed 5 1, demo_series Live 9 2, demo_series Live 9 3]" 0 9]
  by (simp add: demo_series_def)

end
