(* ===== verification/Web_Derive.thy ===== *)
theory Web_Derive
  imports Web_Series
begin

text \<open>
  \<open>web/src/lib/derive.ts\<close>: three decisions of a writer (how long, how much, at what price) and a map of
  overrides become a complete set of series parameters. An issue keeps its id, where its control lives
  and the parameter it belongs to; its message, display text, is left out. A number that can pass
  \<open>2 ^ 53\<close> (a start time typed as text, and what is added to it) is rounded as a double.
\<close>

subsection \<open>Constants\<close>

definition HOUR :: int where "HOUR = 3600"
definition DAY :: int where "DAY = 86400"
definition UINT64_MAX :: int where "UINT64_MAX = 2 ^ 64 - 1"
definition UINT128_MAX :: int where "UINT128_MAX = 2 ^ 128 - 1"
definition UINT32_MAX :: int where "UINT32_MAX = 2 ^ 32 - 1"
definition UINT40_MAX :: int where "UINT40_MAX = 2 ^ 40 - 1"
definition MAX_SAMPLES :: int where "MAX_SAMPLES = 84"
definition MIN_SAMPLES :: int where "MIN_SAMPLES = 2"
definition CONTRACT_MAX_SAMPLES :: int where "CONTRACT_MAX_SAMPLES = 256"
definition SAMPLES_PER_CHECKPOINT :: int where "SAMPLES_PER_CHECKPOINT = 32"
definition INTERVAL_LADDER :: "int list" where "INTERVAL_LADDER = [1800, 3600, 7200, 14400, 21600, 43200, 86400]"
definition RV_FLOOR :: int where "RV_FLOOR = 4 * 10 ^ 16"
definition UNIT_NOTIONAL :: int where "UNIT_NOTIONAL = 100000000"
definition UNITS_STEP :: int where "UNITS_STEP = 10 ^ 16"
definition MIN_UNITS :: int where "MIN_UNITS = WAD"
definition MAX_CAP_VARIANCE :: int where "MAX_CAP_VARIANCE = 4 * WAD"
definition CAP_VOL_LADDER :: "int list" where
  "CAP_VOL_LADDER = [5 * 10 ^ 17, 75 * 10 ^ 16, WAD, 15 * 10 ^ 17, 2 * WAD]"
definition SELLOUT_LIFT_BPS :: int where "SELLOUT_LIFT_BPS = 5000"
definition HALF_SPREAD_BPS :: int where "HALF_SPREAD_BPS = 200"
definition MIN_HALF_SPREAD_BPS :: int where "MIN_HALF_SPREAD_BPS = 10"
definition MAX_HALF_SPREAD_BPS :: int where "MAX_HALF_SPREAD_BPS = 2000"

text \<open>\<open>Math.ceil(a / b)\<close>, \<open>Math.floor(a / b)\<close> and \<open>Math.round(a / b)\<close> on numbers, and a sum of numbers.\<close>

definition num_ceil_div :: "int \<Rightarrow> int \<Rightarrow> int" where "num_ceil_div a b = \<lceil>fl (of_int a / of_int b)\<rceil>"
definition num_floor_div :: "int \<Rightarrow> int \<Rightarrow> int" where "num_floor_div a b = \<lfloor>fl (of_int a / of_int b)\<rfloor>"
definition num_round_div :: "int \<Rightarrow> int \<Rightarrow> int" where "num_round_div a b = math_round (fl (of_int a / of_int b))"
definition num_add :: "int \<Rightarrow> int \<Rightarrow> int" where "num_add a b = \<lfloor>fl (of_int (a + b))\<rfloor>"

definition checkpointCallsFor :: "int \<Rightarrow> int" where
  "checkpointCallsFor samples = max 1 (num_ceil_div (samples + 1) SAMPLES_PER_CHECKPOINT)"

datatype stance = Cheap | Fair | Rich | Custom

record stances =
  cheap :: int
  fair :: int
  rich :: int

definition STANCE_BPS :: stances where
  "STANCE_BPS = \<lparr>cheap = 10000, fair = 11500, rich = 13500\<rparr>"

datatype sale_mode = AtStart | AtQuarter | AtHalf | AtExpiry

datatype override_key =
    OvStart | OvTenorDays | OvSampleInterval | OvSaleMode | OvUnitNotional | OvCapVolPct | OvHalfSpreadBps
  | OvSelloutLiftBps | OvImpactPerUnit | OvHalfLifeHours | OvMaxUnits

definition OVERRIDE_KEYS :: "override_key list" where
  "OVERRIDE_KEYS = [OvStart, OvTenorDays, OvSampleInterval, OvSaleMode, OvUnitNotional, OvCapVolPct, OvHalfSpreadBps,
     OvSelloutLiftBps, OvImpactPerUnit, OvHalfLifeHours, OvMaxUnits]"

subsection \<open>Input and output\<close>

datatype issue_where = Primary | Advanced

record form_issue =
  issue_id :: string
  issue_where :: issue_where
  issue_param :: "string option"

record notice =
  note_id :: string
  note_param :: "string option"

definition primary :: "string \<Rightarrow> string option \<Rightarrow> form_issue" where
  "primary i p = \<lparr>issue_id = i, issue_where = Primary, issue_param = p\<rparr>"

definition advanced :: "string \<Rightarrow> string \<Rightarrow> form_issue" where
  "advanced i p = \<lparr>issue_id = i, issue_where = Advanced, issue_param = Some p\<rparr>"

definition only_if :: "bool \<Rightarrow> 'a \<Rightarrow> 'a list" where
  "only_if b x = (if b then [x] else [])"

record derive_input =
  nowTs :: int
  in_feed :: address
  in_quoteToken :: address
  in_trailingVariance :: "int option"
  in_trailingPending :: bool
  in_tenorDays :: int
  in_collateral :: string
  in_stance :: stance
  in_customVolPct :: string
  walletUsdc :: "int option"
  overrides :: "override_key \<Rightarrow> string option"

record derived =
  d_params :: "web_params option"
  d_draft :: web_params
  d_trailingVariance :: int
  d_trailingAvailable :: bool
  d_trailingPending :: bool
  d_trailingFloored :: bool
  d_stanceVariance :: stances
  d_tenorSeconds :: int
  d_samples :: int
  d_checkpointCalls :: int
  d_collateralTyped :: "int option"
  d_collateralCommitted :: int
  d_maxPayoutPerUnit :: int
  d_askPerUnit :: int
  d_bidPerUnit :: int
  d_premiumIfSoldOut :: int
  d_varianceAtSellOut :: int
  d_askAtSellOut :: int
  d_breakEvenVariance :: int
  d_worstCaseNet :: int
  d_errors :: "form_issue list"
  d_warnings :: "form_issue list"
  d_notes :: "notice list"
  d_overriddenKeys :: "override_key list"

subsection \<open>Helpers\<close>

definition clampInt :: "int \<Rightarrow> int \<Rightarrow> int \<Rightarrow> int" where
  "clampInt v lo hi = (if v < lo then lo else if v > hi then hi else v)"

definition parseVariance :: "string \<Rightarrow> int option" where
  "parseVariance pct =
     (if trim pct = '''' then None else case varianceFromVolPct pct of Inl e \<Rightarrow> None | Inr v \<Rightarrow> Some v)"

definition parseIntStr :: "string option \<Rightarrow> int option" where
  "parseIntStr s = (case s of None \<Rightarrow> None
     | Some s \<Rightarrow> let t = trim s in if all_digits t then Some \<lfloor>js_Number (digits_val t)\<rfloor> else None)"

definition defaultStart :: "int \<Rightarrow> int" where
  "defaultStart now = num_ceil_div (now + 300) HOUR * HOUR"

definition intervalFor :: "int \<Rightarrow> int" where
  "intervalFor tenorSeconds =
     (case find (\<lambda>d. num_ceil_div tenorSeconds d \<le> MAX_SAMPLES) INTERVAL_LADDER of
        Some d \<Rightarrow> d | None \<Rightarrow> last INTERVAL_LADDER)"

definition halfLifeFor :: "int \<Rightarrow> int" where
  "halfLifeFor interval = clampInt (3 * interval) HOUR (12 * HOUR)"

definition cap_vol :: "int \<Rightarrow> int" where
  "cap_vol floorVol = (case find (\<lambda>v. v \<ge> floorVol) CAP_VOL_LADDER of Some v \<Rightarrow> v | None \<Rightarrow> last CAP_VOL_LADDER)"

definition capVarianceFor :: "js_math \<Rightarrow> int \<Rightarrow> int \<Rightarrow> js_error + int" where
  "capVarianceFor M trailing anchor =
     andThen (sqrtWad M trailing) (\<lambda>rt. andThen (sqrtWad M (2 * anchor)) (\<lambda>ra.
       let floorVol = max_big (2 * rt) ra; capVol = cap_vol floorVol in Inr (bdiv (capVol * capVol) WAD)))"

definition stanceVariance :: "int \<Rightarrow> int \<Rightarrow> int" where
  "stanceVariance trailing bps = bdiv (trailing * bps * bps) (BPS * BPS)"

definition maxCollateralFor :: "int \<Rightarrow> int \<Rightarrow> int \<Rightarrow> int" where
  "maxCollateralFor bal N cap =
     (if bal \<le> 0 \<or> N \<le> 0 \<or> cap \<le> 0 then 0
      else let raw = bdiv (bal * WAD * WAD) (N * cap); units = bdiv raw UNITS_STEP * UNITS_STEP
           in ceilDiv (units * N * cap) (WAD * WAD))"

subsection \<open>The derivation\<close>

text \<open>The market it is anchored on, and the price.\<close>

definition trailing_used :: "derive_input \<Rightarrow> int" where
  "trailing_used inp = (let raw = (case in_trailingVariance inp of None \<Rightarrow> 0 | Some v \<Rightarrow> v)
     in if raw < RV_FLOOR then RV_FLOOR else raw)"

definition trailing_floored :: "derive_input \<Rightarrow> bool" where
  "trailing_floored inp \<longleftrightarrow> (case in_trailingVariance inp of None \<Rightarrow> 0 | Some v \<Rightarrow> v) < RV_FLOOR"

definition trailing_pending :: "derive_input \<Rightarrow> bool" where
  "trailing_pending inp \<longleftrightarrow> in_trailingVariance inp = None \<and> in_trailingPending inp"

definition stances_for :: "derive_input \<Rightarrow> stances" where
  "stances_for inp = (let t = trailing_used inp in
     \<lparr>cheap = stanceVariance t (cheap STANCE_BPS), fair = stanceVariance t (fair STANCE_BPS),
      rich = stanceVariance t (rich STANCE_BPS)\<rparr>)"

definition derive_anchor :: "derive_input \<Rightarrow> int \<times> form_issue list" where
  "derive_anchor inp =
     (let stances = stances_for inp;
          (a, es) =
            (if in_stance inp = Custom
             then (case parseVariance (in_customVolPct inp) of
                     None \<Rightarrow> (fair stances, [primary ''anchor-parse'' (Some ''anchorVariance'')])
                   | Some v \<Rightarrow> if v \<le> 0 then (fair stances, [primary ''anchor-parse'' (Some ''anchorVariance'')])
                              else (v, []))
             else if in_trailingVariance inp = None
             then (fair stances, [if trailing_pending inp then primary ''anchor-pending'' (Some ''anchorVariance'')
                                  else primary ''anchor-trailing'' (Some ''anchorVariance'')])
             else (case in_stance inp of Cheap \<Rightarrow> cheap stances | Rich \<Rightarrow> rich stances | _ \<Rightarrow> fair stances, []))
      in if a > UINT64_MAX
         then (fair stances, es @ [(if in_stance inp = Custom then primary ''anchor-uint64'' (Some ''anchorVariance'')
                                    else advanced ''anchor-uint64'' ''anchorVariance'')])
         else (a, es))"

definition derive_spread :: "derive_input \<Rightarrow> int \<times> form_issue list" where
  "derive_spread inp =
     (case overrides inp OvHalfSpreadBps of None \<Rightarrow> (HALF_SPREAD_BPS, [])
      | Some s \<Rightarrow> (case parseIntStr (Some s) of
          None \<Rightarrow> (HALF_SPREAD_BPS, [advanced ''spread-range'' ''halfSpreadBps''])
        | Some v \<Rightarrow> if v < MIN_HALF_SPREAD_BPS \<or> v > MAX_HALF_SPREAD_BPS
                   then (HALF_SPREAD_BPS, [advanced ''spread-range'' ''halfSpreadBps'']) else (v, [])))"

definition derive_cap_choice :: "js_math \<Rightarrow> derive_input \<Rightarrow> int \<Rightarrow> js_error + (int \<times> form_issue list \<times> notice list)" where
  "derive_cap_choice M inp anchor =
     (let trailing = trailing_used inp in
      case overrides inp OvCapVolPct of
        Some s \<Rightarrow>
          (case parseVariance s of
             None \<Rightarrow> andThen (capVarianceFor M trailing anchor) (\<lambda>c. Inr (c, [advanced ''cap-parse'' ''capVariance''], []))
           | Some v \<Rightarrow>
               if v \<le> 0 then andThen (capVarianceFor M trailing anchor) (\<lambda>c. Inr (c, [advanced ''cap-parse'' ''capVariance''], []))
               else if v > MAX_CAP_VARIANCE
               then andThen (capVarianceFor M trailing anchor) (\<lambda>c. Inr (c, [advanced ''cap-ceiling'' ''capVariance''], []))
               else Inr (v, [], []))
      | None \<Rightarrow> andThen (capVarianceFor M trailing anchor) (\<lambda>c. andThen (capVarianceFor M trailing 0) (\<lambda>natural.
          Inr (c, [], only_if (c > natural) \<lparr>note_id = ''cap-lifted'', note_param = Some ''capVariance''\<rparr>))))"

definition derive_cap :: "js_math \<Rightarrow> derive_input \<Rightarrow> int \<Rightarrow> js_error + (int \<times> form_issue list \<times> form_issue list \<times> notice list)" where
  "derive_cap M inp anchor =
     andThen (derive_cap_choice M inp anchor) (\<lambda>(c, es, ns).
       let cap = (if c > MAX_CAP_VARIANCE then MAX_CAP_VARIANCE else c) in
       if anchor > cap then Inr (cap, es @ [advanced ''anchor-over-cap'' ''capVariance''], [], ns)
       else Inr (cap, es, only_if (cap < 2 * anchor) (advanced ''cap-thin'' ''capVariance''), ns))"

definition ask_at :: "int \<Rightarrow> int \<Rightarrow> int" where
  "ask_at anchor spread = ceilDiv (anchor * (BPS + spread)) BPS"

definition ask_errors :: "int \<Rightarrow> int \<Rightarrow> int \<Rightarrow> form_issue list" where
  "ask_errors anchor spread cap =
     only_if (ask_at anchor spread > cap \<and> anchor \<le> cap) (advanced ''ask-over-cap'' ''halfSpreadBps'')"

text \<open>The window.\<close>

record window =
  w_start :: int
  w_expiry :: int
  w_saleEnd :: int
  w_interval :: int
  w_samples :: int
  w_tenorSeconds :: int
  w_errors :: "form_issue list"
  w_warnings :: "form_issue list"
  w_notes :: "notice list"

definition derive_tenor :: "derive_input \<Rightarrow> int \<times> form_issue list" where
  "derive_tenor inp =
     (let ov = parseIntStr (overrides inp OvTenorDays) in
      (clampInt (case ov of None \<Rightarrow> in_tenorDays inp | Some v \<Rightarrow> v) 1 3650 * DAY,
       only_if (overrides inp OvTenorDays \<noteq> None \<and> (case ov of None \<Rightarrow> True | Some v \<Rightarrow> v < 1))
         (advanced ''tenor-parse'' ''expiry'')))"

definition derive_interval :: "derive_input \<Rightarrow> int \<Rightarrow> int" where
  "derive_interval inp tenorSeconds =
     (case parseIntStr (overrides inp OvSampleInterval) of
        Some v \<Rightarrow> if v \<in> set INTERVAL_LADDER then v else intervalFor tenorSeconds
      | None \<Rightarrow> intervalFor tenorSeconds)"

definition sale_mode_of :: "derive_input \<Rightarrow> sale_mode" where
  "sale_mode_of inp = (case overrides inp OvSaleMode of None \<Rightarrow> AtQuarter
     | Some m \<Rightarrow> if m = ''start'' then AtStart else if m = ''half'' then AtHalf
                else if m = ''expiry'' then AtExpiry else AtQuarter)"

definition sale_steps :: "sale_mode \<Rightarrow> int \<Rightarrow> int" where
  "sale_steps m n = (case m of AtStart \<Rightarrow> 0 | AtHalf \<Rightarrow> max 1 (num_floor_div n 2) | AtExpiry \<Rightarrow> n
     | AtQuarter \<Rightarrow> max 1 (num_floor_div n 4))"

definition derive_window :: "derive_input \<Rightarrow> window" where
  "derive_window inp =
     (let (tenorSeconds, tenorErrors) = derive_tenor inp;
          interval = derive_interval inp tenorSeconds;
          startOv = parseIntStr (overrides inp OvStart);
          start = (case startOv of None \<Rightarrow> defaultStart (nowTs inp) | Some v \<Rightarrow> v);
          n = max 1 (num_round_div tenorSeconds interval);
          expiry = num_add start (n * interval);
          sale0 = min expiry (num_add start (sale_steps (sale_mode_of inp) n * interval));
          held = sale0 \<le> nowTs inp
      in \<lparr>w_start = start, w_expiry = expiry, w_saleEnd = (if held then nowTs inp + HOUR else sale0),
          w_interval = interval, w_samples = n, w_tenorSeconds = tenorSeconds,
          w_errors = tenorErrors
            @ only_if (overrides inp OvStart \<noteq> None \<and> startOv = None) (advanced ''start-parse'' ''start'')
            @ only_if (n < MIN_SAMPLES) (advanced ''samples-floor'' ''sampleInterval'')
            @ only_if (n > CONTRACT_MAX_SAMPLES) (advanced ''samples-ceiling'' ''sampleInterval'')
            @ only_if (start > UINT40_MAX \<or> expiry > UINT40_MAX) (advanced ''ts-range'' ''expiry''),
          w_warnings = only_if (n \<le> CONTRACT_MAX_SAMPLES \<and> n > MAX_SAMPLES) (advanced ''samples-checkpoints'' ''sampleInterval'')
            @ only_if (start \<le> nowTs inp) (advanced ''start-past'' ''start''),
          w_notes = only_if held \<lparr>note_id = ''sale-held'', note_param = Some ''saleEnd''\<rparr>\<rparr>)"

text \<open>The size.\<close>

definition derive_notional :: "derive_input \<Rightarrow> int \<times> form_issue list" where
  "derive_notional inp =
     (case overrides inp OvUnitNotional of None \<Rightarrow> (UNIT_NOTIONAL, [])
      | Some s \<Rightarrow> (case tryParseDecimal s 6 of
          None \<Rightarrow> (UNIT_NOTIONAL, [advanced ''notional'' ''unitNotional''])
        | Some v \<Rightarrow> if v \<le> 0 then (UNIT_NOTIONAL, [advanced ''notional'' ''unitNotional''])
                   else if v > UINT128_MAX then (UNIT_NOTIONAL, [advanced ''notional-range'' ''unitNotional''])
                   else (v, [])))"

definition collateral_typed :: "derive_input \<Rightarrow> int option" where
  "collateral_typed inp = tryParseDecimal (if in_collateral inp = '''' then ''0'' else in_collateral inp) 6"

definition budget_of :: "derive_input \<Rightarrow> int" where
  "budget_of inp = (case collateral_typed inp of None \<Rightarrow> 0 | Some v \<Rightarrow> if v > 0 then v else 0)"

definition derive_units :: "derive_input \<Rightarrow> int \<Rightarrow> int \<Rightarrow> int \<times> form_issue list" where
  "derive_units inp N cap =
     (case overrides inp OvMaxUnits of
        Some s \<Rightarrow> (case tryParseDecimal s 18 of
            None \<Rightarrow> (0, [advanced ''units-parse'' ''maxUnits''])
          | Some v \<Rightarrow> if v \<le> 0 then (0, [advanced ''units-parse'' ''maxUnits''])
                     else if v > UINT128_MAX then (0, [advanced ''units-range'' ''maxUnits'']) else (v, []))
      | None \<Rightarrow> if cap \<le> 0 \<or> N \<le> 0 then (0, [])
               else (bdiv (bdiv (budget_of inp * WAD * WAD) (N * cap)) UNITS_STEP * UNITS_STEP, []))"

definition committed_for :: "int \<Rightarrow> int \<Rightarrow> int \<Rightarrow> int" where
  "committed_for units N cap = (if units > 0 then ceilDiv ((units * N) * cap) (WAD * WAD) else 0)"

definition size_errors :: "derive_input \<Rightarrow> int \<Rightarrow> int \<Rightarrow> form_issue list" where
  "size_errors inp units committed =
     (if units < MIN_UNITS \<and> overrides inp OvMaxUnits = None
      then [if budget_of inp > 0 then primary ''under-one-unit'' None else primary ''no-collateral'' None] else [])
     @ (case walletUsdc inp of None \<Rightarrow> [] | Some w \<Rightarrow> only_if (committed > w) (primary ''short-balance'' None))"

definition size_notes :: "derive_input \<Rightarrow> int \<Rightarrow> int \<Rightarrow> int \<Rightarrow> notice list" where
  "size_notes inp units committed capPerUnit =
     (case collateral_typed inp of None \<Rightarrow> []
      | Some t \<Rightarrow> only_if (units \<ge> MIN_UNITS \<and> t - committed \<ge> capPerUnit \<and> overrides inp OvMaxUnits = None)
          \<lparr>note_id = ''size-round'', note_param = Some ''maxUnits''\<rparr>)"

text \<open>The impact of inventory and its decay.\<close>

definition lift_bps :: "derive_input \<Rightarrow> int" where
  "lift_bps inp = (case parseIntStr (overrides inp OvSelloutLiftBps) of
     Some v \<Rightarrow> if v > 0 then v else SELLOUT_LIFT_BPS | None \<Rightarrow> SELLOUT_LIFT_BPS)"

definition ask_ceiling :: "int \<Rightarrow> int \<Rightarrow> int" where
  "ask_ceiling cap spread = bdiv (cap * BPS) (BPS + spread)"

definition derive_impact :: "derive_input \<Rightarrow> int \<Rightarrow> int \<Rightarrow> int \<Rightarrow> int \<Rightarrow> int \<times> form_issue list" where
  "derive_impact inp anchor spread cap units =
     (let askCeiling = ask_ceiling cap spread;
          headroom = (if askCeiling > anchor then askCeiling - anchor else 0);
          lift = min_big (bdiv (anchor * lift_bps inp) BPS) headroom;
          own = (if units > 0 then bdiv (lift * WAD) units else 0)
      in case overrides inp OvImpactPerUnit of None \<Rightarrow> (own, [])
         | Some s \<Rightarrow> (case tryParseDecimal s 18 of
             None \<Rightarrow> (own, [advanced ''impact-parse'' ''impactPerUnit''])
           | Some v \<Rightarrow> if v < 0 then (own, [advanced ''impact-parse'' ''impactPerUnit''])
                      else if v > cap then (own, [advanced ''impact-range'' ''impactPerUnit''])
                      else (v, [])))"

definition variance_at_sell_out :: "int \<Rightarrow> int \<Rightarrow> int \<Rightarrow> int" where
  "variance_at_sell_out anchor impact units = anchor + bdiv (impact * units) WAD"

definition ask_at_sell_out :: "int \<Rightarrow> int \<Rightarrow> int \<Rightarrow> int" where
  "ask_at_sell_out v cap spread = ceilDiv (min_big v cap * (BPS + spread)) BPS"

definition derive_half_life :: "derive_input \<Rightarrow> int \<Rightarrow> int \<times> form_issue list" where
  "derive_half_life inp interval =
     (case overrides inp OvHalfLifeHours of None \<Rightarrow> (halfLifeFor interval, [])
      | Some s \<Rightarrow> (case tryParseDecimal s 0 of
          None \<Rightarrow> (halfLifeFor interval, [advanced ''halflife'' ''halfLife''])
        | Some v \<Rightarrow> if v < 0 then (halfLifeFor interval, [advanced ''halflife'' ''halfLife''])
                   else if v * HOUR > UINT32_MAX then (halfLifeFor interval, [advanced ''halflife-range'' ''halfLife''])
                   else (v * HOUR, [])))"

text \<open>The whole: the sections in the order of the source, then the readouts and the last line of defence.\<close>

definition deriveSeries :: "js_math \<Rightarrow> derive_input \<Rightarrow> js_error + derived" where
  "deriveSeries M inp =
     (let (anchor, anchorErrors) = derive_anchor inp;
          (spread, spreadErrors) = derive_spread inp
      in andThen (derive_cap M inp anchor) (\<lambda>(cap, capErrors, capWarnings, capNotes).
     let w = derive_window inp;
         (N, notionalErrors) = derive_notional inp;
         capPerUnit = bdiv (N * cap) WAD;
         (units, unitErrors) = derive_units inp N cap;
         committed = committed_for units N cap;
         (impact, impactErrors) = derive_impact inp anchor spread cap units;
         sellOut = variance_at_sell_out anchor impact units;
         (halfLife, halfLifeErrors) = derive_half_life inp (w_interval w);
         askAtOpen = min_big (ask_at anchor spread) cap;
         bidAtOpen = min_big (bdiv (anchor * (BPS - spread)) BPS) cap;
         askSlope = bdiv (impact * (BPS + spread)) BPS;
         premium = issuePremium_web N askAtOpen askSlope units;
         draft = \<lparr>feed = in_feed inp, quoteToken = in_quoteToken inp, start = w_start w, expiry = w_expiry w,
           saleEnd = w_saleEnd w, sampleInterval = w_interval w, unitNotional = N, capVariance = cap,
           anchorVariance = anchor, impactPerUnit = impact, halfLife = halfLife, halfSpreadBps = spread, maxUnits = units\<rparr>;
         errors = anchorErrors @ spreadErrors @ capErrors @ ask_errors anchor spread cap @ w_errors w @ notionalErrors
           @ only_if (trim (in_collateral inp) \<noteq> '''' \<and> collateral_typed inp = None) (primary ''collateral-parse'' None)
           @ unitErrors @ size_errors inp units committed @ impactErrors @ halfLifeErrors
           @ only_if (num_add (w_expiry w) (- w_start w) mod w_interval w \<noteq> 0) (advanced ''divisibility'' ''sampleInterval'')
           @ only_if (w_interval w < 300) (advanced ''interval-floor'' ''sampleInterval'')
     in Inr \<lparr>d_params = (if errors = [] \<and> units \<ge> MIN_UNITS \<and> anchor > 0 \<and> cap > 0 then Some draft else None),
        d_draft = draft, d_trailingVariance = trailing_used inp, d_trailingAvailable = (in_trailingVariance inp \<noteq> None),
        d_trailingPending = trailing_pending inp, d_trailingFloored = trailing_floored inp,
        d_stanceVariance = stances_for inp,
        d_tenorSeconds = w_tenorSeconds w, d_samples = w_samples w, d_checkpointCalls = checkpointCallsFor (w_samples w),
        d_collateralTyped = collateral_typed inp, d_collateralCommitted = committed, d_maxPayoutPerUnit = capPerUnit,
        d_askPerUnit = perUnitPrice_web N askAtOpen, d_bidPerUnit = perUnitPrice_web N bidAtOpen,
        d_premiumIfSoldOut = premium, d_varianceAtSellOut = sellOut, d_askAtSellOut = ask_at_sell_out sellOut cap spread,
        d_breakEvenVariance = breakEvenVariance premium units N, d_worstCaseNet = premium - committed,
        d_errors = errors,
        d_warnings = capWarnings @ w_warnings w
          @ only_if (sellOut > ask_ceiling cap spread \<and> cap > anchor) (advanced ''ask-clamps-early'' ''impactPerUnit''),
        d_notes = only_if (in_trailingVariance inp \<noteq> None \<and> trailing_floored inp) \<lparr>note_id = ''anchor-floor'', note_param = None\<rparr>
          @ capNotes @ w_notes w @ size_notes inp units committed capPerUnit,
        d_overriddenKeys = filter (\<lambda>k. overrides inp k \<noteq> None) OVERRIDE_KEYS\<rparr>))"

subsection \<open>Every section on its own\<close>

lemma only_if_Nil [simp]: "only_if b x = [] \<longleftrightarrow> \<not> b"
  by (simp add: only_if_def)

lemma BPS_val [simp]: "BPS = 10000"
  by (simp add: BPS_def)

lemma trailing_used_ge: "RV_FLOOR \<le> trailing_used inp"
  by (simp add: trailing_used_def Let_def)

lemma stanceVariance_pos:
  assumes "RV_FLOOR \<le> t" "10000 \<le> b"
  shows "0 < stanceVariance t b"
proof -
  have t: "0 \<le> t" using assms(1) by (simp add: RV_FLOOR_def)
  have "RV_FLOOR * (10000 * 10000) \<le> t * (b * b)"
    using assms t by (intro mult_mono) (auto simp: RV_FLOOR_def)
  then have "1 * (BPS * BPS) \<le> t * b * b" by (simp add: RV_FLOOR_def mult.assoc)
  moreover have "0 \<le> t * b * b" using t assms(2) by simp
  ultimately have "1 \<le> stanceVariance t b" unfolding stanceVariance_def by (subst le_bdiv_iff) auto
  then show ?thesis by simp
qed

lemma derive_anchor_pos: "derive_anchor inp = (a, es) \<Longrightarrow> 0 < a"
  using trailing_used_ge [of inp]
  by (auto simp: derive_anchor_def stances_for_def STANCE_BPS_def Let_def stanceVariance_pos
      split: if_splits option.splits stance.splits prod.splits)

lemma derive_anchor_ok: "derive_anchor inp = (a, []) \<Longrightarrow> a \<le> UINT64_MAX"
  by (auto simp: derive_anchor_def Let_def split: if_splits prod.splits)

lemma derive_spread_range: "derive_spread inp = (s, es) \<Longrightarrow> 10 \<le> s \<and> s \<le> 2000"
  by (auto simp: derive_spread_def HALF_SPREAD_BPS_def MIN_HALF_SPREAD_BPS_def MAX_HALF_SPREAD_BPS_def
      split: option.splits if_splits)

lemma sqrtWad_exact:
  assumes "0 \<le> v"
  obtains r where "sqrtWad M v = Inr r" "0 \<le> r" "r * r \<le> v * WAD" "v * WAD < (r + 1) * (r + 1)"
  using isqrt_web_exact [of "v * WAD" M] assms unfolding sqrtWad_def by auto

lemma cap_vol_range: "5 * 10 ^ 17 \<le> cap_vol f \<and> cap_vol f \<le> 2 * WAD"
  by (simp add: cap_vol_def CAP_VOL_LADDER_def WAD_def)

lemma capVarianceFor_ok:
  assumes "0 \<le> t" "0 \<le> a"
  obtains f where "capVarianceFor M t a = Inr (bdiv (cap_vol f * cap_vol f) WAD)"
proof -
  obtain rt where "sqrtWad M t = Inr rt" using sqrtWad_exact [OF assms(1)] by metis
  moreover have "0 \<le> 2 * a" using assms(2) by simp
  then obtain ra where "sqrtWad M (2 * a) = Inr ra" using sqrtWad_exact by metis
  ultimately show ?thesis
    by (intro that [of "max_big (2 * rt) ra"]) (simp add: capVarianceFor_def Let_def)
qed

lemma cap_vol_square_pos: "0 < bdiv (cap_vol f * cap_vol f) WAD"
proof -
  note r = cap_vol_range [of f]
  have "(5 * 10 ^ 17) * (5 * 10 ^ 17) \<le> cap_vol f * cap_vol f" using r by (intro mult_mono) auto
  then have "1 * WAD \<le> cap_vol f * cap_vol f" by (simp add: WAD_def)
  then have "1 \<le> bdiv (cap_vol f * cap_vol f) WAD" by (subst le_bdiv_iff) auto
  then show ?thesis by simp
qed

lemma derive_cap_returns:
  assumes "0 \<le> a"
  obtains cap es ws ns where "derive_cap M inp a = Inr (cap, es, ws, ns)" "0 < cap" "cap \<le> MAX_CAP_VARIANCE"
    "es = [] \<Longrightarrow> a \<le> cap"
proof -
  have t: "0 \<le> trailing_used inp" using trailing_used_ge [of inp] by (simp add: RV_FLOOR_def)
  obtain f where f: "capVarianceFor M (trailing_used inp) a = Inr (bdiv (cap_vol f * cap_vol f) WAD)"
    using capVarianceFor_ok [OF t assms] by metis
  obtain g where g: "capVarianceFor M (trailing_used inp) 0 = Inr (bdiv (cap_vol g * cap_vol g) WAD)"
    using capVarianceFor_ok [OF t, of 0] by auto
  have "\<exists>c es ns. derive_cap_choice M inp a = Inr (c, es, ns) \<and> 0 < c"
    using f g cap_vol_square_pos [of f]
    by (auto simp: derive_cap_choice_def Let_def split: option.splits)
  then obtain c es ns where c: "derive_cap_choice M inp a = Inr (c, es, ns)" "0 < c" by blast
  have m: "0 < MAX_CAP_VARIANCE" by (simp add: MAX_CAP_VARIANCE_def)
  show ?thesis
  proof (cases "a > min c MAX_CAP_VARIANCE")
    case True
    then show ?thesis
      using c m by (intro that [of "min c MAX_CAP_VARIANCE"]) (auto simp: derive_cap_def Let_def min_def)
  next
    case False
    have "(if c > MAX_CAP_VARIANCE then MAX_CAP_VARIANCE else c) = min c MAX_CAP_VARIANCE" by simp
    then have "derive_cap M inp a = Inr (min c MAX_CAP_VARIANCE, es,
        only_if (min c MAX_CAP_VARIANCE < 2 * a) (advanced ''cap-thin'' ''capVariance''), ns)"
      using c(1) False by (simp only: derive_cap_def andThen_Inr Let_def case_prod_conv if_False)
    then show ?thesis using c(2) m False by (intro that [of "min c MAX_CAP_VARIANCE" es _ ns]) (simp_all add: not_less)
  qed
qed

text \<open>The window: the grid divides the tenor, so the number of samples is exact.\<close>

lemma ladder_members: "d \<in> set INTERVAL_LADDER \<Longrightarrow> 1800 \<le> d \<and> d \<le> 86400 \<and> 86400 mod d = 0"
  by (auto simp: INTERVAL_LADDER_def)

lemma intervalFor_ladder: "intervalFor t \<in> set INTERVAL_LADDER"
proof (cases "find (\<lambda>d. num_ceil_div t d \<le> MAX_SAMPLES) INTERVAL_LADDER")
  case None
  then show ?thesis unfolding intervalFor_def by (simp add: INTERVAL_LADDER_def)
next
  case (Some d)
  then have "d \<in> set INTERVAL_LADDER" by (auto simp: find_Some_iff)
  with Some show ?thesis by (simp add: intervalFor_def)
qed

lemma derive_interval_ladder: "derive_interval inp t \<in> set INTERVAL_LADDER"
  by (simp add: derive_interval_def intervalFor_ladder split: option.split)

lemma fl_small_int: "0 \<le> n \<Longrightarrow> n < 2 ^ 53 \<Longrightarrow> fl (of_int n) = of_int n"
  by (rule fl_of_int)

lemma num_add_exact: "0 \<le> a + b \<Longrightarrow> a + b < 2 ^ 53 \<Longrightarrow> num_add a b = a + b"
  unfolding num_add_def by (subst fl_small_int) auto

lemma exact_quotient:
  assumes "0 < d" "0 \<le> q" "q < 2 ^ 53"
  shows "num_round_div (q * d) d = q" "num_ceil_div (q * d) d = q" "num_floor_div (q * d) d = q"
proof -
  have "(of_int (q * d) / of_int d :: rat) = of_int q" using assms by simp
  then have *: "fl (of_int (q * d) / of_int d) = of_int q" using fl_small_int assms by metis
  have "\<lfloor>of_int q + 1 / 2 :: rat\<rfloor> = q" by linarith
  then show "num_round_div (q * d) d = q" by (simp only: num_round_div_def * math_round_def)
  show "num_ceil_div (q * d) d = q" "num_floor_div (q * d) d = q"
    by (simp_all only: num_ceil_div_def num_floor_div_def * ceiling_of_int floor_of_int)
qed

lemma derive_tenor_range:
  "derive_tenor inp = (t, es) \<Longrightarrow> \<exists>k. t = k * 86400 \<and> 1 \<le> k \<and> k \<le> 3650"
  by (auto simp: derive_tenor_def Let_def clampInt_def DAY_def)

lemma parseIntStr_nonneg: "parseIntStr s = Some v \<Longrightarrow> 0 \<le> v"
proof -
  assume "parseIntStr s = Some v"
  then obtain t where t: "all_digits t" "v = \<lfloor>js_Number (digits_val t)\<rfloor>"
    by (auto simp: parseIntStr_def Let_def split: option.splits if_splits)
  then have "0 \<le> digits_val t" using digits_val_bounds [of t] by (simp add: all_digits_def)
  then have "0 \<le> js_Number (digits_val t)" unfolding js_Number_def by (intro fl_nonneg) simp
  then show ?thesis using t(2) by simp
qed

lemma defaultStart_nonneg: "0 \<le> now \<Longrightarrow> 0 \<le> defaultStart now"
proof -
  assume "0 \<le> now"
  then have "0 \<le> fl (of_int (now + 300) / of_int HOUR)" by (intro fl_nonneg) (simp add: HOUR_def)
  then have "0 \<le> num_ceil_div (now + 300) HOUR" unfolding num_ceil_div_def by linarith
  then show ?thesis by (simp add: defaultStart_def HOUR_def)
qed

lemma sale_steps_range:
  assumes "1 \<le> n" "n < 2 ^ 53"
  shows "0 \<le> sale_steps m n \<and> sale_steps m n \<le> n"
proof -
  have "num_floor_div n 2 = n div 2" "num_floor_div n 4 = n div 4"
    unfolding num_floor_div_def using assms floor_fl_div [of n 2] floor_fl_div [of n 4] by simp_all
  then show ?thesis using assms by (cases m) (auto simp: sale_steps_def)
qed

lemma window_ok:
  assumes now: "0 \<le> nowTs inp" and ok: "w_errors (derive_window inp) = []"
  defines "w \<equiv> derive_window inp"
  shows "w_interval w \<in> set INTERVAL_LADDER" "0 \<le> w_start w" "w_expiry w = w_start w + w_samples w * w_interval w"
    "2 \<le> w_samples w" "w_samples w \<le> 256" "w_expiry w \<le> UINT40_MAX" "w_start w \<le> UINT40_MAX"
    "w_start w \<le> w_saleEnd w" "nowTs inp < w_saleEnd w" "nowTs inp < w_start w \<Longrightarrow> w_saleEnd w \<le> w_expiry w"
proof -
  obtain t es where t: "derive_tenor inp = (t, es)" by fastforce
  obtain k where k: "t = k * 86400" "1 \<le> k" "k \<le> 3650" using derive_tenor_range [OF t] by blast
  define d where "d = derive_interval inp t"
  have d: "d \<in> set INTERVAL_LADDER" unfolding d_def by (rule derive_interval_ladder)
  then have d': "1800 \<le> d" "d \<le> 86400" "86400 mod d = 0" using ladder_members by auto
  define q where "q = k * (86400 div d)"
  have qd: "q * d = t" using d'(3) k(1) by (simp add: q_def mult.assoc mod_eq_0_iff_dvd)
  have "1 \<le> 86400 div d" using d' by (simp add: le_div_iff)
  moreover have "86400 div d \<le> 48" using d' zdiv_mono2 [of 86400 1800 d] by simp
  ultimately have "1 * 1 \<le> q" "q \<le> 3650 * 48" unfolding q_def using k by (intro mult_mono; simp)+
  then have q: "1 \<le> q" "q \<le> 175200" by simp_all
  have n: "num_round_div t d = q" "max 1 q = q" using exact_quotient(1) [of d q] q d' by (simp_all add: qd [symmetric])
  define st where "st = (case parseIntStr (overrides inp OvStart) of None \<Rightarrow> defaultStart (nowTs inp) | Some v \<Rightarrow> v)"
  have st0: "0 \<le> st"
    using now parseIntStr_nonneg defaultStart_nonneg by (auto simp: st_def split: option.split)
  define s where "s = sale_steps (sale_mode_of inp) q"
  have s: "0 \<le> s" "s \<le> q" unfolding s_def using sale_steps_range [of q] q by auto
  define ex where "ex = num_add st (q * d)"
  define sale0 where "sale0 = min ex (num_add st (s * d))"
  have w: "w_interval w = d" "w_start w = st" "w_samples w = q" "w_expiry w = ex"
    "w_saleEnd w = (if sale0 \<le> nowTs inp then nowTs inp + HOUR else sale0)"
    by (simp_all add: w_def derive_window_def t d_def [symmetric] n st_def [symmetric] ex_def sale0_def s_def Let_def)
  have e: "\<not> q < MIN_SAMPLES" "\<not> q > CONTRACT_MAX_SAMPLES" "\<not> (st > UINT40_MAX \<or> ex > UINT40_MAX)"
    using ok q by (simp_all add: derive_window_def t d_def [symmetric] n st_def [symmetric] ex_def Let_def MIN_SAMPLES_def)
  have "q * d \<le> 175200 * 86400" using q d' by (intro mult_mono) auto
  moreover have sd: "0 \<le> s * d" "s * d \<le> q * d" using s d' by (auto intro: mult_right_mono)
  moreover have st1: "st < 2 ^ 40" using e(3) by (simp add: UINT40_MAX_def)
  ultimately have ex: "ex = st + q * d" "num_add st (s * d) = st + s * d"
    unfolding ex_def using st0 by (auto intro!: num_add_exact)
  then have sale0: "sale0 = st + s * d" using sd by (simp add: sale0_def)
  show "w_interval w \<in> set INTERVAL_LADDER" "0 \<le> w_start w" "w_expiry w = w_start w + w_samples w * w_interval w"
    "2 \<le> w_samples w" "w_samples w \<le> 256" "w_expiry w \<le> UINT40_MAX" "w_start w \<le> UINT40_MAX"
    using w d st0 ex e by (simp_all add: MIN_SAMPLES_def CONTRACT_MAX_SAMPLES_def)
  show "w_start w \<le> w_saleEnd w" "nowTs inp < w_saleEnd w" using w sale0 sd by (auto simp: HOUR_def)
  show "w_saleEnd w \<le> w_expiry w" if "nowTs inp < w_start w" using that w sale0 sd ex by auto
qed

subsection \<open>Size and impact\<close>

lemma derive_notional_pos: "derive_notional inp = (N, es) \<Longrightarrow> 0 < N"
  by (auto simp: derive_notional_def UNIT_NOTIONAL_def split: option.splits if_splits)

lemma derive_notional_ok: "derive_notional inp = (N, []) \<Longrightarrow> N \<le> UINT128_MAX"
  by (auto simp: derive_notional_def UNIT_NOTIONAL_def UINT128_MAX_def split: option.splits if_splits)

lemma budget_nonneg: "0 \<le> budget_of inp"
  by (simp add: budget_of_def split: option.split)

text \<open>The largest multiple of the step whose rounded-up liability fits a budget.\<close>

definition units_for :: "int \<Rightarrow> int \<Rightarrow> int \<Rightarrow> int" where
  "units_for b N cap = bdiv (bdiv (b * WAD * WAD) (N * cap)) UNITS_STEP * UNITS_STEP"

lemma UNITS_STEP_pos [simp]: "0 < UNITS_STEP" "0 \<le> UNITS_STEP"
  by (simp_all add: UNITS_STEP_def)

lemma units_for_props:
  assumes "0 \<le> b" "0 < N" "0 < cap"
  shows "0 \<le> units_for b N cap"
    and "ceilDiv (units_for b N cap * N * cap) (WAD * WAD) \<le> b"
    and "b * WAD * WAD < (units_for b N cap + UNITS_STEP) * N * cap"
    and "UNITS_STEP dvd units_for b N cap"
proof -
  define raw where "raw = bdiv (b * WAD * WAD) (N * cap)"
  define u where "u = bdiv raw UNITS_STEP * UNITS_STEP"
  have u: "units_for b N cap = u" by (simp add: units_for_def u_def raw_def)
  have W: "0 \<le> b * WAD * WAD" and Nc: "0 < N * cap" using assms by simp_all
  have raw0: "0 \<le> raw" unfolding raw_def using W Nc by (intro bdiv_ge_0) auto
  have raw1: "raw * (N * cap) \<le> b * WAD * WAD" "b * WAD * WAD < (raw + 1) * (N * cap)"
    unfolding raw_def using W Nc by (intro bdiv_mult_le bdiv_less; simp)+
  have step: "u \<le> raw" "raw < u + UNITS_STEP"
    using bdiv_mult_le [OF raw0, of UNITS_STEP] bdiv_less [OF raw0, of UNITS_STEP] by (simp_all add: u_def distrib_right)
  show u0: "0 \<le> units_for b N cap" unfolding u u_def using raw0 by (simp add: bdiv_ge_0)
  have "u * (N * cap) \<le> raw * (N * cap)" using step(1) Nc by (intro mult_right_mono) auto
  then have le: "u * N * cap \<le> b * (WAD * WAD)" using raw1(1) by (simp add: mult.assoc)
  show "ceilDiv (units_for b N cap * N * cap) (WAD * WAD) \<le> b"
    using u0 le assms by (subst ceilDiv_le_iff) (auto simp: u)
  have "(raw + 1) * (N * cap) \<le> (u + UNITS_STEP) * (N * cap)" using step(2) Nc by (intro mult_right_mono) auto
  then show "b * WAD * WAD < (units_for b N cap + UNITS_STEP) * N * cap"
    using raw1(2) by (simp add: u mult.assoc)
  show "UNITS_STEP dvd units_for b N cap" by (simp add: u u_def)
qed

lemma units_for_mono:
  assumes "0 \<le> a" "a \<le> b" "0 < N" "0 < cap"
  shows "units_for a N cap \<le> units_for b N cap"
proof -
  have "bdiv (a * WAD * WAD) (N * cap) \<le> bdiv (b * WAD * WAD) (N * cap)"
    using assms by (intro bdiv_mono mult_right_mono) auto
  moreover have "0 \<le> bdiv (a * WAD * WAD) (N * cap)" using assms by (intro bdiv_ge_0) auto
  ultimately have "bdiv (bdiv (a * WAD * WAD) (N * cap)) UNITS_STEP \<le> bdiv (bdiv (b * WAD * WAD) (N * cap)) UNITS_STEP"
    by (metis bdiv_mono UNITS_STEP_pos(1))
  then show ?thesis unfolding units_for_def by (intro mult_right_mono) auto
qed

lemma units_for_greatest:
  assumes "0 \<le> b" "0 < N" "0 < cap" "UNITS_STEP dvd u" "u * N * cap \<le> b * WAD * WAD"
  shows "u \<le> units_for b N cap"
proof -
  obtain k where k: "u = k * UNITS_STEP" using assms(4) by (metis dvdE mult.commute)
  obtain j where j: "units_for b N cap = j * UNITS_STEP"
    using units_for_props(4) [OF assms(1-3)] by (metis dvdE mult.commute)
  have "u * (N * cap) < (units_for b N cap + UNITS_STEP) * (N * cap)"
    using units_for_props(3) [OF assms(1-3)] assms(5) by (simp add: mult.assoc)
  then have "u < units_for b N cap + UNITS_STEP" using assms by (simp add: mult_less_cancel_right)
  then have "k * UNITS_STEP < (j + 1) * UNITS_STEP" by (simp add: k j distrib_right)
  then have "k < j + 1" using UNITS_STEP_pos mult_less_cancel_right_disj by fastforce
  then show ?thesis unfolding k j by (intro mult_right_mono) auto
qed

lemma maxCollateralFor_eq:
  "0 < b \<Longrightarrow> 0 < N \<Longrightarrow> 0 < cap \<Longrightarrow> maxCollateralFor b N cap = ceilDiv (units_for b N cap * N * cap) (WAD * WAD)"
  by (simp add: maxCollateralFor_def units_for_def Let_def)

lemma units_for_max_collateral:
  assumes "0 < b" "0 < N" "0 < cap"
  shows "units_for (maxCollateralFor b N cap) N cap = units_for b N cap"
proof -
  have b: "0 \<le> b" using assms by simp
  define u where "u = units_for b N cap"
  define L where "L = ceilDiv (u * N * cap) (WAD * WAD)"
  note p = units_for_props [OF b assms(2,3)]
  have L: "maxCollateralFor b N cap = L" using assms by (simp add: maxCollateralFor_eq L_def u_def)
  have uNc: "0 \<le> u * N * cap" using p(1) assms by (simp add: u_def)
  have L0: "0 \<le> L" unfolding L_def using uNc by (intro ceilDiv_ge_0) auto
  have Lb: "L \<le> b" using p(2) by (simp add: L_def u_def)
  have "u * N * cap \<le> L * WAD * WAD" unfolding L_def using ceilDiv_mult_ge [OF uNc, of "WAD * WAD"] by (simp add: mult.assoc)
  then have "u \<le> units_for L N cap" using L0 assms p(4) by (intro units_for_greatest) (auto simp: u_def)
  moreover have "units_for L N cap \<le> u" unfolding u_def by (rule units_for_mono [OF L0 Lb assms(2,3)])
  ultimately show ?thesis by (simp add: L u_def)
qed

lemma derive_units_own:
  assumes "overrides inp OvMaxUnits = None" "0 < N" "0 < cap"
  shows "derive_units inp N cap = (units_for (budget_of inp) N cap, [])"
  using assms by (simp add: derive_units_def units_for_def)

lemma derive_impact_own:
  assumes "overrides inp OvImpactPerUnit = None" "0 < units"
  shows "fst (derive_impact inp a s cap units) =
    bdiv (min (bdiv (a * lift_bps inp) BPS) (if ask_ceiling cap s > a then ask_ceiling cap s - a else 0) * WAD) units"
  using assms by (simp add: derive_impact_def Let_def)

lemma lift_bps_pos: "0 < lift_bps inp"
  by (auto simp: lift_bps_def SELLOUT_LIFT_BPS_def split: option.split)

lemma ask_ceiling_le_cap: "0 \<le> cap \<Longrightarrow> 0 \<le> s \<Longrightarrow> ask_ceiling cap s \<le> cap"
proof -
  assume c: "0 \<le> cap" "0 \<le> s"
  have "bdiv (cap * BPS) (BPS + s) \<le> bdiv (cap * (BPS + s)) (BPS + s)"
    using c by (intro bdiv_mono mult_left_mono) auto
  also have "\<dots> = cap" using c by (simp add: bigint_simps)
  finally show ?thesis by (simp add: ask_ceiling_def)
qed

lemma own_impact_bounds:
  assumes "overrides inp OvImpactPerUnit = None" "MIN_UNITS \<le> units" "0 < a" "0 \<le> cap" "0 \<le> s"
  defines "i \<equiv> fst (derive_impact inp a s cap units)"
  shows "0 \<le> i" "i \<le> cap" "variance_at_sell_out a i units \<le> max a (ask_ceiling cap s)"
proof -
  define lift where "lift = min (bdiv (a * lift_bps inp) BPS) (if ask_ceiling cap s > a then ask_ceiling cap s - a else 0)"
  have u: "0 < units" "WAD \<le> units" using assms(2) by (auto simp: MIN_UNITS_def WAD_def)
  have i: "i = bdiv (lift * WAD) units" unfolding i_def lift_def by (rule derive_impact_own [OF assms(1) u(1)])
  have "0 \<le> bdiv (a * lift_bps inp) BPS" using assms(3) lift_bps_pos [of inp] by (intro bdiv_ge_0) auto
  then have l0: "0 \<le> lift" by (auto simp: lift_def)
  have l1: "a + lift \<le> max a (ask_ceiling cap s)" by (auto simp: lift_def)
  have lW: "0 \<le> lift * WAD" using l0 by simp
  show i0: "0 \<le> i" unfolding i using lW u by (intro bdiv_ge_0) auto
  have iu: "i * units \<le> lift * WAD" unfolding i using lW u by (intro bdiv_mult_le) auto
  have "i * WAD \<le> i * units" using i0 u(2) by (intro mult_left_mono)
  then have "i \<le> lift" using iu by (metis WAD_pos mult_right_le_imp_le order_trans)
  moreover have "lift \<le> cap" using ask_ceiling_le_cap [OF assms(4,5)] assms(3,4) by (auto simp: lift_def)
  ultimately show "i \<le> cap" by linarith
  have "bdiv (i * units) WAD \<le> bdiv (lift * WAD) WAD" using iu i0 u by (intro bdiv_mono) auto
  also have "\<dots> = lift" using l0 by (simp add: bigint_simps)
  finally show "variance_at_sell_out a i units \<le> max a (ask_ceiling cap s)"
    using l1 by (simp add: variance_at_sell_out_def)
qed

lemma derive_impact_ok:
  assumes "derive_impact inp a s cap units = (i, [])" "MIN_UNITS \<le> units" "0 < a" "0 \<le> cap" "0 \<le> s"
  shows "0 \<le> i \<and> i \<le> cap"
proof (cases "overrides inp OvImpactPerUnit")
  case None
  then show ?thesis using own_impact_bounds(1,2) [OF None assms(2-5)] assms(1) by simp
next
  case (Some t)
  then show ?thesis using assms(1) by (auto simp: derive_impact_def Let_def split: option.splits if_splits)
qed

text \<open>Without an ask error, even a market resting above the ceiling asks within the cap.\<close>

lemma ask_within_cap:
  assumes "ask_at a s \<le> cap" "0 < a" "0 \<le> s" "0 \<le> v" "v \<le> max a (ask_ceiling cap s)" "0 \<le> cap"
  shows "ask_at_sell_out v cap s \<le> cap"
proof -
  have a: "a * (BPS + s) \<le> cap * BPS" using assms(1-3) unfolding ask_at_def by (subst (asm) ceilDiv_le_iff) auto
  have "ask_ceiling cap s * (BPS + s) \<le> cap * BPS"
    unfolding ask_ceiling_def using assms by (intro bdiv_mult_le) auto
  then have "max a (ask_ceiling cap s) * (BPS + s) \<le> cap * BPS" using a by (auto simp: max_def)
  moreover have "v * (BPS + s) \<le> max a (ask_ceiling cap s) * (BPS + s)" using assms by (intro mult_right_mono) auto
  ultimately have v: "v * (BPS + s) \<le> cap * BPS" by linarith
  have m: "min v cap * (BPS + s) \<le> v * (BPS + s)" using assms by (intro mult_right_mono) auto
  have "0 \<le> min v cap * (BPS + s)" using assms by simp
  then show ?thesis
    unfolding ask_at_sell_out_def min_big_min using order_trans [OF m v] by (subst ceilDiv_le_iff) auto
qed

subsection \<open>The whole derivation\<close>

text \<open>What the record holds, section by section.\<close>

lemma deriveSeries_sections:
  assumes "deriveSeries M inp = Inr r"
  obtains a ae s se cap ce cw cn N ne u ue i ie h he where
    "derive_anchor inp = (a, ae)" "derive_spread inp = (s, se)" "derive_cap M inp a = Inr (cap, ce, cw, cn)"
    "derive_notional inp = (N, ne)" "derive_units inp N cap = (u, ue)" "derive_impact inp a s cap u = (i, ie)"
    "derive_half_life inp (w_interval (derive_window inp)) = (h, he)"
    "d_draft r = \<lparr>feed = in_feed inp, quoteToken = in_quoteToken inp, start = w_start (derive_window inp),
       expiry = w_expiry (derive_window inp), saleEnd = w_saleEnd (derive_window inp),
       sampleInterval = w_interval (derive_window inp), unitNotional = N, capVariance = cap, anchorVariance = a,
       impactPerUnit = i, halfLife = h, halfSpreadBps = s, maxUnits = u\<rparr>"
    "d_collateralTyped r = collateral_typed inp" "d_collateralCommitted r = committed_for u N cap"
    "d_varianceAtSellOut r = variance_at_sell_out a i u"
    "d_askAtSellOut r = ask_at_sell_out (variance_at_sell_out a i u) cap s"
    "\<And>p. d_params r = Some p \<Longrightarrow> p = d_draft r \<and> ae = [] \<and> se = [] \<and> ce = [] \<and> ask_errors a s cap = []
       \<and> w_errors (derive_window inp) = [] \<and> ne = [] \<and> ue = [] \<and> size_errors inp u (committed_for u N cap) = [] \<and> ie = []
       \<and> he = [] \<and> MIN_UNITS \<le> u"
proof -
  obtain a ae where a: "derive_anchor inp = (a, ae)" by fastforce
  obtain s se where s: "derive_spread inp = (s, se)" by fastforce
  obtain cap ce cw cn where c: "derive_cap M inp a = Inr (cap, ce, cw, cn)"
    using derive_cap_returns [of a M inp] derive_anchor_pos [OF a] by (metis order_less_imp_le)
  obtain N ne where N: "derive_notional inp = (N, ne)" by fastforce
  obtain u ue where u: "derive_units inp N cap = (u, ue)" by fastforce
  obtain i ie where i: "derive_impact inp a s cap u = (i, ie)" by fastforce
  obtain h he where h: "derive_half_life inp (w_interval (derive_window inp)) = (h, he)" by fastforce
  note r = assms [unfolded deriveSeries_def a s Let_def case_prod_conv c andThen_Inr N u i h, THEN Inr_inject, symmetric]
  show ?thesis
    by (rule that [OF a s c N u i h]) (simp_all add: r split: if_splits)
qed

lemma deriveSeries_returns: "\<exists>r. deriveSeries M inp = Inr r"
proof -
  obtain a ae where a: "derive_anchor inp = (a, ae)" by fastforce
  obtain s se where s: "derive_spread inp = (s, se)" by fastforce
  obtain cap ce cw cn where c: "derive_cap M inp a = Inr (cap, ce, cw, cn)"
    using derive_cap_returns [of a M inp] derive_anchor_pos [OF a] by (metis order_less_imp_le)
  show ?thesis by (simp add: deriveSeries_def a s c Let_def split: prod.split)
qed

subsection \<open>Properties\<close>

text \<open>The factory's own validation of the parameters, at a block time: \<open>_validate\<close> of
  \<open>contracts/src/VarianceSeriesFactory.sol\<close>.\<close>

definition factory_accepts :: "address \<Rightarrow> address \<Rightarrow> int \<Rightarrow> bool \<Rightarrow> web_params \<Rightarrow> bool" where
  "factory_accepts FEED QUOTE blocktime allowBackdated p \<longleftrightarrow>
     feed p = FEED \<and> quoteToken p = QUOTE \<and> expiry p > start p
     \<and> sampleInterval p \<ge> 300 \<and> (expiry p - start p) mod sampleInterval p = 0
     \<and> (let samples = (expiry p - start p) div sampleInterval p in samples \<ge> 2 \<and> samples \<le> 256)
     \<and> saleEnd p \<ge> blocktime \<and> start p \<le> saleEnd p \<and> (\<not> allowBackdated \<longrightarrow> saleEnd p \<le> expiry p)
     \<and> unitNotional p > 0 \<and> capVariance p > 0 \<and> capVariance p \<le> 4 * WAD
     \<and> anchorVariance p > 0 \<and> anchorVariance p \<le> capVariance p \<and> impactPerUnit p \<le> capVariance p
     \<and> halfSpreadBps p \<ge> 10 \<and> halfSpreadBps p \<le> 2000
     \<and> (halfLife p = 0 \<or> halfLife p \<ge> 300 \<and> halfLife p \<le> 2592000)
     \<and> maxUnits p > 0
     \<and> (let liability = maxSeriesLiability p in liability > 0 \<and> liability \<le> 2 ^ 248 - 1)"

lemma maxSeriesLiability_pos:
  assumes "0 < unitNotional p" "0 < capVariance p" "0 < maxUnits p"
  shows "0 < maxSeriesLiability p"
  using assms unfolding maxSeriesLiability_def by (subst ceilDiv_pos_iff) auto

lemma halfLifeFor_range: "HOUR \<le> halfLifeFor i \<and> halfLifeFor i \<le> 12 * HOUR"
  by (simp add: halfLifeFor_def clampInt_def HOUR_def)

lemma derived_fields:
  assumes "deriveSeries M inp = Inr r" "d_params r = Some p" "0 \<le> nowTs inp"
  shows "0 < anchorVariance p" "anchorVariance p \<le> capVariance p" "capVariance p \<le> MAX_CAP_VARIANCE" "0 < unitNotional p"
    "MIN_UNITS \<le> maxUnits p" "0 \<le> impactPerUnit p" "impactPerUnit p \<le> capVariance p"
    "10 \<le> halfSpreadBps p" "halfSpreadBps p \<le> 2000"
    "overrides inp OvHalfLifeHours = None \<Longrightarrow> halfLife p = halfLifeFor (sampleInterval p)"
    "feed p = in_feed inp" "quoteToken p = in_quoteToken inp"
    "sampleInterval p \<in> set INTERVAL_LADDER"
    "\<exists>n. expiry p = start p + n * sampleInterval p \<and> 2 \<le> n \<and> n \<le> 256"
    "start p \<le> saleEnd p" "nowTs inp < saleEnd p" "nowTs inp < start p \<Longrightarrow> saleEnd p \<le> expiry p"
proof -
  obtain a ae s se cap ce cw cn N ne u ue i ie h he where
    a: "derive_anchor inp = (a, ae)" and s: "derive_spread inp = (s, se)" and c: "derive_cap M inp a = Inr (cap, ce, cw, cn)"
    and N: "derive_notional inp = (N, ne)" and i: "derive_impact inp a s cap u = (i, ie)"
    and h: "derive_half_life inp (w_interval (derive_window inp)) = (h, he)"
    and d: "d_draft r = \<lparr>feed = in_feed inp, quoteToken = in_quoteToken inp, start = w_start (derive_window inp),
       expiry = w_expiry (derive_window inp), saleEnd = w_saleEnd (derive_window inp),
       sampleInterval = w_interval (derive_window inp), unitNotional = N, capVariance = cap, anchorVariance = a,
       impactPerUnit = i, halfLife = h, halfSpreadBps = s, maxUnits = u\<rparr>"
    and ok: "p = d_draft r \<and> ae = [] \<and> se = [] \<and> ce = [] \<and> ask_errors a s cap = []
       \<and> w_errors (derive_window inp) = [] \<and> ne = [] \<and> ue = [] \<and> size_errors inp u (committed_for u N cap) = [] \<and> ie = []
       \<and> he = [] \<and> MIN_UNITS \<le> u"
    by (rule deriveSeries_sections [OF assms(1)]) (rule that; (assumption | blast intro: assms(2)))
  note p = conjunct1 [OF ok, unfolded d]
  have a0: "0 < a" by (rule derive_anchor_pos [OF a])
  have cr: "0 < cap" "cap \<le> MAX_CAP_VARIANCE" "a \<le> cap"
    using derive_cap_returns [OF order_less_imp_le [OF a0], of M inp] c ok by auto
  have s': "10 \<le> s" "s \<le> 2000" using derive_spread_range [OF s] by auto
  have i': "0 \<le> i \<and> i \<le> cap"
    using derive_impact_ok [of inp a s cap u i] i ok a0 cr s' by simp
  show "0 < anchorVariance p" "anchorVariance p \<le> capVariance p" "capVariance p \<le> MAX_CAP_VARIANCE" "0 < unitNotional p"
    "MIN_UNITS \<le> maxUnits p" "0 \<le> impactPerUnit p" "impactPerUnit p \<le> capVariance p"
    "10 \<le> halfSpreadBps p" "halfSpreadBps p \<le> 2000" "feed p = in_feed inp" "quoteToken p = in_quoteToken inp"
    using p a0 cr s' i' ok derive_notional_pos [OF N] by simp_all
  show "overrides inp OvHalfLifeHours = None \<Longrightarrow> halfLife p = halfLifeFor (sampleInterval p)"
    using p h by (simp add: derive_half_life_def)
  have w: "w_errors (derive_window inp) = []" using ok by simp
  note wk = window_ok [OF assms(3) w]
  show "sampleInterval p \<in> set INTERVAL_LADDER" "start p \<le> saleEnd p" "nowTs inp < saleEnd p"
    "nowTs inp < start p \<Longrightarrow> saleEnd p \<le> expiry p"
    "\<exists>n. expiry p = start p + n * sampleInterval p \<and> 2 \<le> n \<and> n \<le> 256"
    using p wk by auto
qed

text \<open>C15: What the writer's form derives is what the factory accepts: whatever the decisions and the overrides,
  parameters the derivation hands out pass every test of the factory's validation, provided the clock is
  not negative, the window has not started, the half-life is the derived one and the liability fits the
  factory's word. (The tests are those of the validation; that each field fits the width of its Solidity type
  is a matter of the encoding, before it.)\<close>

theorem derived_params_accepted:
  assumes "deriveSeries M inp = Inr r" "d_params r = Some p" "0 \<le> nowTs inp" "nowTs inp < start p"
    and "overrides inp OvHalfLifeHours = None" "maxSeriesLiability p \<le> 2 ^ 248 - 1"
  shows "factory_accepts (in_feed inp) (in_quoteToken inp) (nowTs inp) False p"
proof -
  note f = derived_fields [OF assms(1-3)]
  obtain n where n: "expiry p = start p + n * sampleInterval p" "2 \<le> n" "n \<le> 256" using f(14) by blast
  have d: "1800 \<le> sampleInterval p" using ladder_members [OF f(13)] by simp
  have hl: "3600 \<le> halfLife p" "halfLife p \<le> 43200"
    using f(10) [OF assms(5)] halfLifeFor_range [of "sampleInterval p"] by (simp_all add: HOUR_def)
  have u: "0 < maxUnits p" using f(5) by (simp add: MIN_UNITS_def WAD_def)
  have c: "0 < capVariance p" using f(1,2) by simp
  have len: "expiry p - start p = n * sampleInterval p" using n(1) by simp
  have "0 < n * sampleInterval p" using n d by simp
  then show ?thesis
    unfolding factory_accepts_def Let_def len
    using f(1-9,11,12,15-17) n d hl u c assms(4,6) maxSeriesLiability_pos [of p]
    by (simp add: MAX_CAP_VARIANCE_def)
qed

text \<open>C16: The size fits the money: without an override of the inventory, the collateral the series commits is at
  most what was typed, and one more hundredth of a unit would need more than that.\<close>

theorem derived_collateral_fits:
  assumes "deriveSeries M inp = Inr r" "overrides inp OvMaxUnits = None" "d_collateralTyped r = Some t" "0 \<le> t"
  shows "d_collateralCommitted r \<le> t
    \<and> t * WAD * WAD < (maxUnits (d_draft r) + UNITS_STEP) * unitNotional (d_draft r) * capVariance (d_draft r)"
proof -
  obtain a ae s se cap ce cw cn N ne u ue i ie h he where
    a: "derive_anchor inp = (a, ae)" and c: "derive_cap M inp a = Inr (cap, ce, cw, cn)"
    and N: "derive_notional inp = (N, ne)" and u: "derive_units inp N cap = (u, ue)"
    and d: "d_draft r = \<lparr>feed = in_feed inp, quoteToken = in_quoteToken inp, start = w_start (derive_window inp),
       expiry = w_expiry (derive_window inp), saleEnd = w_saleEnd (derive_window inp),
       sampleInterval = w_interval (derive_window inp), unitNotional = N, capVariance = cap, anchorVariance = a,
       impactPerUnit = i, halfLife = h, halfSpreadBps = s, maxUnits = u\<rparr>"
    and t: "d_collateralTyped r = collateral_typed inp" and k: "d_collateralCommitted r = committed_for u N cap"
    by (rule deriveSeries_sections [OF assms(1)]) (rule that; assumption)
  have N0: "0 < N" by (rule derive_notional_pos [OF N])
  have c0: "0 < cap"
    using derive_cap_returns [OF order_less_imp_le [OF derive_anchor_pos [OF a]], of M inp] c by auto
  have b: "budget_of inp = t" using assms(3,4) t by (simp add: budget_of_def)
  have u': "u = units_for t N cap" using u derive_units_own [OF assms(2) N0 c0] b by simp
  show ?thesis
    using units_for_props [OF assms(4) N0 c0] assms(4) by (simp add: k d u' committed_for_def)
qed

text \<open>The market never quotes above its cap: without an override of the impact, the marginal ask stays
  within the cap from the first unit sold to the last.\<close>

theorem derived_ask_within_cap:
  assumes "deriveSeries M inp = Inr r" "d_params r = Some p" "0 \<le> nowTs inp" "overrides inp OvImpactPerUnit = None"
  shows "ask_at (anchorVariance p) (halfSpreadBps p) \<le> capVariance p \<and> d_askAtSellOut r \<le> capVariance p"
proof -
  obtain a ae s se cap ce cw cn N ne u ue i ie h he where
    i: "derive_impact inp a s cap u = (i, ie)"
    and d: "d_draft r = \<lparr>feed = in_feed inp, quoteToken = in_quoteToken inp, start = w_start (derive_window inp),
       expiry = w_expiry (derive_window inp), saleEnd = w_saleEnd (derive_window inp),
       sampleInterval = w_interval (derive_window inp), unitNotional = N, capVariance = cap, anchorVariance = a,
       impactPerUnit = i, halfLife = h, halfSpreadBps = s, maxUnits = u\<rparr>"
    and k: "d_askAtSellOut r = ask_at_sell_out (variance_at_sell_out a i u) cap s"
    and ok: "p = d_draft r \<and> ae = [] \<and> se = [] \<and> ce = [] \<and> ask_errors a s cap = []
       \<and> w_errors (derive_window inp) = [] \<and> ne = [] \<and> ue = [] \<and> size_errors inp u (committed_for u N cap) = [] \<and> ie = []
       \<and> he = [] \<and> MIN_UNITS \<le> u"
    by (rule deriveSeries_sections [OF assms(1)]) (rule that; (assumption | blast intro: assms(2)))
  note f = derived_fields [OF assms(1-3), unfolded conjunct1 [OF ok] d, simplified]
  have ask: "ask_at a s \<le> cap" using ok f(2) by (simp add: ask_errors_def)
  have s0: "0 \<le> s" and c0: "0 \<le> cap" and u: "MIN_UNITS \<le> u" "0 \<le> u" using f ok by (auto simp: MIN_UNITS_def WAD_def)
  have v: "variance_at_sell_out a i u \<le> max a (ask_ceiling cap s)"
    using own_impact_bounds(3) [OF assms(4) u(1) f(1) c0 s0] i by simp
  have v0: "0 \<le> variance_at_sell_out a i u"
    using f(1,6) u(2) by (simp add: variance_at_sell_out_def bdiv_ge_0)
  show ?thesis using ask ask_within_cap [OF ask f(1) s0 v0 v c0] k ok d by simp
qed

lemma root_bound:
  fixes r q m :: int
  assumes "11 \<le> r" "1000 * (q * q) \<le> 3645 * m" "m < (r + 1) * (r + 1)" "0 \<le> q"
  shows "q \<le> 2 * r"
proof (rule ccontr)
  assume "\<not> q \<le> 2 * r"
  then have "(2 * r + 1) * (2 * r + 1) \<le> q * q" using assms by (intro mult_mono) auto
  then have "1000 * ((2 * r + 1) * (2 * r + 1)) < 3645 * ((r + 1) * (r + 1))" using assms(2,3) by linarith
  then have "355 * (r * r) < 3290 * r + 2645" by (simp add: algebra_simps)
  moreover have "11 * r \<le> r * r" using assms by (intro mult_right_mono) auto
  ultimately show False using assms(1) by linarith
qed

text \<open>Choosing a stance never moves the size: from the 20% floor up, the cap of every stance up to Rich is the
  cap the trailing variance alone gives.\<close>

theorem stance_keeps_cap:
  assumes "RV_FLOOR \<le> t" "0 \<le> bps" "bps \<le> rich STANCE_BPS"
  shows "capVarianceFor M t (stanceVariance t bps) = capVarianceFor M t 0"
proof -
  have t: "0 \<le> t" using assms(1) by (simp add: RV_FLOOR_def)
  define v where "v = stanceVariance t bps"
  have "bps * bps \<le> 13500 * 13500" using assms by (intro mult_mono) (auto simp: STANCE_BPS_def)
  then have tb: "t * bps * bps \<le> t * 182250000" using t by (simp add: mult.assoc mult_left_mono)
  have tb0: "0 \<le> t * bps * bps" using t assms by simp
  have v0: "0 \<le> v" unfolding v_def stanceVariance_def using tb0 by (intro bdiv_ge_0) auto
  have "v * (BPS * BPS) \<le> t * bps * bps" unfolding v_def stanceVariance_def using tb0 by (intro bdiv_mult_le) auto
  then have v: "v * 100000000 \<le> t * 182250000" using tb by simp
  obtain r where r: "sqrtWad M t = Inr r" "0 \<le> r" "r * r \<le> t * WAD" "t * WAD < (r + 1) * (r + 1)"
    by (rule sqrtWad_exact [OF t])
  obtain q where q: "sqrtWad M (2 * v) = Inr q" "0 \<le> q" "q * q \<le> 2 * v * WAD" using sqrtWad_exact [of "2 * v"] v0 by auto
  obtain z where z: "sqrtWad M 0 = Inr z" "0 \<le> z" "z * z \<le> 0" using sqrtWad_exact [of 0 M] by auto
  have z0: "z = 0" using z by (simp add: mult_le_0_iff)
  have "11 \<le> r"
  proof (rule ccontr)
    assume "\<not> 11 \<le> r"
    then have "(r + 1) * (r + 1) \<le> 11 * 11" using r by (intro mult_mono) auto
    moreover have "40000000000000000 * WAD \<le> t * WAD" using assms(1) by (intro mult_right_mono) (auto simp: RV_FLOOR_def)
    ultimately show False using r(4) by (simp add: WAD_def)
  qed
  moreover have "(2 * v * WAD) * 100000000 \<le> (2 * t * WAD) * 182250000"
    using mult_right_mono [OF v, of "2 * WAD"] by (simp add: algebra_simps)
  then have "1000 * (2 * v * WAD) \<le> 3645 * (t * WAD)" by simp
  then have "1000 * (q * q) \<le> 3645 * (t * WAD)" using q(3) by linarith
  ultimately have "q \<le> 2 * r" using r(4) q(2) by (rule root_bound)
  then have "max_big (2 * r) q = max_big (2 * r) 0" using r(2) by (simp add: max_big_def)
  then show ?thesis using r(1) q(1) z(1) z0 by (simp add: capVarianceFor_def v_def Let_def)
qed

subsection \<open>Concrete inputs\<close>

definition plain_math :: js_math where
  "plain_math = \<lparr>math_exp = \<lambda>x. x, math_log = \<lambda>x. x, math_sqrt = \<lambda>x. x, math_cos = \<lambda>x. x\<rparr>"

text \<open>A writer quoting 40% vol under a 100% cap with 2,000 USDC, and the same with one more override.\<close>

definition demo_input :: "(override_key \<Rightarrow> string option) \<Rightarrow> derive_input" where
  "demo_input ov = \<lparr>nowTs = 100, in_feed = ''0x01'', in_quoteToken = ''0x02'', in_trailingVariance = None,
     in_trailingPending = False, in_tenorDays = 1, in_collateral = ''2000'', in_stance = Custom, in_customVolPct = ''40'',
     walletUsdc = None, overrides = ov\<rparr>"

definition demo_overrides :: "override_key \<Rightarrow> string option" where
  "demo_overrides = (\<lambda>k. if k = OvCapVolPct then Some ''100'' else None)"

definition demo_derived :: "int \<Rightarrow> int \<Rightarrow> int \<Rightarrow> int \<Rightarrow> web_params" where
  "demo_derived st en sale half = \<lparr>feed = ''0x01'', quoteToken = ''0x02'', start = st, expiry = en, saleEnd = sale,
     sampleInterval = 1800, unitNotional = 100000000, capVariance = 10 ^ 18, anchorVariance = 16 * 10 ^ 16,
     impactPerUnit = 4 * 10 ^ 15, halfLife = half, halfSpreadBps = 200, maxUnits = 20 * 10 ^ 18\<rparr>"

definition derives :: "derive_input \<Rightarrow> web_params \<Rightarrow> bool" where
  "derives inp p \<longleftrightarrow> (case deriveSeries plain_math inp of Inl e \<Rightarrow> False | Inr r \<Rightarrow> d_params r = Some p)"

lemma derivesD: "derives inp p \<Longrightarrow> \<exists>r. deriveSeries plain_math inp = Inr r \<and> d_params r = Some p"
  by (auto simp: derives_def split: sum.splits)

lemma demo_derives: "derives (demo_input demo_overrides) (demo_derived 3600 90000 25200 5400)"
  by code_simp

text \<open>Two designs the form accepts without an error and the factory rejects: a half-life of 1,000 hours, and a
  window that is about to end, whose sale is held open past its expiry.\<close>

definition long_half_life :: derive_input where
  "long_half_life = demo_input (\<lambda>k. if k = OvHalfLifeHours then Some ''1000'' else demo_overrides k)"

definition ending_window :: derive_input where
  "ending_window = (demo_input (\<lambda>k. if k = OvStart then Some ''0'' else demo_overrides k))\<lparr>nowTs := 86000\<rparr>"

theorem half_life_override_rejected:
  "derives long_half_life (demo_derived 3600 90000 25200 3600000)
    \<and> \<not> factory_accepts ''0x01'' ''0x02'' 100 False (demo_derived 3600 90000 25200 3600000)"
proof
  show "derives long_half_life (demo_derived 3600 90000 25200 3600000)" by code_simp
  show "\<not> factory_accepts ''0x01'' ''0x02'' 100 False (demo_derived 3600 90000 25200 3600000)"
    by (simp add: factory_accepts_def demo_derived_def)
qed

theorem ending_window_rejected:
  "derives ending_window (demo_derived 0 86400 89600 5400)
    \<and> \<not> factory_accepts ''0x01'' ''0x02'' 86000 False (demo_derived 0 86400 89600 5400)"
proof
  show "derives ending_window (demo_derived 0 86400 89600 5400)" by code_simp
  show "\<not> factory_accepts ''0x01'' ''0x02'' 86000 False (demo_derived 0 86400 89600 5400)"
    by (simp add: factory_accepts_def demo_derived_def)
qed

theorem derived_params_accepted_witness:
  "factory_accepts ''0x01'' ''0x02'' 100 False (demo_derived 3600 90000 25200 5400)"
proof -
  obtain r where r: "deriveSeries plain_math (demo_input demo_overrides) = Inr r"
    "d_params r = Some (demo_derived 3600 90000 25200 5400)"
    using derivesD [OF demo_derives] by blast
  have l: "maxSeriesLiability (demo_derived 3600 90000 25200 5400) \<le> 2 ^ 248 - 1"
    by (simp add: maxSeriesLiability_def demo_derived_def WAD_def ceilDiv_def bdiv_def)
  show ?thesis
    using derived_params_accepted [OF r _ _ _ l] by (simp add: demo_input_def demo_derived_def demo_overrides_def)
qed

theorem derived_collateral_fits_witness:
  "\<exists>r. deriveSeries plain_math (demo_input demo_overrides) = Inr r \<and> d_collateralCommitted r \<le> 2000000000"
proof -
  obtain r where r: "deriveSeries plain_math (demo_input demo_overrides) = Inr r"
    using derivesD [OF demo_derives] by blast
  have "parseDecimal ''2000'' 6 = Inr 2000000000" by code_simp
  then have "collateral_typed (demo_input demo_overrides) = Some 2000000000"
    by (simp add: collateral_typed_def demo_input_def tryParseDecimal_def)
  then have "d_collateralTyped r = Some 2000000000"
    using deriveSeries_sections [OF r, of "d_collateralTyped r = collateral_typed (demo_input demo_overrides)"] by simp
  then show ?thesis using derived_collateral_fits [OF r _ _, of 2000000000] r by (simp add: demo_input_def demo_overrides_def)
qed

theorem derived_ask_within_cap_witness:
  "ask_at (16 * 10 ^ 16) 200 \<le> 10 ^ 18"
proof -
  obtain r where r: "deriveSeries plain_math (demo_input demo_overrides) = Inr r"
    "d_params r = Some (demo_derived 3600 90000 25200 5400)"
    using derivesD [OF demo_derives] by blast
  show ?thesis
    using derived_ask_within_cap [OF r] by (simp add: demo_input_def demo_derived_def demo_overrides_def)
qed

theorem stance_keeps_cap_witness:
  "capVarianceFor plain_math (9 * 10 ^ 16) (stanceVariance (9 * 10 ^ 16) 11500) = capVarianceFor plain_math (9 * 10 ^ 16) 0"
  using stance_keeps_cap [of "9 * 10 ^ 16" 11500] by (simp add: RV_FLOOR_def STANCE_BPS_def)

end
