(* ===== verification/Web_Portfolio.thy ===== *)
theory Web_Portfolio
  imports Sim_Pricing Js_Array
begin

text \<open>
  \<open>web/src/lib/portfolio.ts\<close>: a risk group backs two complementary claims, HIGH paying \<open>S x\<close> and CALM
  paying \<open>S (1 - x)\<close>, out of one reserve. The payout and reserve arithmetic, the fixed-quote pricing, the
  exit funding, the lifecycle and the order of the list; labels and symbols are left out.
\<close>

type_synonym address = string

subsection \<open>Sides, modes and the group\<close>

datatype side = High | Calm

definition sideIsHigh :: "side \<Rightarrow> bool" where "sideIsHigh s \<longleftrightarrow> s = High"

datatype pmode = IssueHigh | IssueCalm | ExitHigh | ExitCalm | SettleHigh | SettleCalm

fun pmode_code :: "pmode \<Rightarrow> int" where
  "pmode_code IssueHigh = 1" | "pmode_code IssueCalm = 2" | "pmode_code ExitHigh = 3"
| "pmode_code ExitCalm = 4" | "pmode_code SettleHigh = 5" | "pmode_code SettleCalm = 6"

definition issueMode :: "side \<Rightarrow> pmode" where "issueMode s = (if s = High then IssueHigh else IssueCalm)"
definition exitMode :: "side \<Rightarrow> pmode" where "exitMode s = (if s = High then ExitHigh else ExitCalm)"
definition settleMode :: "side \<Rightarrow> pmode" where "settleMode s = (if s = High then SettleHigh else SettleCalm)"

record group_params =
  feed :: address
  quoteToken :: address
  start :: int
  expiry :: int
  saleEnd :: int
  sampleInterval :: int
  capVariance :: int
  capPayoutPerUnit :: int
  maxUnitsPerSide :: int
  askHigh :: int
  bidHigh :: int
  askCalm :: int
  bidCalm :: int

record group_state =
  group_id :: int
  writer :: address
  vault_of :: address
  highReceipt :: address
  calmReceipt :: address
  highOutstanding :: int
  calmOutstanding :: int
  reserveLocked :: int
  exitBuffer :: int
  standaloneCaps :: int
  finalized :: bool
  finalVariance :: int
  xWad :: int
  highPpu :: int
  calmPpu :: int
  params :: group_params

datatype group_status = Upcoming | Open | Trading | AwaitingFinalization | Finalized | Settled

fun group_status_code :: "group_status \<Rightarrow> int" where
  "group_status_code Upcoming = 0" | "group_status_code Open = 1" | "group_status_code Trading = 2"
| "group_status_code AwaitingFinalization = 3" | "group_status_code Finalized = 4" | "group_status_code Settled = 5"

definition groupStatus :: "group_state \<Rightarrow> int \<Rightarrow> group_status" where
  "groupStatus g now =
     (if finalized g then (if highOutstanding g = 0 \<and> calmOutstanding g = 0 then Settled else Finalized)
      else if now < start (params g) then Upcoming
      else if now \<ge> expiry (params g) then AwaitingFinalization
      else if now < saleEnd (params g) then Open
      else Trading)"

subsection \<open>Payouts and reserves\<close>

definition xWadFor :: "int \<Rightarrow> int \<Rightarrow> int" where
  "xWadFor fv cap = (if cap \<le> 0 then 0 else min_big (bdiv (fv * WAD) cap) WAD)"

definition highPpuFor :: "int \<Rightarrow> int \<Rightarrow> int" where
  "highPpuFor S x = bdiv (S * x) WAD"

definition calmPpuFor :: "int \<Rightarrow> int \<Rightarrow> int" where
  "calmPpuFor S x = S - highPpuFor S x"

definition liveReserve :: "int \<Rightarrow> int \<Rightarrow> int \<Rightarrow> int" where
  "liveReserve high calm S = (let worst = max_big high calm in if worst = 0 then 0 else ceilDiv (worst * S) WAD)"

definition finalizedReserve :: "int \<Rightarrow> int \<Rightarrow> int \<Rightarrow> int \<Rightarrow> int" where
  "finalizedReserve high calm hp cp = bdiv (high * hp) WAD + bdiv (calm * cp) WAD"

definition reserveFor :: "group_state \<Rightarrow> int \<Rightarrow> int \<Rightarrow> int" where
  "reserveFor g high calm =
     (if finalized g then finalizedReserve high calm (highPpu g) (calmPpu g)
      else liveReserve high calm (capPayoutPerUnit (params g)))"

definition standaloneCapsFor :: "int \<Rightarrow> int \<Rightarrow> int \<Rightarrow> int" where
  "standaloneCapsFor high calm S =
     (if high = 0 then 0 else ceilDiv (high * S) WAD) + (if calm = 0 then 0 else ceilDiv (calm * S) WAD)"

definition reserveReleasedByBurn :: "group_state \<Rightarrow> side \<Rightarrow> int \<Rightarrow> int" where
  "reserveReleasedByBurn g side units =
     (let h = (if side = High then highOutstanding g - units else highOutstanding g);
          c = (if side = Calm then calmOutstanding g - units else calmOutstanding g)
      in if h < 0 \<or> c < 0 then 0
         else let before = reserveFor g (highOutstanding g) (calmOutstanding g); after = reserveFor g h c
              in if before > after then before - after else 0)"

subsection \<open>Fixed-quote pricing and exit funding\<close>

definition groupIssuePremium :: "int \<Rightarrow> int \<Rightarrow> int" where
  "groupIssuePremium units ask = (if units \<le> 0 then 0 else ceilDiv (units * ask) WAD)"

definition groupExitProceeds :: "int \<Rightarrow> int \<Rightarrow> int" where
  "groupExitProceeds units bid = (if units \<le> 0 then 0 else bdiv (units * bid) WAD)"

definition groupSettleProceeds :: "int \<Rightarrow> int \<Rightarrow> int" where
  "groupSettleProceeds units ppu = (if units \<le> 0 then 0 else bdiv (units * ppu) WAD)"

definition askFor :: "group_state \<Rightarrow> side \<Rightarrow> int" where
  "askFor g s = (if s = High then askHigh (params g) else askCalm (params g))"

definition bidFor :: "group_state \<Rightarrow> side \<Rightarrow> int" where
  "bidFor g s = (if s = High then bidHigh (params g) else bidCalm (params g))"

definition ppuFor :: "group_state \<Rightarrow> side \<Rightarrow> int" where
  "ppuFor g s = (if s = High then highPpu g else calmPpu g)"

definition outstandingFor :: "group_state \<Rightarrow> side \<Rightarrow> int" where
  "outstandingFor g s = (if s = High then highOutstanding g else calmOutstanding g)"

definition receiptFor :: "group_state \<Rightarrow> side \<Rightarrow> address" where
  "receiptFor g s = (if s = High then highReceipt g else calmReceipt g)"

record exit_availability =
  needed :: int
  available :: int

definition exitAvailability :: "group_state \<Rightarrow> side \<Rightarrow> int \<Rightarrow> exit_availability" where
  "exitAvailability g side units =
     \<lparr>needed = groupExitProceeds units (bidFor g side),
      available = reserveReleasedByBurn g side units + exitBuffer g\<rparr>"

definition exitFunded :: "group_state \<Rightarrow> side \<Rightarrow> int \<Rightarrow> bool" where
  "exitFunded g side units \<longleftrightarrow> (let e = exitAvailability g side units in available e \<ge> needed e)"

subsection \<open>What a user can do, and the list\<close>

definition groupCanBuy :: "group_state \<Rightarrow> int \<Rightarrow> bool" where
  "groupCanBuy g now \<longleftrightarrow> \<not> finalized g \<and> now \<ge> start (params g) \<and> now < saleEnd (params g)"

definition groupCanExit :: "group_state \<Rightarrow> side \<Rightarrow> int \<Rightarrow> bool" where
  "groupCanExit g s now \<longleftrightarrow> \<not> finalized g \<and> now < expiry (params g) \<and> outstandingFor g s > 0"

definition groupCanRedeem :: "group_state \<Rightarrow> side \<Rightarrow> bool" where
  "groupCanRedeem g s \<longleftrightarrow> finalized g \<and> ppuFor g s > 0"

definition groupNeedsWorthlessBurn :: "group_state \<Rightarrow> side \<Rightarrow> bool" where
  "groupNeedsWorthlessBurn g s \<longleftrightarrow> finalized g \<and> ppuFor g s = 0 \<and> outstandingFor g s > 0"

definition vaultFreeCollateral :: "int \<Rightarrow> int \<Rightarrow> int" where
  "vaultFreeCollateral bal locked = (if bal > locked then bal - locked else 0)"

fun group_rank :: "group_status \<Rightarrow> int" where
  "group_rank Open = 0"
| "group_rank Trading = 1"
| "group_rank Upcoming = 2"
| "group_rank AwaitingFinalization = 3"
| "group_rank Finalized = 4"
| "group_rank Settled = 5"

definition sortGroups :: "group_state list \<Rightarrow> int \<Rightarrow> group_state list" where
  "sortGroups list now =
     js_sort (by_two (\<lambda>g. group_rank (groupStatus g now)) (\<lambda>g. expiry (params g))) list"

definition maxGroupLiability :: "group_params \<Rightarrow> int" where
  "maxGroupLiability p =
     (if maxUnitsPerSide p = 0 then 0 else ceilDiv (maxUnitsPerSide p * capPayoutPerUnit p) WAD)"

subsection \<open>The complete set\<close>

lemma xWadFor_range: "0 \<le> fv \<Longrightarrow> 0 \<le> xWadFor fv cap \<and> xWadFor fv cap \<le> WAD"
  by (simp add: xWadFor_def bdiv_ge_0)

lemma highPpu_range:
  assumes "0 \<le> S" "0 \<le> x" "x \<le> WAD"
  shows "0 \<le> highPpuFor S x" "highPpuFor S x \<le> S"
proof -
  show "0 \<le> highPpuFor S x" using assms by (simp add: highPpuFor_def bdiv_ge_0)
  have "bdiv (S * x) WAD \<le> bdiv (S * WAD) WAD" using assms by (intro bdiv_mono mult_left_mono) auto
  also have "\<dots> = S" using assms by (simp add: bigint_simps)
  finally show "highPpuFor S x \<le> S" by (simp add: highPpuFor_def)
qed

lemma liveReserve_eq: "0 \<le> h \<Longrightarrow> 0 \<le> c \<Longrightarrow> liveReserve h c S = ceilDiv (max h c * S) WAD"
  by (auto simp: liveReserve_def max_big_def max_def Let_def)

lemma standalone_eq: "standaloneCapsFor h c S = ceilDiv (h * S) WAD + ceilDiv (c * S) WAD"
  by (simp add: standaloneCapsFor_def)

text \<open>Two floors of complementary shares never exceed the ceiling of the larger side.\<close>

lemma finalizedReserve_le_live:
  assumes "0 \<le> h" "0 \<le> c" "0 \<le> hp" "0 \<le> cp" "hp + cp = S"
  shows "finalizedReserve h c hp cp \<le> liveReserve h c S"
proof -
  let ?m = "max h c"
  have m: "0 \<le> ?m" using assms by simp
  have "finalizedReserve h c hp cp \<le> bdiv (?m * hp) WAD + bdiv (?m * cp) WAD"
    unfolding finalizedReserve_def using assms by (intro add_mono bdiv_mono mult_right_mono) auto
  also have "\<dots> \<le> bdiv (?m * hp + ?m * cp) WAD" using assms m by (intro bdiv_add_le) auto
  also have "?m * hp + ?m * cp = ?m * S" using assms(5) by (simp add: distrib_left [symmetric])
  also have "bdiv (?m * S) WAD \<le> ceilDiv (?m * S) WAD" using assms m by (intro bdiv_le_ceilDiv) auto
  finally show ?thesis using assms by (simp only: liveReserve_eq)
qed

lemma liveReserve_le_standalone:
  assumes "0 \<le> h" "0 \<le> c" "0 \<le> S"
  shows "liveReserve h c S \<le> standaloneCapsFor h c S"
  using assms ceilDiv_ge_0 [of "h * S" WAD] ceilDiv_ge_0 [of "c * S" WAD]
  by (auto simp: liveReserve_eq standalone_eq max_def)

subsection \<open>Burns\<close>

text \<open>Each side of a finalized group keeps the contract of a burn leg, its liability being its part of the
  reserve; so does the exit of a live group at a bid of at most \<open>S\<close>, against its standalone cap.\<close>

lemma group_settle_eq: "0 \<le> u \<Longrightarrow> groupSettleProceeds u ppu = bdiv (u * ppu) WAD"
  and group_exit_eq: "0 \<le> u \<Longrightarrow> groupExitProceeds u bid = bdiv (u * bid) WAD"
  by (cases "u = 0"; simp add: groupSettleProceeds_def groupExitProceeds_def)+

lemma group_proceeds_nonneg:
  "0 \<le> u \<Longrightarrow> 0 \<le> ppu \<Longrightarrow> 0 \<le> groupSettleProceeds u ppu"
  "0 \<le> u \<Longrightarrow> 0 \<le> ppu \<Longrightarrow> 0 \<le> groupExitProceeds u ppu"
  by (simp_all add: group_settle_eq group_exit_eq bdiv_ge_0)

lemma group_settle_release:
  assumes "0 \<le> ppu" "0 \<le> u" "u \<le> n"
  shows "groupSettleProceeds u ppu \<le> bdiv (n * ppu) WAD - bdiv ((n - u) * ppu) WAD"
proof -
  have "bdiv (u * ppu) WAD + bdiv ((n - u) * ppu) WAD \<le> bdiv (u * ppu + (n - u) * ppu) WAD"
    using assms by (intro bdiv_add_le) auto
  moreover have "u * ppu + (n - u) * ppu = n * ppu" by (simp add: algebra_simps)
  ultimately show ?thesis using assms by (simp add: group_settle_eq)
qed

lemma group_exit_release:
  assumes "0 \<le> bid" "bid \<le> S" "0 \<le> u" "u \<le> n"
  shows "groupExitProceeds u bid \<le> ceilDiv (n * S) WAD - ceilDiv ((n - u) * S) WAD"
proof -
  have "bdiv (u * bid) WAD \<le> bdiv (u * S) WAD"
    using assms by (intro bdiv_mono mult_left_mono) auto
  moreover have "ceilDiv ((n - u) * S) WAD + bdiv (u * S) WAD \<le> ceilDiv ((n - u) * S + u * S) WAD"
    using assms by (intro ceilDiv_add_bdiv) auto
  moreover have "groupExitProceeds u bid = bdiv (u * bid) WAD" using assms by (simp add: group_exit_eq)
  moreover have "(n - u) * S + u * S = n * S" by (simp add: algebra_simps)
  ultimately show ?thesis by simp
qed

interpretation group_settle: burn_leg "\<lambda>ppu. 0 \<le> ppu" "\<lambda>ppu u. bdiv (u * ppu) WAD" "\<lambda>ppu u. groupSettleProceeds u ppu"
  by unfold_locales (auto intro: group_settle_release group_proceeds_nonneg)

interpretation group_exit: burn_leg "\<lambda>(bid, S). 0 \<le> bid \<and> bid \<le> S" "\<lambda>(bid, S) u. ceilDiv (u * S) WAD"
    "\<lambda>(bid, S) u. groupExitProceeds u bid"
  by unfold_locales (auto intro: group_exit_release group_proceeds_nonneg)

lemma redemptions_within_reserve:
  assumes "0 \<le> hp" "0 \<le> cp"
    and "\<forall>u\<in>set us. 0 \<le> u" "sum_list us \<le> h" "\<forall>u\<in>set vs. 0 \<le> u" "sum_list vs \<le> c"
  shows "sum_list (map (\<lambda>u. groupSettleProceeds u hp) us) + sum_list (map (\<lambda>u. groupSettleProceeds u cp) vs)
    \<le> finalizedReserve h c hp cp"
  using group_settle.burns_covered [of hp us h] group_settle.burns_covered [of cp vs c] assms
  by (simp add: finalizedReserve_def)

text \<open>The side an exit leaves as the larger one releases its own cap; a smaller side releases nothing.\<close>

definition other_side :: "side \<Rightarrow> side" where "other_side s = (if s = High then Calm else High)"

lemma other_side_simps [simp]: "other_side High = Calm" "other_side Calm = High"
  by (simp_all add: other_side_def)

lemma released_by_excess:
  assumes "\<not> finalized g" "0 \<le> u" "0 \<le> outstandingFor g (other_side s)" "0 \<le> capPayoutPerUnit (params g)"
    and "outstandingFor g (other_side s) + u \<le> outstandingFor g s"
  shows "reserveReleasedByBurn g s u =
    ceilDiv (outstandingFor g s * capPayoutPerUnit (params g)) WAD
      - ceilDiv ((outstandingFor g s - u) * capPayoutPerUnit (params g)) WAD"
proof -
  define n where "n = outstandingFor g s"
  define c where "c = outstandingFor g (other_side s)"
  define S where "S = capPayoutPerUnit (params g)"
  have *: "0 \<le> c" "0 \<le> u" "0 \<le> S" "c + u \<le> n" using assms by (auto simp: c_def n_def S_def)
  have mono: "ceilDiv ((n - u) * S) WAD \<le> ceilDiv (n * S) WAD"
    using * by (intro ceilDiv_mono mult_right_mono) auto
  have r: "liveReserve n c S = ceilDiv (n * S) WAD" "liveReserve c n S = ceilDiv (n * S) WAD"
    "liveReserve (n - u) c S = ceilDiv ((n - u) * S) WAD" "liveReserve c (n - u) S = ceilDiv ((n - u) * S) WAD"
    using * by (simp_all add: liveReserve_eq max_absorb1 max_absorb2)
  show ?thesis
    using assms(1) * mono r
    by (cases s) (simp_all add: reserveReleasedByBurn_def reserveFor_def Let_def outstandingFor_def n_def c_def S_def)
qed

lemma released_by_smaller:
  assumes "\<not> finalized g" "0 \<le> u" "0 \<le> outstandingFor g s"
    and "outstandingFor g s \<le> outstandingFor g (other_side s)"
  shows "reserveReleasedByBurn g s u = 0"
proof -
  define n where "n = outstandingFor g s"
  define c where "c = outstandingFor g (other_side s)"
  define S where "S = capPayoutPerUnit (params g)"
  have *: "0 \<le> n" "0 \<le> u" "n \<le> c" using assms by (auto simp: c_def n_def)
  have r: "n - u \<ge> 0 \<Longrightarrow> liveReserve (n - u) c S = liveReserve n c S"
    "n - u \<ge> 0 \<Longrightarrow> liveReserve c (n - u) S = liveReserve c n S"
    using * by (simp_all add: liveReserve_eq max_absorb1 max_absorb2)
  show ?thesis
    using assms(1) * r
    by (cases s) (auto simp: reserveReleasedByBurn_def reserveFor_def Let_def outstandingFor_def n_def c_def S_def)
qed

subsection \<open>Properties\<close>

text \<open>C14: Whatever variance a group settles at, the two payouts are non-negative and sum to exactly S, what the
  settlement of any outstanding pair needs is within the reserve locked while the group was live, and
  that reserve is never more than two standalone series would lock.\<close>

theorem complete_set_reserved:
  assumes "0 \<le> fv" "0 \<le> S" "0 \<le> h" "0 \<le> c"
  shows "highPpuFor S (xWadFor fv cap) + calmPpuFor S (xWadFor fv cap) = S
    \<and> 0 \<le> highPpuFor S (xWadFor fv cap) \<and> 0 \<le> calmPpuFor S (xWadFor fv cap)
    \<and> finalizedReserve h c (highPpuFor S (xWadFor fv cap)) (calmPpuFor S (xWadFor fv cap)) \<le> liveReserve h c S
    \<and> liveReserve h c S \<le> standaloneCapsFor h c S"
  using assms xWadFor_range [of fv cap] highPpu_range [of S "xWadFor fv cap"]
  by (auto simp: calmPpuFor_def liveReserve_le_standalone intro!: finalizedReserve_le_live)

theorem complete_set_reserved_witness:
  "finalizedReserve 3 5 (highPpuFor 50 (xWadFor 7 9)) (calmPpuFor 50 (xWadFor 7 9)) \<le> liveReserve 3 5 50"
  using complete_set_reserved [of 7 50 3 5 9] by simp

text \<open>However the holders of both sides split their claims into redemptions, the payouts together stay
  within the reserve that was locked before the group settled.\<close>

theorem group_redemptions_covered:
  assumes "0 \<le> fv" "0 \<le> S" "\<forall>u\<in>set us. 0 \<le> u" "sum_list us \<le> h" "\<forall>u\<in>set vs. 0 \<le> u" "sum_list vs \<le> c"
  shows "sum_list (map (\<lambda>u. groupSettleProceeds u (highPpuFor S (xWadFor fv cap))) us)
    + sum_list (map (\<lambda>u. groupSettleProceeds u (calmPpuFor S (xWadFor fv cap))) vs) \<le> liveReserve h c S"
proof -
  let ?x = "xWadFor fv cap"
  have "0 \<le> sum_list us" "0 \<le> sum_list vs" using assms by (auto intro: sum_list_nonneg)
  then have hc: "0 \<le> h" "0 \<le> c" using assms by simp_all
  have r: "0 \<le> highPpuFor S ?x" "0 \<le> calmPpuFor S ?x" "highPpuFor S ?x + calmPpuFor S ?x = S"
    using xWadFor_range [of fv cap] highPpu_range [of S ?x] assms by (auto simp: calmPpuFor_def)
  show ?thesis
    using redemptions_within_reserve [OF r(1,2) assms(3-6)] finalizedReserve_le_live [OF hc r]
    by simp
qed

theorem group_redemptions_covered_witness:
  "sum_list (map (\<lambda>u. groupSettleProceeds u (highPpuFor 50 (xWadFor 7 9))) [1, 2])
    + sum_list (map (\<lambda>u. groupSettleProceeds u (calmPpuFor 50 (xWadFor 7 9))) [3, 2]) \<le> liveReserve 3 5 50"
  using group_redemptions_covered [of 7 50 "[1, 2]" 3 "[3, 2]" 5 9] by simp

text \<open>While a group is live and a side's bid is at most S, an exit that leaves its side at least as large as
  the other is funded with no exit buffer at all; an exit on the side that is not the larger releases
  nothing, and is funded exactly when the buffer alone covers its proceeds.\<close>

theorem exit_funding:
  assumes "\<not> finalized g" "0 \<le> u" "0 \<le> outstandingFor g s" "0 \<le> outstandingFor g (other_side s)"
    and "0 \<le> exitBuffer g" "0 \<le> bidFor g s" "bidFor g s \<le> capPayoutPerUnit (params g)"
  shows "(outstandingFor g (other_side s) + u \<le> outstandingFor g s \<longrightarrow> exitFunded g s u)
    \<and> (outstandingFor g s \<le> outstandingFor g (other_side s) \<longrightarrow>
        exitFunded g s u = (groupExitProceeds u (bidFor g s) \<le> exitBuffer g))"
proof (intro conjI impI)
  assume le: "outstandingFor g (other_side s) + u \<le> outstandingFor g s"
  have "groupExitProceeds u (bidFor g s) \<le> reserveReleasedByBurn g s u"
    unfolding released_by_excess [OF assms(1,2,4) order_trans [OF assms(6,7)] le]
    using assms le by (intro group_exit_release) auto
  then show "exitFunded g s u" using assms(5) by (simp add: exitFunded_def exitAvailability_def)
next
  assume "outstandingFor g s \<le> outstandingFor g (other_side s)"
  then show "exitFunded g s u = (groupExitProceeds u (bidFor g s) \<le> exitBuffer g)"
    using released_by_smaller [OF assms(1,2,3)] by (simp add: exitFunded_def exitAvailability_def)
qed

definition demo_group :: group_state where
  "demo_group = \<lparr>group_id = 1, writer = ''0x03'', vault_of = ''0x04'', highReceipt = ''0x05'', calmReceipt = ''0x06'',
     highOutstanding = 7 * 10 ^ 18, calmOutstanding = 2 * 10 ^ 18, reserveLocked = 350000000, exitBuffer = 1000000,
     standaloneCaps = 450000000, finalized = False, finalVariance = 0, xWad = 0, highPpu = 0, calmPpu = 0,
     params = \<lparr>feed = ''0x01'', quoteToken = ''0x02'', start = 0, expiry = 2000, saleEnd = 1500, sampleInterval = 100,
       capVariance = 10 ^ 18, capPayoutPerUnit = 50000000, maxUnitsPerSide = 10 ^ 20,
       askHigh = 21000000, bidHigh = 19000000, askCalm = 31000000, bidCalm = 28000000\<rparr>\<rparr>"

theorem exit_funding_witness: "exitFunded demo_group High (4 * 10 ^ 18)"
  using exit_funding [of demo_group "4 * 10 ^ 18" High]
  by (simp add: demo_group_def outstandingFor_def bidFor_def)

text \<open>With its times in order, a group that is not finalized moves through its statuses forwards only; buying
  is offered exactly while it is open, and exiting exactly before it awaits finalization.\<close>

theorem group_lifecycle:
  assumes "\<not> finalized g" "start (params g) \<le> saleEnd (params g)" "saleEnd (params g) \<le> expiry (params g)" "now \<le> later"
  shows "group_status_code (groupStatus g now) \<le> group_status_code (groupStatus g later)
    \<and> groupCanBuy g now = (groupStatus g now = Open)
    \<and> groupCanExit g s now = (group_status_code (groupStatus g now) < 3 \<and> outstandingFor g s > 0)"
  using assms by (auto simp: groupStatus_def groupCanBuy_def groupCanExit_def)

theorem group_lifecycle_witness:
  "group_status_code (groupStatus demo_group 10) \<le> group_status_code (groupStatus demo_group 1600)"
  using group_lifecycle [of demo_group 10 1600 High] by (simp add: demo_group_def)

end
