(* ===== verification/Web_Program.thy ===== *)
theory Web_Program
  imports "HOL-Library.Word" Js_String
begin

text \<open>
  \<open>web/src/lib/program.ts\<close>: the decoder behind the program viewer. A hex value is the list of its bytes; the
  byte-slicing function of the \<open>viem\<close> library, which throws on an offset past the end, and the date
  formatter are parameters. The display texts of the two extruction targets are left out.
\<close>

type_synonym bytes = "8 word list"
type_synonym slicer = "bytes \<Rightarrow> nat \<Rightarrow> nat option \<Rightarrow> js_error + bytes"

text \<open>What the code relies on: slicing within the bounds returns the bytes in between.\<close>

definition slice_ok :: "slicer \<Rightarrow> bool" where
  "slice_ok sl \<longleftrightarrow> (\<forall>b i j. i \<le> j \<longrightarrow> j \<le> length b \<longrightarrow> i < length b \<or> i = 0 \<longrightarrow>
     sl b i (Some j) = Inr (take (j - i) (drop i b)) \<and> sl b i None = Inr (drop i b))"

definition be_val :: "bytes \<Rightarrow> int" where
  "be_val bs = fold (\<lambda>b a. a * 256 + uint b) bs 0"

subsection \<open>Hexadecimal text\<close>

definition hex_digit :: "int \<Rightarrow> char" where
  "hex_digit d = (if d < 10 then char_of (48 + nat d) else char_of (87 + nat d))"

function hex_string :: "int \<Rightarrow> string" where
  "hex_string n = (if n < 16 then [hex_digit n] else hex_string (n div 16) @ [hex_digit (n mod 16)])"
  by pat_completeness auto
termination
  by (relation "measure nat") auto

declare hex_string.simps [simp del]

definition hex1 :: "int \<Rightarrow> string" where
  "hex1 n = ''0x'' @ pad_start 2 (hex_string n)"

definition hex_text :: "bytes \<Rightarrow> string" where
  "hex_text bs = ''0x'' @ concat (map (\<lambda>b. pad_start 2 (hex_string (uint b))) bs)"

subsection \<open>Opcodes\<close>

datatype opcode_kind = TremorOp | StockOp

record opcode_info =
  oi_code :: int
  oi_name :: string
  oi_kind :: opcode_kind
  oi_summary :: string

definition TREMOR_OPCODES :: "opcode_info list" where
  "TREMOR_OPCODES = []"

definition STOCK :: "(int \<times> string) list" where
  "STOCK = [
     (0x00, ''Stop''), (0x01, ''Revert''), (0x02, ''Salt''), (0x03, ''Jump''), (0x04, ''Extruction''),
     (0x10, ''PrintSwapRegisters''), (0x11, ''PrintSwapQuery''), (0x12, ''PrintVM''), (0x13, ''PrintFreeMemoryPointer''),
     (0x14, ''PrintGasLeft''), (0x15, ''PrintFee''), (0x1a, ''PatchSwapRegisters''),
     (0x20, ''Deadline''), (0x23, ''OnlyTakerTokenBalanceNonZero''), (0x24, ''OnlyTakerTokenBalanceGte''),
     (0x25, ''OnlyTakerTokenSupplyShareGte''), (0x26, ''OnlyTxOriginTokenBalanceNonZero''), (0x2b, ''PrivateOrder''),
     (0x2c, ''WhitelistCoequal''), (0x2d, ''WhitelistSequential''), (0x30, ''JumpIfDirection''), (0x31, ''JumpIfTokenIn''),
     (0x32, ''JumpIfTokenOut''), (0x40, ''InvalidateBit''), (0x41, ''InvalidateTokenIn''), (0x42, ''InvalidateTokenOut''),
     (0x48, ''ValidateSeriesEpoch''), (0x50, ''XYCSwap''), (0x51, ''XYCConcentrateSwap''), (0x53, ''LimitSwap''),
     (0x54, ''LimitSwapFullAmount''), (0x58, ''PeggedSwap''), (0x70, ''FeeFlatIn''), (0x71, ''FeeFlatOut''),
     (0x72, ''FeeProgressiveIn''), (0x73, ''FeeProgressiveOut''), (0x80, ''FeeProtocol''), (0x90, ''StaticBalances''),
     (0x91, ''DynamicBalances''), (0x94, ''DutchAuctionBalanceIn''), (0x95, ''DutchAuctionBalanceOut''),
     (0x98, ''PiecewiseLinearScaleBalanceIn''), (0x99, ''PiecewiseLinearScaleBalanceOut''), (0x9c, ''Decay''),
     (0x9d, ''TWAPSwap''), (0xb0, ''RequireMinRate''), (0xb1, ''AdjustMinRate''), (0xb2, ''OraclePriceAdjuster''),
     (0xb4, ''BaseFeeAdjuster'')]"

text \<open>The map is filled in order, so a later entry replaces an earlier one.\<close>

definition TABLE :: "int \<Rightarrow> opcode_info option" where
  "TABLE = map_of (rev (map (\<lambda>(c, n). (c, \<lparr>oi_code = c, oi_name = n, oi_kind = StockOp, oi_summary = ''''\<rparr>)) STOCK
     @ map (\<lambda>op. (oi_code op, op)) TREMOR_OPCODES))"

definition opcodeInfo :: "int \<Rightarrow> opcode_info" where
  "opcodeInfo code = (case TABLE code of Some i \<Rightarrow> i
     | None \<Rightarrow> \<lparr>oi_code = code, oi_name = ''UNKNOWN_'' @ hex1 code, oi_kind = StockOp, oi_summary = ''''\<rparr>)"

subsection \<open>Packed arguments\<close>

record decoded_arg =
  arg_label :: string
  arg_value :: string
  arg_raw :: string

definition arg_hex :: "string \<Rightarrow> bytes \<Rightarrow> string \<Rightarrow> decoded_arg" where
  "arg_hex label raw v = \<lparr>arg_label = label, arg_value = v, arg_raw = hex_text raw\<rparr>"

definition arg_big :: "string \<Rightarrow> int \<Rightarrow> string \<Rightarrow> decoded_arg" where
  "arg_big label raw v = \<lparr>arg_label = label, arg_value = v, arg_raw = dec_string raw\<rparr>"

text \<open>A reader is its bytes and its offset; a read returns the value and the reader after it.\<close>

record reader =
  rd_hex :: bytes
  rd_off :: nat

definition reader_remaining :: "reader \<Rightarrow> int" where
  "reader_remaining r = int (length (rd_hex r)) - int (rd_off r)"

definition reader_take :: "slicer \<Rightarrow> reader \<Rightarrow> nat \<Rightarrow> js_error + (bytes \<times> reader)" where
  "reader_take sl r n =
     (if rd_off r + n > length (rd_hex r) then Inl (Thrown ''short args'')
      else andThen (sl (rd_hex r) (rd_off r) (Some (rd_off r + n)))
        (\<lambda>h. Inr (h, r\<lparr>rd_off := rd_off r + n\<rparr>)))"

definition reader_uint :: "slicer \<Rightarrow> reader \<Rightarrow> nat \<Rightarrow> js_error + (int \<times> reader)" where
  "reader_uint sl r n = andThen (reader_take sl r n) (\<lambda>(h, r'). Inr (be_val h, r'))"

definition reader_address :: "slicer \<Rightarrow> reader \<Rightarrow> js_error + (bytes \<times> reader)" where
  "reader_address sl r = reader_take sl r 20"

definition MODE_LABEL :: "int \<Rightarrow> string option" where
  "MODE_LABEL = map_of [(1, ''ISSUE''), (2, ''EXIT''), (3, ''SETTLE'')]"

definition PMODE_LABEL_V2 :: "int \<Rightarrow> string option" where
  "PMODE_LABEL_V2 = map_of [(1, ''ISSUE_HIGH''), (2, ''ISSUE_CALM''), (3, ''EXIT_HIGH''), (4, ''EXIT_CALM''),
     (5, ''SETTLE_HIGH''), (6, ''SETTLE_CALM'')]"

definition mode_text :: "int \<Rightarrow> string option \<Rightarrow> string" where
  "mode_text mode label = dec_string mode @ [CHR '' '', CHR 0xC2, CHR 0xB7, CHR '' '']
     @ (case label of Some l \<Rightarrow> l | None \<Rightarrow> ''unknown'')"

definition decode_salt :: "slicer \<Rightarrow> bytes \<Rightarrow> js_error + decoded_arg list" where
  "decode_salt sl args =
     (let r = \<lparr>rd_hex = args, rd_off = 0\<rparr> in
      if length args = 8
      then andThen (reader_uint sl r 8) (\<lambda>(v, _). Inr [arg_big ''salt'' v (dec_string v @ '' (series id)'')])
      else if length args = 9
      then andThen (reader_uint sl r 8) (\<lambda>(groupId, r').
        andThen (reader_take sl r' 1) (\<lambda>(m, _).
          let mode = be_val m in
          Inr [arg_big ''groupId'' groupId (dec_string groupId @ '' (risk group)''),
               arg_big ''mode'' mode (mode_text mode (PMODE_LABEL_V2 mode))]))
      else Inr [arg_hex ''salt'' args (hex_text args)])"

definition decode_deadline :: "slicer \<Rightarrow> (int \<Rightarrow> string) \<Rightarrow> bytes \<Rightarrow> js_error + decoded_arg list" where
  "decode_deadline sl fmtDateTime args =
     andThen (reader_uint sl \<lparr>rd_hex = args, rd_off = 0\<rparr> 5)
       (\<lambda>(v, _). Inr [arg_big ''deadline'' v (dec_string v @ [CHR '' '', CHR 0xC2, CHR 0xB7, CHR '' ''] @ fmtDateTime v)])"

definition decode_extruction :: "slicer \<Rightarrow> bytes \<Rightarrow> js_error + decoded_arg list" where
  "decode_extruction sl args =
     andThen (reader_address sl \<lparr>rd_hex = args, rd_off = 0\<rparr>) (\<lambda>(target, _).
     andThen (if length args > 20 then sl args 20 None else Inr []) (\<lambda>rest.
       if length rest = 10
       then andThen (sl rest 0 (Some 1)) (\<lambda>vb. andThen (sl rest 1 (Some 2)) (\<lambda>mb. andThen (sl rest 2 (Some 10)) (\<lambda>ib.
         let version = be_val vb; mode = be_val mb; i = be_val ib; v2 = (version = 2);
             targetName = (if v2 then ''TremorPortfolioMarket'' else ''TremorMarketEngine'');
             modeLabel = (if v2 then PMODE_LABEL_V2 mode else MODE_LABEL mode)
         in Inr [arg_hex ''target'' target (hex_text target @ '' ('' @ targetName @ '')''),
                 arg_big ''version'' version (''v'' @ dec_string version),
                 arg_big ''mode'' mode (mode_text mode modeLabel),
                 arg_big (if v2 then ''groupId'' else ''seriesId'') i (dec_string i)])))
       else Inr (arg_hex ''target'' target (hex_text target @ '' (TremorMarketEngine)'')
         # (if length rest > 0 then [arg_hex ''extructionArgs'' rest (hex_text rest)] else []))))"

definition decodeArgs :: "slicer \<Rightarrow> (int \<Rightarrow> string) \<Rightarrow> int \<Rightarrow> bytes \<Rightarrow> js_error + decoded_arg list" where
  "decodeArgs sl fmtDateTime opcode args =
     (if opcode = 0x02 then decode_salt sl args
      else if opcode = 0x20 then decode_deadline sl fmtDateTime args
      else if opcode = 0x04 then decode_extruction sl args
      else Inr (if length args > 0 then [arg_hex ''args'' args (hex_text args)] else []))"

subsection \<open>Programs\<close>

record instruction =
  ins_pc :: nat
  ins_opcode :: int
  ins_name :: string
  ins_kind :: opcode_kind
  ins_args :: bytes
  ins_decoded :: "decoded_arg list"
  ins_error :: "string option"

definition make_instruction :: "slicer \<Rightarrow> (int \<Rightarrow> string) \<Rightarrow> nat \<Rightarrow> int \<Rightarrow> bytes \<Rightarrow> instruction" where
  "make_instruction sl fmtDateTime pc opcode args =
     \<lparr>ins_pc = pc, ins_opcode = opcode, ins_name = oi_name (opcodeInfo opcode), ins_kind = oi_kind (opcodeInfo opcode),
      ins_args = args,
      ins_decoded = (case decodeArgs sl fmtDateTime opcode args of Inr d \<Rightarrow> d
        | Inl e \<Rightarrow> [arg_hex ''raw'' args (hex_text args)]),
      ins_error = None\<rparr>"

definition overrun :: "nat \<Rightarrow> int \<Rightarrow> instruction" where
  "overrun pc opcode =
     \<lparr>ins_pc = pc, ins_opcode = opcode, ins_name = oi_name (opcodeInfo opcode), ins_kind = oi_kind (opcodeInfo opcode),
      ins_args = [], ins_decoded = [], ins_error = Some ''args exceed program length''\<rparr>"

function decode_from :: "slicer \<Rightarrow> (int \<Rightarrow> string) \<Rightarrow> bytes \<Rightarrow> nat \<Rightarrow> js_error + instruction list" where
  "decode_from sl fmtDateTime program pc =
     (if pc < length program
      then andThen (sl program pc (Some (pc + 1))) (\<lambda>ob.
           andThen (if pc + 1 < length program then sl program (pc + 1) (Some (pc + 2)) else Inr []) (\<lambda>lb.
             let opcode = be_val ob;
                 argsLen = (if pc + 1 < length program then nat (be_val lb) else 0);
                 begin_at = pc + 2; end_at = begin_at + argsLen
             in if end_at > length program then Inr [overrun pc opcode]
                else andThen (if argsLen > 0 then sl program begin_at (Some end_at) else Inr []) (\<lambda>args.
                  if opcode = 0 then Inr [make_instruction sl fmtDateTime pc opcode args]
                  else andThen (decode_from sl fmtDateTime program end_at)
                    (\<lambda>rest. Inr (make_instruction sl fmtDateTime pc opcode args # rest)))))
      else Inr [])"
  by pat_completeness auto
termination
  by (relation "measure (\<lambda>(sl, f, p, pc). length p - pc)") auto

declare decode_from.simps [simp del]

definition decodeProgram :: "slicer \<Rightarrow> (int \<Rightarrow> string) \<Rightarrow> bytes \<Rightarrow> js_error + instruction list" where
  "decodeProgram sl fmtDateTime program = decode_from sl fmtDateTime program 0"

subsection \<open>Orders\<close>

record order_flags =
  shouldUnwrapWeth :: bool
  useAquaInsteadOfSignature :: bool
  allowZeroAmountIn :: bool
  hasPreTransferInHook :: bool
  hasPostTransferInHook :: bool
  hasPreTransferOutHook :: bool
  hasPostTransferOutHook :: bool

record decoded_order =
  do_maker :: string
  tokenA :: string
  tokenB :: string
  programOffset :: nat
  do_program :: bytes
  do_flags :: order_flags
  do_receiver :: string
  instructions :: "instruction list"
  do_error :: "string option"

definition trait_bit :: "int \<Rightarrow> nat \<Rightarrow> bool" where
  "trait_bit traits n \<longleftrightarrow> (traits div 2 ^ n) mod 2 = 1"

definition flags_of :: "int \<Rightarrow> order_flags" where
  "flags_of traits = \<lparr>shouldUnwrapWeth = trait_bit traits 255, useAquaInsteadOfSignature = trait_bit traits 254,
     allowZeroAmountIn = trait_bit traits 253, hasPreTransferInHook = trait_bit traits 252,
     hasPostTransferInHook = trait_bit traits 251, hasPreTransferOutHook = trait_bit traits 250,
     hasPostTransferOutHook = trait_bit traits 249\<rparr>"

definition receiver_of :: "string \<Rightarrow> int \<Rightarrow> string" where
  "receiver_of maker traits = (let raw = traits mod 2 ^ 160 in
     if raw = 0 then maker else ''0x'' @ pad_start 40 (hex_string raw))"

definition ZERO_ADDRESS :: string where
  "ZERO_ADDRESS = ''0x0000000000000000000000000000000000000000''"

definition offset_of :: "int \<Rightarrow> nat" where
  "offset_of traits = (let n = nat ((traits div 2 ^ 208) mod 65536) in if n = 0 then 40 else n)"

definition decodeOrder :: "slicer \<Rightarrow> (int \<Rightarrow> string) \<Rightarrow> string \<Rightarrow> int \<Rightarrow> bytes \<Rightarrow> js_error + decoded_order" where
  "decodeOrder sl fmtDateTime maker traits dat =
     (let base = \<lparr>do_maker = maker, tokenA = ZERO_ADDRESS, tokenB = ZERO_ADDRESS, programOffset = 40, do_program = [],
            do_flags = flags_of traits, do_receiver = receiver_of maker traits, instructions = [], do_error = None\<rparr> in
      if length dat < 40
      then Inr (base\<lparr>do_error := Some (''order.data is '' @ dec_string (int (length dat)) @ '' bytes; expected at least 40'')\<rparr>)
      else andThen (sl dat 0 (Some 20)) (\<lambda>a. andThen (sl dat 20 (Some 40)) (\<lambda>b.
        let off = offset_of traits; withTokens = base\<lparr>tokenA := hex_text a, tokenB := hex_text b, programOffset := off\<rparr> in
        if off > length dat then Inr (withTokens\<lparr>do_error := Some ''program offset beyond data''\<rparr>)
        else andThen (sl dat off None) (\<lambda>program. andThen (decodeProgram sl fmtDateTime program) (\<lambda>is.
          Inr (withTokens\<lparr>do_program := program, instructions := is\<rparr>))))))"

subsection \<open>One step of the decoder\<close>

lemma be_val_single [simp]: "be_val [b] = uint b"
  by (simp add: be_val_def)

lemma slice_okD:
  "slice_ok sl \<Longrightarrow> i \<le> j \<Longrightarrow> j \<le> length b \<Longrightarrow> i < length b \<or> i = 0 \<Longrightarrow> sl b i (Some j) = Inr (take (j - i) (drop i b))"
  "slice_ok sl \<Longrightarrow> i < length b \<or> i = 0 \<Longrightarrow> i \<le> length b \<Longrightarrow> sl b i None = Inr (drop i b)"
  unfolding slice_ok_def by blast+

lemma slice_one: "slice_ok sl \<Longrightarrow> i < length b \<Longrightarrow> sl b i (Some (Suc i)) = Inr [b ! i]"
  using slice_okD(1) [of sl i "Suc i" b] by (simp add: Cons_nth_drop_Suc [symmetric] del: drop_Suc)

definition enc :: "8 word \<times> bytes \<Rightarrow> bytes" where
  "enc ins = fst ins # of_nat (length (snd ins)) # snd ins"

lemma length_enc [simp]: "length (enc (c, a)) = 2 + length a"
  by (simp add: enc_def)

lemma decode_step:
  assumes "slice_ok sl" "drop pc p = enc (c, a) @ rest" "length a < 256"
  shows "decode_from sl f p pc =
    (if c = 0 then Inr [make_instruction sl f pc (uint c) a]
     else andThen (decode_from sl f p (pc + 2 + length a)) (\<lambda>is. Inr (make_instruction sl f pc (uint c) a # is)))"
proof -
  have len: "length p - pc = 2 + length a + length rest"
    using arg_cong [OF assms(2), of length] by (simp add: enc_def)
  then have pc: "pc < length p" "pc + 1 < length p" "pc + 2 + length a \<le> length p" by linarith+
  have "drop (pc + 2) p = drop 2 (drop pc p)" by (simp add: add.commute)
  then have d2: "drop (pc + 2) p = a @ rest" using assms(2) by (simp add: enc_def)
  have "p ! pc = drop pc p ! 0" "p ! (pc + 1) = drop pc p ! 1" using pc by simp_all
  then have n: "p ! pc = c" "p ! (pc + 1) = of_nat (length a)" using assms(2) by (simp_all add: enc_def)
  have "uint (of_nat (length a) :: 8 word) = int (length a)"
    using assms(3) by (simp add: uint_nat unat_of_nat)
  moreover have "sl p pc (Some (pc + 1)) = Inr [c]" "sl p (pc + 1) (Some (pc + 2)) = Inr [of_nat (length a)]"
    using slice_one [OF assms(1) pc(1)] slice_one [OF assms(1) pc(2)] n by simp_all
  moreover have "a \<noteq> [] \<Longrightarrow> sl p (pc + 2) (Some (pc + 2 + length a)) = Inr a"
    using slice_okD(1) [OF assms(1), of "pc + 2" "pc + 2 + length a" p] pc d2 by (cases a) auto
  moreover have "uint c = 0 \<longleftrightarrow> c = 0" by (simp add: uint_0_iff)
  ultimately show ?thesis
    using pc by (subst decode_from.simps) (cases "a = []"; simp add: Let_def)
qed

lemma decode_end: "length p \<le> pc \<Longrightarrow> decode_from sl f p pc = Inr []"
  by (subst decode_from.simps) simp

fun layout :: "slicer \<Rightarrow> (int \<Rightarrow> string) \<Rightarrow> nat \<Rightarrow> (8 word \<times> bytes) list \<Rightarrow> instruction list" where
  "layout sl f pc [] = []"
| "layout sl f pc ((c, a) # is) = make_instruction sl f pc (uint c) a # layout sl f (pc + 2 + length a) is"

lemma decode_encoded:
  assumes "slice_ok sl" "\<forall>(c, a)\<in>set is. c \<noteq> 0 \<and> length a < 256" "drop pc p = concat (map enc is) @ rest"
  shows "decode_from sl f p pc =
    andThen (decode_from sl f p (pc + length (concat (map enc is)))) (\<lambda>r. Inr (layout sl f pc is @ r))"
  using assms(2,3)
proof (induction "is" arbitrary: pc)
  case Nil
  show ?case by (cases "decode_from sl f p pc") simp_all
next
  case (Cons i "is")
  obtain c a where i: "i = (c, a)" by fastforce
  have d: "drop pc p = enc (c, a) @ (concat (map enc is) @ rest)" using Cons.prems(2) by (simp add: i)
  have "drop (pc + 2 + length a) p = drop (2 + length a) (drop pc p)" by (simp add: add.commute add.left_commute)
  then have d': "drop (pc + 2 + length a) p = concat (map enc is) @ rest" unfolding d by (simp add: enc_def)
  have ok: "c \<noteq> 0" "length a < 256" "\<forall>(c, a)\<in>set is. c \<noteq> 0 \<and> length a < 256" using Cons.prems(1) i by auto
  have "pc + 2 + length a + length (concat (map enc is)) = pc + length (concat (map enc (i # is)))"
    by (simp add: i enc_def)
  then show ?case
    using decode_step [OF assms(1) d ok(2)] Cons.IH [OF ok(3) d'] ok(1) by (simp add: i andThen_assoc add.assoc)
qed

lemma decode_some_prefix:
  assumes "slice_ok sl"
  shows "\<exists>is rest. decode_from sl f p pc = Inr is
    \<and> drop pc p = concat (map (\<lambda>i. enc (of_int (ins_opcode i), ins_args i)) (filter (\<lambda>i. ins_error i = None) is)) @ rest"
proof (induction "length p - pc" arbitrary: pc rule: less_induct)
  case less
  consider "length p \<le> pc" | "pc + 1 = length p" | "pc + 1 < length p" by linarith
  then show ?case
  proof cases
    case 1
    then show ?thesis by (simp add: decode_end)
  next
    case 2
    then have "decode_from sl f p pc = Inr [overrun pc (uint (p ! pc))]"
      using slice_one [OF assms, of pc p] by (subst decode_from.simps) (simp add: Let_def)
    then show ?thesis by (simp add: overrun_def)
  next
    case 3
    define c where "c = p ! pc"
    define n where "n = unat (p ! (pc + 1))"
    have n: "n < 256" unfolding n_def using unsigned_less [of "p ! (pc + 1)", where ?'a = nat] by simp
    have d: "drop pc p = c # (p ! (pc + 1)) # drop (pc + 2) p"
      using 3 by (simp add: c_def Cons_nth_drop_Suc)
    show ?thesis
    proof (cases "pc + 2 + n > length p")
      case True
      have "decode_from sl f p pc = Inr [overrun pc (uint c)]"
        using 3 True slice_one [OF assms, of pc p] slice_one [OF assms, of "pc + 1" p]
        by (subst decode_from.simps) (simp add: Let_def c_def n_def)
      then show ?thesis by (simp add: overrun_def)
    next
      case False
      define a where "a = take n (drop (pc + 2) p)"
      have la: "length a = n" using False by (simp add: a_def)
      have w: "p ! (pc + 1) = of_nat (length a)" by (simp add: la n_def)
      have de: "drop pc p = enc (c, a) @ drop (pc + 2 + n) p"
      proof -
        have "drop (pc + 2) p = a @ drop (pc + 2 + n) p"
          unfolding a_def by (metis add.commute append_take_drop_id drop_drop)
        then show ?thesis unfolding d using w by (simp add: enc_def c_def)
      qed
      note st = decode_step [OF assms de, unfolded la, OF n, of f]
      have e: "ins_opcode (make_instruction sl f pc (uint c) a) = uint c" "ins_args (make_instruction sl f pc (uint c) a) = a"
        "ins_error (make_instruction sl f pc (uint c) a) = None" by (simp_all add: make_instruction_def)
      show ?thesis
      proof (cases "c = 0")
        case True
        then show ?thesis using st de e by simp
      next
        case False
        have "length p - (pc + 2 + n) < length p - pc" using 3 by linarith
        then obtain r rest where r: "decode_from sl f p (pc + 2 + n) = Inr r"
          "drop (pc + 2 + n) p = concat (map (\<lambda>i. enc (of_int (ins_opcode i), ins_args i)) (filter (\<lambda>i. ins_error i = None) r)) @ rest"
          using less [of "pc + 2 + n"] by blast
        then have "decode_from sl f p pc = Inr (make_instruction sl f pc (uint c) a # r)" using st False by simp
        then show ?thesis using de e r(2) by simp
      qed
    qed
  qed
qed

subsection \<open>Properties\<close>

text \<open>C17: Decoding inverts encoding: a program of any instructions with arguments of up to 255 bytes is listed
  instruction by instruction, each with its position; a Stop ends the listing, whatever follows it.\<close>

theorem decode_lists_program:
  assumes "slice_ok sl" "\<forall>(c, a)\<in>set is. c \<noteq> 0 \<and> length a < 256" "length s < 256"
  shows "decodeProgram sl f (concat (map enc is)) = Inr (layout sl f 0 is)
    \<and> decodeProgram sl f (concat (map enc is) @ enc (0, s) @ junk) = Inr (layout sl f 0 is @ layout sl f (length (concat (map enc is))) [(0, s)])"
proof
  show "decodeProgram sl f (concat (map enc is)) = Inr (layout sl f 0 is)"
    using decode_encoded [OF assms(1,2), of 0 "concat (map enc is)" "[]" f]
    by (simp add: decodeProgram_def decode_end)
  have "decode_from sl f (concat (map enc is) @ enc (0, s) @ junk) (length (concat (map enc is)))
      = Inr [make_instruction sl f (length (concat (map enc is))) 0 s]"
    using decode_step [OF assms(1) _ assms(3), of "length (concat (map enc is))"
        "concat (map enc is) @ enc (0, s) @ junk" 0 junk f] by simp
  then show "decodeProgram sl f (concat (map enc is) @ enc (0, s) @ junk)
      = Inr (layout sl f 0 is @ layout sl f (length (concat (map enc is))) [(0, s)])"
    using decode_encoded [OF assms(1,2), of 0 "concat (map enc is) @ enc (0, s) @ junk" "enc (0, s) @ junk" f]
    by (simp add: decodeProgram_def)
qed

definition plain_slice :: slicer where
  "plain_slice b i j = (if i > 0 \<and> i \<ge> length b then Inl SliceOffset
     else Inr (case j of None \<Rightarrow> drop i b | Some k \<Rightarrow> take (k - i) (drop i b)))"

lemma plain_slice_ok: "slice_ok plain_slice"
  by (auto simp: slice_ok_def plain_slice_def)

theorem decode_lists_program_witness:
  "decodeProgram plain_slice (\<lambda>t. []) (concat (map enc [(0x23, [1, 2]), (0x50, [])]))
    = Inr (layout plain_slice (\<lambda>t. []) 0 [(0x23, [1, 2]), (0x50, [])])"
  using decode_lists_program [OF plain_slice_ok, of "[(0x23, [1, 2]), (0x50, [])]" "[]" "\<lambda>t. []" "[]"] by simp

text \<open>No program makes the decoder throw or run on: it lists some instructions, and those it lists without
  an error are, byte for byte, the beginning of the program.\<close>

theorem decode_total:
  assumes "slice_ok sl"
  shows "\<exists>is rest. decodeProgram sl f p = Inr is
    \<and> p = concat (map (\<lambda>i. enc (of_int (ins_opcode i), ins_args i)) (filter (\<lambda>i. ins_error i = None) is)) @ rest"
  using decode_some_prefix [OF assms, of f p 0] by (simp add: decodeProgram_def)

theorem decode_total_witness:
  "\<exists>is rest. decodeProgram plain_slice (\<lambda>t. []) [0x02, 9, 0] = Inr is
    \<and> [0x02, 9, 0] = concat (map (\<lambda>i. enc (of_int (ins_opcode i), ins_args i)) (filter (\<lambda>i. ins_error i = None) is)) @ rest"
  by (rule decode_total [OF plain_slice_ok])

text \<open>The salt the order builder gives a series leg is eight bytes of series id and one of leg; the viewer reads
  nine bytes as a risk group, so leg 2 (EXIT) of series 7 is shown as \<open>ISSUE_CALM\<close> of group 7.\<close>

theorem series_salt_shown_as_group:
  "decodeArgs plain_slice (\<lambda>t. []) 0x02 [0, 0, 0, 0, 0, 0, 0, 7, 2] =
    Inr [\<lparr>arg_label = ''groupId'', arg_value = ''7 (risk group)'', arg_raw = ''7''\<rparr>,
         \<lparr>arg_label = ''mode'', arg_value = ''2 '' @ [CHR 0xC2, CHR 0xB7] @ '' ISSUE_CALM'', arg_raw = ''2''\<rparr>]"
  by code_simp

text \<open>An order whose program starts where its data ends makes the slicer, and so the decoder, throw.\<close>

theorem empty_program_throws:
  "decodeOrder plain_slice (\<lambda>t. []) ''0x01'' (40 * 2 ^ 208) (replicate 40 0) = Inl SliceOffset"
  by code_simp

end
