(* ===== verification/Web_Tx.thy ===== *)
theory Web_Tx
  imports Web_Format Web_Series Web_Portfolio
begin

text \<open>
  \<open>web/src/lib/tx.ts\<close>, the machinery: the step model of the progress list, errors and their messages, the
  one way a transaction is sent, allowances, the create checkpoint in local storage and the hook that
  runs a flow. A flow is a function of the page's state that returns a value or throws. The chain, the
  wallet and the other library calls are a record of parameters: each call takes the outside world,
  returns a value or throws, and leaves a world that may have changed in any way. A text is the list of
  its UTF-8 bytes.
\<close>

definition em_dash :: string where "em_dash = [CHR 0xE2, CHR 0x80, CHR 0x94]"
definition mid_dot :: string where "mid_dot = [CHR 0xC2, CHR 0xB7]"

subsection \<open>Errors\<close>

datatype err_code = CodeNum int | CodeStr string

datatype thrown =
    ErrorObject (err_code: "err_code option") (err_name: "string option") (err_short: "string option")
      (err_message: "string option") (err_reason: "string option") (err_cause: "thrown option")
  | ErrorPrimitive string

definition new_Error :: "string \<Rightarrow> thrown" where
  "new_Error msg = ErrorObject None (Some ''Error'') None (Some msg) None None"

text \<open>\<open>e?.f ?? \<dots>\<close>: a primitive has none of these fields.\<close>

definition field :: "(thrown \<Rightarrow> 'a option) \<Rightarrow> thrown option \<Rightarrow> 'a option" where
  "field f e = (case e of Some (ErrorObject c n s m r k) \<Rightarrow> f (ErrorObject c n s m r k) | _ \<Rightarrow> None)"

definition or_else :: "'a option \<Rightarrow> 'a option \<Rightarrow> 'a option" where
  "or_else a b = (case a of None \<Rightarrow> b | Some x \<Rightarrow> Some x)"

fun occurs :: "string \<Rightarrow> string \<Rightarrow> bool" where
  "occurs p [] = (p = [])"
| "occurs p (c # cs) = (take (length p) (c # cs) = p \<or> occurs p cs)"

definition isUserRejection :: "thrown \<Rightarrow> bool" where
  "isUserRejection e =
     (let cause = field err_cause (Some e);
          code = or_else (field err_code (Some e)) (or_else (field err_code cause) (field err_code (field err_cause cause)));
          name = or_else (field err_name (Some e)) (field err_name cause);
          msg = (case or_else (field err_short (Some e)) (field err_message (Some e)) of None \<Rightarrow> '''' | Some m \<Rightarrow> toLowerCase m)
      in code = Some (CodeNum 4001) \<or> code = Some (CodeStr ''ACTION_REJECTED'')
         \<or> name = Some ''UserRejectedRequestError''
         \<or> occurs ''user rejected'' msg \<or> occurs ''user denied'' msg \<or> occurs ''rejected the request'' msg)"

definition errorMessage :: "thrown \<Rightarrow> string" where
  "errorMessage e =
     (let cause = field err_cause (Some e) in
      case or_else (field err_reason cause) (or_else (field err_short (Some e)) (or_else (field err_short cause)
        (or_else (field err_message (Some e)) (field err_message cause)))) of
        Some m \<Rightarrow> m
      | None \<Rightarrow> (case e of ErrorPrimitive s \<Rightarrow> s | _ \<Rightarrow> ''[object Object]''))"

subsection \<open>Steps\<close>

datatype tx_phase = Todo | Preparing | Confirm | Pending | Confirmed | Skipped | Failed | Rejected

record step_plan =
  sp_key :: string
  sp_label :: string
  sp_detail :: "string option"

record step_state = step_plan +
  sp_phase :: tx_phase
  sp_hash :: "string option"
  sp_error :: "string option"
  sp_note :: "string option"

definition fresh_step :: "step_plan \<Rightarrow> step_state" where
  "fresh_step p = step_plan.extend p \<lparr>sp_phase = Todo, sp_hash = None, sp_error = None, sp_note = None\<rparr>"

text \<open>A patch changes the fields it names; a field given as \<open>undefined\<close> is cleared.\<close>

type_synonym patch = "step_state \<Rightarrow> step_state"

definition to_phase :: "tx_phase \<Rightarrow> patch" where "to_phase ph s = s\<lparr>sp_phase := ph\<rparr>"
definition with_note :: "string option \<Rightarrow> patch" where "with_note n s = s\<lparr>sp_note := n\<rparr>"
definition with_error :: "string option \<Rightarrow> patch" where "with_error n s = s\<lparr>sp_error := n\<rparr>"
definition with_hash :: "string \<Rightarrow> patch" where "with_hash h s = s\<lparr>sp_hash := Some h\<rparr>"

definition patch_step :: "string \<Rightarrow> patch \<Rightarrow> step_state list \<Rightarrow> step_state list" where
  "patch_step key f prev = map (\<lambda>s. if sp_key s = key then f s else s) prev"

subsection \<open>Transactions and the outside\<close>

type_synonym order = "string \<times> int \<times> string"

datatype tx_call =
    Approve address address int
  | CreateVault | Deposit address int | WithdrawFree address int address
  | CreateSeries bool address web_params | StopIssuance int | CloseSeries int
  | Swap order int string | BurnWorthless int int | Checkpoint int int | Finalize int
  | CreateGroupVault | CreateGroup bool address group_params | AllocateExitBuffer int int | FundExitBuffer int int
  | WithdrawExitBuffer int int | GroupCheckpoint int int | GroupFinalize int | BurnWorthlessGroup int bool int

text \<open>A receipt, with what the first log of each event it is searched for holds.\<close>

record tx_receipt =
  rc_success :: bool
  rc_hash :: string
  rc_vaultCreated :: "address option"
  rc_seriesCreated :: "(int \<times> address) option"
  rc_groupCreated :: "int option"
  rc_swapped :: "(int \<times> int) option"

text \<open>The saved checkpoint of a creation; an entry that does not parse is \<open>Corrupt\<close>.\<close>

record create_checkpoint =
  cc_account :: address
  cc_createHash :: string
  cc_id :: "string option"
  cc_receipt :: "address option"

datatype stored = Corrupt | Saved create_checkpoint

type_synonym ('w, 'a) outside = "'w \<Rightarrow> (thrown + 'a) \<times> 'w"

record 'w env =
  e_usdc :: address
  e_portfolioMarket :: address
  e_chainId :: int
  e_seriesFactory :: address
  e_takerSpender :: address
  e_activeChain :: int
  e_now :: "('w, int) outside"
  e_account :: "('w, address option \<times> int) outside"
  e_switchChain :: "('w, unit) outside"
  e_walletClient :: "('w, unit) outside"
  e_simulate :: "address \<Rightarrow> tx_call \<Rightarrow> ('w, unit) outside"
  e_write :: "tx_call \<Rightarrow> ('w, string) outside"
  e_wait :: "string \<Rightarrow> ('w, tx_receipt) outside"
  e_allowance :: "address \<Rightarrow> address \<Rightarrow> address \<Rightarrow> ('w, int) outside"
  e_vaultOf :: "address \<Rightarrow> ('w, address) outside"
  e_portfolioVaultOf :: "address \<Rightarrow> ('w, address) outside"
  e_freeQuote :: "address \<Rightarrow> ('w, int) outside"
  e_quoteIssueExactIn :: "int \<Rightarrow> int \<Rightarrow> ('w, int \<times> int) outside"
  e_quoteIssueExactOut :: "int \<Rightarrow> int \<Rightarrow> ('w, int \<times> int) outside"
  e_quoteExitExactIn :: "int \<Rightarrow> int \<Rightarrow> ('w, int \<times> int) outside"
  e_quoteSettleExactIn :: "int \<Rightarrow> int \<Rightarrow> ('w, int \<times> int) outside"
  e_readOrder :: "int \<Rightarrow> leg \<Rightarrow> ('w, order) outside"
  e_legDirection :: "int \<Rightarrow> leg \<Rightarrow> ('w, bool) outside"
  e_readOrderFor :: "int \<Rightarrow> pmode \<Rightarrow> ('w, order) outside"
  e_buildTakerData :: "address \<Rightarrow> bool \<Rightarrow> bool \<Rightarrow> int \<Rightarrow> int \<Rightarrow> bool \<Rightarrow> ('w, string) outside"
  e_routerQuote :: "order \<Rightarrow> int \<Rightarrow> string \<Rightarrow> ('w, int \<times> int) outside"
  e_progress :: "int \<Rightarrow> ('w, int \<times> int \<times> int) outside"
  e_groupProgress :: "int \<Rightarrow> ('w, int \<times> int \<times> int) outside"
  e_setItem :: "string \<Rightarrow> stored \<Rightarrow> ('w, unit) outside"

subsection \<open>Flows\<close>

record 'w page =
  pg_steps :: "step_state list"
  pg_storage :: "string \<Rightarrow> stored option"
  pg_world :: 'w

type_synonym ('w, 'a) flow = "'w page \<Rightarrow> (thrown + 'a) \<times> 'w page"

definition return :: "'a \<Rightarrow> ('w, 'a) flow" where
  "return x s = (Inr x, s)"

definition throw :: "thrown \<Rightarrow> ('w, 'a) flow" where
  "throw e s = (Inl e, s)"

definition bind :: "('w, 'a) flow \<Rightarrow> ('a \<Rightarrow> ('w, 'b) flow) \<Rightarrow> ('w, 'b) flow" where
  "bind m f s = (case m s of (Inl e, s1) \<Rightarrow> (Inl e, s1) | (Inr x, s1) \<Rightarrow> f x s1)"

definition next_do :: "('w, unit) flow \<Rightarrow> ('w, 'b) flow \<Rightarrow> ('w, 'b) flow" where
  "next_do m n = bind m (\<lambda>_. n)"

definition await :: "('w, 'a) outside \<Rightarrow> ('w, 'a) flow" where
  "await f s = (case f (pg_world s) of (r, w) \<Rightarrow> (r, s\<lparr>pg_world := w\<rparr>))"

definition report :: "string \<Rightarrow> patch \<Rightarrow> ('w, unit) flow" where
  "report key f s = (Inr (), s\<lparr>pg_steps := patch_step key f (pg_steps s)\<rparr>)"

definition get_item :: "string \<Rightarrow> ('w, stored option) flow" where
  "get_item key s = (Inr (pg_storage s key), s)"

text \<open>\<open>setItem\<close> throws when the storage has no room, and then leaves the entry as it was.\<close>

definition set_item :: "'w env \<Rightarrow> string \<Rightarrow> stored \<Rightarrow> ('w, unit) flow" where
  "set_item E key v =
     next_do (await (e_setItem E key v)) (\<lambda>s. (Inr (), s\<lparr>pg_storage := (pg_storage s)(key \<mapsto> v)\<rparr>))"

definition remove_item :: "string \<Rightarrow> ('w, unit) flow" where
  "remove_item key s = (Inr (), s\<lparr>pg_storage := (pg_storage s)(key := None)\<rparr>)"

text \<open>\<open>a.startsWith(p)\<close>.\<close>

definition starts_with :: "string \<Rightarrow> string \<Rightarrow> bool" where
  "starts_with p a \<longleftrightarrow> take (length p) a = p"

text \<open>\<open>BigInt(text)\<close>: a signed decimal, or a prefixed hexadecimal, octal or binary; nothing is zero.\<close>

definition BigInt_text :: "string \<Rightarrow> thrown + int" where
  "BigInt_text input =
     (let s = trim input; (neg, b) = unsign s;
          b' = (if s \<noteq> '''' \<and> hd s = CHR ''+'' then tl s else b);
          prefixed = (\<lambda>p n. if map lower_char (take 2 s) = p then radix_parse n (drop 2 s) else None)
      in if s = '''' then Inr 0
         else if all_digits b' then Inr (if neg then - digits_val b' else digits_val b')
         else case or_else (prefixed ''0x'' 16) (or_else (prefixed ''0o'' 8) (prefixed ''0b'' 2)) of
                Some v \<Rightarrow> Inr v
              | None \<Rightarrow> Inl (ErrorObject None (Some ''SyntaxError'') None
                          (Some (''Cannot convert '' @ input @ '' to a BigInt'')) None None))"

lemma bind_simps [simp]:
  "bind (return x) f = f x" "bind (throw e) f = throw e"
  by (auto simp: bind_def return_def throw_def)

lemma bind_assoc: "bind (bind m f) g = bind m (\<lambda>x. bind (f x) g)"
  by (rule ext) (auto simp: bind_def split: prod.splits sum.splits)

lemma next_assoc: "next_do (next_do m n) k = next_do m (next_do n k)"
  by (simp add: next_do_def bind_assoc)

lemma bind_cases: "bind m f s = (r, s') \<longleftrightarrow>
    (\<exists>e. m s = (Inl e, s') \<and> r = Inl e) \<or> (\<exists>x s1. m s = (Inr x, s1) \<and> f x s1 = (r, s'))"
  by (auto simp: bind_def split: prod.splits sum.splits)

subsection \<open>Sending a transaction\<close>

definition sendTx :: "'w env \<Rightarrow> address \<Rightarrow> string \<Rightarrow> tx_call \<Rightarrow> (string \<Rightarrow> ('w, unit) flow) \<Rightarrow> ('w, tx_receipt) flow" where
  "sendTx E account key call onHash =
     next_do (report key (with_error None \<circ> to_phase Preparing))
     (next_do (await (e_simulate E account call))
     (next_do (await (e_walletClient E))
     (next_do (report key (to_phase Confirm))
     (bind (await (e_write E call)) (\<lambda>hash.
      next_do (onHash hash)
     (next_do (report key (with_hash hash \<circ> to_phase Pending))
     (bind (await (e_wait E hash)) (\<lambda>receipt.
       if \<not> rc_success receipt
       then next_do (report key (with_error (Some ''Transaction reverted'') \<circ> to_phase Failed))
              (throw (new_Error ''Transaction reverted on-chain''))
       else next_do (report key (to_phase Confirmed)) (return receipt)))))))))"

definition send :: "'w env \<Rightarrow> address \<Rightarrow> string \<Rightarrow> tx_call \<Rightarrow> ('w, tx_receipt) flow" where
  "send E account key call = sendTx E account key call (\<lambda>_. return ())"

definition ensureAllowance :: "'w env \<Rightarrow> address \<Rightarrow> string \<Rightarrow> address \<Rightarrow> address \<Rightarrow> int \<Rightarrow> ('w, unit) flow" where
  "ensureAllowance E account key token spender amount =
     next_do (report key (to_phase Preparing))
     (bind (await (e_allowance E token account spender)) (\<lambda>current.
       if current \<ge> amount
       then report key (with_note (Some ''Allowance already sufficient'') \<circ> to_phase Skipped)
       else bind (send E account key (Approve token spender amount)) (\<lambda>_. return ())))"

definition DEADLINE_SECONDS :: int where "DEADLINE_SECONDS = 20 * 60"

definition clampSlippage :: "rat \<Rightarrow> int" where
  "clampSlippage bps = max 0 (min 5000 (math_round bps))"

definition min_out :: "int \<Rightarrow> int \<Rightarrow> int" where
  "min_out quoted slip = bdiv (quoted * (BPS - slip)) BPS"

definition max_in :: "int \<Rightarrow> int \<Rightarrow> int" where
  "max_in quoted slip = bdiv (quoted * (BPS + slip)) BPS"

text \<open>What a swap reports back.\<close>

record swap_result =
  sr_hash :: string
  sr_amountIn :: "int option"
  sr_amountOut :: "int option"
  sr_requested :: int
  sr_partial :: bool

definition swap_result_of :: "tx_receipt \<Rightarrow> int \<Rightarrow> int \<Rightarrow> swap_result" where
  "swap_result_of receipt filled requested =
     \<lparr>sr_hash = rc_hash receipt, sr_amountIn = map_option fst (rc_swapped receipt),
      sr_amountOut = map_option snd (rc_swapped receipt), sr_requested = requested, sr_partial = (filled < requested)\<rparr>"

subsection \<open>The hook\<close>

definition active :: "tx_phase \<Rightarrow> bool" where
  "active ph \<longleftrightarrow> ph = Preparing \<or> ph = Confirm \<or> ph = Pending"

record ('w, 'a) tx_flow =
  tf_page :: "'w page"
  tf_running :: bool
  tf_error :: "string option"
  tf_result :: "'a option"

definition settle_steps :: "thrown \<Rightarrow> step_state list \<Rightarrow> step_state list" where
  "settle_steps e prev =
     (let rejected = isUserRejection e; msg = (if rejected then ''Rejected in wallet'' else errorMessage e)
      in map (\<lambda>s. if active (sp_phase s)
           then s\<lparr>sp_phase := (if rejected then Rejected else Failed), sp_error := Some msg\<rparr> else s) prev)"

definition run_body :: "'w env \<Rightarrow> (address \<Rightarrow> ('w, 'a) flow) \<Rightarrow> ('w, 'a) flow" where
  "run_body E fn =
     bind (await (e_account E)) (\<lambda>(addr, cid).
       case addr of None \<Rightarrow> throw (new_Error ''Connect a wallet first'')
       | Some a \<Rightarrow>
           if e_chainId E \<noteq> e_activeChain E then throw (new_Error ''Deployment manifest does not match the configured chain'')
           else next_do (if cid \<noteq> e_activeChain E then await (e_switchChain E) else return ()) (fn a))"

definition run_flow :: "'w env \<Rightarrow> step_plan list \<Rightarrow> (address \<Rightarrow> ('w, 'a) flow) \<Rightarrow> 'w page \<Rightarrow> ('w, 'a) tx_flow" where
  "run_flow E plan fn s =
     (case run_body E fn (s\<lparr>pg_steps := map fresh_step plan\<rparr>) of
        (Inr r, s1) \<Rightarrow> \<lparr>tf_page = s1, tf_running = False, tf_error = None, tf_result = Some r\<rparr>
      | (Inl e, s1) \<Rightarrow>
          \<lparr>tf_page = s1\<lparr>pg_steps := settle_steps e (pg_steps s1)\<rparr>, tf_running = False,
           tf_error = Some (if isUserRejection e then ''Rejected in wallet'' else errorMessage e), tf_result = None\<rparr>)"

definition reset_flow :: "step_plan list \<Rightarrow> ('w, 'a) tx_flow \<Rightarrow> ('w, 'a) tx_flow" where
  "reset_flow plan F =
     F\<lparr>tf_page := (tf_page F)\<lparr>pg_steps := map fresh_step plan\<rparr>, tf_error := None, tf_result := None\<rparr>"

end
