(* ===== verification/Web_Tx_Series.thy ===== *)
theory Web_Tx_Series
  imports Web_Tx
begin

text \<open>
  \<open>web/src/lib/tx.ts\<close>, the flows of the series product: the writer's vault, the creation of a series and
  its local-storage checkpoint, the stop and the close, the holder's buy, exit, redemption and burn, and
  the two oracle calls anyone may send.
\<close>

abbreviation plan :: "string \<Rightarrow> string \<Rightarrow> string \<Rightarrow> step_plan" where
  "plan key label detail \<equiv> \<lparr>sp_key = key, sp_label = label, sp_detail = Some detail\<rparr>"

subsection \<open>The vault\<close>

definition CREATE_VAULT_PLAN :: "step_plan list" where
  "CREATE_VAULT_PLAN =
     [plan ''createVault'' ''Create maker vault'' ''A non-upgradeable vault at a deterministic address, owned by you'']"

definition runCreateVault :: "'w env \<Rightarrow> address \<Rightarrow> ('w, string \<times> address) flow" where
  "runCreateVault E account =
     bind (send E account ''createVault'' CreateVault) (\<lambda>receipt.
     bind (case rc_vaultCreated receipt of Some v \<Rightarrow> return v | None \<Rightarrow> await (e_vaultOf E account)) (\<lambda>vault.
     return (rc_hash receipt, vault)))"

definition DEPOSIT_PLAN :: "step_plan list" where
  "DEPOSIT_PLAN =
     [plan ''approve'' ''Approve USDC'' ''Allow your vault to pull the deposit'',
      plan ''deposit'' ''Fund the vault'' ''Collateral the vault holds, not your wallet'']"

definition runDeposit :: "'w env \<Rightarrow> address \<Rightarrow> address \<Rightarrow> int \<Rightarrow> ('w, string) flow" where
  "runDeposit E account vault amount =
     (if amount \<le> 0 then throw (new_Error ''Enter an amount to deposit'')
      else next_do (ensureAllowance E account ''approve'' (e_usdc E) vault amount)
          (bind (send E account ''deposit'' (Deposit vault amount)) (\<lambda>receipt. return (rc_hash receipt))))"

definition WITHDRAW_FREE_PLAN :: "step_plan list" where
  "WITHDRAW_FREE_PLAN =
     [plan ''withdraw'' ''Withdraw free collateral'' ''Only what is not reserved for outstanding receipts'']"

definition runWithdrawFree :: "'w env \<Rightarrow> address \<Rightarrow> address \<Rightarrow> int \<Rightarrow> address \<Rightarrow> ('w, string) flow" where
  "runWithdrawFree E account vault amount recipient =
     (if amount \<le> 0 then throw (new_Error ''Enter an amount to withdraw'')
      else bind (send E account ''withdraw'' (WithdrawFree vault amount recipient)) (\<lambda>receipt. return (rc_hash receipt)))"

subsection \<open>Creating a series\<close>

definition CREATE_SERIES_PLAN :: "step_plan list" where
  "CREATE_SERIES_PLAN =
     [plan ''vault'' ''Maker vault'' ''Created if you do not have one yet'',
      plan ''approve'' ''Approve USDC'' ''Allow your vault to pull the collateral'',
      plan ''fund'' ''Fund the vault'' ''Enough to back the whole inventory at the cap'',
      plan ''create'' ''Create and ship''
        ''Mints the receipts and ships ISSUE, EXIT and SETTLE to Aqua in one transaction'']"

record create_series_result =
  cs_id :: int
  cs_receipt :: address
  cs_vault :: address
  cs_createHash :: string

record create_series_input =
  csi_params :: web_params
  csi_vault :: "address option"
  csi_depositAmount :: "int option"
  csi_backdatedDemo :: bool

definition createCheckpointKey :: "'w env \<Rightarrow> address \<Rightarrow> address \<Rightarrow> web_params \<Rightarrow> string" where
  "createCheckpointKey E account vault p =
     join_with '':''
       [''tremor:v2:create'', dec_string (e_chainId E), toLowerCase (e_seriesFactory E), toLowerCase account,
        toLowerCase vault,
        join_with '':''
          [web_params.feed p, web_params.quoteToken p, dec_string (web_params.start p), dec_string (web_params.expiry p),
           dec_string (web_params.saleEnd p), dec_string (web_params.sampleInterval p), dec_string (unitNotional p),
           dec_string (web_params.capVariance p), dec_string (anchorVariance p), dec_string (impactPerUnit p),
           dec_string (halfLife p), dec_string (halfSpreadBps p), dec_string (maxUnits p)]]"

text \<open>\<open>keys\<close> are the keys of the storage, in the order \<open>localStorage.key(i)\<close> gives them.\<close>

definition purgeLegacyCheckpoints :: "string list \<Rightarrow> ('w, unit) flow" where
  "purgeLegacyCheckpoints keys =
     fold (\<lambda>k m. next_do m (remove_item k)) (filter (starts_with ''tremor:write:'') keys) (return ())"

definition loadCreateCheckpoint :: "string \<Rightarrow> ('w, create_checkpoint option) flow" where
  "loadCreateCheckpoint key =
     bind (get_item key) (\<lambda>raw. case raw of
         None \<Rightarrow> return None
       | Some Corrupt \<Rightarrow> next_do (remove_item key) (return None)
       | Some (Saved c) \<Rightarrow> return (Some c))"

definition saveCreateCheckpoint :: "'w env \<Rightarrow> string \<Rightarrow> create_checkpoint \<Rightarrow> ('w, unit) flow" where
  "saveCreateCheckpoint E key c = set_item E key (Saved c)"

definition createdSeries :: "tx_receipt \<Rightarrow> ('w, int \<times> address) flow" where
  "createdSeries receipt =
     (case rc_seriesCreated receipt of
        None \<Rightarrow> throw (new_Error ''SeriesCreated event not found in receipt'')
      | Some ev \<Rightarrow> return ev)"

definition zero_address :: address where
  "zero_address = ''0x0000000000000000000000000000000000000000''"

text \<open>The parts of \<open>runCreateSeries\<close>: the vault, the collateral, the creation and its result.\<close>

definition no_vault :: "address \<Rightarrow> bool" where
  "no_vault v \<longleftrightarrow> v = '''' \<or> v = zero_address"

definition create_vault_part :: "'w env \<Rightarrow> address \<Rightarrow> create_series_input \<Rightarrow> ('w, address) flow" where
  "create_vault_part E account inp =
     next_do (report ''vault'' (to_phase Preparing))
     (bind (await (e_vaultOf E account)) (\<lambda>existing.
        let v = (case csi_vault inp of Some v \<Rightarrow> v | None \<Rightarrow> existing) in
        if no_vault v then bind (runCreateVault E account) (\<lambda>created. return (snd created))
        else next_do (report ''vault'' (with_note (Some (''Using '' @ v)) \<circ> to_phase Skipped)) (return v)))"

definition fund_part :: "'w env \<Rightarrow> address \<Rightarrow> create_series_input \<Rightarrow> address \<Rightarrow> ('w, unit) flow" where
  "fund_part E account inp vault =
     (let required = maxSeriesLiability (csi_params inp) in
      bind (await (e_freeQuote E vault)) (\<lambda>free.
        let shortfall = (if required > free then required - free else 0);
            amount = (case csi_depositAmount inp of Some d \<Rightarrow> d | None \<Rightarrow> shortfall)
        in if amount > 0
           then next_do (ensureAllowance E account ''approve'' (web_params.quoteToken (csi_params inp)) vault amount)
                  (bind (send E account ''fund'' (Deposit vault amount)) (\<lambda>_. return ()))
           else next_do (report ''approve'' (with_note (Some ''No deposit needed'') \<circ> to_phase Skipped))
                  (report ''fund'' (with_note (Some ''The vault already backs this series'') \<circ> to_phase Skipped))))"

definition incomplete :: "create_checkpoint \<Rightarrow> bool" where
  "incomplete c \<longleftrightarrow> cc_id c = None \<or> cc_receipt c = None"

definition recover_part :: "'w env \<Rightarrow> string \<Rightarrow> create_checkpoint \<Rightarrow> ('w, create_checkpoint) flow" where
  "recover_part E key c =
     next_do (report ''create'' (with_note (Some ''Recovering the submitted creation transaction'')
                \<circ> with_hash (cc_createHash c) \<circ> to_phase Pending))
     (bind (await (e_wait E (cc_createHash c))) (\<lambda>recovered.
        if \<not> rc_success recovered
        then next_do (remove_item key)
               (throw (new_Error ''The saved creation transaction reverted; retrying will start a new series''))
        else bind (createdSeries recovered) (\<lambda>(i, r).
               let c' = c\<lparr>cc_id := Some (dec_string i), cc_receipt := Some r\<rparr> in
               next_do (saveCreateCheckpoint E key c')
              (next_do (report ''create'' (with_hash (cc_createHash c') \<circ> to_phase Confirmed)) (return c')))))"

definition submit_part :: "'w env \<Rightarrow> address \<Rightarrow> create_series_input \<Rightarrow> address \<Rightarrow> string \<Rightarrow> ('w, create_checkpoint) flow" where
  "submit_part E account inp vault key =
     bind (sendTx E account ''create'' (CreateSeries (csi_backdatedDemo inp) vault (csi_params inp))
             (\<lambda>h. saveCreateCheckpoint E key \<lparr>cc_account = account, cc_createHash = h, cc_id = None, cc_receipt = None\<rparr>))
       (\<lambda>created. bind (createdSeries created) (\<lambda>(i, r).
          let c = \<lparr>cc_account = account, cc_createHash = rc_hash created, cc_id = Some (dec_string i), cc_receipt = Some r\<rparr>
          in next_do (saveCreateCheckpoint E key c) (return c)))"

definition checkpoint_part :: "'w env \<Rightarrow> address \<Rightarrow> create_series_input \<Rightarrow> address \<Rightarrow> string \<Rightarrow> ('w, create_checkpoint) flow" where
  "checkpoint_part E account inp vault key =
     bind (loadCreateCheckpoint key) (\<lambda>saved. case saved of
         None \<Rightarrow> submit_part E account inp vault key
       | Some c \<Rightarrow> if incomplete c then recover_part E key c else return c)"

definition finish_create :: "string \<Rightarrow> address \<Rightarrow> create_checkpoint \<Rightarrow> ('w, create_series_result) flow" where
  "finish_create key vault c =
     (case (cc_id c, cc_receipt c) of
        (Some i, Some r) \<Rightarrow>
          next_do (report ''create'' (with_note (Some (''Series #'' @ i @ '' '' @ mid_dot @ '' '' @ r))))
          (next_do (remove_item key)
          (case BigInt_text i of
             Inl e \<Rightarrow> throw e
           | Inr n \<Rightarrow> return \<lparr>cs_id = n, cs_receipt = r, cs_vault = vault, cs_createHash = cc_createHash c\<rparr>))
      | _ \<Rightarrow> throw (new_Error ''Creation checkpoint is incomplete''))"

definition runCreateSeries :: "'w env \<Rightarrow> address \<Rightarrow> create_series_input \<Rightarrow> ('w, create_series_result) flow" where
  "runCreateSeries E account inp =
     bind (create_vault_part E account inp) (\<lambda>vault.
     next_do (fund_part E account inp vault)
     (let key = createCheckpointKey E account vault (csi_params inp) in
      bind (checkpoint_part E account inp vault key) (finish_create key vault)))"

definition STOP_ISSUANCE_PLAN :: "step_plan list" where
  "STOP_ISSUANCE_PLAN =
     [plan ''stop'' ''Stop issuance'' ''Permanently closes new sales. Exit and redemption stay open.'']"

definition runStopIssuance :: "'w env \<Rightarrow> address \<Rightarrow> int \<Rightarrow> ('w, string) flow" where
  "runStopIssuance E account n =
     bind (send E account ''stop'' (StopIssuance n)) (\<lambda>receipt. return (rc_hash receipt))"

definition CLOSE_SERIES_PLAN :: "step_plan list" where
  "CLOSE_SERIES_PLAN =
     [plan ''close'' ''Close series'' ''Docks the strategies, burns unsold inventory, releases the residual'']"

definition runCloseSeries :: "'w env \<Rightarrow> address \<Rightarrow> int \<Rightarrow> ('w, string) flow" where
  "runCloseSeries E account n =
     bind (send E account ''close'' (CloseSeries n)) (\<lambda>receipt. return (rc_hash receipt))"

subsection \<open>Trading\<close>

text \<open>
  The tail every swap flow ends with: the taker data over the leg's direction and a deadline, then
  \<open>router.swap\<close>. The order and the direction, which the source awaits together, are read in turn.
\<close>

definition swap_with :: "'w env \<Rightarrow> address \<Rightarrow> order \<Rightarrow> bool \<Rightarrow> bool \<Rightarrow> int \<Rightarrow> int \<Rightarrow> ('w, tx_receipt) flow" where
  "swap_with E account ord isExactIn isAToB amount threshold =
     bind (await (e_now E)) (\<lambda>now.
     bind (await (e_buildTakerData E account isExactIn isAToB threshold (now + DEADLINE_SECONDS) True)) (\<lambda>takerData.
     send E account ''swap'' (Swap ord amount takerData)))"

definition swap_leg :: "'w env \<Rightarrow> address \<Rightarrow> int \<Rightarrow> leg \<Rightarrow> bool \<Rightarrow> int \<Rightarrow> int \<Rightarrow> ('w, tx_receipt) flow" where
  "swap_leg E account n l isExactIn amount threshold =
     bind (await (e_readOrder E n l)) (\<lambda>ord.
     bind (await (e_legDirection E n l)) (\<lambda>isAToB.
     swap_with E account ord isExactIn isAToB amount threshold))"

definition BUY_PLAN :: "step_plan list" where
  "BUY_PLAN =
     [plan ''approve'' ''Approve USDC'' ''Allow the router to pull the premium'',
      plan ''swap'' ''Buy receipts'' ''router.swap on the ISSUE leg'']"

datatype buy_mode = ExactIn | ExactOut

record buy_params =
  bp_state :: series_state
  bp_mode :: buy_mode
  bp_amount :: int
  bp_slippageBps :: rat

text \<open>What a buy sends: the taker amount, the quote token it may need, and the limit.\<close>

definition buy_sizing :: "'w env \<Rightarrow> buy_params \<Rightarrow> ('w, int \<times> int \<times> int) flow" where
  "buy_sizing E p =
     (let n = id_of (bp_state p); slip = clampSlippage (bp_slippageBps p) in
      case bp_mode p of
        ExactIn \<Rightarrow>
          bind (await (e_quoteIssueExactIn E n (bp_amount p))) (\<lambda>(units, premium).
            if units = 0
            then throw (new_Error (''This amount buys 0 units '' @ em_dash
                          @ '' the market is at its cap, sold out, or the amount is dust''))
            else return (premium, premium, min_out units slip))
      | ExactOut \<Rightarrow>
          bind (await (e_quoteIssueExactOut E n (bp_amount p))) (\<lambda>(filled, premium).
            if filled = 0
            then throw (new_Error (''No units available '' @ em_dash
                          @ '' the market is at its cap, sold out, or the vault is fully committed''))
            else return (filled, max_in premium slip, max_in premium slip)))"

definition runBuy :: "'w env \<Rightarrow> address \<Rightarrow> buy_params \<Rightarrow> ('w, swap_result) flow" where
  "runBuy E account p =
     bind (buy_sizing E p) (\<lambda>(takerAmount, quoteNeeded, threshold).
       let isExactIn = (bp_mode p = ExactIn); clamped = (takerAmount < bp_amount p) in
       next_do (ensureAllowance E account ''approve'' (web_params.quoteToken (series_state.params (bp_state p)))
                  (e_takerSpender E) quoteNeeded)
      (next_do (report ''swap'' (with_note
                  (if clamped then Some ''Partial fill: sized to what the market can actually sell'' else None)
                  \<circ> to_phase Preparing))
      (bind (swap_leg E account (id_of (bp_state p)) Issue isExactIn takerAmount threshold) (\<lambda>receipt.
         let amounts = rc_swapped receipt;
             filled = (case amounts of None \<Rightarrow> takerAmount | Some (i, out) \<Rightarrow> if isExactIn then i else out)
         in return (swap_result_of receipt filled (bp_amount p))))))"

definition EXIT_PLAN :: "step_plan list" where
  "EXIT_PLAN =
     [plan ''approve'' ''Approve receipts'' ''Allow the router to pull your receipts'',
      plan ''swap'' ''Sell at the bid'' (''router.swap on the EXIT leg '' @ em_dash @ '' the receipts are burned'')]"

record exit_params =
  ep_state :: series_state
  ep_units :: int
  ep_slippageBps :: rat

definition runExit :: "'w env \<Rightarrow> address \<Rightarrow> exit_params \<Rightarrow> ('w, swap_result) flow" where
  "runExit E account p =
     (let n = id_of (ep_state p); slip = clampSlippage (ep_slippageBps p) in
      bind (await (e_quoteExitExactIn E n (ep_units p))) (\<lambda>(filledUnits, quoteOut).
        if filledUnits = 0 \<or> quoteOut = 0 then throw (new_Error ''The exit bid is zero for this size'')
        else
          next_do (ensureAllowance E account ''approve'' (receipt_of (ep_state p)) (e_takerSpender E) filledUnits)
         (next_do (report ''swap'' (with_note
                     (if filledUnits < ep_units p then Some ''Partial fill: sized to what is outstanding'' else None)
                     \<circ> to_phase Preparing))
         (bind (swap_leg E account n Exit True filledUnits (min_out quoteOut slip)) (\<lambda>receipt.
            let filled = (case rc_swapped receipt of None \<Rightarrow> filledUnits | Some (i, _) \<Rightarrow> i)
            in return (swap_result_of receipt filled (ep_units p)))))))"

definition REDEEM_PLAN :: "step_plan list" where
  "REDEEM_PLAN =
     [plan ''approve'' ''Approve receipts'' ''Allow the router to pull your receipts'',
      plan ''swap'' ''Redeem at final variance'' ''router.swap on the SETTLE leg'']"

definition runRedeem :: "'w env \<Rightarrow> address \<Rightarrow> exit_params \<Rightarrow> ('w, swap_result) flow" where
  "runRedeem E account p =
     (let n = id_of (ep_state p); slip = clampSlippage (ep_slippageBps p) in
      bind (await (e_quoteSettleExactIn E n (ep_units p))) (\<lambda>(filledUnits, quoteOut).
        if quoteOut = 0
        then throw (new_Error ''This series finalized worthless; burn the receipts instead of redeeming them'')
        else
          next_do (ensureAllowance E account ''approve'' (receipt_of (ep_state p)) (e_takerSpender E) filledUnits)
         (next_do (report ''swap'' (to_phase Preparing))
         (bind (swap_leg E account n Settle True filledUnits (min_out quoteOut slip)) (\<lambda>receipt.
            let filled = (case rc_swapped receipt of None \<Rightarrow> filledUnits | Some (i, _) \<Rightarrow> i)
            in return (swap_result_of receipt filled (ep_units p)))))))"

definition BURN_WORTHLESS_PLAN :: "step_plan list" where
  "BURN_WORTHLESS_PLAN =
     [plan ''burn'' ''Burn worthless receipts''
        ''A zero payout cannot go through SwapVM, which rejects a zero-output swap'']"

definition runBurnWorthless :: "'w env \<Rightarrow> address \<Rightarrow> int \<Rightarrow> int \<Rightarrow> ('w, string) flow" where
  "runBurnWorthless E account n units =
     (if units \<le> 0 then throw (new_Error ''Enter the units to burn'')
      else bind (send E account ''burn'' (BurnWorthless n units)) (\<lambda>receipt. return (rc_hash receipt)))"

subsection \<open>The accumulator\<close>

definition CHECKPOINT_PLAN :: "step_plan list" where
  "CHECKPOINT_PLAN =
     [plan ''checkpoint'' ''Update the market'' ''Stores the Chainlink samples that have passed. Anyone can do this.'']"

record checkpoint_result =
  cr_hash :: string
  cr_stored :: int
  cr_available :: int
  cr_done :: bool

definition checkpoint_budget :: "rat \<Rightarrow> int" where
  "checkpoint_budget maxSamples = max 1 (min 32 (math_round maxSamples))"

definition progress_note :: "int \<Rightarrow> int \<Rightarrow> int \<Rightarrow> string" where
  "progress_note stored avail tot =
     (if stored \<ge> avail then ''Window is current: '' @ dec_string stored @ '' of '' @ dec_string tot @ '' samples''
      else dec_string stored @ '' of '' @ dec_string avail @ '' samples stored '' @ em_dash @ '' run it again'')"

definition runCheckpoint :: "'w env \<Rightarrow> address \<Rightarrow> int \<Rightarrow> rat \<Rightarrow> ('w, checkpoint_result) flow" where
  "runCheckpoint E account n maxSamples =
     bind (send E account ''checkpoint'' (Checkpoint n (checkpoint_budget maxSamples))) (\<lambda>receipt.
     bind (await (e_progress E n)) (\<lambda>(stored, avail, tot).
     next_do (report ''checkpoint'' (with_note (Some (progress_note stored avail tot))))
     (return \<lparr>cr_hash = rc_hash receipt, cr_stored = stored, cr_available = avail, cr_done = (stored \<ge> avail)\<rparr>)))"

definition FINALIZE_PLAN :: "step_plan list" where
  "FINALIZE_PLAN =
     [plan ''finalize'' ''Finalize variance'' ''Fixes the final realized variance and the payout. Anyone can do this.'']"

definition runFinalize :: "'w env \<Rightarrow> address \<Rightarrow> int \<Rightarrow> ('w, string) flow" where
  "runFinalize E account n =
     bind (send E account ''finalize'' (Finalize n)) (\<lambda>receipt. return (rc_hash receipt))"

end
