(* ===== verification/Web_Tx_Group.thy ===== *)
theory Web_Tx_Group
  imports Web_Tx_Series
begin

text \<open>
  The flows of the risk groups in \<open>web/src/lib/tx.ts\<close>, and the quote they price against in
  \<open>web/src/lib/portfolio-chain.ts\<close>: the direction of a leg from the order of its token addresses, the
  mode of a kind and a side, and the router quote over the group's own order.
\<close>

subsection \<open>The router quote\<close>

fun less_string :: "string \<Rightarrow> string \<Rightarrow> bool" where
  "less_string _ [] = False"
| "less_string [] (_ # _) = True"
| "less_string (a # as) (b # bs) =
     ((of_char a :: nat) < of_char b \<or> a = b \<and> less_string as bs)"

definition portfolioIsAToB :: "pmode \<Rightarrow> address \<Rightarrow> address \<Rightarrow> bool" where
  "portfolioIsAToB mode usdc receipt =
     (let u = toLowerCase usdc; r = toLowerCase receipt in
      if mode = IssueHigh \<or> mode = IssueCalm then less_string u r else less_string r u)"

datatype quote_kind = QuoteIssue | QuoteExit | QuoteSettle

definition modeFor :: "quote_kind \<Rightarrow> side \<Rightarrow> pmode" where
  "modeFor kind sd = (if kind = QuoteIssue then issueMode sd else if kind = QuoteExit then exitMode sd else settleMode sd)"

fun kind_upper :: "quote_kind \<Rightarrow> string" where
  "kind_upper QuoteIssue = ''ISSUE''" | "kind_upper QuoteExit = ''EXIT''" | "kind_upper QuoteSettle = ''SETTLE''"

definition quoteGroup ::
    "'w env \<Rightarrow> group_state \<Rightarrow> quote_kind \<Rightarrow> side \<Rightarrow> bool \<Rightarrow> int \<Rightarrow> address \<Rightarrow> ('w, int \<times> int) flow" where
  "quoteGroup E g kind sd isExactIn amount taker =
     (if kind \<noteq> QuoteIssue \<and> \<not> isExactIn then throw (new_Error (kind_upper kind @ '' is exact-in only''))
      else
        let mode = modeFor kind sd;
            receipt = (if sd = High then highReceipt g else calmReceipt g);
            isAToB = portfolioIsAToB mode (group_params.quoteToken (group_state.params g)) receipt;
            threshold = (if isExactIn then 0 else 2 ^ 160)
        in bind (await (e_readOrderFor E (group_id g) mode)) (\<lambda>ord.
           bind (await (e_now E)) (\<lambda>now.
           bind (await (e_buildTakerData E taker isExactIn isAToB threshold (now + 20 * 60) True)) (\<lambda>takerData.
           await (e_routerQuote E ord amount takerData)))))"

subsection \<open>Creating a group\<close>

definition CREATE_GROUP_PLAN :: "step_plan list" where
  "CREATE_GROUP_PLAN =
     [plan ''vault'' ''Maker vault'' ''Created if you do not have one yet'',
      plan ''approve'' ''Approve USDC'' ''Allow your vault to pull the collateral'',
      plan ''fund'' ''Fund the vault'' ''Enough to back one full side at the cap'',
      plan ''create'' ''Create the paired market'' ''Mints HIGH and CALM receipts and ships all six legs in one transaction'']"

record create_group_input =
  cgi_params :: group_params
  cgi_vault :: "address option"
  cgi_depositAmount :: "int option"
  cgi_backdatedDemo :: bool

record create_group_result =
  cg_id :: int
  cg_vault :: address
  cg_createHash :: string

text \<open>The three numbered parts of \<open>runCreateGroup\<close>.\<close>

definition group_vault_part :: "'w env \<Rightarrow> address \<Rightarrow> create_group_input \<Rightarrow> ('w, address) flow" where
  "group_vault_part E account inp =
     next_do (report ''vault'' (to_phase Preparing))
     (bind (await (e_portfolioVaultOf E account)) (\<lambda>existing.
        let v = (case cgi_vault inp of Some v \<Rightarrow> v | None \<Rightarrow> existing) in
        if no_vault v then
          bind (send E account ''vault'' CreateGroupVault) (\<lambda>receipt.
            case rc_vaultCreated receipt of Some w \<Rightarrow> return w | None \<Rightarrow> await (e_portfolioVaultOf E account))
        else next_do (report ''vault'' (with_note (Some (''Using '' @ v)) \<circ> to_phase Skipped)) (return v)))"

definition group_fund_part :: "'w env \<Rightarrow> address \<Rightarrow> create_group_input \<Rightarrow> address \<Rightarrow> ('w, unit) flow" where
  "group_fund_part E account inp vault =
     (let required = maxGroupLiability (cgi_params inp) in
      bind (await (e_freeQuote E vault)) (\<lambda>free.
        let shortfall = (if required > free then required - free else 0);
            amount = (case cgi_depositAmount inp of Some d \<Rightarrow> d | None \<Rightarrow> shortfall)
        in if amount > 0
           then next_do (ensureAllowance E account ''approve'' (group_params.quoteToken (cgi_params inp)) vault amount)
                  (bind (send E account ''fund'' (Deposit vault amount)) (\<lambda>_. return ()))
           else next_do (report ''approve'' (with_note (Some ''No deposit needed'') \<circ> to_phase Skipped))
                  (report ''fund'' (with_note (Some ''The vault already backs this group'') \<circ> to_phase Skipped))))"

definition runCreateGroup :: "'w env \<Rightarrow> address \<Rightarrow> create_group_input \<Rightarrow> ('w, create_group_result) flow" where
  "runCreateGroup E account inp =
     bind (group_vault_part E account inp) (\<lambda>vault.
     next_do (group_fund_part E account inp vault)
     (bind (send E account ''create'' (CreateGroup (cgi_backdatedDemo inp) vault (cgi_params inp))) (\<lambda>created.
        case rc_groupCreated created of
          None \<Rightarrow> throw (new_Error ''GroupCreated event not found in receipt'')
        | Some g \<Rightarrow>
            next_do (report ''create'' (with_note (Some (''Group #'' @ dec_string g))))
              (return \<lparr>cg_id = g, cg_vault = vault, cg_createHash = rc_hash created\<rparr>))))"

subsection \<open>Trading a side\<close>

definition group_swap ::
    "'w env \<Rightarrow> address \<Rightarrow> group_state \<Rightarrow> pmode \<Rightarrow> address \<Rightarrow> bool \<Rightarrow> int \<Rightarrow> int \<Rightarrow> ('w, tx_receipt) flow" where
  "group_swap E account g mode token isExactIn amount threshold =
     bind (await (e_readOrderFor E (group_id g) mode)) (\<lambda>ord.
       swap_with E account ord isExactIn
         (portfolioIsAToB mode (group_params.quoteToken (group_state.params g)) token) amount threshold)"

definition BUY_GROUP_PLAN :: "step_plan list" where
  "BUY_GROUP_PLAN =
     [plan ''approve'' ''Approve USDC'' ''Allow the router to pull the premium'',
      plan ''swap'' ''Buy the side'' ''router.swap on the group's ISSUE leg'']"

record group_trade =
  gt_group :: group_state
  gt_side :: side
  gt_units :: int
  gt_slippageBps :: rat

definition runBuyGroup :: "'w env \<Rightarrow> address \<Rightarrow> group_trade \<Rightarrow> ('w, swap_result) flow" where
  "runBuyGroup E account p =
     (let g = gt_group p; slip = clampSlippage (gt_slippageBps p) in
      bind (quoteGroup E g QuoteIssue (gt_side p) False (gt_units p) account) (\<lambda>(amountIn, amountOut).
        if amountOut = 0
        then throw (new_Error (''No units available '' @ em_dash
                      @ '' the side is at its per-side cap or the sale has closed''))
        else
          let maxIn = max_in amountIn slip; clamped = (amountOut < gt_units p) in
          next_do (ensureAllowance E account ''approve'' (group_params.quoteToken (group_state.params g)) (e_takerSpender E) maxIn)
         (next_do (report ''swap'' (with_note
                     (if clamped then Some ''Partial fill: sized to what the market can actually sell'' else None)
                     \<circ> to_phase Preparing))
         (bind (group_swap E account g (issueMode (gt_side p)) (receiptFor g (gt_side p)) False amountOut maxIn) (\<lambda>receipt.
            let filled = (case rc_swapped receipt of None \<Rightarrow> amountOut | Some (_, out) \<Rightarrow> out)
            in return (swap_result_of receipt filled (gt_units p)))))))"

definition EXIT_GROUP_PLAN :: "step_plan list" where
  "EXIT_GROUP_PLAN =
     [plan ''approve'' ''Approve receipts'' ''Allow the router to pull your receipts'',
      plan ''swap'' ''Sell at the writer's bid''
        (''router.swap on the group's EXIT leg '' @ em_dash @ '' the receipts are burned'')]"

definition runExitGroup :: "'w env \<Rightarrow> address \<Rightarrow> group_trade \<Rightarrow> ('w, swap_result) flow" where
  "runExitGroup E account p =
     (let g = gt_group p; slip = clampSlippage (gt_slippageBps p) in
      bind (quoteGroup E g QuoteExit (gt_side p) True (gt_units p) account) (\<lambda>(amountIn, amountOut).
        if amountOut = 0 then throw (new_Error ''The exit bid is zero for this size'')
        else
          let token = receiptFor g (gt_side p) in
          next_do (ensureAllowance E account ''approve'' token (e_takerSpender E) amountIn)
         (next_do (report ''swap'' (with_note
                     (if amountIn < gt_units p then Some ''Partial fill: sized to what the exit liquidity can pay'' else None)
                     \<circ> to_phase Preparing))
         (bind (group_swap E account g (exitMode (gt_side p)) token True amountIn (min_out amountOut slip)) (\<lambda>receipt.
            let filled = (case rc_swapped receipt of None \<Rightarrow> amountIn | Some (i, _) \<Rightarrow> i)
            in return (swap_result_of receipt filled (gt_units p)))))))"

definition REDEEM_GROUP_PLAN :: "step_plan list" where
  "REDEEM_GROUP_PLAN =
     [plan ''approve'' ''Approve receipts'' ''Allow the router to pull your receipts'',
      plan ''swap'' ''Redeem at the fixed payout'' ''router.swap on the group's SETTLE leg'']"

definition runRedeemGroup :: "'w env \<Rightarrow> address \<Rightarrow> group_trade \<Rightarrow> ('w, swap_result) flow" where
  "runRedeemGroup E account p =
     (let g = gt_group p; slip = clampSlippage (gt_slippageBps p) in
      bind (quoteGroup E g QuoteSettle (gt_side p) True (gt_units p) account) (\<lambda>(amountIn, amountOut).
        if amountOut = 0
        then throw (new_Error ''This side finalized worthless; burn the receipts instead of redeeming them'')
        else
          let token = receiptFor g (gt_side p) in
          next_do (ensureAllowance E account ''approve'' token (e_takerSpender E) amountIn)
         (next_do (report ''swap'' (to_phase Preparing))
         (bind (group_swap E account g (settleMode (gt_side p)) token True amountIn (min_out amountOut slip)) (\<lambda>receipt.
            let filled = (case rc_swapped receipt of None \<Rightarrow> amountIn | Some (i, _) \<Rightarrow> i)
            in return (swap_result_of receipt filled (gt_units p)))))))"

subsection \<open>The exit buffer\<close>

definition ALLOCATE_EXIT_BUFFER_PLAN :: "step_plan list" where
  "ALLOCATE_EXIT_BUFFER_PLAN =
     [plan ''approve'' ''Approve USDC'' ''Only if the vault needs a top-up first'',
      plan ''fund'' ''Fund the vault'' ''Deposit any shortfall before allocating'',
      plan ''allocate'' ''Allocate exit buffer'' ''Locks free vault collateral for early exits'']"

definition runAllocateExitBuffer :: "'w env \<Rightarrow> address \<Rightarrow> int \<Rightarrow> address \<Rightarrow> int \<Rightarrow> ('w, string) flow" where
  "runAllocateExitBuffer E account n vault amount =
     (if amount \<le> 0 then throw (new_Error ''Enter an amount to allocate'')
      else bind (await (e_freeQuote E vault)) (\<lambda>free.
        let shortfall = (if amount > free then amount - free else 0) in
        next_do
          (if shortfall > 0
           then next_do (ensureAllowance E account ''approve'' (e_usdc E) vault shortfall)
                  (bind (send E account ''fund'' (Deposit vault shortfall)) (\<lambda>_. return ()))
           else next_do (report ''approve'' (with_note (Some ''Vault already holds enough free collateral'') \<circ> to_phase Skipped))
                  (report ''fund'' (with_note (Some ''No deposit needed'') \<circ> to_phase Skipped)))
          (bind (send E account ''allocate'' (AllocateExitBuffer n amount)) (\<lambda>receipt. return (rc_hash receipt)))))"

definition FUND_EXIT_BUFFER_PLAN :: "step_plan list" where
  "FUND_EXIT_BUFFER_PLAN =
     [plan ''approve'' ''Approve USDC'' ''Allow the portfolio market to pull the funding'',
      plan ''fund'' ''Fund exit buffer'' ''Anyone can add early-exit liquidity'']"

definition runFundExitBuffer :: "'w env \<Rightarrow> address \<Rightarrow> int \<Rightarrow> int \<Rightarrow> ('w, string) flow" where
  "runFundExitBuffer E account n amount =
     (if amount \<le> 0 then throw (new_Error ''Enter an amount to fund'')
      else next_do (ensureAllowance E account ''approve'' (e_usdc E) (e_portfolioMarket E) amount)
          (bind (send E account ''fund'' (FundExitBuffer n amount)) (\<lambda>receipt. return (rc_hash receipt))))"

definition WITHDRAW_EXIT_BUFFER_PLAN :: "step_plan list" where
  "WITHDRAW_EXIT_BUFFER_PLAN =
     [plan ''withdraw'' ''Withdraw exit buffer'' ''Unused early-exit liquidity, back to the vault's free balance'']"

definition runWithdrawExitBuffer :: "'w env \<Rightarrow> address \<Rightarrow> int \<Rightarrow> int \<Rightarrow> ('w, string) flow" where
  "runWithdrawExitBuffer E account n amount =
     (if amount \<le> 0 then throw (new_Error ''Enter an amount to withdraw'')
      else bind (send E account ''withdraw'' (WithdrawExitBuffer n amount)) (\<lambda>receipt. return (rc_hash receipt)))"

subsection \<open>The group's accumulator\<close>

definition runGroupCheckpoint :: "'w env \<Rightarrow> address \<Rightarrow> int \<Rightarrow> rat \<Rightarrow> ('w, checkpoint_result) flow" where
  "runGroupCheckpoint E account n maxSamples =
     bind (send E account ''checkpoint'' (GroupCheckpoint n (checkpoint_budget maxSamples))) (\<lambda>receipt.
     bind (await (e_groupProgress E n)) (\<lambda>(stored, avail, tot).
     next_do (report ''checkpoint'' (with_note (Some (progress_note stored avail tot))))
     (return \<lparr>cr_hash = rc_hash receipt, cr_stored = stored, cr_available = avail, cr_done = (stored \<ge> avail)\<rparr>)))"

definition runGroupFinalize :: "'w env \<Rightarrow> address \<Rightarrow> int \<Rightarrow> ('w, string) flow" where
  "runGroupFinalize E account n =
     bind (send E account ''finalize'' (GroupFinalize n)) (\<lambda>receipt. return (rc_hash receipt))"

definition BURN_WORTHLESS_GROUP_PLAN :: "step_plan list" where
  "BURN_WORTHLESS_GROUP_PLAN =
     [plan ''burn'' ''Burn worthless receipts''
        ''A zero payout cannot go through SwapVM, which rejects a zero-output swap'']"

definition runBurnWorthlessGroup :: "'w env \<Rightarrow> address \<Rightarrow> int \<Rightarrow> bool \<Rightarrow> int \<Rightarrow> ('w, string) flow" where
  "runBurnWorthlessGroup E account n high units =
     (if units \<le> 0 then throw (new_Error ''Enter the units to burn'')
      else bind (send E account ''burn'' (BurnWorthlessGroup n high units)) (\<lambda>receipt. return (rc_hash receipt)))"

end
