(* ===== verification/Web_Tx_Log.thy ===== *)
theory Web_Tx_Log
  imports Web_Tx_Group
begin

text \<open>
  What a flow of \<open>web/src/lib/tx.ts\<close> submits and how it leaves the progress list: the submissions of a
  run as an interface of the outside world, the rules that carry facts through a flow, and the phases.
\<close>

subsection \<open>Runs that return\<close>

text \<open>A flow that returns has run every statement on its way.\<close>

lemma returned_simps:
  "bind m f s = (Inr x, s') \<longleftrightarrow> (\<exists>y s1. m s = (Inr y, s1) \<and> f y s1 = (Inr x, s'))"
  "next_do u n s = (Inr x, s') \<longleftrightarrow> (\<exists>s1. u s = (Inr (), s1) \<and> n s1 = (Inr x, s'))"
  "await g s = (Inr z, s') \<longleftrightarrow> (\<exists>w. g (pg_world s) = (Inr z, w) \<and> s' = s\<lparr>pg_world := w\<rparr>)"
  "report k p s = (Inr (), s') \<longleftrightarrow> s' = s\<lparr>pg_steps := patch_step k p (pg_steps s)\<rparr>"
  "return y s = (Inr x', s') \<longleftrightarrow> x' = y \<and> s' = s"
  "throw e s = (Inr x, s') \<longleftrightarrow> False"
  by (auto simp: next_do_def bind_cases await_def report_def return_def throw_def split: prod.splits)

text \<open>The phases of the progress list, and the change of one.\<close>

definition phase_list :: "step_state list \<Rightarrow> (string \<times> tx_phase) list" where
  "phase_list xs = map (\<lambda>st. (sp_key st, sp_phase st)) xs"

abbreviation phases :: "'w page \<Rightarrow> (string \<times> tx_phase) list" where
  "phases s \<equiv> phase_list (pg_steps s)"

definition mark :: "string \<Rightarrow> tx_phase \<Rightarrow> (string \<times> tx_phase) list \<Rightarrow> (string \<times> tx_phase) list" where
  "mark k p = map (\<lambda>(a, q). if a = k then (a, p) else (a, q))"

lemma mark_mark [simp]: "mark k p (mark k q xs) = mark k p xs"
  by (auto simp: mark_def)

lemma patched_phases [simp]:
  "phase_list (patch_step k (to_phase p) xs) = mark k p (phase_list xs)"
  "phase_list (patch_step k (with_note n \<circ> to_phase p) xs) = mark k p (phase_list xs)"
  "phase_list (patch_step k (with_error e \<circ> to_phase p) xs) = mark k p (phase_list xs)"
  "phase_list (patch_step k (with_hash h \<circ> to_phase p) xs) = mark k p (phase_list xs)"
  "phase_list (patch_step k (with_note n \<circ> with_hash h \<circ> to_phase p) xs) = mark k p (phase_list xs)"
  "phase_list (patch_step k (with_note n) xs) = phase_list xs"
  by (auto simp: phase_list_def mark_def patch_step_def to_phase_def with_note_def with_error_def with_hash_def)

lemma send_phases:
  assumes "send E a k c s = (Inr rc, s')"
  shows "phases s' = mark k Confirmed (phases s)" "rc_success rc"
  using assms by (auto simp: send_def sendTx_def returned_simps split: if_splits)

lemma allowance_phases:
  assumes "ensureAllowance E a k t p n s = (Inr (), s')"
  shows "\<exists>q. q \<in> {Confirmed, Skipped} \<and> phases s' = mark k q (phases s)"
  using assms by (auto simp: ensureAllowance_def returned_simps dest!: send_phases(1) split: if_splits)

subsection \<open>Submissions\<close>

type_synonym submission = "tx_call \<times> string"

text \<open>Nothing but \<open>writeContract\<close> submits a transaction, and only when it returns the hash.\<close>

definition quiet :: "('w \<Rightarrow> submission list) \<Rightarrow> ('w, 'a) outside \<Rightarrow> bool" where
  "quiet sent f \<longleftrightarrow> (\<forall>w. sent (snd (f w)) = sent w)"

text \<open>The outside of \<open>E\<close> with a record of every submission beside it.\<close>

definition beside :: "('w, 'a) outside \<Rightarrow> ('w \<times> submission list, 'a) outside" where
  "beside f = (\<lambda>(w, l). case f w of (r, w') \<Rightarrow> (r, (w', l)))"

definition logged :: "'w env \<Rightarrow> ('w \<times> submission list) env" where
  "logged E = \<lparr>
     e_usdc = e_usdc E, e_portfolioMarket = e_portfolioMarket E, e_chainId = e_chainId E,
     e_seriesFactory = e_seriesFactory E, e_takerSpender = e_takerSpender E, e_activeChain = e_activeChain E,
     e_now = beside (e_now E), e_account = beside (e_account E), e_switchChain = beside (e_switchChain E),
     e_walletClient = beside (e_walletClient E), e_simulate = (\<lambda>a c. beside (e_simulate E a c)),
     e_write = (\<lambda>c (w, l). case e_write E c w of
                  (Inl e, w') \<Rightarrow> (Inl e, (w', l)) | (Inr h, w') \<Rightarrow> (Inr h, (w', l @ [(c, h)]))),
     e_wait = (\<lambda>h. beside (e_wait E h)), e_allowance = (\<lambda>t a p. beside (e_allowance E t a p)),
     e_vaultOf = (\<lambda>a. beside (e_vaultOf E a)), e_portfolioVaultOf = (\<lambda>a. beside (e_portfolioVaultOf E a)),
     e_freeQuote = (\<lambda>v. beside (e_freeQuote E v)),
     e_quoteIssueExactIn = (\<lambda>i a. beside (e_quoteIssueExactIn E i a)),
     e_quoteIssueExactOut = (\<lambda>i a. beside (e_quoteIssueExactOut E i a)),
     e_quoteExitExactIn = (\<lambda>i a. beside (e_quoteExitExactIn E i a)),
     e_quoteSettleExactIn = (\<lambda>i a. beside (e_quoteSettleExactIn E i a)),
     e_readOrder = (\<lambda>i l. beside (e_readOrder E i l)), e_legDirection = (\<lambda>i l. beside (e_legDirection E i l)),
     e_readOrderFor = (\<lambda>i m. beside (e_readOrderFor E i m)),
     e_buildTakerData = (\<lambda>a x d t u p. beside (e_buildTakerData E a x d t u p)),
     e_routerQuote = (\<lambda>q a t. beside (e_routerQuote E q a t)), e_progress = (\<lambda>i. beside (e_progress E i)),
     e_groupProgress = (\<lambda>i. beside (e_groupProgress E i)), e_setItem = (\<lambda>k v. beside (e_setItem E k v))\<rparr>"

lemma quiet_beside [simp]: "quiet snd (beside f)"
  by (auto simp: quiet_def beside_def split: prod.splits)

text \<open>\<open>sendTx\<close> before the wallet answers with a hash, and after the hash is reported back.\<close>

definition before_send :: "'w env \<Rightarrow> address \<Rightarrow> string \<Rightarrow> tx_call \<Rightarrow> ('w, unit) flow" where
  "before_send E account key call =
     next_do (report key (with_error None \<circ> to_phase Preparing))
     (next_do (await (e_simulate E account call))
     (next_do (await (e_walletClient E)) (report key (to_phase Confirm))))"

definition after_send :: "'w env \<Rightarrow> string \<Rightarrow> string \<Rightarrow> ('w, tx_receipt) flow" where
  "after_send E key hash =
     next_do (report key (with_hash hash \<circ> to_phase Pending))
     (bind (await (e_wait E hash)) (\<lambda>receipt.
       if \<not> rc_success receipt
       then next_do (report key (with_error (Some ''Transaction reverted'') \<circ> to_phase Failed))
              (throw (new_Error ''Transaction reverted on-chain''))
       else next_do (report key (to_phase Confirmed)) (return receipt)))"

lemma sendTx_split:
  "sendTx E a k c oh =
     next_do (before_send E a k c) (bind (await (e_write E c)) (\<lambda>h. next_do (oh h) (after_send E k h)))"
  by (simp add: sendTx_def before_send_def after_send_def next_assoc)

locale submission_log =
  fixes E :: "'w env" and sent :: "'w \<Rightarrow> submission list"
  assumes quiet_reads:
    "quiet sent (e_now E)" "quiet sent (e_account E)" "quiet sent (e_switchChain E)" "quiet sent (e_walletClient E)"
    "quiet sent (e_simulate E a c)" "quiet sent (e_wait E h)" "quiet sent (e_allowance E t a p)"
    "quiet sent (e_vaultOf E a)" "quiet sent (e_portfolioVaultOf E a)" "quiet sent (e_freeQuote E v)"
    "quiet sent (e_quoteIssueExactIn E n m)" "quiet sent (e_quoteIssueExactOut E n m)"
    "quiet sent (e_quoteExitExactIn E n m)" "quiet sent (e_quoteSettleExactIn E n m)"
    "quiet sent (e_readOrder E n l)" "quiet sent (e_legDirection E n l)" "quiet sent (e_readOrderFor E n pm)"
    "quiet sent (e_buildTakerData E a x d m n y)" "quiet sent (e_routerQuote E ord n td)"
    "quiet sent (e_progress E n)" "quiet sent (e_groupProgress E n)" "quiet sent (e_setItem E k st)"
  and write_logs: "e_write E c w = (r, w') \<Longrightarrow>
    sent w' = sent w @ (case r of Inl _ \<Rightarrow> [] | Inr h \<Rightarrow> [(c, h)])"
begin

text \<open>A calm flow leaves the storage alone and submits only calls of \<open>C\<close>.\<close>

definition calm :: "tx_call set \<Rightarrow> ('w, 'a) flow \<Rightarrow> bool" where
  "calm C m \<longleftrightarrow> (\<forall>s r s'. m s = (r, s') \<longrightarrow>
     pg_storage s' = pg_storage s \<and>
     (\<exists>new. sent (pg_world s') = sent (pg_world s) @ new \<and> fst ` set new \<subseteq> C))"

lemma calmD:
  assumes "calm C m" "m s = (r, s')"
  shows "pg_storage s' = pg_storage s"
    "\<exists>new. sent (pg_world s') = sent (pg_world s) @ new \<and> fst ` set new \<subseteq> C"
  using assms by (auto simp: calm_def)

lemma calm_return [simp, intro]: "calm C (return x)"
  by (simp add: calm_def return_def)

lemma calm_throw [simp, intro]: "calm C (throw e)"
  by (simp add: calm_def throw_def)

lemma calm_report [simp, intro]: "calm C (report k f)"
  by (simp add: calm_def report_def)

lemma calm_await: "quiet sent f \<Longrightarrow> calm C (await f)"
  by (auto simp: calm_def await_def quiet_def split_beta)

lemmas calm_reads [intro] = quiet_reads [THEN calm_await]

lemma calm_bind [intro]:
  assumes "calm C m" "\<And>x. calm C (f x)"
  shows "calm C (bind m f)"
  unfolding calm_def
proof (intro allI impI)
  fix s r s' assume "bind m f s = (r, s')"
  then consider (stop) e where "m s = (Inl e, s')" | (go) x s1 where "m s = (Inr x, s1)" "f x s1 = (r, s')"
    by (auto simp: bind_cases)
  then show "pg_storage s' = pg_storage s \<and>
      (\<exists>new. sent (pg_world s') = sent (pg_world s) @ new \<and> fst ` set new \<subseteq> C)"
  proof cases
    case stop
    then show ?thesis using calmD [OF assms(1)] by simp
  next
    case go
    obtain n1 where 1: "sent (pg_world s1) = sent (pg_world s) @ n1" "fst ` set n1 \<subseteq> C"
      using calmD(2) [OF assms(1) go(1)] by blast
    obtain n2 where 2: "sent (pg_world s') = sent (pg_world s1) @ n2" "fst ` set n2 \<subseteq> C"
      using calmD(2) [OF assms(2) go(2)] by blast
    have "sent (pg_world s') = sent (pg_world s) @ (n1 @ n2) \<and> fst ` set (n1 @ n2) \<subseteq> C"
      using 1 2 by (simp add: image_Un)
    then show ?thesis using calmD(1) [OF assms(1) go(1)] calmD(1) [OF assms(2) go(2)] by metis
  qed
qed

lemma calm_next [intro]: "calm C m \<Longrightarrow> calm C n \<Longrightarrow> calm C (next_do m n)"
  unfolding next_do_def by blast

lemma calm_write [intro]: "c \<in> C \<Longrightarrow> calm C (await (e_write E c))"
  using write_logs [of c]
  by (auto simp: calm_def await_def split: prod.splits sum.splits)

lemma calm_send: "c \<in> C \<Longrightarrow> calm C (send E a k c)"
  unfolding send_def sendTx_def by (auto intro!: calm_next calm_bind)

lemma calm_allowance: "Approve t p n \<in> C \<Longrightarrow> calm C (ensureAllowance E a k t p n)"
  unfolding ensureAllowance_def by (auto intro!: calm_next calm_bind calm_send)

lemma calm_mono:
  assumes "calm C m" "C \<subseteq> D"
  shows "calm D m"
  unfolding calm_def
proof (intro allI impI)
  fix s r s' assume "m s = (r, s')"
  note d = calmD [OF assms(1) this]
  obtain new where "sent (pg_world s') = sent (pg_world s) @ new" "fst ` set new \<subseteq> C" using d(2) by blast
  then show "pg_storage s' = pg_storage s \<and>
      (\<exists>new. sent (pg_world s') = sent (pg_world s) @ new \<and> fst ` set new \<subseteq> D)"
    using d(1) assms(2) by (intro conjI exI [of _ new]) auto
qed

lemma calm_empty:
  assumes "calm {} m" "m s = (r, s')"
  shows "pg_storage s' = pg_storage s" "sent (pg_world s') = sent (pg_world s)"
  using calmD [OF assms] by auto

lemma calm_before [intro]: "calm {} (before_send E a k c)"
  unfolding before_send_def by (intro calm_next) auto

lemma calm_after [intro]: "calm {} (after_send E k h)"
  unfolding after_send_def by (auto intro!: calm_next calm_bind)

text \<open>Either nothing was submitted, or the call was, under a hash that \<open>onHash\<close> then saw.\<close>

lemma sendTx_cases:
  assumes "sendTx E a k c oh s = (r, s')"
  obtains (unsent) e where "r = Inl e" "pg_storage s' = pg_storage s" "sent (pg_world s') = sent (pg_world s)"
  | (stopped) h s1 e where "sent (pg_world s1) = sent (pg_world s) @ [(c, h)]" "pg_storage s1 = pg_storage s"
      "oh h s1 = (Inl e, s')" "r = Inl e"
  | (submitted) h s1 s2 where "sent (pg_world s1) = sent (pg_world s) @ [(c, h)]" "pg_storage s1 = pg_storage s"
      "oh h s1 = (Inr (), s2)" "after_send E k h s2 = (r, s')"
      "pg_storage s' = pg_storage s2" "sent (pg_world s') = sent (pg_world s2)"
proof -
  let ?rest = "bind (await (e_write E c)) (\<lambda>h. next_do (oh h) (after_send E k h))"
  have run: "next_do (before_send E a k c) ?rest s = (r, s')"
    using assms by (simp only: sendTx_split)
  consider (early) e where "before_send E a k c s = (Inl e, s')" "r = Inl e"
    | (late) s0 where "before_send E a k c s = (Inr (), s0)" "?rest s0 = (r, s')"
    using run by (auto simp: next_do_def bind_cases)
  then show ?thesis
  proof cases
    case early
    then show ?thesis using calm_empty [OF calm_before early(1)] unsent by blast
  next
    case (late s0)
    note b = calm_empty [OF calm_before late(1)]
    obtain rw w where w: "e_write E c (pg_world s0) = (rw, w)" by (cases "e_write E c (pg_world s0)")
    define s1 where "s1 = s0\<lparr>pg_world := w\<rparr>"
    have a: "await (e_write E c) s0 = (rw, s1)" using w by (simp add: await_def s1_def)
    have st: "pg_storage s1 = pg_storage s" using b(1) by (simp add: s1_def)
    show ?thesis
    proof (cases rw)
      case (Inl e)
      then have "r = Inl e" "s' = s1" using late(2) a by (auto simp: bind_def)
      moreover have "sent w = sent (pg_world s)" using write_logs [OF w] b(2) Inl by simp
      ultimately show ?thesis using unsent st by (simp add: s1_def)
    next
      case (Inr h)
      have l: "sent (pg_world s1) = sent (pg_world s) @ [(c, h)]"
        using write_logs [OF w] b(2) Inr by (simp add: s1_def)
      have "next_do (oh h) (after_send E k h) s1 = (r, s')"
        using late(2) a Inr by (simp add: bind_def)
      then consider e where "oh h s1 = (Inl e, s')" "r = Inl e"
        | s2 where "oh h s1 = (Inr (), s2)" "after_send E k h s2 = (r, s')"
        by (auto simp: next_do_def bind_cases)
      then show ?thesis
        using stopped [OF l st] submitted [OF l st] calm_empty [OF calm_after] by cases blast+
    qed
  qed
qed

end

interpretation log: submission_log "logged E" snd for E :: "'w env"
  by unfold_locales (auto simp: logged_def split: prod.splits sum.splits)

end
