(* ===== verification/Web_Tx_Create.thy ===== *)
theory Web_Tx_Create
  imports Web_Tx_Log
begin

text \<open>
  The creation checkpoint of \<open>runCreateSeries\<close> in \<open>web/src/lib/tx.ts\<close>: when a creation may be submitted,
  what the storage then holds, and why a retry never submits a second one.
\<close>

subsection \<open>The identifier round trip\<close>

lemma BigInt_text_dec [simp]: "BigInt_text (dec_string n) = Inr n"
  using dec_digits_digits [of "\<bar>n\<bar>"] digits_val_dec_digits [of "\<bar>n\<bar>"]
  by (simp add: BigInt_text_def dec_string_shape all_digits_def Let_def)

text \<open>
  \<open>localStorage.setItem\<close> may throw, as it does over its quota: \<open>refuses E k v e\<close> says that in some
  state it answers the entry \<open>v\<close> under \<open>k\<close> with the error \<open>e\<close>.
\<close>

definition refuses :: "'w env \<Rightarrow> string \<Rightarrow> stored \<Rightarrow> thrown \<Rightarrow> bool" where
  "refuses E k v e \<longleftrightarrow> (\<exists>w. fst (e_setItem E k v w) = Inl e)"

text \<open>The checkpoint that \<open>onHash\<close> saves.\<close>

definition sent_checkpoint :: "address \<Rightarrow> string \<Rightarrow> create_checkpoint" where
  "sent_checkpoint a h = \<lparr>cc_account = a, cc_createHash = h, cc_id = None, cc_receipt = None\<rparr>"

definition is_create :: "tx_call \<Rightarrow> bool" where
  "is_create c = (case c of CreateSeries _ _ _ \<Rightarrow> True | _ \<Rightarrow> False)"

abbreviation others :: "tx_call set" where
  "others \<equiv> {c. \<not> is_create c}"

text \<open>
  What one run adds: at most one creation, only where no checkpoint was saved. When the run then fails the
  creation is saved under its hash, unless the storage refused that very entry, which is then the error of the
  run, and holds nothing; when it returns, the checkpoint is gone.
\<close>

definition creation_facts ::
    "'w env \<Rightarrow> address \<Rightarrow> create_series_input \<Rightarrow> 'w page \<Rightarrow> thrown + create_series_result \<Rightarrow> 'w page \<Rightarrow> submission list \<Rightarrow> bool" where
  "creation_facts E a inp s r s' new \<longleftrightarrow>
     filter (is_create \<circ> fst) new = [] \<or>
     (\<exists>v h. let key = createCheckpointKey E a v (csi_params inp) in
        filter (is_create \<circ> fst) new = [(CreateSeries (csi_backdatedDemo inp) v (csi_params inp), h)] \<and>
        (\<forall>cp. pg_storage s key \<noteq> Some (Saved cp)) \<and>
        (case r of Inl e \<Rightarrow> (\<exists>cp. pg_storage s' key = Some (Saved cp) \<and> cc_createHash cp = h)
             \<or> pg_storage s' key = None \<and> refuses E key (Saved (sent_checkpoint a h)) e
         | Inr res \<Rightarrow> cs_vault res = v \<and> pg_storage s' key = None))"

context submission_log
begin

lemma calm_vault_part: "calm others (create_vault_part E a inp)"
  unfolding create_vault_part_def runCreateVault_def Let_def
  by (auto intro!: calm_next calm_bind calm_send calm_reads simp: is_create_def split: option.splits)

lemma calm_fund_part: "calm others (fund_part E a inp v)"
  unfolding fund_part_def Let_def
  by (auto intro!: calm_next calm_bind calm_send calm_allowance simp: is_create_def split: option.splits)

lemma calm_createdSeries: "calm {} (createdSeries rc)"
  by (auto simp: createdSeries_def split: option.splits)

lemma save_cases:
  assumes "saveCreateCheckpoint E k c s = (r, s')"
  obtains (saved) "r = Inr ()" "pg_storage s' = (pg_storage s)(k \<mapsto> Saved c)" "sent (pg_world s') = sent (pg_world s)"
  | (refused) e where "r = Inl e" "pg_storage s' = pg_storage s" "sent (pg_world s') = sent (pg_world s)"
      "refuses E k (Saved c) e"
proof -
  have q: "sent (snd (e_setItem E k (Saved c) (pg_world s))) = sent (pg_world s)"
    using quiet_reads(22) by (simp add: quiet_def)
  show ?thesis
  proof (cases "fst (e_setItem E k (Saved c) (pg_world s))")
    case (Inl e)
    then have "refuses E k (Saved c) e" by (auto simp: refuses_def)
    with Inl show ?thesis using assms q
      by (intro refused [of e])
         (auto simp: saveCreateCheckpoint_def set_item_def next_do_def bind_def await_def split_beta split: sum.splits)
  next
    case (Inr u)
    with assms q show ?thesis
      by (intro saved)
         (auto simp: saveCreateCheckpoint_def set_item_def next_do_def bind_def await_def split_beta split: sum.splits)
  qed
qed

text \<open>A submission of \<open>submit_part\<close> is saved under its hash, or refused, before anything else can fail.\<close>

lemma submit_part_cases:
  assumes "submit_part E a inp v key s = (r, s')"
  obtains (unsent) e where "r = Inl e" "pg_storage s' = pg_storage s" "sent (pg_world s') = sent (pg_world s)"
  | (refused) h e where "r = Inl e" "pg_storage s' = pg_storage s"
      "sent (pg_world s') = sent (pg_world s) @ [(CreateSeries (csi_backdatedDemo inp) v (csi_params inp), h)]"
      "refuses E key (Saved (sent_checkpoint a h)) e"
  | (failed) h e c where "r = Inl e" "cc_createHash c = h" "cc_account c = a"
      "sent (pg_world s') = sent (pg_world s) @ [(CreateSeries (csi_backdatedDemo inp) v (csi_params inp), h)]"
      "pg_storage s' = (pg_storage s)(key \<mapsto> Saved c)"
  | (created) h i rt c where "r = Inr c" "cc_id c = Some (dec_string i)" "cc_receipt c = Some rt"
      "sent (pg_world s') = sent (pg_world s) @ [(CreateSeries (csi_backdatedDemo inp) v (csi_params inp), h)]"
      "pg_storage s' = (pg_storage s)(key \<mapsto> Saved c)"
proof -
  let ?call = "CreateSeries (csi_backdatedDemo inp) v (csi_params inp)"
  let ?cp = "sent_checkpoint a"
  let ?oh = "\<lambda>h. saveCreateCheckpoint E key (?cp h)"
  let ?fin = "\<lambda>rc. bind (createdSeries rc) (\<lambda>(i, rt).
      let c = \<lparr>cc_account = a, cc_createHash = rc_hash rc, cc_id = Some (dec_string i), cc_receipt = Some rt\<rparr>
      in next_do (saveCreateCheckpoint E key c) (return c))"
  obtain r1 s1 where send: "sendTx E a ''create'' ?call ?oh s = (r1, s1)" by (cases "sendTx E a ''create'' ?call ?oh s")
  have rest: "case r1 of Inl e \<Rightarrow> r = Inl e \<and> s' = s1 | Inr rc \<Rightarrow> ?fin rc s1 = (r, s')"
    using assms send by (auto simp: submit_part_def sent_checkpoint_def bind_def Let_def split: sum.splits)
  from send show ?thesis
  proof (cases rule: sendTx_cases)
    case (unsent e)
    then show ?thesis using rest that(1) by auto
  next
    case (stopped h s0 e)
    from stopped(3) show ?thesis
    proof (cases rule: save_cases)
      case (refused e')
      then show ?thesis using rest stopped that(2) [of e' h] by auto
    qed simp
  next
    case (submitted h s0 s2)
    have sv: "pg_storage s2 = (pg_storage s0)(key \<mapsto> Saved (?cp h))" "sent (pg_world s2) = sent (pg_world s0)"
      using submitted(3) by (cases rule: save_cases; simp)+
    have st: "pg_storage s1 = (pg_storage s)(key \<mapsto> Saved (?cp h))"
        "sent (pg_world s1) = sent (pg_world s) @ [(?call, h)]"
      using submitted sv by simp_all
    have hash: "cc_createHash (?cp h) = h" "cc_account (?cp h) = a" by (simp_all add: sent_checkpoint_def)
    show ?thesis
    proof (cases r1)
      case (Inl e)
      then show ?thesis using rest st hash that(3) [of e "?cp h" h] by auto
    next
      case (Inr rc)
      then have fin: "?fin rc s1 = (r, s')" using rest by simp
      show ?thesis
      proof (cases "rc_seriesCreated rc")
        case None
        then have "\<exists>e. r = Inl e" "s' = s1" using fin by (auto simp: createdSeries_def throw_def)
        then show ?thesis using st hash that(3) [of _ "?cp h" h] by auto
      next
        case (Some ev)
        obtain i rt where ev: "ev = (i, rt)" by (cases ev)
        let ?c = "\<lparr>cc_account = a, cc_createHash = rc_hash rc, cc_id = Some (dec_string i), cc_receipt = Some rt\<rparr>"
        have run: "next_do (saveCreateCheckpoint E key ?c) (return ?c) s1 = (r, s')"
          using fin Some ev by (simp add: createdSeries_def Let_def)
        obtain r2 s4 where s4: "saveCreateCheckpoint E key ?c s1 = (r2, s4)" by fastforce
        from s4 show ?thesis
        proof (cases rule: save_cases)
          case saved
          then have "r = Inr ?c" "s' = s4" using run s4 by (auto simp: next_do_def bind_def return_def)
          then show ?thesis using that(4) [of ?c i rt h] st saved by auto
        next
          case (refused e)
          then have "r = Inl e" "s' = s4" using run s4 by (auto simp: next_do_def bind_def)
          then show ?thesis using that(3) [of e "?cp h" h] st hash refused by auto
        qed
      qed
    qed
  qed
qed

lemma recover_part_cases:
  assumes "recover_part E key c s = (r, s')"
  shows "sent (pg_world s') = sent (pg_world s)"
    "\<And>c'. r = Inr c' \<Longrightarrow> \<exists>i rt. cc_id c' = Some (dec_string i) \<and> cc_receipt c' = Some rt"
proof -
  let ?pre = "report ''create'' (with_note (Some ''Recovering the submitted creation transaction'')
                \<circ> with_hash (cc_createHash c) \<circ> to_phase Pending)"
  obtain s1 where s1: "?pre s = (Inr (), s1)" "pg_world s1 = pg_world s" by (simp add: report_def)
  obtain rw w where w: "e_wait E (cc_createHash c) (pg_world s1) = (rw, w)" by fastforce
  let ?s2 = "s1\<lparr>pg_world := w\<rparr>"
  have q: "sent w = sent (pg_world s)"
    using quiet_reads(6) [of "cc_createHash c"] w s1(2) by (simp add: quiet_def) (metis snd_conv)
  have step: "\<And>k. next_do ?pre (bind (await (e_wait E (cc_createHash c))) k) s
      = (case rw of Inl e \<Rightarrow> (Inl e, ?s2) | Inr rc \<Rightarrow> k rc ?s2)"
    using s1 w by (simp add: next_do_def bind_def await_def)
  note run = assms [unfolded recover_part_def step]
  have "sent (pg_world s') = sent (pg_world s) \<and>
      (\<forall>c'. r = Inr c' \<longrightarrow> (\<exists>i rt. cc_id c' = Some (dec_string i) \<and> cc_receipt c' = Some rt))"
  proof (cases rw)
    case (Inl e)
    then show ?thesis using run q by auto
  next
    case rc: (Inr rc)
    show ?thesis
    proof (cases "rc_success rc \<and> rc_seriesCreated rc \<noteq> None")
      case False
      then show ?thesis using run rc q
        by (auto simp: createdSeries_def remove_item_def next_do_def bind_def throw_def split: option.splits if_splits)
    next
      case True
      then obtain i rt where ev: "rc_success rc" "rc_seriesCreated rc = Some (i, rt)" by auto
      let ?c = "c\<lparr>cc_id := Some (dec_string i), cc_receipt := Some rt\<rparr>"
      obtain r3 s3 where s3: "saveCreateCheckpoint E key ?c ?s2 = (r3, s3)" by fastforce
      have fin: "next_do (saveCreateCheckpoint E key ?c)
          (next_do (report ''create'' (with_hash (cc_createHash ?c) \<circ> to_phase Confirmed)) (return ?c)) ?s2 = (r, s')"
        using run rc ev by (simp add: createdSeries_def Let_def)
      from s3 show ?thesis
      proof (cases rule: save_cases)
        case saved
        then have "r = Inr ?c" "pg_world s' = pg_world s3"
          using fin s3 by (auto simp: next_do_def bind_def return_def report_def)
        then show ?thesis using saved(3) q by auto
      next
        case (refused e)
        then have "r = Inl e" "s' = s3" using fin s3 by (auto simp: next_do_def bind_def)
        then show ?thesis using refused(3) q by auto
      qed
    qed
  qed
  then show "sent (pg_world s') = sent (pg_world s)"
    "\<And>c'. r = Inr c' \<Longrightarrow> \<exists>i rt. cc_id c' = Some (dec_string i) \<and> cc_receipt c' = Some rt"
    by blast+
qed

text \<open>The closing part: the identifier, once printed, is read back, and the entry is removed.\<close>

lemma finish_part:
  assumes "finish_create key v c s = (r, s')"
  shows "pg_world s' = pg_world s"
    "cc_id c = Some (dec_string n) \<Longrightarrow> cc_receipt c = Some rt \<Longrightarrow>
       r = Inr \<lparr>cs_id = n, cs_receipt = rt, cs_vault = v, cs_createHash = cc_createHash c\<rparr>
       \<and> pg_storage s' = (pg_storage s)(key := None)"
  using assms by (auto simp: finish_create_def next_do_def bind_def report_def remove_item_def throw_def return_def
      split: option.splits sum.splits)

lemma no_creates: "fst ` set new \<subseteq> others \<Longrightarrow> filter (is_create \<circ> fst) new = []"
  by (auto simp: filter_empty_conv)

lemma creation_run:
  assumes run: "runCreateSeries E a inp s = (r, s')"
  shows "\<exists>new. sent (pg_world s') = sent (pg_world s) @ new \<and> creation_facts E a inp s r s' new"
proof -
  let ?key = "\<lambda>v. createCheckpointKey E a v (csi_params inp)"
  obtain rv s1 where v: "create_vault_part E a inp s = (rv, s1)" by fastforce
  note cv = calmD [OF calm_vault_part v]
  obtain n1 where n1: "sent (pg_world s1) = sent (pg_world s) @ n1" "fst ` set n1 \<subseteq> others" using cv(2) by blast
  show ?thesis
  proof (cases rv)
    case (Inl e)
    then have "s' = s1" using run v by (simp add: runCreateSeries_def bind_def)
    then show ?thesis using n1 no_creates by (auto simp: creation_facts_def)
  next
    case rv: (Inr vault)
    obtain rf s2 where fd: "fund_part E a inp vault s1 = (rf, s2)" by fastforce
    note cf = calmD [OF calm_fund_part fd]
    obtain n2 where n2: "sent (pg_world s2) = sent (pg_world s1) @ n2" "fst ` set n2 \<subseteq> others" using cf(2) by blast
    have n12: "filter (is_create \<circ> fst) (n1 @ n2) = []" "sent (pg_world s2) = sent (pg_world s) @ (n1 @ n2)"
      using n1(1) n2(1) no_creates [OF n1(2)] no_creates [OF n2(2)] by simp_all
    have st: "pg_storage s2 = pg_storage s" using cv(1) cf(1) by simp
    show ?thesis
    proof (cases rf)
      case (Inl e)
      then have "s' = s2" using run v rv fd by (simp add: runCreateSeries_def bind_def next_do_def)
      then show ?thesis using n12 unfolding creation_facts_def by blast
    next
      case rf: (Inr u)
      obtain rc s3 where cp: "checkpoint_part E a inp vault (?key vault) s2 = (rc, s3)" by fastforce
      note tail = run [unfolded runCreateSeries_def Let_def]
      have tail_ok: "pg_world s' = pg_world s3" "isl rc \<Longrightarrow> isl r \<and> s' = s3"
        "\<And>c i rt. rc = Inr c \<Longrightarrow> cc_id c = Some (dec_string i) \<Longrightarrow> cc_receipt c = Some rt \<Longrightarrow>
            \<exists>res. r = Inr res \<and> cs_vault res = vault \<and> pg_storage s' (?key vault) = None"
      proof -
        have f: "case rc of Inl e \<Rightarrow> r = Inl e \<and> s' = s3 | Inr c \<Rightarrow> finish_create (?key vault) vault c s3 = (r, s')"
          using tail v rv fd rf cp by (auto simp: bind_def next_do_def split: sum.splits)
        then show "pg_world s' = pg_world s3" using finish_part(1) by (auto split: sum.splits)
        show "isl rc \<Longrightarrow> isl r \<and> s' = s3" using f by (auto split: sum.splits)
        show "rc = Inr c \<Longrightarrow> cc_id c = Some (dec_string i) \<Longrightarrow> cc_receipt c = Some rt \<Longrightarrow>
            \<exists>res. r = Inr res \<and> cs_vault res = vault \<and> pg_storage s' (?key vault) = None" for c i rt
          using f finish_part(2) by fastforce
      qed
      consider (none) "\<forall>c. pg_storage s2 (?key vault) \<noteq> Some (Saved c)" | (saved) c where "pg_storage s2 (?key vault) = Some (Saved c)"
        by blast
      then show ?thesis
      proof cases
        case saved
        then have "(if incomplete c then recover_part E (?key vault) c else return c) s2 = (rc, s3)"
          using cp by (simp add: checkpoint_part_def loadCreateCheckpoint_def bind_def get_item_def return_def)
        then have "sent (pg_world s3) = sent (pg_world s2)"
          using recover_part_cases(1) by (auto simp: return_def split: if_splits)
        then show ?thesis using n12 tail_ok(1) unfolding creation_facts_def by metis
      next
        case none
        obtain s2' where s2': "submit_part E a inp vault (?key vault) s2' = (rc, s3)" "pg_world s2' = pg_world s2"
            "pg_storage s2' = (pg_storage s2)(?key vault := None)"
          using cp none
          by (cases "pg_storage s2 (?key vault)")
             (auto simp: checkpoint_part_def loadCreateCheckpoint_def bind_def next_do_def get_item_def return_def
                remove_item_def fun_upd_idem split: stored.splits)
        from s2'(1) show ?thesis
        proof (cases rule: submit_part_cases)
          case (unsent e)
          then show ?thesis using n12 tail_ok(1) s2'(2) unfolding creation_facts_def by metis
        next
          case (refused h e)
          let ?new = "n1 @ n2 @ [(CreateSeries (csi_backdatedDemo inp) vault (csi_params inp), h)]"
          have "sent (pg_world s') = sent (pg_world s) @ ?new" using refused(3) n12(2) tail_ok(1) s2'(2) by simp
          moreover have "s' = s3" "r = Inl e" using refused(1) tail v rv fd rf cp
            by (auto simp: bind_def next_do_def split: sum.splits)
          then have "creation_facts E a inp s r s' ?new"
            unfolding creation_facts_def Let_def using refused n12(1) none st s2'(3)
            by (intro disjI2 exI [of _ vault] exI [of _ h]) (auto simp: is_create_def)
          ultimately show ?thesis by blast
        next
          case (failed h e c)
          let ?new = "n1 @ n2 @ [(CreateSeries (csi_backdatedDemo inp) vault (csi_params inp), h)]"
          have "sent (pg_world s') = sent (pg_world s) @ ?new" using failed(4) n12(2) tail_ok(1) s2'(2) by simp
          moreover have "creation_facts E a inp s r s' ?new"
            unfolding creation_facts_def Let_def using failed n12(1) none st tail_ok(2)
            by (intro disjI2 exI [of _ vault] exI [of _ h]) (auto simp: is_create_def split: sum.splits)
          ultimately show ?thesis by blast
        next
          case (created h i rt c)
          let ?new = "n1 @ n2 @ [(CreateSeries (csi_backdatedDemo inp) vault (csi_params inp), h)]"
          have "sent (pg_world s') = sent (pg_world s) @ ?new" using created(4) n12(2) tail_ok(1) s2'(2) by simp
          moreover have "creation_facts E a inp s r s' ?new"
            unfolding creation_facts_def Let_def using n12(1) none st tail_ok(3) [OF created(1-3)]
            by (intro disjI2 exI [of _ vault] exI [of _ h]) (auto simp: is_create_def)
          ultimately show ?thesis by blast
        qed
      qed
    qed
  qed
qed

end

end
