(* ===== verification/Web_Tx_Phases.thy ===== *)
theory Web_Tx_Phases
  imports Web_Tx_Log
begin

text \<open>
  How a flow of \<open>web/src/lib/tx.ts\<close> leaves the progress list, whether it returns or throws: a triple over the
  phases of the list with one postcondition for each, its rules for the combinators, and the triples of a
  submission, an allowance and a trade.
\<close>

subsection \<open>Triples over the phases\<close>

text \<open>
  \<open>ends P m Q X\<close>: from a progress list whose phases are in \<open>P\<close>, the flow \<open>m\<close> returns with phases in \<open>Q\<close>
  or throws with phases in \<open>X\<close>.
\<close>

type_synonym progress = "(string \<times> tx_phase) list"

definition ends :: "progress set \<Rightarrow> ('w, 'a) flow \<Rightarrow> progress set \<Rightarrow> progress set \<Rightarrow> bool" where
  "ends P m Q X \<longleftrightarrow> (\<forall>s r s'. phases s \<in> P \<longrightarrow> m s = (r, s') \<longrightarrow> (case r of Inl _ \<Rightarrow> phases s' \<in> X | Inr _ \<Rightarrow> phases s' \<in> Q))"

lemma endsD: "ends P m Q X \<Longrightarrow> phases s \<in> P \<Longrightarrow> m s = (r, s') \<Longrightarrow> (case r of Inl _ \<Rightarrow> phases s' \<in> X | Inr _ \<Rightarrow> phases s' \<in> Q)"
  by (auto simp: ends_def)

lemma ends_bind: "ends P m R X \<Longrightarrow> (\<And>x. ends R (f x) Q X) \<Longrightarrow> ends P (bind m f) Q X"
  unfolding ends_def by (fastforce simp: bind_def split: prod.splits sum.splits)

lemma ends_next: "ends P m R X \<Longrightarrow> ends R n Q X \<Longrightarrow> ends P (next_do m n) Q X"
  unfolding next_do_def by (rule ends_bind)

lemma ends_return: "P \<subseteq> Q \<Longrightarrow> ends P (return x) Q X"
  by (auto simp: ends_def return_def)

lemma ends_throw: "P \<subseteq> X \<Longrightarrow> ends P (throw e) Q X"
  by (auto simp: ends_def throw_def)

lemma ends_await: "P \<subseteq> X \<Longrightarrow> ends P (await f) P X"
  by (auto simp: ends_def await_def split: prod.splits sum.splits)

lemma ends_report:
  "(\<And>xs. phase_list (patch_step k f xs) = mark k p (phase_list xs)) \<Longrightarrow> mark k p ` P \<subseteq> Q \<Longrightarrow> ends P (report k f) Q X"
  by (auto simp: ends_def report_def)

lemma ends_conseq: "ends P m Q X \<Longrightarrow> P' \<subseteq> P \<Longrightarrow> Q \<subseteq> Q' \<Longrightarrow> X \<subseteq> X' \<Longrightarrow> ends P' m Q' X'"
  unfolding ends_def by (fastforce split: sum.splits)

definition busy_phases :: "tx_phase set" where "busy_phases = {Preparing, Confirm, Pending}"

lemma ends_marked_await: "mark k q ` P \<subseteq> X \<Longrightarrow> ends (mark k q ` P) (await f) (mark k q ` P) X"
  by (rule ends_await)

lemma ends_marked_report:
  "(\<And>xs. phase_list (patch_step k f xs) = mark k p (phase_list xs)) \<Longrightarrow> ends (mark k q ` P) (report k f) (mark k p ` P) X"
  by (rule ends_report) (auto simp: image_image)

lemma ends_send:
  assumes "\<And>q. q \<in> insert Failed busy_phases \<Longrightarrow> mark k q ` P \<subseteq> X"
  shows "ends P (send E a k c) (mark k Confirmed ` P) X"
proof -
  have m: "mark k Preparing ` P \<subseteq> X" "mark k Confirm ` P \<subseteq> X" "mark k Pending ` P \<subseteq> X" "mark k Failed ` P \<subseteq> X"
    using assms by (auto simp: busy_phases_def)
  have fin: "ends (mark k Pending ` P) (if \<not> rc_success rc
       then next_do (report k (with_error (Some ''Transaction reverted'') \<circ> to_phase Failed))
              (throw (new_Error ''Transaction reverted on-chain''))
       else next_do (report k (to_phase Confirmed)) (return rc)) (mark k Confirmed ` P) X" for rc
    by (auto intro!: ends_next [OF ends_marked_report [where p = Failed] ends_throw [OF m(4)]]
        ends_next [OF ends_marked_report [where p = Confirmed] ends_return [OF order_refl]])
  show ?thesis
    unfolding send_def sendTx_def
    by (intro ends_next [OF ends_report [where p = Preparing, OF _ order_refl]]
        ends_next [OF ends_marked_await [OF m(1)]] ends_next [OF ends_marked_report [where p = Confirm]]
        ends_bind [OF ends_marked_await [OF m(2)]] ends_next [OF ends_return [OF order_refl]]
        ends_next [OF ends_marked_report [where p = Pending]] ends_bind [OF ends_marked_await [OF m(3)]] fin)
      simp_all
qed

lemma ends_allowance:
  fixes E :: "'w env"
  assumes "\<And>q. q \<in> insert Failed busy_phases \<Longrightarrow> mark k q ` P \<subseteq> X"
  shows "ends P (ensureAllowance E a k t p n) (mark k Confirmed ` P \<union> mark k Skipped ` P) X"
proof -
  let ?Q = "mark k Confirmed ` P \<union> mark k Skipped ` P"
  have m: "mark k Preparing ` P \<subseteq> X" using assms by (auto simp: busy_phases_def)
  have "ends (mark k Preparing ` P) (send E a k (Approve t p n)) (mark k Confirmed ` mark k Preparing ` P) X"
    by (rule ends_send) (use assms in \<open>auto simp: image_image\<close>)
  then have "ends (mark k Preparing ` P) (bind (send E a k (Approve t p n)) (\<lambda>_. return ())) ?Q X"
    by (rule ends_bind) (auto simp: image_image intro!: ends_return)
  moreover have "ends (mark k Preparing ` P) (report k (with_note (Some ''Allowance already sufficient'') \<circ> to_phase Skipped) :: ('w, unit) flow) ?Q X"
    by (rule ends_report [where p = Skipped]) (auto simp: image_image)
  ultimately have rest: "ends (mark k Preparing ` P) (if current \<ge> n
      then report k (with_note (Some ''Allowance already sufficient'') \<circ> to_phase Skipped)
      else bind (send E a k (Approve t p n)) (\<lambda>_. return ())) ?Q X" for current :: int
    by simp
  show ?thesis
    unfolding ensureAllowance_def
    by (intro ends_next [OF ends_report [where p = Preparing, OF _ order_refl]] ends_bind [OF ends_marked_await [OF m]] rest) simp
qed

text \<open>The progress lists of a trade: as it starts, between its two steps, when it returns, and when it throws.\<close>

definition two_steps :: "tx_phase \<Rightarrow> tx_phase \<Rightarrow> progress" where
  "two_steps p q = [(''approve'', p), (''swap'', q)]"

lemma mark_two [simp]:
  "mark ''approve'' x (two_steps p q) = two_steps x q" "mark ''swap'' x (two_steps p q) = two_steps p x"
  by (simp_all add: mark_def two_steps_def)

definition thrown_lists :: "progress set" where
  "thrown_lists = insert (two_steps Todo Todo) ((\<lambda>q. two_steps q Todo) ` insert Failed busy_phases
     \<union> (\<lambda>(p, q). two_steps p q) ` ({Confirmed, Skipped} \<times> insert Failed busy_phases))"

lemma thrown_simps [simp]:
  "two_steps Todo Todo \<in> thrown_lists"
  "q \<in> insert Failed busy_phases \<Longrightarrow> two_steps q Todo \<in> thrown_lists"
  "p \<in> {Confirmed, Skipped} \<Longrightarrow> q \<in> insert Failed busy_phases \<Longrightarrow> two_steps p q \<in> thrown_lists"
  by (auto simp: thrown_lists_def)

definition returned_lists :: "progress set" where
  "returned_lists = {two_steps Confirmed Confirmed, two_steps Skipped Confirmed}"

lemma ends_swap_with:
  "ends {two_steps Confirmed Preparing, two_steps Skipped Preparing} (swap_with E a ord x d n t) returned_lists thrown_lists"
proof -
  let ?P = "{two_steps Confirmed Preparing, two_steps Skipped Preparing}"
  have r: "ends ?P (await f) ?P thrown_lists" for f by (rule ends_await) (simp add: busy_phases_def)
  have "ends ?P (send E a ''swap'' c) (mark ''swap'' Confirmed ` ?P) thrown_lists" for c
    by (rule ends_send) auto
  then show ?thesis unfolding swap_with_def returned_lists_def by (intro ends_bind [OF r]) simp
qed

lemma ends_swaps:
  "ends {two_steps Confirmed Preparing, two_steps Skipped Preparing} (swap_leg E a i l x n t) returned_lists thrown_lists"
  "ends {two_steps Confirmed Preparing, two_steps Skipped Preparing} (group_swap E a g m tok x n t) returned_lists thrown_lists"
proof -
  let ?P = "{two_steps Confirmed Preparing, two_steps Skipped Preparing}"
  have r: "ends ?P (await f) ?P thrown_lists" for f by (rule ends_await) (simp add: busy_phases_def)
  show "ends ?P (swap_leg E a i l x n t) returned_lists thrown_lists"
    unfolding swap_leg_def by (intro ends_bind [OF r] ends_swap_with)
  show "ends ?P (group_swap E a g m tok x n t) returned_lists thrown_lists"
    unfolding group_swap_def by (intro ends_bind [OF r] ends_swap_with)
qed

text \<open>A trade: the allowance, the note on the swap, the swap; and, before it, a quote that may stop it.\<close>

lemma ends_trade:
  assumes "ends {two_steps Confirmed Preparing, two_steps Skipped Preparing} L returned_lists thrown_lists"
    and "\<And>xs. phase_list (patch_step ''swap'' f xs) = mark ''swap'' Preparing (phase_list xs)"
  shows "ends {two_steps Todo Todo} (next_do (ensureAllowance E a ''approve'' tok sp m)
      (next_do (report ''swap'' f) (bind L (\<lambda>rc. return (g rc))))) returned_lists thrown_lists"
proof -
  let ?M = "mark ''approve'' Confirmed ` {two_steps Todo Todo} \<union> mark ''approve'' Skipped ` {two_steps Todo Todo}"
  have "ends {two_steps Todo Todo} (ensureAllowance E a ''approve'' tok sp m) ?M thrown_lists"
    by (rule ends_allowance) auto
  moreover have "ends ?M (report ''swap'' f) {two_steps Confirmed Preparing, two_steps Skipped Preparing} thrown_lists"
    by (rule ends_report [where p = Preparing, OF assms(2)]) simp
  ultimately show ?thesis
    by (intro ends_next [OF _ ends_next [OF _ ends_bind [OF assms(1) ends_return [OF order_refl]]]])
qed

lemma ends_quote: "ends {two_steps Todo Todo} (await f) {two_steps Todo Todo} thrown_lists"
  by (rule ends_await) simp

lemma ends_stop: "ends {two_steps Todo Todo} (throw e) Q thrown_lists"
  by (rule ends_throw) simp

lemma ends_sizing: "ends {two_steps Todo Todo} (buy_sizing E p) {two_steps Todo Todo} thrown_lists"
  unfolding buy_sizing_def Let_def
  by (auto split: buy_mode.splits prod.splits intro!: ends_bind [OF ends_quote] ends_stop ends_return)

lemma ends_quoteGroup: "ends {two_steps Todo Todo} (quoteGroup E g k sd x n a) {two_steps Todo Todo} thrown_lists"
  unfolding quoteGroup_def Let_def by (auto intro!: ends_bind [OF ends_quote] ends_quote ends_stop)

lemmas ends_all_trades = ends_trade [OF ends_swaps(1)] ends_trade [OF ends_swaps(2)] ends_stop

lemma ends_trades:
  "ends {two_steps Todo Todo} (runBuy E a p) returned_lists thrown_lists"
  "ends {two_steps Todo Todo} (runExit E a q) returned_lists thrown_lists"
  "ends {two_steps Todo Todo} (runRedeem E a q) returned_lists thrown_lists"
  "ends {two_steps Todo Todo} (runBuyGroup E a t) returned_lists thrown_lists"
  "ends {two_steps Todo Todo} (runExitGroup E a t) returned_lists thrown_lists"
  "ends {two_steps Todo Todo} (runRedeemGroup E a t) returned_lists thrown_lists"
  unfolding runBuy_def runExit_def runRedeem_def runBuyGroup_def runExitGroup_def runRedeemGroup_def Let_def
  by (auto intro!: ends_bind [OF ends_sizing] ends_bind [OF ends_quote] ends_bind [OF ends_quoteGroup] ends_all_trades
      split: prod.splits)

subsection \<open>The hook\<close>

lemma settled_phases:
  "phase_list (settle_steps e xs) =
   map (\<lambda>(k, q). (k, if q \<in> busy_phases then if isUserRejection e then Rejected else Failed else q)) (phase_list xs)"
  by (simp add: settle_steps_def phase_list_def busy_phases_def active_def Let_def)

lemma fresh_phases: "phase_list (map fresh_step pl) = map (\<lambda>p. (sp_key p, Todo)) pl"
  by (simp add: phase_list_def fresh_step_def step_plan.extend_def)

lemma ends_run_body:
  assumes "\<And>a. ends P (fn a) Q X" "P \<subseteq> X"
  shows "ends P (run_body E fn) Q X"
  unfolding run_body_def
  by (auto intro!: ends_bind [OF ends_await] ends_next [where R = P] ends_throw ends_await ends_return assms
      split: prod.splits option.splits)

text \<open>How a trade leaves its list: approved and swapped; or untouched, stopped at the approval, or stopped at the swap.\<close>

definition trade_outcome :: "('w, 'a) tx_flow \<Rightarrow> bool" where
  "trade_outcome F \<longleftrightarrow> (let ph = map sp_phase (pg_steps (tf_page F)) in
     if tf_result F \<noteq> None then ph \<in> {[Confirmed, Confirmed], [Skipped, Confirmed]}
     else ph \<in> {[Todo, Todo], [Failed, Todo], [Rejected, Todo], [Confirmed, Failed], [Confirmed, Rejected],
                [Skipped, Failed], [Skipped, Rejected]})"

lemma run_trade_outcome:
  assumes "\<And>a. ends {two_steps Todo Todo} (fn a) returned_lists thrown_lists" "map sp_key pl = [''approve'', ''swap'']"
  shows "trade_outcome (run_flow E pl fn s)"
proof -
  obtain r s1 where run: "run_body E fn (s\<lparr>pg_steps := map fresh_step pl\<rparr>) = (r, s1)" by fastforce
  have "map (\<lambda>p. (sp_key p, Todo)) pl = map (\<lambda>k. (k, Todo)) (map sp_key pl)" by simp
  then have st: "phases (s\<lparr>pg_steps := map fresh_step pl\<rparr>) \<in> {two_steps Todo Todo}"
    by (simp only: assms(2)) (simp add: fresh_phases two_steps_def)
  have e: "ends {two_steps Todo Todo} (run_body E fn) returned_lists thrown_lists"
    by (rule ends_run_body [OF assms(1)]) simp
  have m: "map sp_phase xs = map snd (phase_list xs)" for xs by (simp add: phase_list_def)
  show ?thesis
  proof (cases r)
    case (Inr x)
    then have "phases s1 \<in> returned_lists" using endsD [OF e st run] by simp
    then show ?thesis using run Inr
      by (auto simp: run_flow_def trade_outcome_def m returned_lists_def two_steps_def)
  next
    case (Inl err)
    then have "phases s1 \<in> thrown_lists" using endsD [OF e st run] by simp
    then show ?thesis using run Inl
      by (auto simp: run_flow_def trade_outcome_def m settled_phases thrown_lists_def two_steps_def busy_phases_def)
  qed
qed

end
