(* ===== verification/Web_Tx_Props.thy ===== *)
theory Web_Tx_Props
  imports Web_Tx_Create Web_Tx_Phases
begin

text \<open>
  What \<open>web/src/lib/tx.ts\<close> promises: the hook never leaves a step running, a creation is never submitted
  twice, a limit stays within the slippage asked for, and a run approves only what it spends.
\<close>

subsection \<open>A concrete outside\<close>

text \<open>
  A chain that holds a vault with \<open>free\<close> collateral and no allowance, quotes every trade at one price,
  accepts every submission under one hash and answers a wait with \<open>mined\<close>.
\<close>

definition demo_env :: "int \<Rightarrow> (thrown + tx_receipt) \<Rightarrow> unit env" where
  "demo_env free mined = \<lparr>
     e_usdc = ''0xusdc'', e_portfolioMarket = ''0xmarket'', e_chainId = 31337, e_seriesFactory = ''0xfactory'',
     e_takerSpender = ''0xrouter'', e_activeChain = 31337,
     e_now = (\<lambda>w. (Inr 1000, w)), e_account = (\<lambda>w. (Inr (Some ''0xwriter'', 31337), w)),
     e_switchChain = (\<lambda>w. (Inr (), w)), e_walletClient = (\<lambda>w. (Inr (), w)),
     e_simulate = (\<lambda>_ _ w. (Inr (), w)), e_write = (\<lambda>_ w. (Inr ''0xfeed'', w)), e_wait = (\<lambda>_ w. (mined, w)),
     e_allowance = (\<lambda>_ _ _ w. (Inr 0, w)), e_vaultOf = (\<lambda>_ w. (Inr ''0xvault'', w)),
     e_portfolioVaultOf = (\<lambda>_ w. (Inr zero_address, w)), e_freeQuote = (\<lambda>_ w. (Inr free, w)),
     e_quoteIssueExactIn = (\<lambda>_ q w. (Inr (2 * q, q), w)), e_quoteIssueExactOut = (\<lambda>_ u w. (Inr (u, u div 2), w)),
     e_quoteExitExactIn = (\<lambda>_ u w. (Inr (u, u div 2), w)), e_quoteSettleExactIn = (\<lambda>_ u w. (Inr (u, u div 2), w)),
     e_readOrder = (\<lambda>_ _ w. (Inr (''0xmaker'', 0, ''0x''), w)), e_legDirection = (\<lambda>_ _ w. (Inr True, w)),
     e_readOrderFor = (\<lambda>_ _ w. (Inr (''0xmaker'', 0, ''0x''), w)),
     e_buildTakerData = (\<lambda>_ _ _ n _ _ w. (Inr (dec_string n), w)),
     e_routerQuote = (\<lambda>_ n _ w. (Inr (n, n), w)), e_progress = (\<lambda>_ w. (Inr (1, 2, 3), w)),
     e_groupProgress = (\<lambda>_ w. (Inr (1, 2, 3), w)), e_setItem = (\<lambda>_ _ w. (Inr (), w))\<rparr>"

definition demo_receipt :: tx_receipt where
  "demo_receipt = \<lparr>rc_success = True, rc_hash = ''0xfeed'', rc_vaultCreated = Some ''0xvault'',
     rc_seriesCreated = Some (7, ''0xreceipt''), rc_groupCreated = Some 3, rc_swapped = Some (40, 80)\<rparr>"

definition offline :: thrown where "offline = new_Error ''fetch failed''"

definition demo_page :: "step_plan list \<Rightarrow> (unit \<times> submission list) page" where
  "demo_page pl = \<lparr>pg_steps = map fresh_step pl, pg_storage = (\<lambda>_. None), pg_world = ((), [])\<rparr>"

definition demo_input :: create_series_input where
  "demo_input = \<lparr>csi_params = demo_params, csi_vault = None, csi_depositAmount = None, csi_backdatedDemo = False\<rparr>"

lemma demo_storage [simp]: "\<not> refuses (demo_env free mined) k v e"
  by (simp add: refuses_def demo_env_def)

lemma demo_key: "createCheckpointKey (demo_env f m) = createCheckpointKey (demo_env f' m')"
  by (simp add: fun_eq_iff createCheckpointKey_def demo_env_def)

lemma demo_world: "pg_world (demo_page pl) = ((), [])" "pg_world ((demo_page pl)\<lparr>pg_storage := st\<rparr>) = ((), [])"
  by (simp_all add: demo_page_def)

subsection \<open>The hook\<close>

text \<open>How a failed run settles its list, step by step.\<close>

lemma settle_steps_each:
  "list_all2 (\<lambda>before after. after = (if sp_phase before = Preparing \<or> sp_phase before = Confirm \<or> sp_phase before = Pending
       then before\<lparr>sp_phase := (if isUserRejection e then Rejected else Failed),
              sp_error := Some (if isUserRejection e then ''Rejected in wallet'' else errorMessage e)\<rparr>
       else before)) xs (settle_steps e xs)"
  by (simp add: settle_steps_def Let_def list_all2_map2 active_def list_all2_same cong: if_cong)

text \<open>C23: however a run ends the hook is idle afterwards. A run that returns reports its result, no error and the
  progress list as the flow left it. A run that throws reports the error and no result, and of the progress
  list each step that was preparing, waiting for the wallet or pending is settled, rejected when the user
  refused and failed otherwise, under the error reported, while every other step stays as it was. So a buy,
  a sale or a redemption, of a series or of a side of a group, never leaves its list half-way: when it returns
  the approval is confirmed or skipped and the swap confirmed; when it throws the list is untouched, or
  stopped at the approval, or at the swap after the approval.\<close>

theorem flow_never_stuck:
  fixes E :: "'w env" and fn :: "address \<Rightarrow> ('w, 'a) flow"
  shows "\<not> tf_running (run_flow E pl fn s)
    \<and> (case run_body E fn (s\<lparr>pg_steps := map fresh_step pl\<rparr>) of
         (Inr x, s1) \<Rightarrow> tf_result (run_flow E pl fn s) = Some x \<and> tf_error (run_flow E pl fn s) = None
           \<and> tf_page (run_flow E pl fn s) = s1
       | (Inl e, s1) \<Rightarrow> tf_result (run_flow E pl fn s) = None
           \<and> tf_error (run_flow E pl fn s) = Some (if isUserRejection e then ''Rejected in wallet'' else errorMessage e)
           \<and> list_all2 (\<lambda>before after. after =
                (if sp_phase before = Preparing \<or> sp_phase before = Confirm \<or> sp_phase before = Pending
                 then before\<lparr>sp_phase := (if isUserRejection e then Rejected else Failed),
                        sp_error := Some (if isUserRejection e then ''Rejected in wallet'' else errorMessage e)\<rparr>
                 else before)) (pg_steps s1) (pg_steps (tf_page (run_flow E pl fn s))))
    \<and> trade_outcome (run_flow E BUY_PLAN (\<lambda>a. runBuy E a p) s)
    \<and> trade_outcome (run_flow E EXIT_PLAN (\<lambda>a. runExit E a q) s)
    \<and> trade_outcome (run_flow E REDEEM_PLAN (\<lambda>a. runRedeem E a q) s)
    \<and> trade_outcome (run_flow E BUY_GROUP_PLAN (\<lambda>a. runBuyGroup E a t) s)
    \<and> trade_outcome (run_flow E EXIT_GROUP_PLAN (\<lambda>a. runExitGroup E a t) s)
    \<and> trade_outcome (run_flow E REDEEM_GROUP_PLAN (\<lambda>a. runRedeemGroup E a t) s)"
proof -
  have keys: "map sp_key BUY_PLAN = [''approve'', ''swap'']" "map sp_key EXIT_PLAN = [''approve'', ''swap'']"
    "map sp_key REDEEM_PLAN = [''approve'', ''swap'']" "map sp_key BUY_GROUP_PLAN = [''approve'', ''swap'']"
    "map sp_key EXIT_GROUP_PLAN = [''approve'', ''swap'']" "map sp_key REDEEM_GROUP_PLAN = [''approve'', ''swap'']"
    by (simp_all add: BUY_PLAN_def EXIT_PLAN_def REDEEM_PLAN_def BUY_GROUP_PLAN_def EXIT_GROUP_PLAN_def REDEEM_GROUP_PLAN_def)
  show ?thesis
    by (intro conjI run_trade_outcome [OF ends_trades(1) keys(1)] run_trade_outcome [OF ends_trades(2) keys(2)]
        run_trade_outcome [OF ends_trades(3) keys(3)] run_trade_outcome [OF ends_trades(4) keys(4)]
        run_trade_outcome [OF ends_trades(5) keys(5)] run_trade_outcome [OF ends_trades(6) keys(6)])
      (simp_all add: run_flow_def settle_steps_each split: prod.splits sum.splits split del: if_split)
qed

subsection \<open>Creating a series\<close>

lemma logged_same [simp]:
  "createCheckpointKey (logged E) = createCheckpointKey E" "refuses (logged E) = refuses E"
  by (auto simp: createCheckpointKey_def refuses_def logged_def beside_def fun_eq_iff split_beta)

lemma creation_logged:
  assumes "pg_world s = (w, [])"
  shows "creation_facts (logged E) a inp s (fst (runCreateSeries (logged E) a inp s)) (snd (runCreateSeries (logged E) a inp s))
    (snd (pg_world (snd (runCreateSeries (logged E) a inp s))))"
  using log.creation_run [of E a inp s] assms by (cases "runCreateSeries (logged E) a inp s") fastforce

lemma creation_at:
  assumes "creation_facts E a inp s r s' new" "(CreateSeries d v p, h) \<in> set new"
  shows "p = csi_params inp" "\<forall>cp. pg_storage s (createCheckpointKey E a v p) \<noteq> Some (Saved cp)"
    "length (filter (is_create \<circ> fst) new) = 1"
    "case r of Inl e \<Rightarrow> (\<exists>cp. pg_storage s' (createCheckpointKey E a v p) = Some (Saved cp) \<and> cc_createHash cp = h)
         \<or> pg_storage s' (createCheckpointKey E a v p) = None
             \<and> refuses E (createCheckpointKey E a v p) (Saved (sent_checkpoint a h)) e
     | Inr res \<Rightarrow> cs_vault res = v \<and> pg_storage s' (createCheckpointKey E a v p) = None"
proof -
  have m: "(CreateSeries d v p, h) \<in> set (filter (is_create \<circ> fst) new)"
    using assms(2) by (simp add: is_create_def)
  then have ne: "filter (is_create \<circ> fst) new \<noteq> []" by force
  obtain v0 h0 where f: "filter (is_create \<circ> fst) new = [(CreateSeries (csi_backdatedDemo inp) v0 (csi_params inp), h0)]"
      and st: "\<forall>cp. pg_storage s (createCheckpointKey E a v0 (csi_params inp)) \<noteq> Some (Saved cp)"
      and r: "case r of Inl e \<Rightarrow> (\<exists>cp. pg_storage s' (createCheckpointKey E a v0 (csi_params inp)) = Some (Saved cp) \<and> cc_createHash cp = h0)
           \<or> pg_storage s' (createCheckpointKey E a v0 (csi_params inp)) = None
               \<and> refuses E (createCheckpointKey E a v0 (csi_params inp)) (Saved (sent_checkpoint a h0)) e
         | Inr res \<Rightarrow> cs_vault res = v0 \<and> pg_storage s' (createCheckpointKey E a v0 (csi_params inp)) = None"
    using assms(1) ne unfolding creation_facts_def Let_def by blast
  have e: "v = v0" "p = csi_params inp" "h = h0" using m unfolding f by simp_all
  show "p = csi_params inp" by (rule e(2))
  show "\<forall>cp. pg_storage s (createCheckpointKey E a v p) \<noteq> Some (Saved cp)" using st by (simp add: e)
  show "length (filter (is_create \<circ> fst) new) = 1" by (simp add: f)
  show "case r of Inl e \<Rightarrow> (\<exists>cp. pg_storage s' (createCheckpointKey E a v p) = Some (Saved cp) \<and> cc_createHash cp = h)
         \<or> pg_storage s' (createCheckpointKey E a v p) = None
             \<and> refuses E (createCheckpointKey E a v p) (Saved (sent_checkpoint a h)) e
     | Inr res \<Rightarrow> cs_vault res = v \<and> pg_storage s' (createCheckpointKey E a v p) = None" using r unfolding e .
qed

text \<open>C22: a run that submits the creation of a series on a vault had no saved checkpoint for it and submits it once.
  When it fails afterwards that submission's hash is left saved, with one exception: the browser's storage
  refused the entry with the hash (\<open>localStorage.setItem\<close> throws over its quota), its refusal is the error of
  the run, and nothing is saved. A run that returns leaves nothing behind.\<close>

theorem creation_saved:
  assumes "pg_world s = (w, [])" "runCreateSeries (logged E) a inp s = (r, s')"
    "(CreateSeries d v p, h) \<in> set (snd (pg_world s'))"
  shows "p = csi_params inp \<and> pg_storage s (createCheckpointKey E a v p) \<in> {None, Some Corrupt}
    \<and> length (filter (is_create \<circ> fst) (snd (pg_world s'))) = 1
    \<and> (case r of
         Inl e \<Rightarrow> (\<exists>cp. pg_storage s' (createCheckpointKey E a v p) = Some (Saved cp) \<and> cc_createHash cp = h)
           \<or> pg_storage s' (createCheckpointKey E a v p) = None
               \<and> (\<exists>now. fst (e_setItem E (createCheckpointKey E a v p) (Saved (sent_checkpoint a h)) now) = Inl e)
       | Inr res \<Rightarrow> cs_vault res = v \<and> pg_storage s' (createCheckpointKey E a v p) = None)"
proof -
  have "creation_facts (logged E) a inp s r s' (snd (pg_world s'))"
    using creation_logged [OF assms(1), of E a inp] assms(2) by simp
  note at = creation_at [OF this assms(3), unfolded logged_same]
  have "pg_storage s (createCheckpointKey E a v p) \<in> {None, Some Corrupt}"
    using at(2) by (cases "pg_storage s (createCheckpointKey E a v p)") (auto, metis stored.exhaust)
  then show ?thesis using at(1,3,4) unfolding refuses_def by blast
qed

text \<open>A creation whose receipt never arrives: submitted, not mined, saved.\<close>

definition lost_run :: "(thrown + create_series_result) \<times> (unit \<times> submission list) page" where
  "lost_run = runCreateSeries (logged (demo_env (10 ^ 30) (Inl offline))) ''0xwriter'' demo_input (demo_page CREATE_SERIES_PLAN)"

lemma lost_run_facts:
  "fst lost_run = Inl offline" "(CreateSeries False ''0xvault'' demo_params, ''0xfeed'') \<in> set (snd (pg_world (snd lost_run)))"
  by code_simp+

theorem creation_saved_witness:
  "\<exists>cp. pg_storage (snd lost_run) (createCheckpointKey (demo_env (10 ^ 30) (Inl offline)) ''0xwriter'' ''0xvault'' demo_params)
     = Some (Saved cp) \<and> cc_createHash cp = ''0xfeed''"
proof -
  have "runCreateSeries (logged (demo_env (10 ^ 30) (Inl offline))) ''0xwriter'' demo_input (demo_page CREATE_SERIES_PLAN)
      = (Inl offline, snd lost_run)" using lost_run_facts(1) by (simp add: lost_run_def prod_eq_iff)
  from creation_saved [OF demo_world(1) this lost_run_facts(2)] show ?thesis
    by (auto simp: demo_env_def)
qed

text \<open>C21: when a run fails after the creation of a series went out, a run for the same series on the storage the first
  one left does not submit a second creation, whatever the chain, the wallet and the page look like by then
  and whether or not the storage still takes entries; unless the first run failed because the storage refused
  to save the hash of its submission.\<close>

theorem retry_never_creates_twice:
  assumes "createCheckpointKey E' = createCheckpointKey E"
    and "pg_world s = (w, [])" "fst (runCreateSeries (logged E) a inp s) = Inl e"
    and "(CreateSeries d v p, h) \<in> set (snd (pg_world (snd (runCreateSeries (logged E) a inp s))))"
    and "\<forall>now. fst (e_setItem E (createCheckpointKey E a v p) (Saved (sent_checkpoint a h)) now) \<noteq> Inl e"
    and "pg_storage s2 = pg_storage (snd (runCreateSeries (logged E) a inp s))" "pg_world s2 = (w', [])"
  shows "(CreateSeries d' v p, h') \<notin> set (snd (pg_world (snd (runCreateSeries (logged E') a inp2 s2))))"
proof
  assume again: "(CreateSeries d' v p, h') \<in> set (snd (pg_world (snd (runCreateSeries (logged E') a inp2 s2))))"
  note first = creation_at(4) [OF creation_logged [OF assms(2)] assms(4), unfolded logged_same]
  note second = creation_at(2) [OF creation_logged [OF assms(7)] again, unfolded logged_same]
  have "\<exists>cp. pg_storage s2 (createCheckpointKey E a v p) = Some (Saved cp)"
    using first assms(3,5,6) by (auto simp: refuses_def)
  then show False using second assms(1) by auto
qed

theorem retry_never_creates_twice_witness:
  "(CreateSeries False ''0xvault'' demo_params, ''0xfeed'') \<notin> set (snd (pg_world (snd
     (runCreateSeries (logged (demo_env (10 ^ 30) (Inr demo_receipt))) ''0xwriter'' demo_input
       ((demo_page CREATE_SERIES_PLAN)\<lparr>pg_storage := pg_storage (snd lost_run)\<rparr>)))))"
proof -
  have saves: "\<forall>now. fst (e_setItem (demo_env (10 ^ 30) (Inl offline)) k x now) \<noteq> Inl offline" for k x
    by (simp add: demo_env_def)
  show ?thesis
    unfolding lost_run_def
    by (rule retry_never_creates_twice [OF demo_key demo_world(1) lost_run_facts [unfolded lost_run_def] saves _ demo_world(2)])
      simp
qed

text \<open>
  The exception is real. With a storage over its quota the creation goes out, the handler of its hash throws,
  nothing is saved, and the retry submits a second creation of the same series.
\<close>

definition full_env :: "unit env" where
  "full_env = (demo_env (10 ^ 30) (Inr demo_receipt))\<lparr>e_setItem := \<lambda>_ _ w. (Inl (new_Error ''QuotaExceededError''), w)\<rparr>"

definition full_run :: "(thrown + create_series_result) \<times> (unit \<times> submission list) page" where
  "full_run = runCreateSeries (logged full_env) ''0xwriter'' demo_input (demo_page CREATE_SERIES_PLAN)"

lemma full_storage_creates_twice:
  "fst full_run = Inl (new_Error ''QuotaExceededError'')"
  "(CreateSeries False ''0xvault'' demo_params, ''0xfeed'') \<in> set (snd (pg_world (snd full_run)))"
  "(CreateSeries False ''0xvault'' demo_params, ''0xfeed'') \<in> set (snd (pg_world (snd (runCreateSeries (logged full_env)
     ''0xwriter'' demo_input ((demo_page CREATE_SERIES_PLAN)\<lparr>pg_storage := pg_storage (snd full_run)\<rparr>)))))"
  by code_simp+

subsection \<open>The steps of a creation\<close>

definition over :: "tx_phase \<Rightarrow> bool" where
  "over ph \<longleftrightarrow> ph = Confirmed \<or> ph = Skipped"

lemma run_returned:
  assumes "tf_result (run_flow E pl fn s) = Some x"
  obtains a s1 where "fn a s1 = (Inr x, tf_page (run_flow E pl fn s))"
    "phases s1 = map (\<lambda>p. (sp_key p, Todo)) pl"
proof -
  have "run_body E fn (s\<lparr>pg_steps := map fresh_step pl\<rparr>) = (Inr x, tf_page (run_flow E pl fn s))"
    using assms by (auto simp: run_flow_def split: prod.splits sum.splits)
  then obtain a s1 where "fn a s1 = (Inr x, tf_page (run_flow E pl fn s))" "pg_steps s1 = map fresh_step pl"
    by (auto simp: run_body_def returned_simps split: prod.splits option.splits if_splits)
  then show ?thesis using that fresh_phases by metis
qed

lemma group_vault_phases:
  assumes "group_vault_part E a inp s = (Inr v, s')"
  shows "\<exists>q. over q \<and> phases s' = mark ''vault'' q (phases s)"
proof -
  let ?pick = "\<lambda>x. case cgi_vault inp of Some v \<Rightarrow> v | None \<Rightarrow> x"
  obtain x s1 where s1: "phases s1 = mark ''vault'' Preparing (phases s)" and
      run: "(if no_vault (?pick x) then
          bind (send E a ''vault'' CreateGroupVault) (\<lambda>receipt.
            case rc_vaultCreated receipt of Some w \<Rightarrow> return w | None \<Rightarrow> await (e_portfolioVaultOf E a))
        else next_do (report ''vault'' (with_note (Some (''Using '' @ ?pick x)) \<circ> to_phase Skipped)) (return (?pick x))) s1
        = (Inr v, s')"
    using assms unfolding group_vault_part_def Let_def returned_simps(1-4)
    by (elim exE conjE) (rule that [rotated], assumption, simp)
  show ?thesis
  proof (cases "no_vault (?pick x)")
    case True
    then obtain rc s2 where "send E a ''vault'' CreateGroupVault s1 = (Inr rc, s2)" "phases s' = phases s2"
      using run by (auto simp: returned_simps split: option.splits)
    then have "phases s' = mark ''vault'' Confirmed (phases s)" using s1 send_phases(1) [of E a] by simp
    then show ?thesis by (intro exI [of _ Confirmed]) (simp add: over_def)
  next
    case False
    then have "phases s' = mark ''vault'' Skipped (phases s)" using run s1 by (auto simp: returned_simps)
    then show ?thesis by (intro exI [of _ Skipped]) (simp add: over_def)
  qed
qed

abbreviation topup :: "'w env \<Rightarrow> address \<Rightarrow> address \<Rightarrow> address \<Rightarrow> int \<Rightarrow> tx_call \<Rightarrow> string option \<Rightarrow> string option \<Rightarrow> ('w, unit) flow" where
  "topup E a t v amount c n1 n2 \<equiv>
     (if amount > 0 then next_do (ensureAllowance E a ''approve'' t v amount) (bind (send E a ''fund'' c) (\<lambda>_. return ()))
      else next_do (report ''approve'' (with_note n1 \<circ> to_phase Skipped))
             (report ''fund'' (with_note n2 \<circ> to_phase Skipped)))"

lemma topup_phases:
  assumes "topup E a t v amount c n1 n2 s = (Inr (), s')"
  shows "\<exists>p q. over p \<and> over q \<and> phases s' = mark ''fund'' q (mark ''approve'' p (phases s))"
proof (cases "amount > 0")
  case True
  then obtain s1 rc where allow: "ensureAllowance E a ''approve'' t v amount s = (Inr (), s1)" "send E a ''fund'' c s1 = (Inr rc, s')"
    using assms by (auto simp: returned_simps)
  from allowance_phases [OF allow(1)]
  obtain p where p: "p \<in> {Confirmed, Skipped}" "phases s1 = mark ''approve'' p (phases s)" by (elim exE conjE)
  have "phases s' = mark ''fund'' Confirmed (phases s1)" using allow(2) by (rule send_phases(1))
  then show ?thesis using p by (intro exI [of _ p] exI [of _ Confirmed]) (auto simp: over_def)
next
  case False
  then have "phases s' = mark ''fund'' Skipped (mark ''approve'' Skipped (phases s))"
    using assms by (auto simp: returned_simps)
  then show ?thesis by (intro exI [of _ Skipped]) (simp add: over_def)
qed

lemma fund_phases:
  assumes "fund_part E a inp v s = (Inr (), s')"
  shows "\<exists>p q. over p \<and> over q \<and> phases s' = mark ''fund'' q (mark ''approve'' p (phases s))"
proof -
  obtain t amount c n1 n2 s1 where s1: "phases s1 = phases s" and run: "topup E a t v amount c n1 n2 s1 = (Inr (), s')"
    using assms unfolding fund_part_def Let_def returned_simps(1,3)
    by (elim exE conjE) (rule that [rotated], assumption, simp)
  show ?thesis using topup_phases [OF run] unfolding s1 .
qed

lemma group_fund_phases:
  assumes "group_fund_part E a inp v s = (Inr (), s')"
  shows "\<exists>p q. over p \<and> over q \<and> phases s' = mark ''fund'' q (mark ''approve'' p (phases s))"
proof -
  obtain t amount c n1 n2 s1 where s1: "phases s1 = phases s" and run: "topup E a t v amount c n1 n2 s1 = (Inr (), s')"
    using assms unfolding group_fund_part_def Let_def returned_simps(1,3)
    by (elim exE conjE) (rule that [rotated], assumption, simp)
  show ?thesis using topup_phases [OF run] unfolding s1 .
qed

lemma mark_keeps: "(k, p) \<in> set xs \<Longrightarrow> k \<noteq> k' \<Longrightarrow> (k, p) \<in> set (mark k' q xs)"
  by (force simp: mark_def)

text \<open>When the creation of a risk group returns, every step of its progress list is confirmed or skipped.\<close>

theorem group_creation_steps_done:
  assumes "tf_result (run_flow E CREATE_GROUP_PLAN (\<lambda>a. runCreateGroup E a inp) s) = Some res"
  shows "list_all (\<lambda>st. sp_phase st = Confirmed \<or> sp_phase st = Skipped)
    (pg_steps (tf_page (run_flow E CREATE_GROUP_PLAN (\<lambda>a. runCreateGroup E a inp) s)))"
proof -
  let ?e = "tf_page (run_flow E CREATE_GROUP_PLAN (\<lambda>a. runCreateGroup E a inp) s)"
  obtain a s0 where run: "runCreateGroup E a inp s0 = (Inr res, ?e)"
      and start: "phases s0 = map (\<lambda>p. (sp_key p, Todo)) CREATE_GROUP_PLAN"
    using run_returned [OF assms] by blast
  obtain v s1 s2 rc s3 where parts: "group_vault_part E a inp s0 = (Inr v, s1)" "group_fund_part E a inp v s1 = (Inr (), s2)"
      "send E a ''create'' (CreateGroup (cgi_backdatedDemo inp) v (cgi_params inp)) s2 = (Inr rc, s3)"
      "phases ?e = phases s3"
    using run by (auto simp: runCreateGroup_def returned_simps split: option.splits)
  obtain p where p: "over p" "phases s1 = mark ''vault'' p (phases s0)" using group_vault_phases [OF parts(1)] by blast
  obtain q r where q: "over q" "over r" "phases s2 = mark ''fund'' r (mark ''approve'' q (phases s1))"
    using group_fund_phases [OF parts(2)] by blast
  have "phases ?e = mark ''create'' Confirmed (phases s2)"
    using send_phases(1) [OF parts(3)] parts(4) by simp
  then have "list_all (\<lambda>(k, ph). over ph) (phases ?e)"
    using start p q by (simp add: CREATE_GROUP_PLAN_def mark_def over_def)
  then show ?thesis by (simp add: phase_list_def list_all_iff over_def)
qed

definition demo_group_input :: create_group_input where
  "demo_group_input = \<lparr>cgi_params = group_state.params demo_group, cgi_vault = None, cgi_depositAmount = None,
     cgi_backdatedDemo = False\<rparr>"

lemma demo_body: "run_body (demo_env free mined) fn s = fn ''0xwriter'' s"
  by (cases s) (simp add: run_body_def demo_env_def await_def bind_def next_do_def return_def)

lemma demo_group_created:
  "fst (runCreateGroup (demo_env (10 ^ 30) (Inr demo_receipt)) ''0xwriter'' demo_group_input
     \<lparr>pg_steps = map fresh_step CREATE_GROUP_PLAN, pg_storage = (\<lambda>_. None), pg_world = ()\<rparr>)
   = Inr \<lparr>cg_id = 3, cg_vault = ''0xvault'', cg_createHash = ''0xfeed''\<rparr>"
  by code_simp

theorem group_creation_steps_done_witness:
  "list_all (\<lambda>st. sp_phase st = Confirmed \<or> sp_phase st = Skipped) (pg_steps (tf_page
     (run_flow (demo_env (10 ^ 30) (Inr demo_receipt)) CREATE_GROUP_PLAN
        (\<lambda>a. runCreateGroup (demo_env (10 ^ 30) (Inr demo_receipt)) a demo_group_input)
        \<lparr>pg_steps = [], pg_storage = (\<lambda>_. None), pg_world = ()\<rparr>)))"
  by (rule group_creation_steps_done [where res = "\<lparr>cg_id = 3, cg_vault = ''0xvault'', cg_createHash = ''0xfeed''\<rparr>"])
     (use demo_group_created in \<open>simp add: run_flow_def demo_body split_beta\<close>)

lemma vault_phases:
  assumes "create_vault_part E a inp s = (Inr v, s')" "csi_vault inp = None"
    "\<forall>a w x w'. e_vaultOf E a w = (Inr x, w') \<longrightarrow> no_vault x"
  shows "phases s' = mark ''createVault'' Confirmed (mark ''vault'' Preparing (phases s))"
  using assms
  by (auto simp: create_vault_part_def runCreateVault_def Let_def returned_simps dest!: send_phases(1)
      split: if_splits option.splits)


lemma item_phases:
  "loadCreateCheckpoint k s = (Inr x, s') \<Longrightarrow> phases s' = phases s"
  "saveCreateCheckpoint E k c s = (Inr y, s') \<Longrightarrow> phases s' = phases s"
  by (auto simp: loadCreateCheckpoint_def saveCreateCheckpoint_def get_item_def set_item_def remove_item_def returned_simps
      split: option.splits stored.splits)

lemma checkpoint_phases:
  assumes "checkpoint_part E a inp v k s = (Inr c, s')"
  shows "phases s' = phases s \<or> phases s' = mark ''create'' Confirmed (phases s)"
  using assms
  by (auto simp: checkpoint_part_def submit_part_def recover_part_def sendTx_def createdSeries_def Let_def returned_simps
      dest!: item_phases split: option.splits if_splits)

lemma finish_phases:
  assumes "finish_create k v c s = (Inr res, s')"
  shows "phases s' = phases s"
  using assms by (auto simp: finish_create_def remove_item_def returned_simps split: option.splits sum.splits)

text \<open>
  For a writer with no vault yet, a creation of a series reports the vault it creates under the step
  \<open>createVault\<close>, which its plan has not got: the step \<open>vault\<close> is still preparing when the flow returns.
\<close>

theorem vault_step_left_preparing:
  assumes "tf_result (run_flow E CREATE_SERIES_PLAN (\<lambda>a. runCreateSeries E a inp) s) = Some res"
    "csi_vault inp = None" "\<forall>a w x w'. e_vaultOf E a w = (Inr x, w') \<longrightarrow> no_vault x"
  shows "list_ex (\<lambda>st. sp_key st = ''vault'' \<and> sp_phase st = Preparing)
    (pg_steps (tf_page (run_flow E CREATE_SERIES_PLAN (\<lambda>a. runCreateSeries E a inp) s)))"
proof -
  let ?e = "tf_page (run_flow E CREATE_SERIES_PLAN (\<lambda>a. runCreateSeries E a inp) s)"
  obtain a s0 where run: "runCreateSeries E a inp s0 = (Inr res, ?e)"
      and start: "phases s0 = map (\<lambda>p. (sp_key p, Todo)) CREATE_SERIES_PLAN"
    using run_returned [OF assms(1)] by blast
  obtain v s1 s2 c s3 where parts: "create_vault_part E a inp s0 = (Inr v, s1)" "fund_part E a inp v s1 = (Inr (), s2)"
      "checkpoint_part E a inp v (createCheckpointKey E a v (csi_params inp)) s2 = (Inr c, s3)"
      "finish_create (createCheckpointKey E a v (csi_params inp)) v c s3 = (Inr res, ?e)"
    using run by (auto simp: runCreateSeries_def Let_def returned_simps)
  have "(''vault'', Preparing) \<in> set (phases s1)"
    using vault_phases [OF parts(1) assms(2,3)] start by (simp add: CREATE_SERIES_PLAN_def mark_def)
  then have "(''vault'', Preparing) \<in> set (phases s2)"
    using fund_phases [OF parts(2)] by (auto intro!: mark_keeps)
  then have "(''vault'', Preparing) \<in> set (phases s3)"
    using checkpoint_phases [OF parts(3)] by (auto intro: mark_keeps)
  then have "(''vault'', Preparing) \<in> set (phases ?e)"
    using finish_phases [OF parts(4)] by simp
  then show ?thesis by (auto simp: phase_list_def list_ex_iff)
qed

end
