(* ===== verification/Web_Tx_Trades.thy ===== *)
theory Web_Tx_Trades
  imports Web_Tx_Props
begin

text \<open>
  The trades of \<open>web/src/lib/tx.ts\<close>: the limit a slippage gives, and what a trade that returns has
  submitted, an approval of exactly what the swap takes and the swap itself, under a limit taken from the
  quote read first.
\<close>

subsection \<open>Limits\<close>

lemma clampSlippage_range: "0 \<le> clampSlippage b" "clampSlippage b \<le> 5000"
  by (auto simp: clampSlippage_def)

text \<open>Whatever slippage is asked for, a limit lies on its side of the quote, and never further than half of it.\<close>

theorem slippage_limits:
  assumes "0 \<le> q"
  shows "q div 2 \<le> min_out q (clampSlippage b) \<and> min_out q (clampSlippage b) \<le> q
    \<and> q \<le> max_in q (clampSlippage b) \<and> max_in q (clampSlippage b) \<le> q + q div 2"
proof -
  define c where "c = clampSlippage b"
  have c: "0 \<le> c" "c \<le> 5000" using clampSlippage_range by (simp_all add: c_def)
  have d: "min_out q c = q * (10000 - c) div 10000" "max_in q c = q * (10000 + c) div 10000"
    using assms c by (simp_all add: min_out_def max_in_def bdiv_def BPS_def)
  have "q * 5000 \<le> q * (10000 - c)" "q * (10000 - c) \<le> q * 10000"
       "q * 10000 \<le> q * (10000 + c)" "q * (10000 + c) \<le> q * 15000"
    using assms c by (auto intro!: mult_left_mono)
  then show ?thesis unfolding c_def [symmetric] d by linarith
qed

theorem slippage_limits_witness: "min_out 999 (clampSlippage 50) = 994 \<and> max_in 999 (clampSlippage 50) = 1003
    \<and> 999 div 2 \<le> min_out 999 (clampSlippage 50)"
proof -
  have "\<lfloor>101 / 2 :: rat\<rfloor> = 50" by (rule floor_unique) simp_all
  then have "clampSlippage 50 = 50" by (simp add: clampSlippage_def math_round_def)
  then show ?thesis using slippage_limits [of 999 50] by (simp add: min_out_def max_in_def bdiv_def BPS_def)
qed

subsection \<open>What a trade submits\<close>

text \<open>\<open>limit_data E a x n td\<close>: \<open>td\<close> is taker data the outside built for the taker \<open>a\<close> with the limit \<open>n\<close>.\<close>

definition limit_data :: "'w env \<Rightarrow> address \<Rightarrow> bool \<Rightarrow> int \<Rightarrow> string \<Rightarrow> bool" where
  "limit_data E a exactIn n td \<longleftrightarrow>
     (\<exists>dir now w. fst (e_buildTakerData E a exactIn dir n (now + DEADLINE_SECONDS) True w) = Inr td)"

text \<open>
  A swap of \<open>n\<close> under the limit, with an approval of \<open>m\<close> of the token to the router before it exactly when
  the allowance read, in the state \<open>w\<close>, is below \<open>m\<close>.
\<close>

definition trade_calls_at :: "'w env \<Rightarrow> 'w \<Rightarrow> address \<Rightarrow> address \<Rightarrow> int \<Rightarrow> bool \<Rightarrow> int \<Rightarrow> int \<Rightarrow> tx_call list \<Rightarrow> bool" where
  "trade_calls_at E w a tok m exactIn n limit calls \<longleftrightarrow>
     (\<exists>allowance ord td. fst (e_allowance E tok a (e_takerSpender E) w) = Inr allowance \<and> limit_data E a exactIn limit td
        \<and> calls = (if allowance < m then [Approve tok (e_takerSpender E) m] else []) @ [Swap ord n td])"

definition trade_calls :: "'w env \<Rightarrow> address \<Rightarrow> address \<Rightarrow> int \<Rightarrow> bool \<Rightarrow> int \<Rightarrow> int \<Rightarrow> tx_call list \<Rightarrow> bool" where
  "trade_calls E a tok m exactIn n limit calls \<longleftrightarrow> (\<exists>w. trade_calls_at E w a tok m exactIn n limit calls)"

text \<open>What the sizing of a buy read, and what it made of it.\<close>

definition buy_sized :: "'w env \<Rightarrow> buy_params \<Rightarrow> 'w \<Rightarrow> int \<Rightarrow> int \<Rightarrow> int \<Rightarrow> bool" where
  "buy_sized E p w taker spend limit \<longleftrightarrow>
     (let n = id_of (bp_state p); slip = clampSlippage (bp_slippageBps p) in
      case bp_mode p of
        ExactIn \<Rightarrow> (\<exists>units. fst (e_quoteIssueExactIn E n (bp_amount p) w) = Inr (units, taker) \<and> units \<noteq> 0
                     \<and> spend = taker \<and> limit = min_out units slip)
      | ExactOut \<Rightarrow> (\<exists>premium. fst (e_quoteIssueExactOut E n (bp_amount p) w) = Inr (taker, premium) \<and> taker \<noteq> 0
                     \<and> spend = max_in premium slip \<and> limit = spend))"

lemma logged_trade_at [simp]: "trade_calls_at (logged E) w = trade_calls_at E (fst w)"
  by (auto simp: fun_eq_iff trade_calls_at_def limit_data_def logged_def beside_def split_beta)

lemma logged_trade [simp]: "trade_calls (logged E) = trade_calls E"
  by (auto simp: fun_eq_iff trade_calls_def)

context submission_log
begin

lemma send_submits:
  assumes "send E a k c s = (Inr rc, s')"
  shows "\<exists>h. sent (pg_world s') = sent (pg_world s) @ [(c, h)]"
  using assms unfolding send_def by (cases rule: sendTx_cases) (auto simp: return_def)

lemma allowance_submits:
  assumes "ensureAllowance E a k t p n s = (Inr (), s')"
  shows "\<exists>cur new. fst (e_allowance E t a p (pg_world s)) = Inr cur
    \<and> sent (pg_world s') = sent (pg_world s) @ new \<and> map fst new = (if cur < n then [Approve t p n] else [])"
proof -
  let ?s1 = "s\<lparr>pg_steps := patch_step k (to_phase Preparing) (pg_steps s)\<rparr>"
  obtain cur w where w: "e_allowance E t a p (pg_world s) = (Inr cur, w)" and
      run: "(if n \<le> cur then report k (with_note (Some ''Allowance already sufficient'') \<circ> to_phase Skipped)
        else bind (send E a k (Approve t p n)) (\<lambda>_. return ())) (?s1\<lparr>pg_world := w\<rparr>) = (Inr (), s')"
    using assms by (auto simp: ensureAllowance_def returned_simps)
  have q: "sent w = sent (pg_world s)" using quiet_reads(7) [of t a p] w by (auto simp: quiet_def dest: spec [of _ "pg_world s"])
  show ?thesis
  proof (cases "n \<le> cur")
    case True
    then show ?thesis using run q w by (intro exI [of _ cur] exI [of _ "[]"]) (auto simp: returned_simps)
  next
    case False
    then obtain rc where "send E a k (Approve t p n) (?s1\<lparr>pg_world := w\<rparr>) = (Inr rc, s')"
      using run by (auto simp: returned_simps)
    from send_submits [OF this] q w False show ?thesis by (intro exI [of _ cur]) auto
  qed
qed

lemma swap_leg_submits:
  assumes "swap_leg E a i l x n t s = (Inr rc, s')"
  shows "\<exists>ord td h. sent (pg_world s') = sent (pg_world s) @ [(Swap ord n td, h)] \<and> limit_data E a x t td"
proof -
  obtain ord s1 dir s2 now s3 td s4 where
    r: "await (e_readOrder E i l) s = (Inr ord, s1)" "await (e_legDirection E i l) s1 = (Inr dir, s2)"
       "await (e_now E) s2 = (Inr now, s3)"
       "await (e_buildTakerData E a x dir t (now + DEADLINE_SECONDS) True) s3 = (Inr td, s4)"
       "send E a ''swap'' (Swap ord n td) s4 = (Inr rc, s')"
    using assms unfolding swap_leg_def swap_with_def returned_simps(1) by blast
  have "sent (pg_world s4) = sent (pg_world s)"
    using calm_empty(2) [OF calm_reads(15) r(1)] calm_empty(2) [OF calm_reads(16) r(2)]
      calm_empty(2) [OF calm_reads(1) r(3)] calm_empty(2) [OF calm_reads(18) r(4)] by simp
  moreover have "limit_data E a x t td"
    using r(4) unfolding limit_data_def by (auto simp: returned_simps) (metis fst_conv)
  ultimately show ?thesis using send_submits [OF r(5)] by metis
qed

lemma trade_tail:
  assumes "next_do (ensureAllowance E a k tok (e_takerSpender E) m)
      (next_do (report k' f) (bind (swap_leg E a i l x n t) (\<lambda>rc. return (g rc)))) s = (Inr res, s')"
  shows "\<exists>new. sent (pg_world s') = sent (pg_world s) @ new \<and> trade_calls_at E (pg_world s) a tok m x n t (map fst new)"
proof -
  obtain s1 s2 rc where r: "ensureAllowance E a k tok (e_takerSpender E) m s = (Inr (), s1)"
      "report k' f s1 = (Inr (), s2)" "swap_leg E a i l x n t s2 = (Inr rc, s')"
    using assms unfolding returned_simps(1,2,5) by blast
  obtain cur new where c: "fst (e_allowance E tok a (e_takerSpender E) (pg_world s)) = Inr cur"
      "sent (pg_world s1) = sent (pg_world s) @ new" "map fst new = (if cur < m then [Approve tok (e_takerSpender E) m] else [])"
    using allowance_submits [OF r(1)] by (elim exE conjE)
  obtain ord td h where b: "sent (pg_world s') = sent (pg_world s2) @ [(Swap ord n td, h)]" "limit_data E a x t td"
    using swap_leg_submits [OF r(3)] by (elim exE conjE)
  have "pg_world s2 = pg_world s1" using r(2) by (auto simp: returned_simps)
  then have "sent (pg_world s') = sent (pg_world s) @ (new @ [(Swap ord n td, h)])" using b(1) c(2) by simp
  moreover have "trade_calls_at E (pg_world s) a tok m x n t (map fst (new @ [(Swap ord n td, h)]))"
    unfolding trade_calls_at_def using c(1,3) b(2) by (cases ord) auto
  ultimately show ?thesis by blast
qed

lemma quiet_run: "quiet sent f \<Longrightarrow> f w = (r, w') \<Longrightarrow> sent w' = sent w"
  by (auto simp: quiet_def dest: spec [of _ w])

text \<open>A sale: quote, stop on a bad quote, approve, swap.\<close>

lemma sale_submits:
  assumes "bind (await Q) (\<lambda>(n, out). if bad n out then throw e
      else next_do (ensureAllowance E a k tok (e_takerSpender E) n)
          (next_do (report k' (f n)) (bind (swap_leg E a i l True n (bound out)) (\<lambda>rc. return (g n rc))))) s = (Inr res, s')"
    and "quiet sent Q"
  shows "\<exists>n out w1 new. Q (pg_world s) = (Inr (n, out), w1) \<and> \<not> bad n out
    \<and> sent (pg_world s') = sent (pg_world s) @ new \<and> trade_calls_at E w1 a tok n True n (bound out) (map fst new)"
proof -
  obtain n out w where q: "Q (pg_world s) = (Inr (n, out), w)" and
    run: "(if bad n out then throw e
      else next_do (ensureAllowance E a k tok (e_takerSpender E) n)
          (next_do (report k' (f n)) (bind (swap_leg E a i l True n (bound out)) (\<lambda>rc. return (g n rc)))))
      (s\<lparr>pg_world := w\<rparr>) = (Inr res, s')"
    using assms(1) unfolding returned_simps(1,3) by auto
  have ok: "\<not> bad n out" using run by (auto simp: returned_simps(6))
  have tail: "next_do (ensureAllowance E a k tok (e_takerSpender E) n)
          (next_do (report k' (f n)) (bind (swap_leg E a i l True n (bound out)) (\<lambda>rc. return (g n rc))))
      (s\<lparr>pg_world := w\<rparr>) = (Inr res, s')" using run ok by simp
  show ?thesis using trade_tail [OF tail] q ok quiet_run [OF assms(2) q] by auto
qed

lemma exit_submits:
  assumes "runExit E a p s = (Inr res, s')"
  shows "\<exists>n out w1 new. e_quoteExitExactIn E (id_of (ep_state p)) (ep_units p) (pg_world s) = (Inr (n, out), w1)
    \<and> \<not> (n = 0 \<or> out = 0) \<and> sent (pg_world s') = sent (pg_world s) @ new
    \<and> trade_calls_at E w1 a (receipt_of (ep_state p)) n True n (min_out out (clampSlippage (ep_slippageBps p))) (map fst new)"
  by (rule sale_submits [where bad = "\<lambda>n out. n = 0 \<or> out = 0" and f = "\<lambda>n. with_note (if n < ep_units p then Some ''Partial fill: sized to what is outstanding'' else None) \<circ> to_phase Preparing"
        and bound = "\<lambda>out. min_out out (clampSlippage (ep_slippageBps p))"
        and g = "\<lambda>n rc. swap_result_of rc (case rc_swapped rc of None \<Rightarrow> n | Some (i, _) \<Rightarrow> i) (ep_units p)",
        OF assms [unfolded runExit_def Let_def] quiet_reads(13)])

lemma redeem_submits:
  assumes "runRedeem E a p s = (Inr res, s')"
  shows "\<exists>n out w1 new. e_quoteSettleExactIn E (id_of (ep_state p)) (ep_units p) (pg_world s) = (Inr (n, out), w1)
    \<and> \<not> out = 0 \<and> sent (pg_world s') = sent (pg_world s) @ new
    \<and> trade_calls_at E w1 a (receipt_of (ep_state p)) n True n (min_out out (clampSlippage (ep_slippageBps p))) (map fst new)"
  by (rule sale_submits [where bad = "\<lambda>n out. out = 0" and f = "\<lambda>n. to_phase Preparing"
        and bound = "\<lambda>out. min_out out (clampSlippage (ep_slippageBps p))"
        and g = "\<lambda>n rc. swap_result_of rc (case rc_swapped rc of None \<Rightarrow> n | Some (i, _) \<Rightarrow> i) (ep_units p)",
        OF assms [unfolded runRedeem_def Let_def] quiet_reads(14)])

lemma calm_sizing: "calm {} (buy_sizing E p)"
  unfolding buy_sizing_def Let_def by (auto intro!: calm_bind calm_reads split: buy_mode.splits)

lemma sizing_sized:
  assumes "buy_sizing E p s = (Inr (taker, spend, limit), s1)"
  shows "buy_sized E p (pg_world s) taker spend limit"
  using assms
  by (auto simp: buy_sizing_def buy_sized_def Let_def returned_simps split: buy_mode.splits if_splits)

lemma buy_submits:
  assumes "runBuy E a p s = (Inr res, s')"
  shows "\<exists>taker spend limit new. buy_sized E p (pg_world s) taker spend limit
    \<and> sent (pg_world s') = sent (pg_world s) @ new
    \<and> trade_calls E a (web_params.quoteToken (series_state.params (bp_state p))) spend (bp_mode p = ExactIn) taker limit
        (map fst new)"
proof -
  obtain taker spend limit s1 where sz: "buy_sizing E p s = (Inr (taker, spend, limit), s1)"
    using assms by (auto simp: runBuy_def returned_simps(1))
  have tail: "next_do (ensureAllowance E a ''approve'' (web_params.quoteToken (series_state.params (bp_state p)))
        (e_takerSpender E) spend)
      (next_do (report ''swap'' (with_note
          (if taker < bp_amount p then Some ''Partial fill: sized to what the market can actually sell'' else None)
          \<circ> to_phase Preparing))
      (bind (swap_leg E a (id_of (bp_state p)) Issue (bp_mode p = ExactIn) taker limit) (\<lambda>rc.
         return (swap_result_of rc
           (case rc_swapped rc of None \<Rightarrow> taker | Some (i, out) \<Rightarrow> if bp_mode p = ExactIn then i else out)
           (bp_amount p))))) s1 = (Inr res, s')"
    using assms sz by (simp add: runBuy_def bind_def Let_def)
  show ?thesis
    using trade_tail [OF tail] sizing_sized [OF sz] calm_empty(2) [OF calm_sizing sz] unfolding trade_calls_def
    by auto blast
qed

end

lemma logged_quote:
  "e_quoteExitExactIn (logged E) n m w = (r, w1) \<longleftrightarrow> e_quoteExitExactIn E n m (fst w) = (r, fst w1) \<and> snd w1 = snd w"
  by (cases w; cases w1) (auto simp: logged_def beside_def split: prod.splits)

lemma logged_reads [simp]:
  "fst (e_quoteExitExactIn (logged E) n m w) = fst (e_quoteExitExactIn E n m (fst w))"
  "fst (e_quoteSettleExactIn (logged E) n m w) = fst (e_quoteSettleExactIn E n m (fst w))"
  "fst (e_quoteIssueExactIn (logged E) n m w) = fst (e_quoteIssueExactIn E n m (fst w))"
  "fst (e_quoteIssueExactOut (logged E) n m w) = fst (e_quoteIssueExactOut E n m (fst w))"
  by (simp_all add: logged_def beside_def split_beta)

subsection \<open>What a trade promises\<close>

text \<open>C24: a sale of receipts before expiry that returns has read one quote and then the router's allowance of the
  receipt, has submitted an approval of exactly what the quote fills when that allowance was below it and no
  approval when it was enough, and then a swap of exactly what the quote fills, under a limit taken from the
  proceeds quoted.\<close>

theorem exit_sells_what_it_approves:
  assumes "runExit (logged E) a p s = (Inr res, s')" "pg_world s = (w, [])"
  shows "\<exists>n out w1 allowance ord td.
    e_quoteExitExactIn E (id_of (ep_state p)) (ep_units p) w = (Inr (n, out), w1) \<and> n \<noteq> 0 \<and> out \<noteq> 0
    \<and> fst (e_allowance E (receipt_of (ep_state p)) a (e_takerSpender E) w1) = Inr allowance
    \<and> limit_data E a True (min_out out (clampSlippage (ep_slippageBps p))) td
    \<and> map fst (snd (pg_world s')) =
        (if allowance < n then [Approve (receipt_of (ep_state p)) (e_takerSpender E) n] else []) @ [Swap ord n td]"
proof -
  obtain n out w1 new where q: "e_quoteExitExactIn (logged E) (id_of (ep_state p)) (ep_units p) (pg_world s) = (Inr (n, out), w1)"
    "\<not> (n = 0 \<or> out = 0)" "snd (pg_world s') = snd (pg_world s) @ new"
    "trade_calls_at (logged E) w1 a (receipt_of (ep_state p)) n True n (min_out out (clampSlippage (ep_slippageBps p))) (map fst new)"
    using log.exit_submits [OF assms(1)] by blast
  obtain allowance ord td where t:
    "fst (e_allowance E (receipt_of (ep_state p)) a (e_takerSpender E) (fst w1)) = Inr allowance"
    "limit_data E a True (min_out out (clampSlippage (ep_slippageBps p))) td"
    "map fst new = (if allowance < n then [Approve (receipt_of (ep_state p)) (e_takerSpender E) n] else []) @ [Swap ord n td]"
    using q(4) unfolding logged_trade_at trade_calls_at_def by blast
  have "e_quoteExitExactIn E (id_of (ep_state p)) (ep_units p) w = (Inr (n, out), fst w1)" "snd (pg_world s') = new"
    using q(1,3) assms(2) by (simp_all add: logged_quote)
  then show ?thesis using q(2) t by blast
qed

definition demo_exit :: exit_params where
  "demo_exit = \<lparr>ep_state = demo_series Live 2000 1, ep_units = 80, ep_slippageBps = 100\<rparr>"

definition exit_run :: "(thrown + swap_result) \<times> (unit \<times> submission list) page" where
  "exit_run = runExit (logged (demo_env 0 (Inr demo_receipt))) ''0xholder'' demo_exit (demo_page EXIT_PLAN)"

lemma exit_run_returns: "\<not> isl (fst exit_run)"
  by code_simp

theorem exit_sells_what_it_approves_witness:
  "\<exists>ord td. map fst (snd (pg_world (snd exit_run))) = [Approve ''0x05'' ''0xrouter'' 80, Swap ord 80 td]"
proof -
  obtain res where "runExit (logged (demo_env 0 (Inr demo_receipt))) ''0xholder'' demo_exit (demo_page EXIT_PLAN)
      = (Inr res, snd exit_run)"
    using exit_run_returns unfolding exit_run_def by (metis prod.collapse isl_def sum.exhaust)
  from exit_sells_what_it_approves [OF this demo_world(1)] show ?thesis
    by (auto simp: demo_env_def demo_exit_def demo_series_def)
qed

text \<open>A buy that returns has read one quote and submitted one swap, after one approval where the allowance read was short: spending a given amount,
  both are for the premium quoted and the limit is on the receipts; buying given receipts, the approval is the
  limit on the premium.\<close>

theorem buy_approves_its_limit:
  assumes "runBuy (logged E) a p s = (Inr res, s')" "pg_world s = (w, [])"
  shows "\<exists>taker spend limit.
    trade_calls E a (web_params.quoteToken (series_state.params (bp_state p))) spend (bp_mode p = ExactIn) taker limit
        (map fst (snd (pg_world s')))
    \<and> (case bp_mode p of
         ExactIn \<Rightarrow> (\<exists>units. fst (e_quoteIssueExactIn E (id_of (bp_state p)) (bp_amount p) w) = Inr (units, taker)
            \<and> units \<noteq> 0 \<and> spend = taker \<and> limit = min_out units (clampSlippage (bp_slippageBps p)))
       | ExactOut \<Rightarrow> (\<exists>premium. fst (e_quoteIssueExactOut E (id_of (bp_state p)) (bp_amount p) w) = Inr (taker, premium)
            \<and> taker \<noteq> 0 \<and> spend = max_in premium (clampSlippage (bp_slippageBps p)) \<and> limit = spend))"
  using log.buy_submits [OF assms(1)] assms(2)
  unfolding buy_sized_def Let_def logged_reads logged_trade by (cases "bp_mode p") auto

definition demo_buy :: buy_params where
  "demo_buy = \<lparr>bp_state = demo_series Live 2000 1, bp_mode = ExactOut, bp_amount = 80, bp_slippageBps = 100\<rparr>"

definition buy_run :: "(thrown + swap_result) \<times> (unit \<times> submission list) page" where
  "buy_run = runBuy (logged (demo_env 0 (Inr demo_receipt))) ''0xholder'' demo_buy (demo_page BUY_PLAN)"

lemma buy_run_returns: "\<not> isl (fst buy_run)"
  by code_simp

theorem buy_approves_its_limit_witness:
  "trade_calls (demo_env 0 (Inr demo_receipt)) ''0xholder'' ''0x02'' (max_in 40 (clampSlippage 100)) False 80
     (max_in 40 (clampSlippage 100)) (map fst (snd (pg_world (snd buy_run))))"
proof -
  obtain res where "runBuy (logged (demo_env 0 (Inr demo_receipt))) ''0xholder'' demo_buy (demo_page BUY_PLAN)
      = (Inr res, snd buy_run)"
    using buy_run_returns unfolding buy_run_def by (metis prod.collapse isl_def sum.exhaust)
  from buy_approves_its_limit [OF this demo_world(1)] show ?thesis
    by (simp add: demo_env_def demo_buy_def demo_series_def demo_params_def)
qed

end
