(* ===== verification/Web_Api.thy ===== *)
theory Web_Api
  imports Web_Series
begin

text \<open>
  \<open>web/src/lib/api.ts\<close>: the JSON the backend serves, its keys in camel case, the scalar codecs, the
  grouping of the flat summary into the series record and the fetcher with its errors. The schema
  library that checks the shape of a response is the parser \<open>apiGet\<close> takes, as in the source.
\<close>

subsection \<open>JSON\<close>

text \<open>
  A parsed body: a number is a finite double or, when its text overflows, an infinity; the keys of an
  object are distinct. The order of integer-like keys, which nothing reads, is not modelled.
\<close>

datatype json =
  JsNull | JsBool bool | JsNum rat | JsInfinite | JsText string | JsArr "json list" | JsObj "(string \<times> json) list"

definition obj_get :: "string \<Rightarrow> (string \<times> 'a) list \<Rightarrow> 'a option" where
  "obj_get k o' = map_of o' k"

fun obj_set :: "string \<Rightarrow> 'a \<Rightarrow> (string \<times> 'a) list \<Rightarrow> (string \<times> 'a) list" where
  "obj_set k v [] = [(k, v)]"
| "obj_set k v ((a, x) # r) = (if a = k then (k, v) # r else (a, x) # obj_set k v r)"

lemma obj_get_set [simp]: "obj_get j (obj_set k v xs) = (if j = k then Some v else obj_get j xs)"
  by (induction xs) (auto simp: obj_get_def)

lemma obj_set_same: "obj_get k xs = Some v \<Longrightarrow> obj_set k v xs = xs"
  by (induction xs) (auto simp: obj_get_def split: if_splits)

fun json_object :: "json \<Rightarrow> bool" where
  "json_object (JsArr _) = True"
| "json_object (JsObj _) = True"
| "json_object _ = False"

fun truthy :: "json \<Rightarrow> bool" where
  "truthy JsNull = False"
| "truthy (JsBool b) = b"
| "truthy (JsNum x) = (x \<noteq> 0)"
| "truthy (JsText s) = (s \<noteq> '''')"
| "truthy _ = True"

subsection \<open>Key normalisation\<close>

definition upper_char :: "char \<Rightarrow> char" where
  "upper_char c = (let n = (of_char c :: nat) in if 97 \<le> n \<and> n \<le> 122 then char_of (n - 32) else c)"

definition alnum :: "char \<Rightarrow> bool" where
  "alnum c \<longleftrightarrow> (let n = (of_char c :: nat) in is_digit c \<or> 65 \<le> n \<and> n \<le> 90 \<or> 97 \<le> n \<and> n \<le> 122)"

fun camel :: "string \<Rightarrow> string" where
  "camel (c # d # cs) =
     (if (c = CHR ''_'' \<or> c = CHR ''-'') \<and> alnum d then upper_char d # camel cs else c # camel (d # cs))"
| "camel cs = cs"

fun camelizeDeep :: "json \<Rightarrow> json" where
  "camelizeDeep (JsArr xs) = JsArr (map camelizeDeep xs)"
| "camelizeDeep (JsObj kvs) = JsObj (fold (\<lambda>(k, v) out. obj_set (camel k) v out) (map (\<lambda>(k, v). (k, camelizeDeep v)) kvs) [])"
| "camelizeDeep v = v"

subsection \<open>Scalar codecs\<close>

definition whole :: "rat \<Rightarrow> bool" where
  "whole x \<longleftrightarrow> of_int \<lfloor>x\<rfloor> = x"

text \<open>The patterns \<open>/^-?\d+$/\<close>, \<open>/^0x[0-9a-f]+$/i\<close> and \<open>/^-?\d*\.\d+$/\<close>.\<close>

definition int_text :: "string \<Rightarrow> bool" where
  "int_text s \<longleftrightarrow> all_digits (snd (unsign s))"

definition hex_text :: "string \<Rightarrow> bool" where
  "hex_text s \<longleftrightarrow> map lower_char (take 2 s) = ''0x'' \<and> drop 2 s \<noteq> '''' \<and> list_all (\<lambda>c. hex_val c \<noteq> None) (drop 2 s)"

definition decimal_text :: "string \<Rightarrow> bool" where
  "decimal_text s \<longleftrightarrow> (let b = snd (unsign s) in
     CHR ''.'' \<in> set b \<and> list_all is_digit (int_part b) \<and> all_digits (frac_part b))"

fun fixedToBigInt :: "js_value \<Rightarrow> nat \<Rightarrow> js_error + int" where
  "fixedToBigInt (JBig v) decimals = Inr v"
| "fixedToBigInt (JNum v) decimals =
     (if whole v then Inr \<lfloor>v\<rfloor> else parseDecimal (to_fixed (min decimals 18) v) decimals)"
| "fixedToBigInt (JStr v) decimals =
     (let s = trim v in
      if int_text s \<or> hex_text s then toBigInt (JStr s)
      else if decimal_text s then parseDecimal s decimals
      else toBigInt (JStr s))"
| "fixedToBigInt JNonFinite decimals = Inl (InvalidNumber ''Infinity'')"
| "fixedToBigInt JOther decimals = Inl (InvalidNumber ''not a number'')"

definition zInt :: "js_value \<Rightarrow> js_error + rat" where
  "zInt v = andThen (toBigInt v) (\<lambda>n. Inr (js_Number n))"

definition zBool :: "json \<Rightarrow> bool" where
  "zBool v \<longleftrightarrow> v = JsBool True \<or> v = JsText ''true'' \<or> v = JsNum 1 \<or> v = JsText ''1''"

definition zLeg :: "string \<Rightarrow> leg" where
  "zLeg s = (let v = toLowerCase s in if v = ''exit'' then Exit else if v = ''settle'' then Settle else Issue)"

text \<open>\<open>Number(text)\<close> of a decimal with an optional exponent, or of a prefixed hexadecimal, octal or binary;
  nothing is zero, \<open>None\<close> is not a number.\<close>

definition text_number :: "string \<Rightarrow> rat option" where
  "text_number input =
     (let s = trim input; (neg, b0) = unsign s;
          b = (if s \<noteq> '''' \<and> hd s = CHR ''+'' then tl s else b0);
          m = takeWhile (\<lambda>c. \<not> is_e c) b; e = drop 1 (dropWhile (\<lambda>c. \<not> is_e c) b);
          (eneg, ed) = (if e \<noteq> '''' \<and> hd e = CHR ''+'' then (False, tl e) else unsign e);
          k = (if m = b then 0 else nat (digits_val ed));
          v = of_int (digits_val (int_part m @ frac_part m)) / 10 ^ length (frac_part m);
          x = fl (if eneg then v / 10 ^ k else v * 10 ^ k)
      in if s = '''' then Some 0
         else if list_all is_digit (int_part m) \<and> list_all is_digit (frac_part m)
              \<and> (int_part m \<noteq> '''' \<or> frac_part m \<noteq> '''') \<and> (m = b \<or> all_digits ed)
              then Some (if neg then - x else x)
         else if hex_text s then map_option js_Number (hex_parse (drop 2 s))
         else if map lower_char (take 2 s) = ''0o'' then map_option js_Number (radix_parse 8 (drop 2 s))
         else if map lower_char (take 2 s) = ''0b'' then map_option js_Number (radix_parse 2 (drop 2 s))
         else None)"

definition price_of_big :: "int \<Rightarrow> rat" where
  "price_of_big b =
     (if \<bar>b\<bar> > 10 ^ 15 then fl (js_Number b / 10 ^ 18)
      else if \<bar>b\<bar> > 10 ^ 10 then fl (js_Number b / 10 ^ 8)
      else js_Number b)"

fun priceToNumber :: "js_value \<Rightarrow> rat option" where
  "priceToNumber (JNum v) = Some v"
| "priceToNumber (JBig v) = Some (price_of_big v)"
| "priceToNumber (JStr v) =
     (let s = trim v in
      if int_text s then (case toBigInt (JStr s) of Inr n \<Rightarrow> Some (price_of_big n) | Inl _ \<Rightarrow> None) else text_number s)"
| "priceToNumber _ = None"

fun wadOrFractionToNumber :: "js_value \<Rightarrow> rat option" where
  "wadOrFractionToNumber (JNum v) = Some v"
| "wadOrFractionToNumber (JBig v) = Some (wadNumber v)"
| "wadOrFractionToNumber (JStr v) =
     (let s = trim v in
      if int_text s then (case toBigInt (JStr s) of Inr n \<Rightarrow> Some (wadNumber n) | Inl _ \<Rightarrow> None) else text_number s)"
| "wadOrFractionToNumber _ = None"

subsection \<open>The series summary\<close>

definition PARAM_KEYS :: "string list" where
  "PARAM_KEYS =
     [''feed'', ''quoteToken'', ''start'', ''expiry'', ''saleEnd'', ''sampleInterval'', ''unitNotional'', ''capVariance'',
      ''anchorVariance'', ''impactPerUnit'', ''halfLife'', ''halfSpreadBps'', ''maxUnits'']"

definition has_key :: "string \<Rightarrow> (string \<times> 'a) list \<Rightarrow> bool" where
  "has_key k xs \<longleftrightarrow> obj_get k xs \<noteq> None"

definition picked_params :: "(string \<times> json) list \<Rightarrow> (string \<times> json) list" where
  "picked_params xs = [(k, the (obj_get k xs)). k \<leftarrow> PARAM_KEYS, has_key k xs]"

definition nest_step :: "(string \<times> json) list \<Rightarrow> (string \<times> json) list" where
  "nest_step xs =
     (if (case obj_get ''params'' xs of None \<Rightarrow> True | Some p \<Rightarrow> \<not> truthy p \<or> \<not> json_object p)
         \<and> list_ex (\<lambda>k. has_key k xs) PARAM_KEYS
      then obj_set ''params'' (JsObj (picked_params xs)) xs else xs)"

definition id_step :: "(string \<times> json) list \<Rightarrow> (string \<times> json) list" where
  "id_step xs =
     (case (obj_get ''seriesId'' xs, obj_get ''id'' xs) of (Some n, None) \<Rightarrow> obj_set ''id'' n xs | _ \<Rightarrow> xs)"

fun nestParams :: "json \<Rightarrow> json" where
  "nestParams (JsObj xs) = JsObj (id_step (nest_step xs))"
| "nestParams v = v"

text \<open>What the schema of a summary hands on: a live field the backend could not read is \<open>null\<close>.\<close>

record series_core =
  co_id :: int
  co_writer :: address
  co_vault :: address
  co_receipt :: address
  co_params :: web_params
  co_issueOrderHash :: hexstr
  co_exitOrderHash :: hexstr
  co_settlementOrderHash :: hexstr
  co_status :: "status option"
  co_issuanceOpen :: "bool option"
  co_exitOpen :: "bool option"
  co_settleOpen :: "bool option"
  co_issueLegActive :: "bool option"
  co_exitLegActive :: "bool option"
  co_settleLegActive :: "bool option"
  co_marketVariance :: "int option"
  co_projectedVariance :: "int option"
  co_realizedVarianceSoFar :: "int option"
  co_bidVariance :: "int option"
  co_askVariance :: "int option"
  co_bidPerUnit :: "int option"
  co_askPerUnit :: "int option"
  co_maxPayoutPerUnit :: "int option"
  co_unitsOutstanding :: "int option"
  co_unitsAvailable :: "int option"
  co_lockedLiability :: "int option"
  co_finalVariance :: "int option"
  co_payoutPerUnit :: "int option"
  co_samplesStored :: "int option"
  co_samplesAvailable :: "int option"
  co_samplesTotal :: "int option"
  co_processedThrough :: "int option"
  co_checkpointsCurrent :: "bool option"
  co_fullyCollateralized :: "bool option"
  co_vaultState :: "vault_state option"
  co_fillsCount :: "int option"
  co_issueCount :: "int option"
  co_exitCount :: "int option"
  co_settleCount :: "int option"
  co_premiumQuote :: "int option"
  co_exitQuote :: "int option"
  co_settlementQuote :: "int option"
  co_unitsIssued :: "int option"
  co_unitsExited :: "int option"
  co_unitsSettled :: "int option"
  co_lastFillAt :: "int option"

definition ZERO_ADDR :: address where
  "ZERO_ADDR = ''0x0000000000000000000000000000000000000000''"

definition or_default :: "'a \<Rightarrow> 'a option \<Rightarrow> 'a" where
  "or_default d x = (case x of None \<Rightarrow> d | Some v \<Rightarrow> v)"

definition toVaultState :: "vault_state option \<Rightarrow> vault_state" where
  "toVaultState v =
     \<lparr>vs_vault = or_default ZERO_ADDR (map_option vs_vault v), vs_owner = or_default ZERO_ADDR (map_option vs_owner v),
      vs_balance = or_default 0 (map_option vs_balance v), vs_locked = or_default 0 (map_option vs_locked v),
      vs_free = or_default 0 (map_option vs_free v), aquaAllowance = or_default 0 (map_option aquaAllowance v),
      allowanceSufficient = or_default False (map_option allowanceSufficient v)\<rparr>"

definition toSeriesState :: "series_core \<Rightarrow> series_state" where
  "toSeriesState s = \<lparr>
     id_of = co_id s, writer = co_writer s, vault_of = co_vault s, receipt_of = co_receipt s, params = co_params s,
     issueOrderHash = co_issueOrderHash s, exitOrderHash = co_exitOrderHash s, settlementOrderHash = co_settlementOrderHash s,
     status_of = or_default Upcoming (co_status s),
     legs = \<lparr>leg_issuanceOpen = or_default False (co_issuanceOpen s), leg_exitOpen = or_default False (co_exitOpen s),
       leg_settleOpen = or_default False (co_settleOpen s), issueLegActive = or_default False (co_issueLegActive s),
       exitLegActive = or_default False (co_exitLegActive s), settleLegActive = or_default False (co_settleLegActive s)\<rparr>,
     quote_of = \<lparr>q_marketVariance = or_default 0 (co_marketVariance s), q_projectedVariance = or_default 0 (co_projectedVariance s),
       q_realizedVarianceSoFar = or_default 0 (co_realizedVarianceSoFar s), q_bidVariance = or_default 0 (co_bidVariance s),
       q_askVariance = or_default 0 (co_askVariance s), q_bidPerUnit = or_default 0 (co_bidPerUnit s),
       q_askPerUnit = or_default 0 (co_askPerUnit s), q_maxPayoutPerUnit = or_default 0 (co_maxPayoutPerUnit s)\<rparr>,
     unitsOutstanding = or_default 0 (co_unitsOutstanding s), unitsAvailable = or_default 0 (co_unitsAvailable s),
     lockedLiability = or_default 0 (co_lockedLiability s), finalVariance = or_default 0 (co_finalVariance s),
     payout_per_unit = or_default 0 (co_payoutPerUnit s),
     oracle_of = \<lparr>samplesStored = or_default 0 (co_samplesStored s), samplesAvailable = or_default 0 (co_samplesAvailable s),
       samplesTotal = or_default 0 (co_samplesTotal s), processedThrough = or_default 0 (co_processedThrough s),
       checkpointsCurrent = or_default False (co_checkpointsCurrent s)\<rparr>,
     fullyCollateralized = or_default False (co_fullyCollateralized s), vaultState = toVaultState (co_vaultState s),
     fillsCount = co_fillsCount s, issueCount = co_issueCount s, exitCount = co_exitCount s, settleCount = co_settleCount s,
     premiumQuote = co_premiumQuote s, exitQuote = co_exitQuote s, settlementQuote = co_settlementQuote s,
     unitsIssued = co_unitsIssued s, unitsExited = co_unitsExited s, unitsSettled = co_unitsSettled s,
     lastFillAt = co_lastFillAt s, source = FromApi\<rparr>"

text \<open>A trailing variance without its volatility gets the root of the variance.\<close>

definition trailing_vol :: "js_math \<Rightarrow> int \<Rightarrow> int option \<Rightarrow> js_error + int" where
  "trailing_vol M rv vol = (case vol of Some v \<Rightarrow> Inr v | None \<Rightarrow> sqrtWad M rv)"

subsection \<open>The fetcher\<close>

text \<open>
  \<open>ApiError\<close> is the class of the source; \<open>Uncaught\<close> is any other error, thrown by the body's JSON parser
  or by a codec inside the schema.
\<close>

datatype api_error = ApiError int string | Uncaught string

definition offline_error :: "api_error \<Rightarrow> bool" where
  "offline_error e = (case e of ApiError n _ \<Rightarrow> n = 0 | Uncaught _ \<Rightarrow> False)"

record response =
  rs_ok :: bool
  rs_status :: int
  rs_statusText :: string
  rs_body :: "string + json"

datatype 'a parsed = Success 'a | Rejected "(string list \<times> string) list" | Threw string

text \<open>\<open>String(v)\<close>, given how a number prints.\<close>

fun js_text :: "(rat \<Rightarrow> string) \<Rightarrow> json \<Rightarrow> string" where
  "js_text num_text JsNull = ''null''"
| "js_text num_text (JsBool b) = (if b then ''true'' else ''false'')"
| "js_text num_text (JsNum x) = num_text x"
| "js_text num_text JsInfinite = ''Infinity''"
| "js_text num_text (JsText s) = s"
| "js_text num_text (JsArr xs) = join_with '','' (map (\<lambda>x. if x = JsNull then '''' else js_text num_text x) xs)"
| "js_text num_text (JsObj _) = ''[object Object]''"

definition error_field :: "json \<Rightarrow> json option" where
  "error_field j = (case j of JsObj xs \<Rightarrow> obj_get ''error'' xs | _ \<Rightarrow> None)"

definition failure_text :: "(rat \<Rightarrow> string) \<Rightarrow> response \<Rightarrow> string" where
  "failure_text num_text res =
     (let msg = (if rs_statusText res = '''' then ''HTTP '' @ dec_string (rs_status res) else rs_statusText res) in
      case rs_body res of
        Inl _ \<Rightarrow> msg
      | Inr j \<Rightarrow> (case error_field j of Some v \<Rightarrow> if truthy v then js_text num_text v else msg | None \<Rightarrow> msg))"

definition apiGet ::
    "(rat \<Rightarrow> string) \<Rightarrow> (string \<Rightarrow> (string \<times> string) list \<Rightarrow> response option) \<Rightarrow> (json \<Rightarrow> 'a parsed)
     \<Rightarrow> string \<Rightarrow> (string \<times> string option) list \<Rightarrow> api_error + 'a" where
  "apiGet num_text fetch schema path ps =
     (case fetch path [(k, the v). (k, v) \<leftarrow> ps, v \<noteq> None] of
        None \<Rightarrow> Inl (ApiError 0 ''API offline'')
      | Some res \<Rightarrow>
          if \<not> rs_ok res then Inl (ApiError (rs_status res) (failure_text num_text res))
          else (case rs_body res of
              Inl e \<Rightarrow> Inl (Uncaught e)
            | Inr body \<Rightarrow> (case schema (camelizeDeep body) of
                  Success d \<Rightarrow> Inr d
                | Threw e \<Rightarrow> Inl (Uncaught e)
                | Rejected issues \<Rightarrow>
                    Inl (ApiError (rs_status res) (''Unexpected API shape at '' @ path @ '': ''
                      @ join_with ''; '' (map (\<lambda>(p, m). join_with ''.'' p @ '': '' @ m) (take 3 issues)))))))"

subsection \<open>Endpoints\<close>

type_synonym endpoint = "string \<times> (string \<times> string option) list"

definition fetchHealth :: endpoint where "fetchHealth = (''/health'', [])"
definition fetchConfig :: endpoint where "fetchConfig = (''/config'', [])"
definition fetchSeriesList :: endpoint where "fetchSeriesList = (''/series'', [])"
definition fetchSeriesDetail :: "int \<Rightarrow> endpoint" where
  "fetchSeriesDetail n = (''/series/'' @ dec_string n, [])"
definition fetchFills :: "int \<Rightarrow> int \<Rightarrow> int \<Rightarrow> endpoint" where
  "fetchFills n limit offset =
     (''/series/'' @ dec_string n @ ''/fills'', [(''limit'', Some (dec_string limit)), (''offset'', Some (dec_string offset))])"
definition fetchVariance :: "int \<Rightarrow> endpoint" where
  "fetchVariance n = (''/series/'' @ dec_string n @ ''/variance'', [])"
definition fetchMarket :: "int \<Rightarrow> int option \<Rightarrow> int option \<Rightarrow> int option \<Rightarrow> endpoint" where
  "fetchMarket n from_ts to_ts points =
     (''/series/'' @ dec_string n @ ''/market'',
      [(''from'', map_option dec_string from_ts), (''to'', map_option dec_string to_ts), (''points'', map_option dec_string points)])"
definition fetchVault :: "string \<Rightarrow> endpoint" where "fetchVault a = (''/vault/'' @ a, [])"
definition fetchPortfolio :: "string \<Rightarrow> endpoint" where "fetchPortfolio a = (''/portfolio/'' @ a, [])"

datatype trailing_window = OneDay | SevenDays | ThirtyDays

fun window_text :: "trailing_window \<Rightarrow> string" where
  "window_text OneDay = ''1d''" | "window_text SevenDays = ''7d''" | "window_text ThirtyDays = ''30d''"

fun WINDOW_SECONDS :: "trailing_window \<Rightarrow> int" where
  "WINDOW_SECONDS OneDay = 86400" | "WINDOW_SECONDS SevenDays = 7 * 86400" | "WINDOW_SECONDS ThirtyDays = 30 * 86400"

fun WINDOW_TRAILING_INTERVAL :: "trailing_window \<Rightarrow> int" where
  "WINDOW_TRAILING_INTERVAL OneDay = 3600" | "WINDOW_TRAILING_INTERVAL SevenDays = 7200"
| "WINDOW_TRAILING_INTERVAL ThirtyDays = 86400"

fun WINDOW_SPARK_INTERVAL :: "trailing_window \<Rightarrow> int" where
  "WINDOW_SPARK_INTERVAL OneDay = 1800" | "WINDOW_SPARK_INTERVAL SevenDays = 7200"
| "WINDOW_SPARK_INTERVAL ThirtyDays = 86400"

definition fetchTrailing :: "trailing_window \<Rightarrow> int option \<Rightarrow> endpoint" where
  "fetchTrailing w interval =
     (''/variance/trailing'', [(''window'', Some (window_text w)),
        (''interval'', Some (dec_string (or_default (WINDOW_TRAILING_INTERVAL w) interval)))])"
definition fetchFeedHistory :: "int \<Rightarrow> int \<Rightarrow> int \<Rightarrow> endpoint" where
  "fetchFeedHistory from_ts to_ts interval =
     (''/feed/history'', [(''from'', Some (dec_string from_ts)), (''to'', Some (dec_string to_ts)), (''interval'', Some (dec_string interval))])"
definition fetchPairsEvents :: "int \<Rightarrow> int \<Rightarrow> endpoint" where
  "fetchPairsEvents n limit = (''/pairs/'' @ dec_string n @ ''/events'', [(''limit'', Some (dec_string limit))])"
definition fetchPairsCheckpoints :: "int \<Rightarrow> endpoint" where
  "fetchPairsCheckpoints n = (''/pairs/'' @ dec_string n @ ''/checkpoints'', [])"

text \<open>The window a feed chart asks for: its end is bucketed to five minutes.\<close>

definition feed_window :: "trailing_window \<Rightarrow> int \<Rightarrow> int \<times> int \<times> int" where
  "feed_window w nowMs = (let t = nowMs div 300000 * 300 in (t - WINDOW_SECONDS w, t, WINDOW_SPARK_INTERVAL w))"

text \<open>Every window is a whole number of its intervals, at most 256 of them.\<close>

lemma windows_fit:
  "WINDOW_SECONDS w mod WINDOW_TRAILING_INTERVAL w = 0 \<and> WINDOW_SECONDS w div WINDOW_TRAILING_INTERVAL w \<le> 256"
  "WINDOW_SECONDS w mod WINDOW_SPARK_INTERVAL w = 0 \<and> WINDOW_SECONDS w div WINDOW_SPARK_INTERVAL w \<le> 256"
  by (cases w; simp)+

subsection \<open>What the normalisation promises\<close>

lemma concat_pick: "concat (map (\<lambda>k. if P k then [f k] else []) ks) = map f (filter P ks)"
  by (induction ks) simp_all

lemma obj_get_map: "obj_get k (map (\<lambda>k. (k, f k)) ks) = (if k \<in> set ks then Some (f k) else None)"
  by (induction ks) (auto simp: obj_get_def)

lemma nest_get:
  "j \<noteq> ''params'' \<Longrightarrow> obj_get j (nest_step xs) = obj_get j xs"
  "j \<noteq> ''id'' \<Longrightarrow> obj_get j (id_step xs) = obj_get j xs"
  by (auto simp: nest_step_def id_step_def split: option.splits)

lemma id_step_idem: "id_step (id_step xs) = id_step xs"
  by (auto simp: id_step_def split: option.splits)

lemma id_step_other:
  assumes "obj_get ''id'' xs \<noteq> None \<or> obj_get ''seriesId'' xs = None"
  shows "id_step xs = xs"
  using assms by (auto simp: id_step_def split: option.splits)

lemma nest_step_settled:
  assumes "obj_get ''params'' xs = Some p" "truthy p" "json_object p"
  shows "nest_step xs = xs"
  using assms by (auto simp: nest_step_def)

lemma id_step_keys: "has_key k (id_step xs) = (has_key k xs \<or> k = ''id'' \<and> has_key ''seriesId'' xs)"
  by (auto simp: has_key_def id_step_def split: option.splits)

lemma PARAM_KEYS_id: "''id'' \<notin> set PARAM_KEYS" "''params'' \<notin> set PARAM_KEYS" "''seriesId'' \<notin> set PARAM_KEYS"
  by (simp_all add: PARAM_KEYS_def)

text \<open>The nesting of a summary changes nothing the second time, whatever JSON value it is given.\<close>

theorem nestParams_idempotent: "nestParams (nestParams v) = nestParams v"
proof (cases v)
  case (JsObj xs)
  have "nest_step (id_step (nest_step xs)) = id_step (nest_step xs)"
  proof (cases "nest_step xs = xs")
    case False
    then have "obj_get ''params'' (nest_step xs) = Some (JsObj (picked_params xs))"
      by (auto simp: nest_step_def)
    then show ?thesis by (intro nest_step_settled [where p = "JsObj (picked_params xs)"]) (simp_all add: nest_get(2))
  next
    case True
    then have "\<not> list_ex (\<lambda>k. has_key k xs) PARAM_KEYS \<or> (\<exists>p. obj_get ''params'' xs = Some p \<and> truthy p \<and> json_object p)
        \<or> obj_set ''params'' (JsObj (picked_params xs)) xs = xs"
      by (auto simp: nest_step_def split: option.splits if_splits)
    then show ?thesis
    proof (elim disjE)
      assume "\<not> list_ex (\<lambda>k. has_key k xs) PARAM_KEYS"
      then have "\<not> list_ex (\<lambda>k. has_key k (id_step xs)) PARAM_KEYS"
        using PARAM_KEYS_id by (auto simp: list_ex_iff id_step_keys)
      then show ?thesis using True by (simp add: nest_step_def)
    next
      assume "\<exists>p. obj_get ''params'' xs = Some p \<and> truthy p \<and> json_object p"
      then show ?thesis using True by (auto intro!: nest_step_settled simp: nest_get(2))
    next
      assume "obj_set ''params'' (JsObj (picked_params xs)) xs = xs"
      then have "obj_get ''params'' xs = Some (JsObj (picked_params xs))" by (metis obj_get_set)
      then show ?thesis using True by (auto intro!: nest_step_settled simp: nest_get(2))
    qed
  qed
  then show ?thesis using JsObj by (simp add: id_step_idem)
qed simp_all

text \<open>A summary served flat ends up with the same parameters as one served nested: the object under \<open>params\<close>
  holds exactly the parameter keys the summary has, with their values, and every other key is untouched.\<close>

theorem flat_summary_nested:
  assumes "obj_get ''params'' xs = None" "list_ex (\<lambda>k. has_key k xs) PARAM_KEYS" "nestParams (JsObj xs) = JsObj ys"
  shows "\<exists>ps. obj_get ''params'' ys = Some (JsObj ps)
    \<and> map fst ps = filter (\<lambda>k. has_key k xs) PARAM_KEYS
    \<and> (\<forall>k. obj_get k ps = (if k \<in> set PARAM_KEYS then obj_get k xs else None))
    \<and> (\<forall>k. k \<noteq> ''params'' \<and> k \<noteq> ''id'' \<longrightarrow> obj_get k ys = obj_get k xs)"
proof (intro exI conjI allI impI)
  have ys: "ys = id_step (obj_set ''params'' (JsObj (picked_params xs)) xs)"
    using assms by (auto simp: nest_step_def)
  show "obj_get ''params'' ys = Some (JsObj (picked_params xs))" by (simp add: ys nest_get(2))
  have p: "picked_params xs = map (\<lambda>k. (k, the (obj_get k xs))) (filter (\<lambda>k. has_key k xs) PARAM_KEYS)"
    unfolding picked_params_def by (rule concat_pick)
  show "map fst (picked_params xs) = filter (\<lambda>k. has_key k xs) PARAM_KEYS"
    unfolding p by (simp add: comp_def)
  show "obj_get k (picked_params xs) = (if k \<in> set PARAM_KEYS then obj_get k xs else None)" for k
    unfolding p obj_get_map by (auto simp: has_key_def)
  show "obj_get k ys = obj_get k xs" if "k \<noteq> ''params'' \<and> k \<noteq> ''id''" for k
    using that by (simp add: ys nest_get(2))
qed

theorem flat_summary_nested_witness:
  "\<exists>ps. obj_get ''params'' [(''id'', JsNum 7), (''expiry'', JsNum 9), (''start'', JsNum 2),
        (''params'', JsObj [(''start'', JsNum 2), (''expiry'', JsNum 9)])] = Some (JsObj ps)
    \<and> (\<forall>k. obj_get k ps = (if k \<in> set PARAM_KEYS
         then obj_get k [(''id'', JsNum 7), (''expiry'', JsNum 9), (''start'', JsNum 2)] else None))"
  using flat_summary_nested [of "[(''id'', JsNum 7), (''expiry'', JsNum 9), (''start'', JsNum 2)]"]
  by (simp add: obj_get_def has_key_def PARAM_KEYS_def nest_step_def id_step_def picked_params_def)

text \<open>
  A summary of the database alone, every live field \<open>null\<close>, becomes a record of zeros: nothing in it
  tells a price that is not known from a price of zero.
\<close>

theorem unread_fields_are_zero:
  assumes "co_bidPerUnit s = None" "co_askPerUnit s = None" "co_lockedLiability s = None" "co_payoutPerUnit s = None"
  shows "toSeriesState s = toSeriesState (s\<lparr>co_bidPerUnit := Some 0, co_askPerUnit := Some 0,
    co_lockedLiability := Some 0, co_payoutPerUnit := Some 0\<rparr>)"
  using assms by (simp add: toSeriesState_def or_default_def)

lemma int_text_dec: "int_text (dec_string n)"
  using dec_digits_digits [of "\<bar>n\<bar>"] by (simp add: int_text_def dec_string_shape all_digits_def)

lemma decimal_texts:
  assumes i: "list_all is_digit i" "i \<noteq> ''''" and f: "list_all is_digit f" "f \<noteq> ''''"
    and t: "t = (if neg then ''-'' else '''') @ i @ ''.'' @ f"
  shows "trim t = t" "decimal_text t" "\<not> int_text t" "\<not> hex_text t"
proof -
  let ?b = "i @ ''.'' @ f"
  have hd: "is_digit (hd i)" "i = hd i # tl i" using i by (cases i; simp)+
  have nd: "CHR ''.'' \<notin> set i" using digits_no [OF i(1)] by simp
  have u: "unsign t = (neg, ?b)"
    using digit_not(3) [OF hd(1)] hd(2) unfolding t unsign_def by (cases i) auto
  have "\<not> js_space (CHR ''-'')" "\<not> js_space (CHR ''.'')" by (simp_all add: js_space_def Let_def)
  then show "trim t = t"
    using list_all_digits_space [OF i(1)] list_all_digits_space [OF f(1)] unfolding t by (intro trim_id) simp
  have parts: "int_part ?b = i" "frac_part ?b = f"
    using nd by (auto simp: int_part_def frac_part_def takeWhile_append dropWhile_append list_all_iff)
  show "decimal_text t" using i f parts by (simp add: decimal_text_def u all_digits_def)
  have "\<not> is_digit (CHR ''.'')" by (simp add: is_digit_def)
  then show "\<not> int_text t" by (simp add: int_text_def u all_digits_def)
  have "hex_val (CHR ''.'') = None" by (simp add: hex_val_def is_digit_def)
  moreover have "CHR ''.'' \<in> set (drop 2 t) \<or> map lower_char (take 2 t) \<noteq> ''0x''"
  proof (cases "neg \<or> length i \<ge> 2")
    case True
    have "length ((if neg then ''-'' else '''') @ i) \<ge> 2" using True i(2) by (cases i) auto
    then show ?thesis unfolding t by (metis append_assoc drop_append append_is_Nil_conv diff_is_0_eq drop0 in_set_conv_decomp list.distinct(1) append_Cons)
  next
    case False
    then have "length i = 1" using i(2) by (cases i) (auto simp: Suc_le_eq)
    then obtain c where "i = [c]" by (cases i) auto
    then show ?thesis using False by (simp add: t lower_char_def Let_def)
  qed
  ultimately show "\<not> hex_text t" by (auto simp: hex_text_def list_all_iff)
qed

text \<open>C27: the codec of an amount reads back what an exact sender prints: base units as a whole number, and a decimal
  text scaled to the places of the token.\<close>

theorem amounts_read_exactly:
  assumes "0 \<le> n" "list_all is_digit f" "f \<noteq> ''''" "length f \<le> d"
  shows "fixedToBigInt (JStr (dec_string v)) d = Inr v
    \<and> fixedToBigInt (JStr ((if neg then ''-'' else '''') @ dec_digits n @ ''.'' @ f)) d
      = Inr ((if neg then - 1 else 1) * (n * 10 ^ d + digits_val f * 10 ^ (d - length f)))"
proof (rule conjI)
  show "fixedToBigInt (JStr (dec_string v)) d = Inr v"
    by (simp add: dec_string_shape(1) int_text_dec toBigInt_dec Let_def)
  let ?t = "(if neg then ''-'' else '''') @ dec_digits n @ ''.'' @ f"
  note i = dec_digits_digits [OF assms(1)]
  note t = decimal_texts [OF i(1,2) assms(2,3) refl, of neg]
  have "parseDecimal ?t d = Inr (if neg then - (n * 10 ^ d + frac_val d f) else n * 10 ^ d + frac_val d f)"
    using parse_text [OF i(1,2) assms(2), of "dec_digits n" neg d] assms(1,3) by simp
  then show "fixedToBigInt (JStr ?t) d
      = Inr ((if neg then - 1 else 1) * (n * 10 ^ d + digits_val f * 10 ^ (d - length f)))"
    using t frac_val_short [OF assms(4)] by (simp add: Let_def)
qed

theorem amounts_read_exactly_witness:
  "fixedToBigInt (JStr ''-12.5'') 6 = Inr (- 12500000) \<and> fixedToBigInt (JStr ''-12'') 6 = Inr (- 12)"
proof -
  have "dec_string (- 12) = ''-12''" "dec_digits 12 = ''12''" "digits_val ''5'' = 5" "list_all is_digit ''5''"
    by code_simp+
  then show ?thesis using amounts_read_exactly [of 12 "''5''" 6 "- 12" True] by (simp del: fixedToBigInt.simps)
qed

end
