(* ===== verification/Web_Chain.thy ===== *)
theory Web_Chain
  imports Web_Series Web_Portfolio
begin

text \<open>
  \<open>web/src/lib/chain.ts\<close> and \<open>portfolio-chain.ts\<close>, what they make of the contracts' answers, and the
  merge of the chain's view with the backend's in \<open>web/src/lib/hooks.ts\<close>. A contract read is a
  parameter that answers or fails.
\<close>

subsection \<open>The Lens\<close>

text \<open>\<open>Number(n)\<close> of an integer answer, which is an integer again.\<close>

definition to_number :: "int \<Rightarrow> int" where
  "to_number n = \<lfloor>js_Number n\<rfloor>"

text \<open>The tuple of the Lens; its groups have the fields of the records they are copied to.\<close>

record lens_state =
  ls_id :: int
  ls_writer :: address
  ls_vault :: address
  ls_receipt :: address
  ls_params :: web_params
  ls_issueOrderHash :: hexstr
  ls_exitOrderHash :: hexstr
  ls_settlementOrderHash :: hexstr
  ls_status :: int
  ls_legs :: leg_status
  ls_quote :: market_quote
  ls_unitsOutstanding :: int
  ls_unitsAvailable :: int
  ls_lockedLiability :: int
  ls_finalVariance :: int
  ls_payoutPerUnit :: int
  ls_oracle :: oracle_progress
  ls_fullyCollateralized :: bool
  ls_vaultState :: vault_state

definition fromLensVaultState :: "vault_state \<Rightarrow> vault_state" where
  "fromLensVaultState v =
     \<lparr>vs_vault = vs_vault v, vs_owner = vs_owner v, vs_balance = vs_balance v, vs_locked = vs_locked v, vs_free = vs_free v,
      aquaAllowance = aquaAllowance v, allowanceSufficient = allowanceSufficient v\<rparr>"

definition fromLensParams :: "web_params \<Rightarrow> web_params" where
  "fromLensParams p =
     \<lparr>web_params.feed = web_params.feed p, web_params.quoteToken = web_params.quoteToken p,
      web_params.start = to_number (web_params.start p), web_params.expiry = to_number (web_params.expiry p),
      web_params.saleEnd = to_number (web_params.saleEnd p), web_params.sampleInterval = to_number (web_params.sampleInterval p),
      unitNotional = unitNotional p, web_params.capVariance = web_params.capVariance p, anchorVariance = anchorVariance p,
      impactPerUnit = impactPerUnit p, halfLife = to_number (halfLife p), halfSpreadBps = to_number (halfSpreadBps p),
      maxUnits = maxUnits p\<rparr>"

definition fromLensState :: "lens_state \<Rightarrow> series_state" where
  "fromLensState s = \<lparr>
     id_of = ls_id s, series_state.writer = ls_writer s, series_state.vault_of = ls_vault s, receipt_of = ls_receipt s,
     series_state.params = fromLensParams (ls_params s),
     issueOrderHash = ls_issueOrderHash s, exitOrderHash = ls_exitOrderHash s, settlementOrderHash = ls_settlementOrderHash s,
     status_of = statusFrom (JNum (of_int (ls_status s))),
     legs = \<lparr>leg_issuanceOpen = leg_issuanceOpen (ls_legs s), leg_exitOpen = leg_exitOpen (ls_legs s),
       leg_settleOpen = leg_settleOpen (ls_legs s), issueLegActive = issueLegActive (ls_legs s),
       exitLegActive = exitLegActive (ls_legs s), settleLegActive = settleLegActive (ls_legs s)\<rparr>,
     quote_of = \<lparr>q_marketVariance = q_marketVariance (ls_quote s), q_projectedVariance = q_projectedVariance (ls_quote s),
       q_realizedVarianceSoFar = q_realizedVarianceSoFar (ls_quote s), q_bidVariance = q_bidVariance (ls_quote s),
       q_askVariance = q_askVariance (ls_quote s), q_bidPerUnit = q_bidPerUnit (ls_quote s),
       q_askPerUnit = q_askPerUnit (ls_quote s), q_maxPayoutPerUnit = q_maxPayoutPerUnit (ls_quote s)\<rparr>,
     unitsOutstanding = ls_unitsOutstanding s, unitsAvailable = ls_unitsAvailable s, lockedLiability = ls_lockedLiability s,
     series_state.finalVariance = ls_finalVariance s, payout_per_unit = ls_payoutPerUnit s,
     oracle_of = \<lparr>samplesStored = to_number (samplesStored (ls_oracle s)), samplesAvailable = to_number (samplesAvailable (ls_oracle s)),
       samplesTotal = to_number (samplesTotal (ls_oracle s)), processedThrough = to_number (processedThrough (ls_oracle s)),
       checkpointsCurrent = checkpointsCurrent (ls_oracle s)\<rparr>,
     fullyCollateralized = ls_fullyCollateralized s, vaultState = fromLensVaultState (ls_vaultState s),
     fillsCount = None, issueCount = None, exitCount = None, settleCount = None, premiumQuote = None, exitQuote = None,
     settlementQuote = None, unitsIssued = None, unitsExited = None, unitsSettled = None, lastFillAt = None,
     source = FromChain\<rparr>"

text \<open>\<open>Promise.all\<close>: every value in order, or a failure; of several, the model reports the first in order.\<close>

fun all_of :: "('e + 'a) list \<Rightarrow> 'e + 'a list" where
  "all_of [] = Inr []"
| "all_of (Inl e # r) = Inl e"
| "all_of (Inr x # r) = (case all_of r of Inl e \<Rightarrow> Inl e | Inr xs \<Rightarrow> Inr (x # xs))"

definition readState :: "(int \<Rightarrow> 'e + lens_state) \<Rightarrow> int \<Rightarrow> 'e + series_state" where
  "readState lens_state_of n = map_sum id fromLensState (lens_state_of n)"

definition ids_upto :: "int \<Rightarrow> int list" where
  "ids_upto n = map (\<lambda>i. int i + 1) [0..<nat (to_number n)]"

text \<open>\<open>page\<close> is the answer to \<open>states(0, count)\<close>.\<close>

definition readAllStates ::
    "'e + int \<Rightarrow> (int \<Rightarrow> 'e + lens_state list) \<Rightarrow> (int \<Rightarrow> 'e + lens_state) \<Rightarrow> 'e + series_state list" where
  "readAllStates series_count page lens_state_of =
     (case series_count of Inl e \<Rightarrow> Inl e
      | Inr n \<Rightarrow>
          if n = 0 then Inr []
          else
            let one_by_one = all_of (map (readState lens_state_of) (ids_upto n)) in
            (case page n of Inl _ \<Rightarrow> one_by_one
             | Inr l \<Rightarrow>
                 let mapped = filter (\<lambda>s. id_of s \<ge> 1 \<and> id_of s \<le> n) (map fromLensState l) in
                 if int (length mapped) = n then Inr mapped else one_by_one))"

definition feed_price :: "int \<Rightarrow> nat \<Rightarrow> rat" where
  "feed_price answer decimals = fl (js_Number answer / 10 ^ decimals)"

text \<open>The window of the trailing variance read from the Lens: start, end and interval, at \<open>nowMs\<close>.\<close>

definition trailing_grid :: "int \<Rightarrow> int \<Rightarrow> int \<Rightarrow> int \<times> int \<times> int" where
  "trailing_grid nowMs windowSeconds interval =
     (let t = \<lfloor>fl (fl (of_int nowMs / 1000) / of_int interval)\<rfloor> * interval in (t - windowSeconds, t, interval))"

subsection \<open>The portfolio market\<close>

record group_view =
  gv_writer :: address
  gv_vault :: address
  gv_highReceipt :: address
  gv_calmReceipt :: address
  gv_highOutstanding :: int
  gv_calmOutstanding :: int
  gv_reserveLocked :: int
  gv_exitBuffer :: int
  gv_standaloneCaps :: int
  gv_finalized :: bool
  gv_finalVariance :: int
  gv_xWad :: int
  gv_highPpu :: int
  gv_calmPpu :: int

definition fromGroupParams :: "group_params \<Rightarrow> group_params" where
  "fromGroupParams p =
     \<lparr>group_params.feed = group_params.feed p, group_params.quoteToken = group_params.quoteToken p,
      group_params.start = to_number (group_params.start p), group_params.expiry = to_number (group_params.expiry p),
      group_params.saleEnd = to_number (group_params.saleEnd p),
      group_params.sampleInterval = to_number (group_params.sampleInterval p),
      group_params.capVariance = group_params.capVariance p, capPayoutPerUnit = capPayoutPerUnit p,
      maxUnitsPerSide = maxUnitsPerSide p, askHigh = askHigh p, bidHigh = bidHigh p, askCalm = askCalm p, bidCalm = bidCalm p\<rparr>"

definition fromGroupView :: "int \<Rightarrow> group_view \<Rightarrow> group_params \<Rightarrow> group_state" where
  "fromGroupView n v p =
     \<lparr>group_id = n, group_state.writer = gv_writer v, group_state.vault_of = gv_vault v, highReceipt = gv_highReceipt v,
      calmReceipt = gv_calmReceipt v, highOutstanding = gv_highOutstanding v, calmOutstanding = gv_calmOutstanding v,
      reserveLocked = gv_reserveLocked v, exitBuffer = gv_exitBuffer v, standaloneCaps = gv_standaloneCaps v,
      finalized = gv_finalized v, group_state.finalVariance = gv_finalVariance v, xWad = gv_xWad v, highPpu = gv_highPpu v,
      calmPpu = gv_calmPpu v, group_state.params = p\<rparr>"

definition readGroupState :: "(int \<Rightarrow> 'e + group_view) \<Rightarrow> (int \<Rightarrow> 'e + group_params) \<Rightarrow> int \<Rightarrow> 'e + group_state" where
  "readGroupState view_of params_of n =
     (case view_of n of Inl e \<Rightarrow> Inl e
      | Inr v \<Rightarrow> (case params_of n of Inl e \<Rightarrow> Inl e | Inr p \<Rightarrow> Inr (fromGroupView n v (fromGroupParams p))))"

definition readAllGroupStates ::
    "'e + int \<Rightarrow> (int \<Rightarrow> 'e + group_view) \<Rightarrow> (int \<Rightarrow> 'e + group_params) \<Rightarrow> 'e + group_state list" where
  "readAllGroupStates group_count view_of params_of =
     (case group_count of Inl e \<Rightarrow> Inl e
      | Inr n \<Rightarrow> if n = 0 then Inr [] else all_of (map (readGroupState view_of params_of) (ids_upto n)))"

subsection \<open>The merged views\<close>

text \<open>A query of the client: what it has so far, whether it is still pending and whether it failed.\<close>

record 'a query =
  qr_data :: "'a option"
  qr_isPending :: bool
  qr_isError :: bool

definition mergeExtras :: "series_state \<Rightarrow> series_state option \<Rightarrow> series_state" where
  "mergeExtras chain api =
     (case api of None \<Rightarrow> chain
      | Some a \<Rightarrow> chain\<lparr>fillsCount := fillsCount a, issueCount := issueCount a, exitCount := exitCount a,
          settleCount := settleCount a, premiumQuote := premiumQuote a, exitQuote := exitQuote a,
          settlementQuote := settlementQuote a, unitsIssued := unitsIssued a, unitsExited := unitsExited a,
          unitsSettled := unitsSettled a, lastFillAt := lastFillAt a\<rparr>)"

text \<open>\<open>new Map(\<dots>)\<close> over the identifiers: of two entries with one key the later is kept.\<close>

definition by_id :: "series_state list \<Rightarrow> string \<Rightarrow> series_state option" where
  "by_id l = map_of (rev (map (\<lambda>s. (dec_string (id_of s), s)) l))"

definition list_data :: "series_state list option \<Rightarrow> series_state list option \<Rightarrow> series_state list option" where
  "list_data chain api =
     (case chain of
        Some c \<Rightarrow> Some (sortSeries (map (\<lambda>s. mergeExtras s (by_id (case api of None \<Rightarrow> [] | Some l \<Rightarrow> l) (dec_string (id_of s)))) c))
      | None \<Rightarrow> map_option sortSeries api)"

definition series_data :: "series_state option \<Rightarrow> series_state option \<Rightarrow> series_state option" where
  "series_data chain api = (case chain of Some c \<Rightarrow> Some (mergeExtras c api) | None \<Rightarrow> api)"

record 'a list_view =
  vw_data :: "'a option"
  vw_isLoading :: bool
  vw_source :: "data_source option"
  vw_chainError :: bool
  vw_apiError :: bool

record 'a view = "'a list_view" +
  vw_notFound :: bool

definition data_from :: "'a option \<Rightarrow> 'a option \<Rightarrow> data_source option" where
  "data_from chain api = (if chain \<noteq> None then Some FromChain else if api \<noteq> None then Some FromApi else None)"

definition useSeriesList :: "bool \<Rightarrow> series_state list query \<Rightarrow> series_state list query \<Rightarrow> series_state list list_view" where
  "useSeriesList isDeployed chain api =
     (let data = list_data (qr_data chain) (qr_data api); chainPending = isDeployed \<and> qr_isPending chain in
      \<lparr>vw_data = data, vw_isLoading = (data = None \<and> (chainPending \<or> qr_isPending api)),
       vw_source = data_from (qr_data chain) (qr_data api), vw_chainError = qr_isError chain, vw_apiError = qr_isError api\<rparr>)"

definition useSeries :: "bool \<Rightarrow> series_state query \<Rightarrow> series_state query \<Rightarrow> series_state view" where
  "useSeries isDeployed chain api =
     (let data = series_data (qr_data chain) (qr_data api); chainPending = isDeployed \<and> qr_isPending chain;
          settled = \<not> chainPending \<and> \<not> qr_isPending api in
      \<lparr>vw_data = data, vw_isLoading = (data = None \<and> (chainPending \<or> qr_isPending api)),
       vw_source = data_from (qr_data chain) (qr_data api), vw_chainError = qr_isError chain, vw_apiError = qr_isError api,
       vw_notFound = (data = None \<and> settled)\<rparr>)"

subsection \<open>What the views promise\<close>

lemma all_of_map [simp]: "all_of (map Inr xs) = Inr xs"
  by (induction xs) simp_all

lemma all_of_Inr: "all_of rs = Inr xs \<Longrightarrow> rs = map Inr xs"
proof (induction rs arbitrary: xs)
  case (Cons r rs)
  then show ?case by (cases r) (auto split: sum.splits)
qed simp

lemma to_number_small: "\<bar>n\<bar> < 2 ^ 53 \<Longrightarrow> to_number n = n"
  by (simp add: to_number_def js_Number_small)

lemma ids_upto_small: "0 \<le> n \<Longrightarrow> n < 2 ^ 53 \<Longrightarrow> ids_upto n = [1..n]"
  by (rule nth_equalityI) (simp_all add: ids_upto_def to_number_small)

lemma states_in_order:
  assumes "\<forall>n s. lens_of n = Inr s \<longrightarrow> ls_id s = n" "map (readState lens_of) ns = map Inr l"
  shows "map id_of l = ns"
  using assms(2)
proof (induction ns arbitrary: l)
  case (Cons n ns)
  then obtain s r where l: "l = s # r" "readState lens_of n = Inr s" "map (readState lens_of) ns = map Inr r"
    by (cases l) auto
  then obtain w where "lens_of n = Inr w" "s = fromLensState w" by (cases "lens_of n") (auto simp: readState_def)
  then show ?case using Cons.IH [OF l(3)] l(1) assms(1) by (simp add: fromLensState_def)
qed simp

text \<open>C26: the list of all series is complete or an error: every series comes back, one for each identifier the factory
  has counted, or as many within the range from the one page, even when the page fails or is short.\<close>

theorem all_series_read:
  assumes "\<forall>n s. lens_of n = Inr s \<longrightarrow> ls_id s = n" "readAllStates (Inr n) page lens_of = Inr l" "0 \<le> n" "n < 2 ^ 53"
  shows "int (length l) = n \<and> (\<forall>s\<in>set l. 1 \<le> id_of s \<and> id_of s \<le> n) \<and> (isl (page n) \<longrightarrow> map id_of l = [1..n])"
proof (cases "n = 0")
  case True
  then show ?thesis using assms(2) by (simp add: readAllStates_def)
next
  case False
  have one: "map id_of l = [1..n]" if "all_of (map (readState lens_of) (ids_upto n)) = Inr l"
    using states_in_order [OF assms(1)] all_of_Inr [OF that] assms(3,4) by (simp add: ids_upto_small)
  have all: "int (length l) = n \<and> (\<forall>s\<in>set l. 1 \<le> id_of s \<and> id_of s \<le> n)" if e: "map id_of l = [1..n]"
  proof -
    have "id_of ` set l = {1..n}" by (metis e list.set_map set_upto)
    moreover have "length l = nat n" using arg_cong [OF e, of length] by simp
    ultimately show ?thesis using assms(3) by auto
  qed
  show ?thesis
  proof (cases "page n")
    case (Inl e)
    then show ?thesis using assms(2) False one all by (simp add: readAllStates_def Let_def)
  next
    case (Inr pg)
    define mapped where "mapped = filter (\<lambda>s. id_of s \<ge> 1 \<and> id_of s \<le> n) (map fromLensState pg)"
    have run: "(if int (length mapped) = n then Inr mapped else all_of (map (readState lens_of) (ids_upto n))) = Inr l"
      using assms(2) False Inr by (simp add: readAllStates_def Let_def mapped_def split: if_split_asm)
    have "int (length l) = n \<and> (\<forall>s\<in>set l. 1 \<le> id_of s \<and> id_of s \<le> n)"
    proof (cases "int (length mapped) = n")
      case True
      then have "l = mapped" using run by simp
      then show ?thesis using True by (simp add: mapped_def)
    next
      case False
      then show ?thesis using run all [OF one] by simp
    qed
    then show ?thesis using Inr by simp
  qed
qed

definition demo_lens :: "int \<Rightarrow> lens_state" where
  "demo_lens n = \<lparr>ls_id = n, ls_writer = ''0x03'', ls_vault = ''0x04'', ls_receipt = ''0x05'', ls_params = demo_params,
     ls_issueOrderHash = ''0x'', ls_exitOrderHash = ''0x'', ls_settlementOrderHash = ''0x'', ls_status = 1,
     ls_legs = legs (demo_series Live 2000 n), ls_quote = quote_of (demo_series Live 2000 n),
     ls_unitsOutstanding = 0, ls_unitsAvailable = 0, ls_lockedLiability = 0, ls_finalVariance = 0, ls_payoutPerUnit = 0,
     ls_oracle = oracle_of (demo_series Live 2000 n), ls_fullyCollateralized = True,
     ls_vaultState = vaultState (demo_series Live 2000 n)\<rparr>"

theorem all_series_read_witness:
  "map id_of [fromLensState (demo_lens 1), fromLensState (demo_lens 2)] = [1..2]"
proof -
  have "readAllStates (Inr 2) (\<lambda>_. Inl ()) (\<lambda>n. Inr (demo_lens n))
      = Inr [fromLensState (demo_lens 1), fromLensState (demo_lens 2)]"
    by (simp add: readAllStates_def ids_upto_small readState_def upto.simps)
  from all_series_read [OF _ this] show ?thesis by (simp add: demo_lens_def)
qed

text \<open>The fields of a series the Lens is the authority of: all but the counters of the index.\<close>

definition live_fields :: "series_state \<Rightarrow> series_state" where
  "live_fields s = s\<lparr>fillsCount := None, issueCount := None, exitCount := None, settleCount := None,
     premiumQuote := None, exitQuote := None, settlementQuote := None, unitsIssued := None, unitsExited := None,
     unitsSettled := None, lastFillAt := None\<rparr>"

lemma live_merge: "live_fields (mergeExtras s a) = live_fields s"
  by (cases a) (simp_all add: live_fields_def mergeExtras_def)

lemma js_insert_map: "\<forall>x y. cmp (f x) (f y) = cmp x y \<Longrightarrow> map f (js_insert cmp x ys) = js_insert cmp (f x) (map f ys)"
  by (induction ys) auto

lemma js_sort_map: "\<forall>x y. cmp (f x) (f y) = cmp x y \<Longrightarrow> map f (js_sort cmp xs) = js_sort cmp (map f xs)"
  by (induction xs) (auto simp: js_insert_map)

lemma sortSeries_live: "map live_fields (sortSeries xs) = sortSeries (map live_fields xs)"
  unfolding sortSeries_def by (rule js_sort_map) (simp add: series_compare_def live_fields_def split: option.split)

text \<open>C25: once the chain has answered, whatever the backend says or fails to say, the list shows the chain's series with
  the chain's values in every live field, in the order of the chain's own list; without it, the backend's list.\<close>

theorem chain_is_authoritative:
  "(case qr_data chain of
      Some c \<Rightarrow> map_option (map live_fields) (vw_data (useSeriesList deployed chain api))
         = Some (map live_fields (sortSeries c)) \<and> vw_source (useSeriesList deployed chain api) = Some FromChain
    | None \<Rightarrow> vw_data (useSeriesList deployed chain api) = map_option sortSeries (qr_data api))"
  by (auto simp: useSeriesList_def list_data_def data_from_def Let_def sortSeries_live live_merge comp_def split: option.splits)

end
