(* ===== verification/Web_Tickets.thy ===== *)
theory Web_Tickets
  imports Web_Tx_Trades
begin

text \<open>
  The order tickets of a series (\<open>web/src/components/series\<close>): what \<open>BuyTicket\<close>, \<open>ExitTicket\<close>,
  \<open>RedeemTicket\<close> and \<open>OracleTicket\<close> compute from the series, the wallet and the quotes, what stops them, and
  what a click on their button runs; and the tabs \<open>TradeRail\<close> offers. A quote hook is a parameter that
  answers for its arguments. Markup, focus and style are left out.
\<close>

subsection \<open>Amounts typed\<close>

definition ellipsis :: string where "ellipsis = [CHR 0xE2, CHR 0x80, CHR 0xA6]"
definition minus_sign :: string where "minus_sign = [CHR 0xE2, CHR 0x88, CHR 0x92]"

text \<open>The amount is read from the debounced text: nothing typed and no number are both \<open>null\<close>.\<close>

definition typed :: "nat \<Rightarrow> string \<Rightarrow> int option" where
  "typed decimals text = (if trim text = '''' then None else tryParseDecimal text decimals)"

definition positive :: "int option \<Rightarrow> bool" where
  "positive p \<longleftrightarrow> (case p of None \<Rightarrow> False | Some v \<Rightarrow> v > 0)"

text \<open>What the MAX button types.\<close>

definition max_usdc :: "int \<Rightarrow> string" where "max_usdc balance = remove_char (CHR '','') (fmtUsdc balance 6)"
definition max_units :: "int \<Rightarrow> string" where "max_units balance = remove_char (CHR '','') (fmtUnits balance 18)"

datatype slippage = HalfPercent | OnePercent | TwoPercent

fun slippage_bps :: "slippage \<Rightarrow> rat" where
  "slippage_bps HalfPercent = 50" | "slippage_bps OnePercent = 100" | "slippage_bps TwoPercent = 200"

subsection \<open>Clicks\<close>

record ticket_ctx =
  tc_deployed :: bool
  tc_address :: "address option"
  tc_balance :: "int option"

record 'a answer =
  an_data :: "'a option"
  an_fetching :: bool
  an_failed :: bool

datatype toast = SuccessToast string "string option" | ErrorToast string string

record ('w, 'a) clicked =
  ck_flow :: "('w, 'a) tx_flow"
  ck_toasts :: "toast list"
  ck_refetch :: "string list"
  ck_clears :: bool

definition no_click :: "('w, 'a) tx_flow \<Rightarrow> ('w, 'a) clicked" where
  "no_click F = \<lparr>ck_flow = F, ck_toasts = [], ck_refetch = [], ck_clears = False\<rparr>"

text \<open>
  After the run: a truthy result is announced, the caches are refetched and the input cleared. Otherwise
  the handler announces \<open>flow.error\<close>, which in its closure is the error of the flow as it was rendered
  when the button was clicked, \<open>seen\<close>.
\<close>

definition settle_click ::
    "('w, 'a) tx_flow \<Rightarrow> ('a \<Rightarrow> bool) \<Rightarrow> ('a \<Rightarrow> toast) \<Rightarrow> string list \<Rightarrow> bool \<Rightarrow> string \<Rightarrow> string option \<Rightarrow> ('w, 'a) clicked" where
  "settle_click F truthy announce keys clears title seen =
     (let failed = \<lparr>ck_flow = F, ck_toasts = (case seen of None \<Rightarrow> [] | Some e \<Rightarrow> if e = '''' then [] else [ErrorToast title e]),
                    ck_refetch = [], ck_clears = False\<rparr> in
      case tf_result F of
        None \<Rightarrow> failed
      | Some r \<Rightarrow> if truthy r then \<lparr>ck_flow = F, ck_toasts = [announce r], ck_refetch = keys, ck_clears = clears\<rparr> else failed)"

definition any_result :: "'a \<Rightarrow> bool" where "any_result r = True"
definition hash_result :: "string \<Rightarrow> bool" where "hash_result h \<longleftrightarrow> h \<noteq> ''''"

definition received :: "string \<Rightarrow> swap_result \<Rightarrow> string option" where
  "received tail r = map_option (\<lambda>v. ''Received '' @ fmtUsdc v 2 @ '' USDC'' @ tail) (sr_amountOut r)"

definition or_zero :: "int option \<Rightarrow> int" where
  "or_zero v = (case v of None \<Rightarrow> 0 | Some x \<Rightarrow> x)"

definition dash_or :: "('a \<Rightarrow> string) \<Rightarrow> 'a option \<Rightarrow> string" where
  "dash_or f v = (case v of None \<Rightarrow> em_dash | Some x \<Rightarrow> f x)"

definition quoted_text :: "('a \<Rightarrow> string) \<Rightarrow> bool \<Rightarrow> 'a option \<Rightarrow> string" where
  "quoted_text f fetching v = (case v of Some x \<Rightarrow> f x | None \<Rightarrow> if fetching then ellipsis else em_dash)"

definition with_usdc :: "int \<Rightarrow> string" where "with_usdc v = fmtUsdc v 2 @ '' USDC''"

text \<open>The profit against the indexed entry price, shown with its sign.\<close>

definition signed_usdc :: "int \<Rightarrow> string" where
  "signed_usdc v = (if v < 0 then minus_sign else ''+'') @ fmtUsdc (if v < 0 then - v else v) 2 @ '' USDC''"

definition indexed_pnl :: "int option \<Rightarrow> int option \<Rightarrow> int option \<Rightarrow> int option" where
  "indexed_pnl entry units proceeds =
     (case (entry, units, proceeds) of
        (Some e, Some u, Some p) \<Rightarrow> if u > 0 then Some (p - bdiv (e * u) WAD) else None
      | _ \<Rightarrow> None)"

definition average_price :: "int option \<Rightarrow> int option \<Rightarrow> int option" where
  "average_price units paid =
     (case (units, paid) of (Some u, Some p) \<Rightarrow> if u > 0 then Some (bdiv (p * WAD) u) else None | _ \<Rightarrow> None)"

definition vol_text :: "js_math \<Rightarrow> string \<Rightarrow> int \<Rightarrow> js_error + string" where
  "vol_text M tail v = andThen (fmtVolPct M v 1) (\<lambda>t. Inr (t @ ''%'' @ tail))"

subsection \<open>The buy ticket\<close>

record buy_box =
  bb_mode :: buy_mode
  bb_amount :: string
  bb_debounced :: string
  bb_slippage :: slippage

definition new_buy_box :: "string option \<Rightarrow> buy_box" where
  "new_buy_box presetUnits =
     (let text = (case presetUnits of None \<Rightarrow> '''' | Some t \<Rightarrow> t) in
      \<lparr>bb_mode = (if text = '''' then ExactIn else ExactOut), bb_amount = text, bb_debounced = text, bb_slippage = OnePercent\<rparr>)"

definition toggle_mode :: "buy_box \<Rightarrow> buy_box" where
  "toggle_mode b = b\<lparr>bb_mode := (if bb_mode b = ExactIn then ExactOut else ExactIn), bb_amount := ''''\<rparr>"

definition buy_parsed :: "buy_box \<Rightarrow> int option" where
  "buy_parsed b = typed (if bb_mode b = ExactIn then 6 else 18) (bb_debounced b)"

definition buy_answer :: "(int option \<Rightarrow> (int \<times> int) answer) \<Rightarrow> (int option \<Rightarrow> (int \<times> int) answer) \<Rightarrow> buy_box \<Rightarrow> (int \<times> int) answer" where
  "buy_answer qIn qOut b =
     (let asked = (if positive (buy_parsed b) then buy_parsed b else None) in
      if bb_mode b = ExactIn then qIn asked else qOut asked)"

definition buy_partial :: "(int \<times> int) answer \<Rightarrow> buy_box \<Rightarrow> bool" where
  "buy_partial q b =
     (case (an_data q, buy_parsed b) of
        (Some (units, premium), Some p) \<Rightarrow> if bb_mode b = ExactIn then premium < p else units < p
      | _ \<Rightarrow> False)"

definition buy_break_even :: "series_state \<Rightarrow> (int \<times> int) answer \<Rightarrow> int option" where
  "buy_break_even s q =
     (case an_data q of
        None \<Rightarrow> None
      | Some (units, premium) \<Rightarrow>
          if units = 0 then None else Some (breakEvenVariance premium units (unitNotional (series_state.params s))))"

definition buy_max_payout :: "series_state \<Rightarrow> (int \<times> int) answer \<Rightarrow> int option" where
  "buy_max_payout s q =
     (case an_data q of
        None \<Rightarrow> None
      | Some (units, _) \<Rightarrow>
          if units = 0 then None else Some (bdiv (units * maxPayoutPerUnit_web (series_state.params s)) WAD))"

definition insufficient :: "int option \<Rightarrow> int option \<Rightarrow> bool" where
  "insufficient premium balance = (case (premium, balance) of (Some p, Some b) \<Rightarrow> b < p | _ \<Rightarrow> False)"

definition buy_blocker :: "ticket_ctx \<Rightarrow> bool \<Rightarrow> series_state \<Rightarrow> (int \<times> int) answer \<Rightarrow> string option" where
  "buy_blocker C preview s q =
     (if \<not> tc_deployed C then Some ''Contracts not deployed''
      else if tc_address C = None \<and> \<not> preview then Some ''Connect a wallet to buy''
      else if status_of s = Closed then Some ''Series closed''
      else if status_of s = status.Finalized \<or> status_of s = ExpiredUnfinalized then Some ''Sale closed''
      else if \<not> leg_issuanceOpen (legs s) then Some (if unitsAvailable s = 0 then ''Sold out'' else ''Issuance closed'')
      else if \<not> checkpointsCurrent (oracle_of s) then Some ''Update the market first''
      else if \<not> fullyCollateralized s then Some ''Vault does not back this series''
      else if \<not> canBuy s then Some ''Not for sale''
      else if insufficient (map_option snd (an_data q)) (tc_balance C) then Some ''Insufficient USDC''
      else None)"

definition locked_by :: "string list \<Rightarrow> string option \<Rightarrow> bool" where
  "locked_by harmless blocker = (case blocker of None \<Rightarrow> False | Some t \<Rightarrow> t \<notin> set harmless)"

definition buy_locked :: "string option \<Rightarrow> bool" where
  "buy_locked = locked_by [''Insufficient USDC'', ''Connect a wallet to buy'']"

definition buy_disabled :: "bool \<Rightarrow> string option \<Rightarrow> (int \<times> int) answer \<Rightarrow> buy_box \<Rightarrow> bool" where
  "buy_disabled running blocker q b \<longleftrightarrow>
     \<not> positive (buy_parsed b) \<or> blocker \<noteq> None \<or> running \<or> an_data q = None"

definition buy_label :: "string option \<Rightarrow> buy_box \<Rightarrow> string" where
  "buy_label blocker b = (case blocker of Some t \<Rightarrow> t | None \<Rightarrow> if bb_mode b = ExactIn then ''Buy receipts'' else ''Buy units'')"

definition buy_toast :: "swap_result \<Rightarrow> toast" where
  "buy_toast r =
     (let detail = map_option (\<lambda>out. fmtUnits out 2 @ '' units for '' @ fmtUsdc (or_zero (sr_amountIn r)) 2 @ '' USDC'') (sr_amountOut r) in
      if sr_partial r then SuccessToast ''Filled partially'' (map_option (\<lambda>d. d @ '' '' @ em_dash @ '' the market clamped the fill'') detail)
      else SuccessToast ''Receipts bought'' detail)"

definition buy_request :: "series_state \<Rightarrow> buy_box \<Rightarrow> buy_params" where
  "buy_request s b =
     \<lparr>bp_state = s, bp_mode = bb_mode b, bp_amount = or_zero (buy_parsed b), bp_slippageBps = slippage_bps (bb_slippage b)\<rparr>"

definition buy_submit ::
    "'w env \<Rightarrow> ('w, swap_result) tx_flow \<Rightarrow> series_state \<Rightarrow> string option \<Rightarrow> buy_box \<Rightarrow> ('w, swap_result) clicked" where
  "buy_submit E F s blocker b =
     (if \<not> positive (buy_parsed b) \<or> blocker \<noteq> None then no_click F
      else settle_click (run_flow E BUY_PLAN (\<lambda>a. runBuy E a (buy_request s b)) (tf_page F))
             any_result buy_toast [''chain'', ''api''] True ''Buy failed'' (tf_error F))"

definition buy_items :: "js_math \<Rightarrow> series_state \<Rightarrow> (int \<times> int) answer \<Rightarrow> js_error + (string \<times> string) list" where
  "buy_items M s q =
     (let units = map_option fst (an_data q); premium = map_option snd (an_data q); be = buy_break_even s q in
      andThen (case be of Some v \<Rightarrow> if v > 0 then vol_text M '''' v else Inr em_dash | None \<Rightarrow> Inr em_dash) (\<lambda>even.
      andThen (vol_text M '' vol'' (web_params.capVariance (series_state.params s))) (\<lambda>cap. Inr
        [(''Units'', quoted_text (\<lambda>u. fmtUnits u 4) (an_fetching q) units),
         (''Premium'', quoted_text with_usdc (an_fetching q) premium),
         (''Avg price / unit'', dash_or with_usdc (average_price units premium)),
         (''Break-even vol'', even),
         (''Max payout (at cap)'', dash_or with_usdc (buy_max_payout s q)),
         (''Cap'', cap),
         (''Locked backing'', fmtUsdc (lockedLiability s) 0 @ '' USDC'')])))"

subsection \<open>The exit ticket\<close>

record sell_box =
  sb_amount :: string
  sb_debounced :: string
  sb_slippage :: slippage

definition sell_parsed :: "sell_box \<Rightarrow> int option" where
  "sell_parsed b = typed 18 (sb_debounced b)"

text \<open>The units asked of the quote: none while the amount is not valid.\<close>

definition sell_asked :: "sell_box \<Rightarrow> int option" where
  "sell_asked b = (if positive (sell_parsed b) then sell_parsed b else None)"

definition exceeds :: "int option \<Rightarrow> int option \<Rightarrow> bool" where
  "exceeds p balance = (case (p, balance) of (Some v, Some b) \<Rightarrow> v > b | _ \<Rightarrow> False)"

definition exit_blocker :: "ticket_ctx \<Rightarrow> series_state \<Rightarrow> sell_box \<Rightarrow> string option" where
  "exit_blocker C s b =
     (if \<not> tc_deployed C then Some ''Contracts not deployed''
      else if status_of s = status.Upcoming then Some ''Window has not started''
      else if status_of s = Closed then Some ''Series closed''
      else if \<not> leg_exitOpen (legs s)
        then Some (if status_of s = status.Finalized \<or> status_of s = ExpiredUnfinalized
               then ''Expired '' @ em_dash @ '' redeem instead'' else ''No exit market'')
      else if \<not> checkpointsCurrent (oracle_of s) then Some ''Update the market first''
      else if \<not> canExit s then Some ''Exit unavailable''
      else if tc_address C = None then Some ''Connect a wallet to exit''
      else if tc_balance C = Some 0 then Some ''No receipts held''
      else if exceeds (sell_parsed b) (tc_balance C) then Some ''Exceeds your balance''
      else None)"

definition exit_locked :: "string option \<Rightarrow> bool" where
  "exit_locked = locked_by [''Connect a wallet to exit'', ''Exceeds your balance'']"

definition exit_disabled :: "bool \<Rightarrow> string option \<Rightarrow> (int \<times> int) answer \<Rightarrow> sell_box \<Rightarrow> bool" where
  "exit_disabled running blocker q b \<longleftrightarrow>
     \<not> positive (sell_parsed b) \<or> blocker \<noteq> None \<or> running \<or> an_data q = None"

definition exit_label :: "string option \<Rightarrow> string" where
  "exit_label blocker = (case blocker of Some t \<Rightarrow> t | None \<Rightarrow> ''Sell at the bid'')"

definition sell_partial :: "(int \<times> int) answer \<Rightarrow> sell_box \<Rightarrow> bool" where
  "sell_partial q b =
     (case (an_data q, sell_parsed b) of (Some (filled, _), Some p) \<Rightarrow> filled < p | _ \<Rightarrow> False)"

definition exit_toast :: "swap_result \<Rightarrow> toast" where
  "exit_toast r = SuccessToast (if sr_partial r then ''Exited partially'' else ''Position exited'')
     (received ('' '' @ mid_dot @ '' receipts burned'') r)"

definition sell_request :: "rat \<Rightarrow> series_state \<Rightarrow> sell_box \<Rightarrow> exit_params" where
  "sell_request bps s b = \<lparr>ep_state = s, ep_units = or_zero (sell_parsed b), ep_slippageBps = bps\<rparr>"

definition exit_submit ::
    "'w env \<Rightarrow> ('w, swap_result) tx_flow \<Rightarrow> series_state \<Rightarrow> string option \<Rightarrow> sell_box \<Rightarrow> ('w, swap_result) clicked" where
  "exit_submit E F s blocker b =
     (if \<not> positive (sell_parsed b) \<or> blocker \<noteq> None then no_click F
      else settle_click
             (run_flow E EXIT_PLAN (\<lambda>a. runExit E a (sell_request (slippage_bps (sb_slippage b)) s b)) (tf_page F))
             any_result exit_toast [''chain'', ''api''] True ''Exit failed'' (tf_error F))"

definition exit_items ::
    "js_math \<Rightarrow> (int \<Rightarrow> string) \<Rightarrow> series_state \<Rightarrow> int option \<Rightarrow> (int \<times> int) answer \<Rightarrow> js_error + (string \<times> string) list" where
  "exit_items M fmtDateTime s entry q =
     (let units = map_option fst (an_data q); proceeds = map_option snd (an_data q) in
      andThen (vol_text M '''' (q_bidVariance (quote_of s))) (\<lambda>bid.
      andThen (vol_text M '''' (q_askVariance (quote_of s))) (\<lambda>ask. Inr (
        [(''Bid vol'', bid), (''Ask vol'', ask),
         (''Proceeds'', quoted_text with_usdc (an_fetching q) proceeds),
         (''Avg price / unit'', dash_or with_usdc (average_price units proceeds)),
         (''Indexed P&L'', dash_or signed_usdc (indexed_pnl entry units proceeds))]
        @ (if leg_exitOpen (legs s) then [(''Exit closes'', fmtDateTime (web_params.expiry (series_state.params s)))] else [])))))"

subsection \<open>The redemption ticket\<close>

definition redeem_blocker :: "ticket_ctx \<Rightarrow> series_state \<Rightarrow> sell_box \<Rightarrow> string option" where
  "redeem_blocker C s b =
     (if \<not> tc_deployed C then Some ''Contracts not deployed''
      else if status_of s = status.Upcoming then Some ''Window has not started''
      else if status_of s = Live then Some ''Locked until expiry''
      else if status_of s = ExpiredUnfinalized then Some ''Finalize the variance first''
      else if status_of s = Closed \<and> unitsOutstanding s = 0 then Some ''Series closed''
      else if tc_address C = None then Some ''Connect a wallet''
      else if tc_balance C = Some 0 then Some ''No receipts held''
      else if exceeds (sell_parsed b) (tc_balance C) then Some ''Exceeds your balance''
      else if \<not> needsWorthlessBurn s \<and> \<not> canRedeem s then Some ''Redemption unavailable''
      else None)"

definition redeem_locked :: "string option \<Rightarrow> bool" where
  "redeem_locked = locked_by [''Connect a wallet'', ''Exceeds your balance'']"

text \<open>\<open>running\<close> is that of the flow shown: the burn of a worthless series, the redemption of another.\<close>

definition redeem_disabled :: "bool \<Rightarrow> string option \<Rightarrow> sell_box \<Rightarrow> bool" where
  "redeem_disabled running blocker b \<longleftrightarrow> \<not> positive (sell_parsed b) \<or> blocker \<noteq> None \<or> running"

definition redeem_label :: "series_state \<Rightarrow> string option \<Rightarrow> string" where
  "redeem_label s blocker = (case blocker of Some t \<Rightarrow> t
     | None \<Rightarrow> if needsWorthlessBurn s then ''Burn receipts'' else ''Redeem receipts'')"

definition redeem_submit ::
    "'w env \<Rightarrow> ('w, swap_result) tx_flow \<Rightarrow> series_state \<Rightarrow> string option \<Rightarrow> sell_box \<Rightarrow> ('w, swap_result) clicked" where
  "redeem_submit E F s blocker b =
     (if \<not> positive (sell_parsed b) \<or> blocker \<noteq> None then no_click F
      else settle_click (run_flow E REDEEM_PLAN (\<lambda>a. runRedeem E a (sell_request 100 s b)) (tf_page F))
             any_result (\<lambda>r. SuccessToast ''Redeemed'' (received '''' r)) [''chain'', ''api''] True ''Redemption failed'' (tf_error F))"

definition burn_submit ::
    "'w env \<Rightarrow> ('w, string) tx_flow \<Rightarrow> series_state \<Rightarrow> string option \<Rightarrow> sell_box \<Rightarrow> ('w, string) clicked" where
  "burn_submit E F s blocker b =
     (if \<not> positive (sell_parsed b) \<or> blocker \<noteq> None then no_click F
      else settle_click
             (run_flow E BURN_WORTHLESS_PLAN (\<lambda>a. runBurnWorthless E a (id_of s) (or_zero (sell_parsed b))) (tf_page F))
             hash_result (\<lambda>_. SuccessToast ''Receipts burned'' (Some ''This series finalized at a zero payout''))
             [''chain'', ''api''] True ''Burn failed'' (tf_error F))"

definition redeem_items ::
    "js_math \<Rightarrow> (int \<Rightarrow> string) \<Rightarrow> series_state \<Rightarrow> int option \<Rightarrow> (int \<times> int) answer \<Rightarrow> sell_box \<Rightarrow> js_error + (string \<times> string) list" where
  "redeem_items M fmtDateTime s entry q b =
     (let proceeds = map_option snd (an_data q) in
      andThen (vol_text M '''' (effectiveVariance s)) (\<lambda>vol. Inr (
        [(if isFinalized s then ''Final realized vol'' else ''Realized vol so far'', vol),
         (''Payout / unit'', with_usdc (payout_per_unit s)),
         (''You receive'', if needsWorthlessBurn s then ''0.00 USDC'' else quoted_text with_usdc (an_fetching q) proceeds),
         (''Indexed P&L'', dash_or signed_usdc (indexed_pnl entry (sell_parsed b) proceeds))]
        @ (if isFinalized s then [] else [(''Expires'', fmtDateTime (web_params.expiry (series_state.params s)))]))))"

subsection \<open>The accumulator ticket\<close>

definition oracle_budget :: "int option \<Rightarrow> int" where
  "oracle_budget maxSamples = (case maxSamples of None \<Rightarrow> 32 | Some m \<Rightarrow> m)"

text \<open>\<open>Math.ceil(behind / budget)\<close>, shown as a dash when zero.\<close>

definition calls_left :: "int \<Rightarrow> int \<Rightarrow> int" where
  "calls_left behind budget = (if behind = 0 then 0 else \<lceil>fl (of_int behind / of_int budget)\<rceil>)"

definition oracle_blocker :: "ticket_ctx \<Rightarrow> string option" where
  "oracle_blocker C =
     (if \<not> tc_deployed C then Some ''Contracts not deployed''
      else if tc_address C = None then Some ''Connect a wallet'' else None)"

definition checkpoint_disabled :: "bool \<Rightarrow> string option \<Rightarrow> series_state \<Rightarrow> bool" where
  "checkpoint_disabled running blocker s \<longleftrightarrow> blocker \<noteq> None \<or> checkpointsBehind s = 0 \<or> running"

definition checkpoint_label :: "string option \<Rightarrow> int option \<Rightarrow> series_state \<Rightarrow> string" where
  "checkpoint_label blocker maxSamples s = (case blocker of Some t \<Rightarrow> t
     | None \<Rightarrow> if checkpointsBehind s = 0 then ''Market is current''
         else ''Update the market ('' @ dec_string (min (checkpointsBehind s) (oracle_budget maxSamples)) @ '' samples)'')"

definition checkpoint_toast :: "string \<Rightarrow> checkpoint_result \<Rightarrow> toast" where
  "checkpoint_toast current r =
     (if cr_done r then SuccessToast current (Some (dec_string (cr_stored r) @ '' samples stored''))
      else SuccessToast ''Window advanced''
        (Some (dec_string (cr_stored r) @ '' of '' @ dec_string (cr_available r) @ '' '' @ em_dash @ '' run it again'')))"

definition checkpoint_click ::
    "'w env \<Rightarrow> ('w, checkpoint_result) tx_flow \<Rightarrow> int option \<Rightarrow> series_state \<Rightarrow> ('w, checkpoint_result) clicked" where
  "checkpoint_click E F maxSamples s =
     settle_click
       (run_flow E CHECKPOINT_PLAN (\<lambda>a. runCheckpoint E a (id_of s) (of_int (oracle_budget maxSamples))) (tf_page F))
       any_result (checkpoint_toast ''Market is current'') [''chain'', ''api''] False ''Checkpoint failed'' (tf_error F)"

definition finalize_disabled :: "bool \<Rightarrow> string option \<Rightarrow> series_state \<Rightarrow> bool" where
  "finalize_disabled running blocker s \<longleftrightarrow> blocker \<noteq> None \<or> \<not> needsFinalize s \<or> running"

definition finalize_label :: "string option \<Rightarrow> series_state \<Rightarrow> string" where
  "finalize_label blocker s = (case blocker of Some t \<Rightarrow> t
     | None \<Rightarrow> if isFinalized s then ''Already finalized''
         else if needsFinalize s then ''Finalize variance'' else ''Finalize (window incomplete)'')"

definition finalize_click :: "'w env \<Rightarrow> ('w, string) tx_flow \<Rightarrow> series_state \<Rightarrow> ('w, string) clicked" where
  "finalize_click E F s =
     settle_click (run_flow E FINALIZE_PLAN (\<lambda>a. runFinalize E a (id_of s)) (tf_page F))
       hash_result (\<lambda>_. SuccessToast ''Variance finalized'' (Some ''The payout per unit is now fixed''))
       [''chain'', ''api''] False ''Finalize failed'' (tf_error F)"

definition samples_behind :: "int \<Rightarrow> string" where
  "samples_behind n = (if n = 0 then ''Current'' else dec_string n @ '' sample'' @ (if n = 1 then '''' else ''s''))"

definition oracle_items ::
    "js_math \<Rightarrow> (int \<Rightarrow> string) \<Rightarrow> int option \<Rightarrow> series_state \<Rightarrow> js_error + (string \<times> string) list" where
  "oracle_items M fmtDateTime maxSamples s =
     (let behind = checkpointsBehind s; budget = oracle_budget maxSamples; calls = calls_left behind budget in
      andThen (vol_text M '''' (effectiveVariance s)) (\<lambda>vol. Inr
        [(''Behind'', samples_behind behind),
         (''Calls to catch up'', if calls = 0 then em_dash else dec_string calls),
         (''Stored through'', if processedThrough (oracle_of s) > 0 then fmtDateTime (processedThrough (oracle_of s)) else em_dash),
         (''Window ends'', fmtDateTime (web_params.expiry (series_state.params s))),
         (if isFinalized s then ''Final realized vol'' else ''Realized so far'', vol),
         (''Per call'', ''up to '' @ dec_string budget @ '' samples'')]))"

subsection \<open>The tabs\<close>

datatype ticket_side = BuySide | ExitSide | RedeemSide | OracleSide

definition sidesFor :: "series_state \<Rightarrow> ticket_side list" where
  "sidesFor s =
     (let trading = (status_of s = status.Upcoming \<or> status_of s = Live);
          sides = (if trading \<and> (leg_issuanceOpen (legs s) \<or> canBuy s) then [BuySide] else [])
            @ (if trading \<and> (leg_exitOpen (legs s) \<or> canExit s) then [ExitSide] else [])
            @ (if canRedeem s \<or> needsWorthlessBurn s then [RedeemSide] else [])
            @ (if needsCheckpoint s \<or> needsFinalize s \<or> status_of s = ExpiredUnfinalized then [OracleSide] else [])
      in if sides = [] then [if status_of s = Live then BuySide else RedeemSide] else sides)"

definition side_shown :: "'a option \<Rightarrow> 'a list \<Rightarrow> 'a" where
  "side_shown chosen sides = (case chosen of Some c \<Rightarrow> if c \<in> set sides then c else hd sides | None \<Rightarrow> hd sides)"

subsection \<open>What the tickets promise\<close>

lemma ungroup: "remove_char (CHR '','') (formatFixed v d opts) = formatFixed v d (opts\<lparr>group := False\<rparr>)"
proof -
  define w where "w = fmt_round d opts (if v < 0 then - v else v)"
  define i where "i = dec_digits (w div 10 ^ d)"
  define f where "f = pad_end (minFrac opts) (strip_zeros (take (maxFrac opts) (pad_start d (dec_digits (w mod 10 ^ d)))))"
  have w0: "0 \<le> w" unfolding w_def by (intro fmt_round_nonneg) simp
  have q0: "0 \<le> w div 10 ^ d" using w0 by (simp add: pos_imp_zdiv_nonneg_iff)
  have id: "list_all is_digit i" unfolding i_def using dec_digits_digits [OF q0] by simp
  have "list_all is_digit (take (maxFrac opts) (pad_start d (dec_digits (w mod 10 ^ d))))"
    using fraction_digits(2) [of "w mod 10 ^ d" d 0] by (auto simp: list_all_iff dest: in_set_takeD)
  then have fd: "list_all is_digit f" unfolding f_def by (intro pad_end_digits strip_zeros_digits)
  have b: "bdiv w (10 ^ d) = w div 10 ^ d" "w - w div 10 ^ d * 10 ^ d = w mod 10 ^ d"
    using w0 by (simp_all add: bdiv_def minus_div_mult_eq_mod)
  have r: "fmt_round d (opts\<lparr>group := False\<rparr>) = fmt_round d opts" by (rule ext) (simp add: fmt_round_def)
  have shown: "formatFixed v d opts = (if v < 0 then ''-'' else '''') @ (if group opts then groupInt i else i)
      @ (if f = '''' then '''' else ''.'' @ f)"
    "formatFixed v d (opts\<lparr>group := False\<rparr>) = (if v < 0 then ''-'' else '''') @ i @ (if f = '''' then '''' else ''.'' @ f)"
    unfolding formatFixed_def Let_def r w_def [symmetric] b dec_string_nonneg [OF q0]
    by (simp_all add: i_def f_def dec_string_nonneg)
  have no: "remove_char (CHR '','') i = i" "remove_char (CHR '','') f = f"
    using digits_no [OF id] digits_no [OF fd] by (simp_all add: remove_char_id)
  have s: "remove_char (CHR '','') (c # xs) = c # remove_char (CHR '','') xs" if "c \<noteq> CHR '',''" for c xs
    using that by (simp add: remove_char_def)
  show ?thesis unfolding shown by (simp add: groupInt_remove [OF id] no s) (simp add: remove_char_def)
qed

lemma parse_not_empty: "parseDecimal t d = Inr v \<Longrightarrow> trim t \<noteq> ''''"
  by (auto simp: parseDecimal_def Let_def remove_char_def)

lemma typed_format: "d \<le> maxFrac opts \<Longrightarrow> typed d (remove_char (CHR '','') (formatFixed v d opts)) = Some v"
  unfolding ungroup
  using format_parse [of v d "opts\<lparr>group := False\<rparr>"] fmt_kept_exact [of d "opts\<lparr>group := False\<rparr>"]
    parse_not_empty [of "formatFixed v d (opts\<lparr>group := False\<rparr>)" d v]
  by (simp add: typed_def tryParseDecimal_def)

text \<open>The MAX button is exact: what it types, whatever the balance, is read back as that balance to the last base unit.\<close>

theorem max_button_exact:
  "typed 6 (max_usdc n) = Some n \<and> typed 18 (max_units n) = Some n"
  by (simp add: max_usdc_def max_units_def fmtUsdc_def fmtUnits_def typed_format fmt_default_def)

lemma offered:
  "status_of s = status.Upcoming \<or> status_of s = Live \<Longrightarrow> leg_issuanceOpen (legs s) \<Longrightarrow> BuySide \<in> set (sidesFor s)"
  "status_of s = status.Upcoming \<or> status_of s = Live \<Longrightarrow> leg_exitOpen (legs s) \<Longrightarrow> ExitSide \<in> set (sidesFor s)"
  "canRedeem s \<or> needsWorthlessBurn s \<Longrightarrow> RedeemSide \<in> set (sidesFor s)"
  "needsCheckpoint s \<or> needsFinalize s \<Longrightarrow> OracleSide \<in> set (sidesFor s)"
  by (auto simp: sidesFor_def Let_def)

lemma blockers:
  "buy_blocker C False s q = None \<Longrightarrow> canBuy s \<and> fullyCollateralized s \<and> status_of s \<notin> {Closed, status.Finalized, ExpiredUnfinalized}"
  "exit_blocker C s b = None \<Longrightarrow> canExit s"
  "redeem_blocker C s b = None \<Longrightarrow> canRedeem s \<or> needsWorthlessBurn s"
  by (auto simp: buy_blocker_def exit_blocker_def redeem_blocker_def split: if_splits)

text \<open>C28: for a series as the lens reports it, with a status of its enumeration and the exit leg open only before the
  expiry (the status is then upcoming or live): whatever a ticket lets a user do, its tab is offered and the
  series allows it. With no blocker on a ticket the market is open for it and its tab is in the rail, and no
  trading tab is left once the series expires.\<close>

theorem tickets_match_tabs:
  assumes "in_enum (status_of s)" "leg_exitOpen (legs s) \<Longrightarrow> status_of s = status.Upcoming \<or> status_of s = Live"
  shows "(buy_blocker C False s q = None \<longrightarrow> canBuy s \<and> fullyCollateralized s \<and> BuySide \<in> set (sidesFor s))
    \<and> (exit_blocker C s b = None \<longrightarrow> canExit s \<and> ExitSide \<in> set (sidesFor s))
    \<and> (redeem_blocker C s b = None \<longrightarrow> (canRedeem s \<or> needsWorthlessBurn s) \<and> RedeemSide \<in> set (sidesFor s))
    \<and> (\<not> checkpoint_disabled r k s \<or> \<not> finalize_disabled r k s \<longrightarrow> OracleSide \<in> set (sidesFor s))
    \<and> (BuySide \<in> set (sidesFor s) \<or> ExitSide \<in> set (sidesFor s) \<longrightarrow> status_of s = status.Upcoming \<or> status_of s = Live)
    \<and> side_shown chosen (sidesFor s) \<in> set (sidesFor s)"
proof (intro conjI impI)
  assume "buy_blocker C False s q = None"
  note b = blockers(1) [OF this]
  then show "canBuy s" "fullyCollateralized s" by simp_all
  have "status_of s = status.Upcoming \<or> status_of s = Live" using b assms(1) by (cases "status_of s") simp_all
  then show "BuySide \<in> set (sidesFor s)" using b offered(1) by (simp add: canBuy_def)
next
  assume "exit_blocker C s b = None"
  note b = blockers(2) [OF this]
  then show "canExit s" .
  then show "ExitSide \<in> set (sidesFor s)" using offered(2) assms(2) by (simp add: canExit_def)
next
  assume "\<not> checkpoint_disabled r k s \<or> \<not> finalize_disabled r k s"
  then have "needsCheckpoint s \<or> needsFinalize s"
    by (auto simp: checkpoint_disabled_def finalize_disabled_def needsCheckpoint_def checkpointsBehind_def)
  then show "OracleSide \<in> set (sidesFor s)" by (rule offered(4))
next
  assume "BuySide \<in> set (sidesFor s) \<or> ExitSide \<in> set (sidesFor s)"
  then show "status_of s = status.Upcoming \<or> status_of s = Live"
    by (auto simp: sidesFor_def Let_def split: if_splits)
next
  have "sidesFor s \<noteq> []" by (simp add: sidesFor_def Let_def)
  then show "side_shown chosen (sidesFor s) \<in> set (sidesFor s)" by (simp add: side_shown_def split: option.splits)
qed (use blockers(3) offered(3) in blast)+

subsection \<open>From a click to the transactions\<close>

context submission_log
begin

lemma run_starts:
  assumes "tf_result (run_flow E pl fn s) = Some x"
  shows "\<exists>a s1. fn a s1 = (Inr x, tf_page (run_flow E pl fn s)) \<and> sent (pg_world s1) = sent (pg_world s)"
proof -
  have "run_body E fn (s\<lparr>pg_steps := map fresh_step pl\<rparr>) = (Inr x, tf_page (run_flow E pl fn s))"
    using assms by (auto simp: run_flow_def split: prod.splits sum.splits)
  then obtain addr n s1 where r: "await (e_account E) (s\<lparr>pg_steps := map fresh_step pl\<rparr>) = (Inr (addr, n), s1)"
    and t: "(case addr of None \<Rightarrow> throw (new_Error ''Connect a wallet first'')
       | Some a \<Rightarrow> if e_chainId E \<noteq> e_activeChain E then throw (new_Error ''Deployment manifest does not match the configured chain'')
           else next_do (if n \<noteq> e_activeChain E then await (e_switchChain E) else return ()) (fn a)) s1
      = (Inr x, tf_page (run_flow E pl fn s))"
    unfolding run_body_def returned_simps(1) by auto
  have q: "sent (pg_world s1) = sent (pg_world s)"
    using calm_empty(2) [OF calm_reads(2) r] by simp
  obtain a where a: "addr = Some a" using t by (cases addr) (auto simp: returned_simps)
  obtain s2 where s2: "(if n \<noteq> e_activeChain E then await (e_switchChain E) else return ()) s1 = (Inr (), s2)"
    "fn a s2 = (Inr x, tf_page (run_flow E pl fn s))"
    using t a by (auto simp: returned_simps(2,6) split: if_splits)
  have "calm {} (if n \<noteq> e_activeChain E then await (e_switchChain E) else return ())"
    by (simp add: calm_reads(3))
  from calm_empty(2) [OF this s2(1)] show ?thesis using s2(2) q by auto
qed

end

lemma click_cleared:
  assumes "ck_clears (settle_click F truthy ok keys c title seen)"
  obtains r where "tf_result F = Some r" "truthy r" "settle_click F truthy ok keys c title seen =
    \<lparr>ck_flow = F, ck_toasts = [ok r], ck_refetch = keys, ck_clears = True\<rparr>"
  using assms by (auto simp: settle_click_def Let_def split: option.splits if_splits)

lemma sized_logged: "buy_sized (logged E) p w taker spend limit = buy_sized E p (fst w) taker spend limit"
  by (simp add: buy_sized_def Let_def split: buy_mode.splits)

text \<open>C29: a buy that succeeds has spent what was typed: its one quote is for the amount of the debounced text, in the mode
  and under the slippage of the ticket, and the wallet submitted the swap that quote sizes, after at most the
  approval it needs.\<close>

theorem buy_click_trades_what_was_typed:
  assumes "ck_clears (buy_submit (logged E) F s k b)" "pg_world (tf_page F) = (w, [])"
  shows "k = None \<and> (\<exists>n a now taker spend limit. typed (if bb_mode b = ExactIn then 6 else 18) (bb_debounced b) = Some n \<and> 0 < n
    \<and> buy_sized E \<lparr>bp_state = s, bp_mode = bb_mode b, bp_amount = n, bp_slippageBps = slippage_bps (bb_slippage b)\<rparr>
        now taker spend limit
    \<and> trade_calls E a (web_params.quoteToken (series_state.params s)) spend (bb_mode b = ExactIn) taker limit
        (map fst (snd (pg_world (tf_page (ck_flow (buy_submit (logged E) F s k b)))))))"
proof -
  let ?R = "run_flow (logged E) BUY_PLAN (\<lambda>a. runBuy (logged E) a (buy_request s b)) (tf_page F)"
  have k: "k = None" "positive (buy_parsed b)"
    and e: "buy_submit (logged E) F s k b = settle_click ?R any_result buy_toast [''chain'', ''api''] True ''Buy failed'' (tf_error F)"
    using assms(1) by (auto simp: buy_submit_def no_click_def split: if_splits)
  obtain n where n: "buy_parsed b = Some n" "0 < n" using k(2) by (auto simp: positive_def split: option.splits)
  obtain r where r: "tf_result ?R = Some r" "ck_flow (buy_submit (logged E) F s k b) = ?R"
    using click_cleared [OF assms(1) [unfolded e]] e by (metis clicked.select_convs(1))
  obtain a s1 where "runBuy (logged E) a (buy_request s b) s1 = (Inr r, tf_page ?R)" "snd (pg_world s1) = []"
    using log.run_starts [OF r(1)] assms(2) by auto
  from log.buy_submits [OF this(1)] this(2) show ?thesis
    using k(1) n unfolding r(2) by (auto simp: sized_logged buy_request_def or_zero_def buy_parsed_def) blast
qed

definition demo_click :: "(unit \<times> submission list, swap_result) clicked" where
  "demo_click = buy_submit (logged (demo_env 0 (Inr demo_receipt)))
     \<lparr>tf_page = demo_page BUY_PLAN, tf_running = False, tf_error = None, tf_result = None\<rparr>
     (demo_series Live 2000 1) None (new_buy_box (Some ''0.5''))"

lemma demo_click_clears: "ck_clears demo_click"
  by code_simp

theorem buy_click_trades_what_was_typed_witness:
  "\<exists>taker spend limit now. buy_sized (demo_env 0 (Inr demo_receipt))
      \<lparr>bp_state = demo_series Live 2000 1, bp_mode = ExactOut, bp_amount = 5 * 10 ^ 17, bp_slippageBps = 100\<rparr>
      now taker spend limit
    \<and> (\<exists>a. trade_calls (demo_env 0 (Inr demo_receipt)) a ''0x02'' spend False taker limit
         (map fst (snd (pg_world (tf_page (ck_flow demo_click))))))"
proof -
  have t: "typed 18 ''0.5'' = Some (5 * 10 ^ 17)" by code_simp
  have b: "new_buy_box (Some ''0.5'') = \<lparr>bb_mode = ExactOut, bb_amount = ''0.5'', bb_debounced = ''0.5'', bb_slippage = OnePercent\<rparr>"
    by (simp add: new_buy_box_def Let_def)
  have q: "web_params.quoteToken (series_state.params (demo_series Live 2000 1)) = ''0x02''"
    by (simp add: demo_series_def demo_params_def)
  have w: "pg_world (tf_page \<lparr>tf_page = demo_page BUY_PLAN, tf_running = False, tf_error = None, tf_result = None\<rparr>) = ((), [])"
    by (simp add: demo_page_def)
  from buy_click_trades_what_was_typed [OF demo_click_clears [unfolded demo_click_def] w, folded demo_click_def, unfolded q b]
  show ?thesis by (auto simp: t)
qed

theorem tickets_match_tabs_witness: "BuySide \<in> set (sidesFor (demo_series Live 2000 1))"
proof -
  have "in_enum (status_of (demo_series Live 2000 1))" "status_of (demo_series Live 2000 1) = Live"
    by (simp_all add: demo_series_def)
  moreover have "buy_blocker \<lparr>tc_deployed = True, tc_address = Some ''0xholder'', tc_balance = None\<rparr> False (demo_series Live 2000 1)
      \<lparr>an_data = None, an_fetching = False, an_failed = False\<rparr> = None"
    by (simp add: demo_series_def buy_blocker_def canBuy_def insufficient_def)
  ultimately show ?thesis using tickets_match_tabs [of "demo_series Live 2000 1"] by blast
qed

text \<open>
  A first failure is not announced: the handler reads the error of the flow as it was rendered, and
  announces, at the next failure, the one before.
\<close>

lemma failure_announced_late:
  assumes "tf_result (run_flow E pl fn p) = None"
  shows "ck_toasts (settle_click (run_flow E pl fn p) truthy ok keys c title None) = []"
    "e \<noteq> '''' \<Longrightarrow> ck_toasts (settle_click (run_flow E pl fn p) truthy ok keys c title (Some e)) = [ErrorToast title e]"
    "tf_error (ck_flow (settle_click (run_flow E pl fn p) truthy ok keys c title seen)) \<noteq> None"
  using assms by (auto simp: settle_click_def run_flow_def split: prod.splits sum.splits)

text \<open>A series that has not started, with its issuance stopped, is offered a redemption that cannot be made.\<close>

lemma upcoming_offered_redemption:
  assumes "status_of s = status.Upcoming" "\<not> leg_issuanceOpen (legs s)" "\<not> leg_exitOpen (legs s)"
    "\<not> leg_settleOpen (legs s)" "checkpointsBehind s = 0" "tc_deployed C"
  shows "sidesFor s = [RedeemSide]" "redeem_blocker C s b = Some ''Window has not started''"
  using assms by (auto simp: sidesFor_def redeem_blocker_def canBuy_def canExit_def canRedeem_def needsWorthlessBurn_def
      needsCheckpoint_def needsFinalize_def isFinalized_def)

end
