(* ===== verification/Web_Group_Tickets.thy ===== *)
theory Web_Group_Tickets
  imports Web_Tickets
begin

text \<open>
  The order tickets of a paired market (\<open>web/src/components/pairs\<close>): \<open>GroupTickets\<close>, \<open>GroupOracleTicket\<close>,
  \<open>ExitBufferCard\<close> and the tabs of \<open>GroupTradeRail\<close>, as those of a series are modelled. The clock is zero until the
  page is mounted.
\<close>

fun SIDE_LABEL :: "side \<Rightarrow> string" where
  "SIDE_LABEL High = ''HIGH''" | "SIDE_LABEL Calm = ''CALM''"

definition priced :: "int \<Rightarrow> string" where "priced v = ''$'' @ fmtPriceUsdc v 6 @ '' USDC''"

definition group_request :: "group_state \<Rightarrow> side \<Rightarrow> sell_box \<Rightarrow> group_trade" where
  "group_request g side b =
     \<lparr>gt_group = g, gt_side = side, gt_units = or_zero (sell_parsed b), gt_slippageBps = slippage_bps (sb_slippage b)\<rparr>"

subsection \<open>Buying a side\<close>

definition group_buy_open :: "group_state \<Rightarrow> int \<Rightarrow> bool" where
  "group_buy_open g now \<longleftrightarrow> now > 0 \<and> groupCanBuy g now"

definition remaining_units :: "group_state \<Rightarrow> side \<Rightarrow> int" where
  "remaining_units g side = maxUnitsPerSide (group_state.params g) - outstandingFor g side"

text \<open>A quote of the router answers with what goes in and what comes out.\<close>

definition group_buy_blocker :: "ticket_ctx \<Rightarrow> group_state \<Rightarrow> side \<Rightarrow> int \<Rightarrow> (int \<times> int) answer \<Rightarrow> string option" where
  "group_buy_blocker C g side now q =
     (if \<not> tc_deployed C then Some ''Contracts not deployed''
      else if finalized g then Some ''Group finalized''
      else if now > 0 \<and> now \<ge> group_params.saleEnd (group_state.params g) then Some ''Sale closed''
      else if now > 0 \<and> now < group_params.start (group_state.params g) then Some ''Sale not open yet''
      else if remaining_units g side \<le> 0 then Some (SIDE_LABEL side @ '' side sold out'')
      else if tc_address C = None then Some ''Connect a wallet to buy''
      else if insufficient (map_option fst (an_data q)) (tc_balance C) then Some ''Insufficient USDC''
      else None)"

definition group_buy_partial :: "(int \<times> int) answer \<Rightarrow> sell_box \<Rightarrow> bool" where
  "group_buy_partial q b =
     (case (an_data q, sell_parsed b) of (Some (_, out), Some p) \<Rightarrow> out < p | _ \<Rightarrow> False)"

definition group_buy_label :: "side \<Rightarrow> string option \<Rightarrow> string" where
  "group_buy_label side blocker = (case blocker of Some t \<Rightarrow> t | None \<Rightarrow> ''Buy '' @ SIDE_LABEL side)"

definition group_buy_toast :: "side \<Rightarrow> swap_result \<Rightarrow> toast" where
  "group_buy_toast side r =
     SuccessToast (if sr_partial r then ''Filled partially'' else SIDE_LABEL side @ '' bought'')
       (map_option (\<lambda>out. fmtUnits out 2 @ '' '' @ SIDE_LABEL side @ '' units for ''
          @ fmtUsdc (or_zero (sr_amountIn r)) 2 @ '' USDC'') (sr_amountOut r))"

definition group_buy_submit ::
    "'w env \<Rightarrow> ('w, swap_result) tx_flow \<Rightarrow> group_state \<Rightarrow> side \<Rightarrow> string option \<Rightarrow> sell_box \<Rightarrow> ('w, swap_result) clicked" where
  "group_buy_submit E F g side blocker b =
     (if \<not> positive (sell_parsed b) \<or> blocker \<noteq> None then no_click F
      else settle_click (run_flow E BUY_GROUP_PLAN (\<lambda>a. runBuyGroup E a (group_request g side b)) (tf_page F))
             any_result (group_buy_toast side) [''chain''] True ''Buy failed'' (tf_error F))"

definition group_buy_items :: "(int \<Rightarrow> string) \<Rightarrow> group_state \<Rightarrow> side \<Rightarrow> (int \<times> int) answer \<Rightarrow> (string \<times> string) list" where
  "group_buy_items fmtDateTime g side q =
     [(''Writer's ask / unit'', priced (askFor g side)),
      (''Premium (on-chain quote)'', quoted_text with_usdc (an_fetching q) (map_option fst (an_data q))),
      (''Max payout / unit'', priced (capPayoutPerUnit (group_state.params g))),
      (''Sale closes'', fmtDateTime (group_params.saleEnd (group_state.params g)))]"

subsection \<open>Selling a side back\<close>

definition group_exit_open :: "group_state \<Rightarrow> int \<Rightarrow> bool" where
  "group_exit_open g now \<longleftrightarrow> now > 0 \<and> \<not> finalized g \<and> now < group_params.expiry (group_state.params g)"

definition exit_funding_shown :: "group_state \<Rightarrow> side \<Rightarrow> sell_box \<Rightarrow> exit_availability option" where
  "exit_funding_shown g side b =
     (if positive (sell_parsed b) then Some (exitAvailability g side (or_zero (sell_parsed b))) else None)"

definition underfunded :: "group_state \<Rightarrow> side \<Rightarrow> sell_box \<Rightarrow> bool" where
  "underfunded g side b = (case exit_funding_shown g side b of None \<Rightarrow> False | Some e \<Rightarrow> available e < needed e)"

definition group_exit_blocker :: "ticket_ctx \<Rightarrow> group_state \<Rightarrow> side \<Rightarrow> int \<Rightarrow> sell_box \<Rightarrow> string option" where
  "group_exit_blocker C g side now b =
     (if \<not> tc_deployed C then Some ''Contracts not deployed''
      else if finalized g then Some (''Finalized '' @ em_dash @ '' redeem instead'')
      else if now > 0 \<and> now \<ge> group_params.expiry (group_state.params g)
        then Some (''Expired '' @ em_dash @ '' finalize, then redeem'')
      else if now > 0 \<and> \<not> groupCanExit g side now then Some ''Nothing outstanding on this side''
      else if tc_address C = None then Some ''Connect a wallet to exit''
      else if tc_balance C = Some 0 then Some (''No '' @ SIDE_LABEL side @ '' receipts held'')
      else if exceeds (sell_parsed b) (tc_balance C) then Some ''Exceeds your balance''
      else None)"

definition group_exit_label :: "string option \<Rightarrow> string" where
  "group_exit_label blocker = (case blocker of Some t \<Rightarrow> t | None \<Rightarrow> ''Sell at the writer's bid'')"

definition group_exit_submit ::
    "'w env \<Rightarrow> ('w, swap_result) tx_flow \<Rightarrow> group_state \<Rightarrow> side \<Rightarrow> string option \<Rightarrow> sell_box \<Rightarrow> ('w, swap_result) clicked" where
  "group_exit_submit E F g side blocker b =
     (if \<not> positive (sell_parsed b) \<or> blocker \<noteq> None then no_click F
      else settle_click (run_flow E EXIT_GROUP_PLAN (\<lambda>a. runExitGroup E a (group_request g side b)) (tf_page F))
             any_result exit_toast [''chain''] True ''Exit failed'' (tf_error F))"

definition group_exit_items ::
    "(int \<Rightarrow> string) \<Rightarrow> group_state \<Rightarrow> side \<Rightarrow> (int \<times> int) answer \<Rightarrow> sell_box \<Rightarrow> (string \<times> string) list" where
  "group_exit_items fmtDateTime g side q b =
     [(''Proceeds (on-chain quote)'', quoted_text with_usdc (an_fetching q) (map_option snd (an_data q))),
      (''Exit buffer'', with_usdc (exitBuffer g)),
      (''Reserve this burn releases'', dash_or (\<lambda>e. with_usdc (available e - exitBuffer g)) (exit_funding_shown g side b)),
      (''Exit closes'', fmtDateTime (group_params.expiry (group_state.params g)))]"

subsection \<open>Redeeming a side\<close>

definition group_redeem_blocker :: "ticket_ctx \<Rightarrow> group_state \<Rightarrow> side \<Rightarrow> sell_box \<Rightarrow> string option" where
  "group_redeem_blocker C g side b =
     (if \<not> tc_deployed C then Some ''Contracts not deployed''
      else if \<not> finalized g then Some ''Not finalized yet''
      else if \<not> groupCanRedeem g side \<and> \<not> groupNeedsWorthlessBurn g side then Some ''Nothing to redeem on this side''
      else if tc_address C = None then Some ''Connect a wallet''
      else if tc_balance C = Some 0 then Some (''No '' @ SIDE_LABEL side @ '' receipts held'')
      else if exceeds (sell_parsed b) (tc_balance C) then Some ''Exceeds your balance''
      else None)"

definition group_redeem_disabled ::
    "bool \<Rightarrow> group_state \<Rightarrow> side \<Rightarrow> string option \<Rightarrow> (int \<times> int) answer \<Rightarrow> sell_box \<Rightarrow> bool" where
  "group_redeem_disabled running g side blocker q b \<longleftrightarrow>
     \<not> positive (sell_parsed b) \<or> blocker \<noteq> None \<or> running \<or> (\<not> groupNeedsWorthlessBurn g side \<and> an_data q = None)"

definition group_redeem_label :: "group_state \<Rightarrow> side \<Rightarrow> string option \<Rightarrow> string" where
  "group_redeem_label g side blocker = (case blocker of Some t \<Rightarrow> t
     | None \<Rightarrow> if groupNeedsWorthlessBurn g side then ''Burn worthless receipts'' else ''Redeem '' @ SIDE_LABEL side)"

text \<open>The handler burns a worthless side and redeems another, each through its own flow.\<close>

definition group_redeem_submit ::
    "'w env \<Rightarrow> ('w, swap_result) tx_flow \<Rightarrow> ('w, string) tx_flow \<Rightarrow> group_state \<Rightarrow> side \<Rightarrow> string option \<Rightarrow> sell_box
       \<Rightarrow> ('w, swap_result) clicked + ('w, string) clicked" where
  "group_redeem_submit E F B g side blocker b =
     (if \<not> positive (sell_parsed b) \<or> blocker \<noteq> None then Inl (no_click F)
      else if groupNeedsWorthlessBurn g side
        then Inr (settle_click
               (run_flow E BURN_WORTHLESS_GROUP_PLAN
                  (\<lambda>a. runBurnWorthlessGroup E a (group_id g) (sideIsHigh side) (or_zero (sell_parsed b))) (tf_page B))
               hash_result (\<lambda>_. SuccessToast ''Receipts burned'' (Some (SIDE_LABEL side @ '' finalized worthless'')))
               [''chain''] True ''Burn failed'' (tf_error B))
      else Inl (settle_click (run_flow E REDEEM_GROUP_PLAN (\<lambda>a. runRedeemGroup E a (group_request g side b)) (tf_page F))
               any_result (\<lambda>r. SuccessToast ''Redeemed'' (received '''' r)) [''chain''] True ''Redeem failed'' (tf_error F)))"

definition payout_estimate :: "group_state \<Rightarrow> side \<Rightarrow> sell_box \<Rightarrow> int option" where
  "payout_estimate g side b =
     (if positive (sell_parsed b) \<and> finalized g then Some (bdiv (or_zero (sell_parsed b) * ppuFor g side) WAD) else None)"

definition group_redeem_value :: "group_state \<Rightarrow> side \<Rightarrow> (int \<times> int) answer \<Rightarrow> sell_box \<Rightarrow> string" where
  "group_redeem_value g side q b =
     (if groupNeedsWorthlessBurn g side then ''0.00''
      else case an_data q of
        Some (_, out) \<Rightarrow> fmtPriceUsdc out 6
      | None \<Rightarrow> if an_fetching q then ellipsis
          else (case payout_estimate g side b of Some v \<Rightarrow> fmtPriceUsdc v 6 | None \<Rightarrow> ''0.00''))"

definition group_redeem_items :: "group_state \<Rightarrow> side \<Rightarrow> (int \<times> int) answer \<Rightarrow> (string \<times> string) list" where
  "group_redeem_items g side q =
     [(''Final variance'', if finalized g then dec_string (group_state.finalVariance g) else ''not yet fixed''),
      (SIDE_LABEL side @ '' payout / unit'', if finalized g then priced (ppuFor g side) else em_dash),
      (''Proceeds (on-chain quote)'',
        if groupNeedsWorthlessBurn g side then ''0 '' @ em_dash @ '' burn'' else dash_or priced (map_option snd (an_data q)))]"

subsection \<open>The accumulator of the group\<close>

record sample_progress =
  sp_stored :: int
  sp_available :: int
  sp_total :: int

definition group_behind :: "sample_progress option \<Rightarrow> int option" where
  "group_behind p = map_option (\<lambda>d. max 0 (sp_available d - sp_stored d)) p"

definition group_can_finalize :: "group_state \<Rightarrow> sample_progress option \<Rightarrow> bool" where
  "group_can_finalize g p \<longleftrightarrow> \<not> finalized g
     \<and> (case p of None \<Rightarrow> False | Some d \<Rightarrow> sp_total d > 0 \<and> sp_stored d \<ge> sp_total d)"

definition group_progress_pct :: "sample_progress option \<Rightarrow> rat" where
  "group_progress_pct p =
     (case p of None \<Rightarrow> 0
      | Some d \<Rightarrow> if sp_total d > 1 then fl (fl (of_int (max 0 (sp_stored d - 1)) / of_int (sp_total d - 1)) * 100) else 0)"

definition group_checkpoint_disabled :: "bool \<Rightarrow> string option \<Rightarrow> sample_progress option \<Rightarrow> bool" where
  "group_checkpoint_disabled running blocker p \<longleftrightarrow>
     blocker \<noteq> None \<or> group_behind p = None \<or> group_behind p = Some 0 \<or> running"

definition group_checkpoint_label :: "string option \<Rightarrow> sample_progress option \<Rightarrow> string" where
  "group_checkpoint_label blocker p = (case blocker of Some t \<Rightarrow> t
     | None \<Rightarrow> (case group_behind p of
           None \<Rightarrow> ''Progress unavailable''
         | Some n \<Rightarrow> if n = 0 then ''Window is current'' else ''Update the window ('' @ dec_string (min n 32) @ '' samples)''))"

definition group_checkpoint_click ::
    "'w env \<Rightarrow> ('w, checkpoint_result) tx_flow \<Rightarrow> group_state \<Rightarrow> ('w, checkpoint_result) clicked" where
  "group_checkpoint_click E F g =
     settle_click (run_flow E CHECKPOINT_PLAN (\<lambda>a. runGroupCheckpoint E a (group_id g) 32) (tf_page F))
       any_result (checkpoint_toast ''Window is current'') [''chain''] False ''Checkpoint failed'' (tf_error F)"

definition group_finalize_disabled :: "bool \<Rightarrow> string option \<Rightarrow> group_state \<Rightarrow> sample_progress option \<Rightarrow> bool" where
  "group_finalize_disabled running blocker g p \<longleftrightarrow> blocker \<noteq> None \<or> \<not> group_can_finalize g p \<or> running"

definition group_finalize_label :: "string option \<Rightarrow> group_state \<Rightarrow> sample_progress option \<Rightarrow> string" where
  "group_finalize_label blocker g p = (case blocker of Some t \<Rightarrow> t
     | None \<Rightarrow> if finalized g then ''Already finalized''
         else if group_can_finalize g p then ''Finalize variance'' else ''Finalize (window incomplete)'')"

definition group_finalize_click :: "'w env \<Rightarrow> ('w, string) tx_flow \<Rightarrow> group_state \<Rightarrow> ('w, string) clicked" where
  "group_finalize_click E F g =
     settle_click (run_flow E FINALIZE_PLAN (\<lambda>a. runGroupFinalize E a (group_id g)) (tf_page F))
       hash_result (\<lambda>_. SuccessToast ''Variance finalized'' (Some ''Both sides' payouts are now fixed''))
       [''chain''] False ''Finalize failed'' (tf_error F)"

definition group_oracle_items ::
    "js_math \<Rightarrow> (int \<Rightarrow> string) \<Rightarrow> group_state \<Rightarrow> sample_progress option \<Rightarrow> js_error + (string \<times> string) list" where
  "group_oracle_items M fmtDateTime g p =
     andThen (if finalized g then vol_text M '''' (group_state.finalVariance g) else Inr ''not yet fixed'') (\<lambda>final. Inr
       [(''Behind'', case group_behind p of None \<Rightarrow> ''unavailable'' | Some n \<Rightarrow> samples_behind n),
        (''Window ends'', fmtDateTime (group_params.expiry (group_state.params g))),
        (if finalized g then ''Final realized vol'' else ''Final variance'', final),
        (''Per call'', ''up to '' @ dec_string 32 @ '' samples'')])"

subsection \<open>The exit buffer\<close>

datatype buffer_action = AllocateBuffer | FundBuffer | WithdrawBuffer

definition is_writer :: "ticket_ctx \<Rightarrow> group_state \<Rightarrow> bool" where
  "is_writer C g = (case tc_address C of None \<Rightarrow> False
     | Some a \<Rightarrow> a \<noteq> '''' \<and> toLowerCase a = toLowerCase (group_state.writer g))"

definition buffer_blocked :: "ticket_ctx \<Rightarrow> bool" where
  "buffer_blocked C \<longleftrightarrow> \<not> tc_deployed C \<or> tc_address C = None"

fun row_disabled :: "ticket_ctx \<Rightarrow> group_state \<Rightarrow> buffer_action \<Rightarrow> bool" where
  "row_disabled C g AllocateBuffer \<longleftrightarrow> buffer_blocked C \<or> \<not> is_writer C g"
| "row_disabled C g FundBuffer \<longleftrightarrow> buffer_blocked C"
| "row_disabled C g WithdrawBuffer \<longleftrightarrow> buffer_blocked C \<or> \<not> is_writer C g \<or> exitBuffer g = 0"

fun row_reason :: "ticket_ctx \<Rightarrow> group_state \<Rightarrow> buffer_action \<Rightarrow> string option" where
  "row_reason C g AllocateBuffer =
     (if tc_address C = None then Some ''Connect a wallet''
      else if \<not> is_writer C g then Some ''Only the writer can allocate from the vault'' else None)"
| "row_reason C g FundBuffer = (if tc_address C = None then Some ''Connect a wallet'' else None)"
| "row_reason C g WithdrawBuffer =
     (if tc_address C = None then Some ''Connect a wallet''
      else if \<not> is_writer C g then Some ''Only the writer can withdraw''
      else if exitBuffer g = 0 then Some ''Nothing funded'' else None)"

fun buffer_flow :: "'w env \<Rightarrow> group_state \<Rightarrow> buffer_action \<Rightarrow> int \<Rightarrow> address \<Rightarrow> ('w, string) flow" where
  "buffer_flow E g AllocateBuffer n a = runAllocateExitBuffer E a (group_id g) (group_state.vault_of g) n"
| "buffer_flow E g FundBuffer n a = runFundExitBuffer E a (group_id g) n"
| "buffer_flow E g WithdrawBuffer n a = runWithdrawExitBuffer E a (group_id g) n"

fun buffer_plan :: "buffer_action \<Rightarrow> step_plan list" where
  "buffer_plan AllocateBuffer = ALLOCATE_EXIT_BUFFER_PLAN"
| "buffer_plan FundBuffer = FUND_EXIT_BUFFER_PLAN"
| "buffer_plan WithdrawBuffer = WITHDRAW_EXIT_BUFFER_PLAN"

fun buffer_titles :: "buffer_action \<Rightarrow> string \<times> string" where
  "buffer_titles AllocateBuffer = (''Exit buffer allocated'', ''Allocate failed'')"
| "buffer_titles FundBuffer = (''Exit buffer funded'', ''Fund failed'')"
| "buffer_titles WithdrawBuffer = (''Exit buffer withdrawn'', ''Withdraw failed'')"

text \<open>A row reads its input without a delay; its button is disabled while the amount is not valid.\<close>

definition buffer_click ::
    "'w env \<Rightarrow> ('w, string) tx_flow \<Rightarrow> ticket_ctx \<Rightarrow> group_state \<Rightarrow> buffer_action \<Rightarrow> string \<Rightarrow> ('w, string) clicked" where
  "buffer_click E F C g act text =
     (let p = typed 6 text in
      if \<not> positive p \<or> row_disabled C g act \<or> tf_running F then no_click F
      else settle_click (run_flow E (buffer_plan act) (buffer_flow E g act (or_zero p)) (tf_page F))
             hash_result (\<lambda>_. SuccessToast (fst (buffer_titles act)) None) [''chain''] False (snd (buffer_titles act)) (tf_error F))"

subsection \<open>The tabs\<close>

definition kindsFor :: "group_state \<Rightarrow> int \<Rightarrow> ticket_side list" where
  "kindsFor g now =
     (if now = 0 then [BuySide]
      else
        let kinds = (if groupCanBuy g now then [BuySide] else [])
              @ (if groupCanExit g High now \<or> groupCanExit g Calm now then [ExitSide] else [])
              @ (if groupCanRedeem g High \<or> groupCanRedeem g Calm \<or> groupNeedsWorthlessBurn g High \<or> groupNeedsWorthlessBurn g Calm
                 then [RedeemSide] else [])
              @ (if \<not> finalized g \<and> now \<ge> group_params.saleEnd (group_state.params g) then [OracleSide] else [])
        in if kinds = [] then [if finalized g then RedeemSide else BuySide] else kinds)"

text \<open>\<open>(Number(xWad) / 1e16).toFixed(2)\<close> for the high side, a hundred less that for the other.\<close>

definition cap_share :: "group_state \<Rightarrow> side \<Rightarrow> string" where
  "cap_share g side =
     (let x = fl (js_Number (xWad g) / 10 ^ 16) in to_fixed 2 (if side = High then x else fl (100 - x)) @ ''% of cap'')"

subsection \<open>What the tickets promise\<close>

lemma kinds_offered:
  assumes "0 < now"
  shows "groupCanBuy g now \<Longrightarrow> BuySide \<in> set (kindsFor g now)"
    "groupCanExit g side now \<Longrightarrow> ExitSide \<in> set (kindsFor g now)"
    "groupCanRedeem g side \<or> groupNeedsWorthlessBurn g side \<Longrightarrow> RedeemSide \<in> set (kindsFor g now)"
  using assms by (cases side; auto simp: kindsFor_def Let_def)+

lemma oracle_offered:
  "0 < now \<Longrightarrow> OracleSide \<in> set (kindsFor g now) \<longleftrightarrow> \<not> finalized g \<and> group_params.saleEnd (group_state.params g) \<le> now"
  by (auto simp: kindsFor_def Let_def)

lemma checkpoint_allowed:
  "\<not> group_checkpoint_disabled r k p \<Longrightarrow> (\<exists>d. p = Some d \<and> sp_stored d < sp_available d)"
  by (auto simp: group_checkpoint_disabled_def group_behind_def)

lemma kinds_refused:
  assumes "0 < now" "finalized g"
  shows "set (kindsFor g now) = {RedeemSide}"
  using assms by (auto simp: kindsFor_def Let_def groupCanBuy_def groupCanExit_def)

text \<open>C30: on a paired market too, once the clock has been read (until then the rail shows the Buy tab alone) and for a
  group whose sale ends by its expiry and whose accumulator has all its samples only from the expiry on: the
  tickets that buy, exit, redeem and finalize allow only what the group allows, and their tab is in the rail; a
  side that is sold out is not for sale; and once the group is finalized the redemption is the only tab. The
  Oracle tab is in the rail exactly from the end of the sale to the finalization, so that the checkpoint, which
  its ticket allows whenever samples are behind, is offered from then on and is not while the sale lasts.\<close>

theorem group_tickets_match_tabs:
  assumes "0 < now" "group_params.saleEnd (group_state.params g) \<le> group_params.expiry (group_state.params g)"
    and "group_can_finalize g p \<Longrightarrow> group_params.expiry (group_state.params g) \<le> now"
  shows "(group_buy_blocker C g side now q = None \<longrightarrow>
        groupCanBuy g now \<and> outstandingFor g side < maxUnitsPerSide (group_state.params g) \<and> BuySide \<in> set (kindsFor g now))
    \<and> (group_exit_blocker C g side now b = None \<longrightarrow> groupCanExit g side now \<and> ExitSide \<in> set (kindsFor g now))
    \<and> (group_redeem_blocker C g side b = None \<longrightarrow>
        (groupCanRedeem g side \<or> groupNeedsWorthlessBurn g side) \<and> RedeemSide \<in> set (kindsFor g now))
    \<and> (\<not> group_finalize_disabled r k g p \<longrightarrow> group_can_finalize g p \<and> OracleSide \<in> set (kindsFor g now))
    \<and> (\<not> group_checkpoint_disabled r k p \<longrightarrow> (\<exists>d. p = Some d \<and> sp_stored d < sp_available d)
        \<and> (OracleSide \<in> set (kindsFor g now) \<longleftrightarrow> \<not> finalized g \<and> group_params.saleEnd (group_state.params g) \<le> now))
    \<and> (OracleSide \<in> set (kindsFor g now) \<longleftrightarrow> \<not> finalized g \<and> group_params.saleEnd (group_state.params g) \<le> now)
    \<and> (finalized g \<longrightarrow> set (kindsFor g now) = {RedeemSide})
    \<and> side_shown chosen (kindsFor g now) \<in> set (kindsFor g now)"
proof (intro conjI impI)
  assume b: "group_buy_blocker C g side now q = None"
  show can: "groupCanBuy g now" and "outstandingFor g side < maxUnitsPerSide (group_state.params g)"
    using b assms(1) by (auto simp: group_buy_blocker_def groupCanBuy_def remaining_units_def split: if_splits)
  show "BuySide \<in> set (kindsFor g now)" by (rule kinds_offered(1) [OF assms(1) can])
next
  assume b: "group_exit_blocker C g side now b = None"
  show can: "groupCanExit g side now"
    using b assms(1) by (auto simp: group_exit_blocker_def split: if_splits)
  show "ExitSide \<in> set (kindsFor g now)" by (rule kinds_offered(2) [OF assms(1) can])
next
  assume b: "group_redeem_blocker C g side b = None"
  show can: "groupCanRedeem g side \<or> groupNeedsWorthlessBurn g side"
    using b by (auto simp: group_redeem_blocker_def split: if_splits)
  show "RedeemSide \<in> set (kindsFor g now)" by (rule kinds_offered(3) [OF assms(1) can])
next
  assume "\<not> group_finalize_disabled r k g p"
  then show can: "group_can_finalize g p" by (simp add: group_finalize_disabled_def)
  then show "OracleSide \<in> set (kindsFor g now)"
    using assms(2) assms(3) oracle_offered [OF assms(1), of g] by (auto simp: group_can_finalize_def)
next
  assume "\<not> group_checkpoint_disabled r k p"
  then show "\<exists>d. p = Some d \<and> sp_stored d < sp_available d" by (rule checkpoint_allowed)
next
  show "OracleSide \<in> set (kindsFor g now) \<longleftrightarrow> \<not> finalized g \<and> group_params.saleEnd (group_state.params g) \<le> now"
    by (rule oracle_offered [OF assms(1)])
  then show "OracleSide \<in> set (kindsFor g now) \<longleftrightarrow> \<not> finalized g \<and> group_params.saleEnd (group_state.params g) \<le> now" .
next
  assume "finalized g"
  then show "set (kindsFor g now) = {RedeemSide}" by (rule kinds_refused [OF assms(1)])
next
  have "kindsFor g now \<noteq> []" by (simp add: kindsFor_def Let_def)
  then show "side_shown chosen (kindsFor g now) \<in> set (kindsFor g now)" by (simp add: side_shown_def split: option.splits)
qed

theorem group_tickets_match_tabs_witness: "BuySide \<in> set (kindsFor demo_group 1000)"
proof -
  have "group_buy_blocker \<lparr>tc_deployed = True, tc_address = Some ''0xholder'', tc_balance = None\<rparr> demo_group Calm 1000
      \<lparr>an_data = None, an_fetching = False, an_failed = False\<rparr> = None"
    by (simp add: demo_group_def group_buy_blocker_def remaining_units_def outstandingFor_def insufficient_def)
  then show ?thesis
    using group_tickets_match_tabs [of 1000 demo_group None] by (simp add: demo_group_def group_can_finalize_def)
qed

text \<open>A group in its sale with samples behind: the ticket would allow the checkpoint, and no tab leads to it.\<close>

lemma checkpoint_hidden_during_sale:
  "\<not> group_checkpoint_disabled False None (Some \<lparr>sp_stored = 1, sp_available = 4, sp_total = 24\<rparr>)
   \<and> OracleSide \<notin> set (kindsFor demo_group 1000)"
  by code_simp

end
