(* ===== verification/Web_Positions.thy ===== *)
theory Web_Positions
  imports Web_Group_Tickets
begin

text \<open>
  The portfolio page (\<open>web/src/components/portfolio/PortfolioView.tsx\<close>): the receipts a wallet holds over
  both kinds of market, what the tiles and the rows make of them, the one-click buttons, and the card of the
  maker vault with its deposit and its withdrawal.
\<close>

subsection \<open>Balances\<close>

text \<open>The map of \<open>useReceiptBalances\<close>: of two receipts with one lower-case address the later is kept.\<close>

definition balance_map :: "address list \<Rightarrow> int list \<Rightarrow> string \<Rightarrow> int option" where
  "balance_map receipts bals = map_of (rev (zip (map toLowerCase receipts) bals))"

definition units_held :: "(string \<Rightarrow> int option) \<Rightarrow> address \<Rightarrow> int" where
  "units_held bals receipt = or_zero (bals (toLowerCase receipt))"

definition allReceiptTokens :: "series_state list option \<Rightarrow> group_state list option \<Rightarrow> address list" where
  "allReceiptTokens data groups =
     map receipt_of (case data of None \<Rightarrow> [] | Some l \<Rightarrow> l)
     @ concat (map (\<lambda>g. [highReceipt g, calmReceipt g]) (case groups of None \<Rightarrow> [] | Some l \<Rightarrow> l))"

subsection \<open>Positions\<close>

record position =
  po_seriesId :: int
  po_indexedCost :: int
  po_costBasisKnown :: bool

record held =
  hd_series :: series_state
  hd_units :: int
  hd_position :: "position option"

record held_group =
  hg_group :: group_state
  hg_side :: side
  hg_units :: int

definition heldSeries ::
    "series_state list option \<Rightarrow> (string \<Rightarrow> int option) option \<Rightarrow> position list option \<Rightarrow> held list" where
  "heldSeries data balances positions =
     (case (data, balances) of
        (Some l, Some b) \<Rightarrow>
          let byId = map_of (rev (map (\<lambda>p. (dec_string (po_seriesId p), p)) (case positions of None \<Rightarrow> [] | Some ps \<Rightarrow> ps))) in
          filter (\<lambda>x. hd_units x > 0)
            (map (\<lambda>s. \<lparr>hd_series = s, hd_units = units_held b (receipt_of s), hd_position = byId (dec_string (id_of s))\<rparr>) l)
      | _ \<Rightarrow> [])"

definition heldGroups :: "group_state list option \<Rightarrow> (string \<Rightarrow> int option) option \<Rightarrow> held_group list" where
  "heldGroups groups balances =
     (case (groups, balances) of
        (Some l, Some b) \<Rightarrow>
          concat (map (\<lambda>g.
            (if units_held b (highReceipt g) > 0 then [\<lparr>hg_group = g, hg_side = High, hg_units = units_held b (highReceipt g)\<rparr>] else [])
            @ (if units_held b (calmReceipt g) > 0 then [\<lparr>hg_group = g, hg_side = Calm, hg_units = units_held b (calmReceipt g)\<rparr>] else [])) l)
      | _ \<Rightarrow> [])"

definition writtenSeries :: "series_state list option \<Rightarrow> address option \<Rightarrow> series_state list" where
  "writtenSeries data who =
     filter (\<lambda>s. Some (toLowerCase (series_state.writer s)) = map_option toLowerCase who) (case data of None \<Rightarrow> [] | Some l \<Rightarrow> l)"

definition writtenGroups :: "group_state list option \<Rightarrow> address option \<Rightarrow> group_state list" where
  "writtenGroups groups who =
     filter (\<lambda>g. Some (toLowerCase (group_state.writer g)) = map_option toLowerCase who) (case groups of None \<Rightarrow> [] | Some l \<Rightarrow> l)"

subsection \<open>Tiles and rows\<close>

definition unitsTotal :: "held list \<Rightarrow> held_group list \<Rightarrow> int" where
  "unitsTotal hs gs = sum_list (map hd_units hs) + sum_list (map hg_units gs)"

definition redeemableTotal :: "held list \<Rightarrow> held_group list \<Rightarrow> int" where
  "redeemableTotal hs gs =
     sum_list (map (\<lambda>x. if isFinalized (hd_series x) then payoutFor (hd_units x) (payout_per_unit (hd_series x)) else 0) hs)
     + sum_list (map (\<lambda>x. if finalized (hg_group x) then groupSettleProceeds (hg_units x) (ppuFor (hg_group x) (hg_side x)) else 0) gs)"

definition exitTotal :: "int \<Rightarrow> held list \<Rightarrow> held_group list \<Rightarrow> int" where
  "exitTotal now hs gs =
     sum_list (map (\<lambda>x. if canExit (hd_series x) then payoutFor (hd_units x) (q_bidPerUnit (quote_of (hd_series x))) else 0) hs)
     + sum_list (map (\<lambda>x. if groupCanExit (hg_group x) (hg_side x) now
           then groupExitProceeds (hg_units x) (bidFor (hg_group x) (hg_side x)) else 0) gs)"

definition indexedCost :: "held list \<Rightarrow> int" where
  "indexedCost hs = sum_list (map (\<lambda>x. case hd_position x of None \<Rightarrow> 0 | Some p \<Rightarrow> if po_costBasisKnown p then po_indexedCost p else 0) hs)"

definition costKnown :: "held list \<Rightarrow> bool" where
  "costKnown hs = list_ex (\<lambda>x. case hd_position x of None \<Rightarrow> False | Some p \<Rightarrow> po_costBasisKnown p) hs"

definition reservedTotal :: "series_state list \<Rightarrow> group_state list \<Rightarrow> int" where
  "reservedTotal ws wg = sum_list (map lockedLiability ws) + sum_list (map reserveLocked wg)"

definition series_value :: "held \<Rightarrow> int" where
  "series_value x =
     (let s = hd_series x in
      if isFinalized s then payoutFor (hd_units x) (payout_per_unit s)
      else if canExit s then payoutFor (hd_units x) (q_bidPerUnit (quote_of s)) else 0)"

definition group_value :: "int \<Rightarrow> held_group \<Rightarrow> int" where
  "group_value now x =
     (let g = hg_group x; side = hg_side x in
      if finalized g then groupSettleProceeds (hg_units x) (ppuFor g side)
      else if groupCanExit g side now then groupExitProceeds (hg_units x) (bidFor g side) else 0)"

definition value_cell :: "int \<Rightarrow> string" where
  "value_cell v = (if v > 0 then priced v else em_dash)"

definition cost_line :: "held list \<Rightarrow> string" where
  "cost_line hs =
     (if costKnown hs then ''Indexed cost across series positions with a known entry: '' @ fmtUsdc (indexedCost hs) 2 @ '' USDC.''
      else ''Series positions arrived via on-chain mint or transfer.'')"

definition standalone_shown :: "group_state \<Rightarrow> int" where
  "standalone_shown g =
     (if standaloneCaps g > 0 then standaloneCaps g
      else standaloneCapsFor (highOutstanding g) (calmOutstanding g) (capPayoutPerUnit (group_state.params g)))"

subsection \<open>One-click buttons\<close>

datatype row_action = LinkTo string | PressButton string bool

definition redeem_button :: "bool \<Rightarrow> series_state \<Rightarrow> int \<Rightarrow> row_action" where
  "redeem_button running s units =
     (let worthless = needsWorthlessBurn s; enabled = (units > 0 \<and> (worthless \<or> canRedeem s)) in
      if \<not> enabled \<and> canExit s then LinkTo ''Exit''
      else PressButton (if worthless then ''Burn'' else if enabled then ''Redeem''
             else if isFinalized s then ''Redeemed'' else ''Not yet'') (enabled \<and> \<not> running))"

definition redeem_press ::
    "'w env \<Rightarrow> ('w, swap_result) tx_flow \<Rightarrow> ('w, string) tx_flow \<Rightarrow> series_state \<Rightarrow> int
       \<Rightarrow> ('w, swap_result) clicked + ('w, string) clicked" where
  "redeem_press E F B s units =
     (if needsWorthlessBurn s
      then Inr (settle_click (run_flow E BURN_WORTHLESS_PLAN (\<lambda>a. runBurnWorthless E a (id_of s) units) (tf_page B))
             hash_result (\<lambda>_. SuccessToast ''Receipts burned'' (Some ''This series finalized at zero realized variance.''))
             [''chain''] False ''Burn failed'' (tf_error B))
      else Inl (settle_click
             (run_flow E REDEEM_PLAN (\<lambda>a. runRedeem E a \<lparr>ep_state = s, ep_units = units, ep_slippageBps = 100\<rparr>) (tf_page F))
             any_result (\<lambda>r. SuccessToast ''Redeemed'' (received '''' r)) [''chain''] False ''Redeem failed'' (tf_error F)))"

definition redeem_group_button :: "bool \<Rightarrow> group_state \<Rightarrow> side \<Rightarrow> int \<Rightarrow> row_action" where
  "redeem_group_button running g side units =
     (let worthless = groupNeedsWorthlessBurn g side; enabled = (units > 0 \<and> (worthless \<or> groupCanRedeem g side)) in
      if \<not> enabled then LinkTo ''View'' else PressButton (if worthless then ''Burn'' else ''Redeem'') (\<not> running))"

definition redeem_group_press ::
    "'w env \<Rightarrow> ('w, swap_result) tx_flow \<Rightarrow> ('w, string) tx_flow \<Rightarrow> group_state \<Rightarrow> side \<Rightarrow> int
       \<Rightarrow> ('w, swap_result) clicked + ('w, string) clicked" where
  "redeem_group_press E F B g side units =
     (if groupNeedsWorthlessBurn g side
      then Inr (settle_click
             (run_flow E BURN_WORTHLESS_GROUP_PLAN (\<lambda>a. runBurnWorthlessGroup E a (group_id g) (side = High) units) (tf_page B))
             hash_result (\<lambda>_. SuccessToast ''Receipts burned'' (Some (SIDE_LABEL side @ '' finalized worthless'')))
             [''chain''] False ''Burn failed'' (tf_error B))
      else Inl (settle_click
             (run_flow E REDEEM_GROUP_PLAN
                (\<lambda>a. runRedeemGroup E a \<lparr>gt_group = g, gt_side = side, gt_units = units, gt_slippageBps = 100\<rparr>) (tf_page F))
             any_result (\<lambda>r. SuccessToast ''Redeemed'' (received '''' r)) [''chain''] False ''Redeem failed'' (tf_error F)))"

text \<open>\<open>confirmed\<close> is the answer to the confirmation the button asks for.\<close>

definition stop_button :: "series_state \<Rightarrow> bool" where "stop_button s = leg_issuanceOpen (legs s)"

definition stop_question :: "series_state \<Rightarrow> string" where
  "stop_question s = ''Stop issuance for series #'' @ dec_string (id_of s)
     @ ''? This cannot be undone. Exit and redemption stay open for the '' @ fmtUnits (unitsOutstanding s) 2 @ '' units already sold.''"

definition stop_press :: "'w env \<Rightarrow> ('w, string) tx_flow \<Rightarrow> bool \<Rightarrow> series_state \<Rightarrow> ('w, string) clicked" where
  "stop_press E F confirmed s =
     (if \<not> confirmed then no_click F
      else settle_click (run_flow E STOP_ISSUANCE_PLAN (\<lambda>a. runStopIssuance E a (id_of s)) (tf_page F))
             hash_result (\<lambda>_. SuccessToast ''Issuance stopped'' (Some ''Exit and redemption remain open.''))
             [''chain''] False ''Stop failed'' (tf_error F))"

definition close_button :: "bool \<Rightarrow> series_state \<Rightarrow> row_action option" where
  "close_button running s = (if status_of s = Closed then None else Some (PressButton ''Close'' (canClose s \<and> \<not> running)))"

definition close_title :: "series_state \<Rightarrow> string" where
  "close_title s =
     (if canClose s then ''Docks the strategies, burns unsold inventory and frees the residual collateral''
      else fmtUnits (unitsOutstanding s) 2 @ '' units are still outstanding; they have to be exited or redeemed first'')"

definition close_press :: "'w env \<Rightarrow> ('w, string) tx_flow \<Rightarrow> series_state \<Rightarrow> ('w, string) clicked" where
  "close_press E F s =
     settle_click (run_flow E CLOSE_SERIES_PLAN (\<lambda>a. runCloseSeries E a (id_of s)) (tf_page F))
       hash_result (\<lambda>_. SuccessToast ''Series closed'' (Some ''The residual collateral is free to withdraw.''))
       [''chain''] False ''Close failed'' (tf_error F)"

subsection \<open>The maker vault\<close>

text \<open>\<open>/^0x0{40}$/i\<close>.\<close>

definition null_address :: "address \<Rightarrow> bool" where
  "null_address a \<longleftrightarrow> map lower_char (take 2 a) = ''0x'' \<and> drop 2 a = replicate 40 (CHR ''0'')"

record active_vault =
  av_vault :: address
  av_isPortfolio :: bool
  av_state :: vault_state

text \<open>
  The vault shown: that of the portfolio market once its balances are read, else that of the series
  factory if it exists. The allowance of the former is not read; \<open>~0n\<close> stands for it, which is minus one.
\<close>

definition activeVault ::
    "address \<Rightarrow> address option \<Rightarrow> (int \<times> int \<times> int) option \<Rightarrow> (address \<times> bool \<times> vault_state) option \<Rightarrow> active_vault option" where
  "activeVault who pVault pBalances v2 =
     (case (case pVault of None \<Rightarrow> None | Some a \<Rightarrow> if a = '''' \<or> null_address a then None else Some a, pBalances) of
        (Some a, Some (bal, locked, free)) \<Rightarrow>
          Some \<lparr>av_vault = a, av_isPortfolio = True,
            av_state = \<lparr>vs_vault = a, vs_owner = who, vs_balance = bal, vs_locked = locked, vs_free = free,
              aquaAllowance = - 1, allowanceSufficient = True\<rparr>\<rparr>
      | _ \<Rightarrow> (case v2 of
            Some (a, True, st) \<Rightarrow> Some \<lparr>av_vault = a, av_isPortfolio = False, av_state = st\<rparr>
          | _ \<Rightarrow> None))"

definition infinity_sign :: string where "infinity_sign = [CHR 0xE2, CHR 0x88, CHR 0x9E]"

definition fmtAllowance :: "int \<Rightarrow> string" where
  "fmtAllowance v = (if isUnlimitedAllowance v then infinity_sign @ '' unlimited''
     else formatFixed v 6 (fmt_default\<lparr>maxFrac := 0\<rparr>) @ '' USDC'')"

definition vault_error :: "string \<Rightarrow> string option" where
  "vault_error amount =
     (let p = typed 6 amount in
      if trim amount \<noteq> '''' \<and> p = None then Some ''Enter an amount in USDC''
      else case p of None \<Rightarrow> None | Some v \<Rightarrow> if v \<le> 0 then Some ''Enter an amount above zero'' else None)"

definition deposit_enabled :: "bool \<Rightarrow> string \<Rightarrow> bool" where
  "deposit_enabled busy amount \<longleftrightarrow> \<not> busy \<and> positive (typed 6 amount)"

definition withdraw_enabled :: "bool \<Rightarrow> vault_state \<Rightarrow> string \<Rightarrow> bool" where
  "withdraw_enabled busy v amount \<longleftrightarrow> \<not> busy \<and> positive (typed 6 amount) \<and> \<not> or_zero (typed 6 amount) > vs_free v"

definition deposit_press :: "'w env \<Rightarrow> ('w, string) tx_flow \<Rightarrow> active_vault \<Rightarrow> string \<Rightarrow> ('w, string) clicked" where
  "deposit_press E F v amount =
     (let n = or_zero (typed 6 amount) in
      settle_click (run_flow E DEPOSIT_PLAN (\<lambda>a. runDeposit E a (av_vault v) n) (tf_page F))
        hash_result (\<lambda>_. SuccessToast ''Vault funded'' (Some (fmtUsdc n 2 @ '' USDC deposited.'')))
        [''chain''] True ''Deposit failed'' (tf_error F))"

definition withdraw_press :: "'w env \<Rightarrow> ('w, string) tx_flow \<Rightarrow> active_vault \<Rightarrow> address \<Rightarrow> string \<Rightarrow> ('w, string) clicked" where
  "withdraw_press E F v who amount =
     (let n = or_zero (typed 6 amount) in
      settle_click (run_flow E WITHDRAW_FREE_PLAN (\<lambda>a. runWithdrawFree E a (av_vault v) n who) (tf_page F))
        hash_result (\<lambda>_. SuccessToast ''Withdrawn'' (Some (fmtUsdc n 2 @ '' USDC returned to your wallet.'')))
        [''chain''] True ''Withdrawal failed'' (tf_error F))"

subsection \<open>What the page promises\<close>

lemma sum_positive: "(\<And>x. x \<in> set xs \<Longrightarrow> 0 \<le> f x) \<Longrightarrow> sum_list (map f (filter (\<lambda>x. f x > 0) xs)) = sum_list (map f xs)" for f :: "'a \<Rightarrow> int"
  by (induction xs) (auto simp: order.antisym)

lemma held_units:
  assumes "\<And>r. 0 \<le> units_held b r"
  shows "sum_list (map hd_units (heldSeries (Some l) (Some b) ps)) = sum_list (map (\<lambda>s. units_held b (receipt_of s)) l)"
    "sum_list (map hg_units (heldGroups (Some gs) (Some b))) = sum_list (map (\<lambda>g. units_held b (highReceipt g) + units_held b (calmReceipt g)) gs)"
proof -
  show "sum_list (map hd_units (heldSeries (Some l) (Some b) ps)) = sum_list (map (\<lambda>s. units_held b (receipt_of s)) l)"
    unfolding heldSeries_def option.case prod.case Let_def
    by (subst sum_positive) (auto simp: assms comp_def)
  show "sum_list (map hg_units (heldGroups (Some gs) (Some b))) = sum_list (map (\<lambda>g. units_held b (highReceipt g) + units_held b (calmReceipt g)) gs)"
  proof (induction gs)
    case (Cons g gs)
    have "x + y = (if 0 < x then x else 0) + (if 0 < y then y else 0)" if "0 \<le> x" "0 \<le> y" for x y :: int using that by auto
    then show ?case using Cons assms by (auto simp: heldGroups_def order.antisym)
  qed (simp add: heldGroups_def)
qed

lemma map_of_rev_distinct: "distinct (map fst xs) \<Longrightarrow> map_of (rev xs) = map_of xs"
proof (induction xs)
  case (Cons x xs)
  then have "map_of xs (fst x) = None" by (simp add: map_of_eq_None_iff)
  then show ?case using Cons by (cases x) (auto simp: map_add_def fun_eq_iff split: option.splits)
qed simp

lemma balance_lookup:
  assumes "distinct (map toLowerCase rs)" "length bals = length rs"
  shows "map (units_held (balance_map rs bals)) rs = bals"
proof -
  have m: "balance_map rs bals = map_of (zip (map toLowerCase rs) bals)"
    unfolding balance_map_def using assms by (intro map_of_rev_distinct) (simp add: map_fst_zip)
  have "units_held (balance_map rs bals) (rs ! i) = bals ! i" if "i < length rs" for i
    using map_of_zip_nth [of "map toLowerCase rs" bals i] that assms by (simp add: m units_held_def or_zero_def)
  then show ?thesis using assms(2) by (intro nth_equalityI) simp_all
qed

lemma tokens_sum:
  "sum_list (map f (allReceiptTokens (Some l) (Some gs)))
    = sum_list (map (\<lambda>s. f (receipt_of s)) l) + sum_list (map (\<lambda>g. f (highReceipt g) + f (calmReceipt g)) gs)"
  for f :: "address \<Rightarrow> int"
proof -
  have "sum_list (map f (concat (map (\<lambda>g. [highReceipt g, calmReceipt g]) gs))) = sum_list (map (\<lambda>g. f (highReceipt g) + f (calmReceipt g)) gs)"
    by (induction gs) simp_all
  then show ?thesis by (simp add: allReceiptTokens_def comp_def)
qed

text \<open>C31: no receipt is lost and none is counted twice: when every receipt has an address of its own, the units of the
  positions shown, over both kinds of market, add up to the balances read.\<close>

theorem every_balance_is_a_position:
  assumes "distinct (map toLowerCase (allReceiptTokens (Some l) (Some gs)))"
    and "length bals = length (allReceiptTokens (Some l) (Some gs))" "\<forall>n\<in>set bals. 0 \<le> n"
  shows "let b = Some (balance_map (allReceiptTokens (Some l) (Some gs)) bals) in
    unitsTotal (heldSeries (Some l) b ps) (heldGroups (Some gs) b) = sum_list bals"
proof -
  let ?rs = "allReceiptTokens (Some l) (Some gs)"
  let ?b = "balance_map ?rs bals"
  note look = balance_lookup [OF assms(1,2)]
  have nonneg: "0 \<le> units_held ?b r" for r
    unfolding units_held_def or_zero_def balance_map_def
    by (auto split: option.splits dest!: map_of_SomeD set_zip_rightD simp: assms(3))
  have "sum_list bals = sum_list (map (units_held ?b) ?rs)" by (simp add: look)
  also have "\<dots> = sum_list (map (\<lambda>s. units_held ?b (receipt_of s)) l)
      + sum_list (map (\<lambda>g. units_held ?b (highReceipt g) + units_held ?b (calmReceipt g)) gs)"
    by (rule tokens_sum)
  finally show ?thesis unfolding Let_def unitsTotal_def held_units [OF nonneg] by simp
qed

text \<open>The value column adds up to the two tiles: every position is worth its redemption or its exit, never both.\<close>

theorem value_column_is_the_tiles:
  assumes "\<forall>x\<in>set hs. isFinalized (hd_series x) \<longrightarrow> \<not> leg_exitOpen (legs (hd_series x))"
  shows "sum_list (map series_value hs) + sum_list (map (group_value now) gs) = redeemableTotal hs gs + exitTotal now hs gs"
proof -
  have "sum_list (map series_value hs)
      = sum_list (map (\<lambda>x. if isFinalized (hd_series x) then payoutFor (hd_units x) (payout_per_unit (hd_series x)) else 0) hs)
      + sum_list (map (\<lambda>x. if canExit (hd_series x) then payoutFor (hd_units x) (q_bidPerUnit (quote_of (hd_series x))) else 0) hs)"
    using assms by (induction hs) (auto simp: series_value_def Let_def canExit_def)
  moreover have "sum_list (map (group_value now) gs)
      = sum_list (map (\<lambda>x. if finalized (hg_group x) then groupSettleProceeds (hg_units x) (ppuFor (hg_group x) (hg_side x)) else 0) gs)
      + sum_list (map (\<lambda>x. if groupCanExit (hg_group x) (hg_side x) now
           then groupExitProceeds (hg_units x) (bidFor (hg_group x) (hg_side x)) else 0) gs)"
    by (induction gs) (auto simp: group_value_def Let_def groupCanExit_def)
  ultimately show ?thesis unfolding redeemableTotal_def exitTotal_def by linarith
qed

text \<open>The unlimited allowance of a portfolio vault is shown as a negative zero.\<close>

lemma market_vault_allowance:
  assumes "activeVault who (Some a) (Some bals) v2 = Some v" "a \<noteq> ''''" "\<not> null_address a"
  shows "fmtAllowance (aquaAllowance (av_state v)) = ''-0 USDC''"
proof -
  have "aquaAllowance (av_state v) = - 1" using assms by (auto simp: activeVault_def split: prod.splits)
  then show ?thesis by simp code_simp
qed

text \<open>A withdrawal that succeeds is of the amount typed, positive and within the free collateral, and is one
  transaction of the vault shown, to the writer.\<close>

theorem withdrawal_is_what_was_typed:
  assumes "withdraw_enabled busy (av_state v) amount" "ck_clears (withdraw_press (logged E) F v who amount)"
    and "pg_world (tf_page F) = (w, [])"
  shows "\<exists>n. typed 6 amount = Some n \<and> 0 < n \<and> n \<le> vs_free (av_state v)
    \<and> map fst (snd (pg_world (tf_page (ck_flow (withdraw_press (logged E) F v who amount))))) = [WithdrawFree (av_vault v) n who]"
proof -
  obtain n where n: "typed 6 amount = Some n" "0 < n" "n \<le> vs_free (av_state v)"
    using assms(1) by (auto simp: withdraw_enabled_def positive_def or_zero_def split: option.splits)
  let ?R = "run_flow (logged E) WITHDRAW_FREE_PLAN (\<lambda>a. runWithdrawFree (logged E) a (av_vault v) n who) (tf_page F)"
  have e: "withdraw_press (logged E) F v who amount = settle_click ?R hash_result
      (\<lambda>_. SuccessToast ''Withdrawn'' (Some (fmtUsdc n 2 @ '' USDC returned to your wallet.'')))
      [''chain''] True ''Withdrawal failed'' (tf_error F)"
    using n(1) by (simp add: withdraw_press_def or_zero_def)
  obtain r where r: "tf_result ?R = Some r" "ck_flow (withdraw_press (logged E) F v who amount) = ?R"
    using click_cleared [OF assms(2) [unfolded e]] e by (metis clicked.select_convs(1))
  obtain a s1 where s1: "runWithdrawFree (logged E) a (av_vault v) n who s1 = (Inr r, tf_page ?R)" "snd (pg_world s1) = []"
    using log.run_starts [OF r(1)] assms(3) by auto
  then obtain rc where "send (logged E) a ''withdraw'' (WithdrawFree (av_vault v) n who) s1 = (Inr rc, tf_page ?R)"
    using n(2) by (auto simp: runWithdrawFree_def returned_simps)
  from log.send_submits [OF this] show ?thesis using n s1(2) r(2) by auto
qed

theorem every_balance_is_a_position_witness:
  "let b = Some (balance_map [''0x05'', ''0x06''] [3, 8]) in unitsTotal (heldSeries (Some []) b None) (heldGroups (Some [demo_group]) b) = 11"
proof -
  have t: "allReceiptTokens (Some []) (Some [demo_group]) = [''0x05'', ''0x06'']"
    by (simp add: allReceiptTokens_def demo_group_def)
  have "distinct (map toLowerCase [''0x05'', ''0x06''])" by code_simp
  then show ?thesis
    using every_balance_is_a_position [of "[]" "[demo_group]" "[3, 8]" None, unfolded t] by simp
qed

theorem value_column_is_the_tiles_witness:
  "series_value \<lparr>hd_series = demo_series Live 2000 1, hd_units = 5, hd_position = None\<rparr>
    = exitTotal 1000 [\<lparr>hd_series = demo_series Live 2000 1, hd_units = 5, hd_position = None\<rparr>] []"
  using value_column_is_the_tiles [of "[\<lparr>hd_series = demo_series Live 2000 1, hd_units = 5, hd_position = None\<rparr>]" 1000 "[]"]
  by (simp add: demo_series_def isFinalized_def redeemableTotal_def)

definition demo_withdrawal :: "(unit \<times> submission list, string) clicked" where
  "demo_withdrawal = withdraw_press (logged (demo_env 0 (Inr demo_receipt)))
     \<lparr>tf_page = demo_page WITHDRAW_FREE_PLAN, tf_running = False, tf_error = None, tf_result = None\<rparr>
     \<lparr>av_vault = ''0x04'', av_isPortfolio = False,
       av_state = \<lparr>vs_vault = ''0x04'', vs_owner = ''0x03'', vs_balance = 900000, vs_locked = 0, vs_free = 900000,
         aquaAllowance = 0, allowanceSufficient = True\<rparr>\<rparr> ''0x03'' ''0.25''"

lemma demo_withdrawal_clears: "ck_clears demo_withdrawal"
  by code_simp

theorem withdrawal_is_what_was_typed_witness:
  "map fst (snd (pg_world (tf_page (ck_flow demo_withdrawal)))) = [WithdrawFree ''0x04'' 250000 ''0x03'']"
proof -
  have t: "typed 6 ''0.25'' = Some 250000" by code_simp
  have w: "pg_world (tf_page \<lparr>tf_page = demo_page WITHDRAW_FREE_PLAN, tf_running = False, tf_error = None, tf_result = None\<rparr>) = ((), [])"
    by (simp add: demo_page_def)
  from withdrawal_is_what_was_typed [OF _ demo_withdrawal_clears [unfolded demo_withdrawal_def] w, of False, folded demo_withdrawal_def]
  show ?thesis by (simp add: t withdraw_enabled_def positive_def or_zero_def)
qed

end
