(* ===== verification/Web_Group_Form.thy ===== *)
theory Web_Group_Form
  imports Web_Group_Tickets Web_Api
begin

text \<open>
  The form that writes a paired market (\<open>web/src/components/pairs/CreateGroupForm.tsx\<close>): the parameters its
  fields give, what stops it and what its button runs; and the validation those parameters meet,
  \<open>_validate\<close> of \<open>contracts/src/portfolio/TremorPortfolioMarket.sol\<close>.
\<close>

subsection \<open>The form\<close>

record group_form =
  gf_windowDays :: string
  gf_saleHours :: string
  gf_capVol :: string
  gf_capPayout :: string
  gf_maxUnits :: string
  gf_askHigh :: string
  gf_bidHigh :: string
  gf_askCalm :: string
  gf_bidCalm :: string
  gf_demo :: bool

definition new_group_form :: group_form where
  "new_group_form = \<lparr>gf_windowDays = ''7'', gf_saleHours = ''42'', gf_capVol = ''100'', gf_capPayout = ''100'',
     gf_maxUnits = ''100'', gf_askHigh = ''40'', gf_bidHigh = ''30'', gf_askCalm = ''70'', gf_bidCalm = ''60'', gf_demo = False\<rparr>"

definition above_zero :: "rat option \<Rightarrow> bool" where
  "above_zero n \<longleftrightarrow> (case n of None \<Rightarrow> False | Some x \<Rightarrow> x > 0)"

definition not_negative :: "int option \<Rightarrow> bool" where
  "not_negative p \<longleftrightarrow> (case p of None \<Rightarrow> False | Some v \<Rightarrow> v \<ge> 0)"

definition cap_variance :: "string \<Rightarrow> int option" where
  "cap_variance text = (case varianceFromVolPct text of Inl _ \<Rightarrow> None | Inr v \<Rightarrow> Some v)"

definition hour_before :: "int \<Rightarrow> int" where
  "hour_before now = \<lfloor>fl (of_int now / 3600)\<rfloor> * 3600"

definition seconds_of :: "rat option \<Rightarrow> int \<Rightarrow> int" where
  "seconds_of n unit = (case n of None \<Rightarrow> 0 | Some x \<Rightarrow> math_round (fl (x * of_int unit)))"

definition group_form_params :: "address \<Rightarrow> address \<Rightarrow> int \<Rightarrow> group_form \<Rightarrow> group_params option" where
  "group_form_params FEED QUOTE now f =
     (let days = text_number (gf_windowDays f); hours = text_number (gf_saleHours f);
          payout = tryParseDecimal (gf_capPayout f) 6; units = tryParseDecimal (gf_maxUnits f) 18;
          aH = tryParseDecimal (gf_askHigh f) 6; bH = tryParseDecimal (gf_bidHigh f) 6;
          aC = tryParseDecimal (gf_askCalm f) 6; bC = tryParseDecimal (gf_bidCalm f) 6;
          cap = cap_variance (gf_capVol f)
      in if now = 0 \<or> \<not> above_zero days \<or> \<not> above_zero hours \<or> \<not> positive payout \<or> \<not> positive units \<or> \<not> positive cap
            \<or> \<not> not_negative aH \<or> \<not> not_negative bH \<or> \<not> not_negative aC \<or> \<not> not_negative bC
         then None
         else
           let begin_at = hour_before now; end_at = begin_at + seconds_of days 86400;
               sale_end = min (begin_at + seconds_of hours 3600) end_at
           in if or_zero bH > or_zero aH \<or> or_zero bC > or_zero aC then None
              else Some \<lparr>group_params.feed = FEED, group_params.quoteToken = QUOTE, group_params.start = begin_at,
                     group_params.expiry = end_at, group_params.saleEnd = sale_end, group_params.sampleInterval = 3600,
                     group_params.capVariance = or_zero cap, capPayoutPerUnit = or_zero payout, maxUnitsPerSide = or_zero units,
                     askHigh = or_zero aH, bidHigh = or_zero bH, askCalm = or_zero aC, bidCalm = or_zero bC\<rparr>)"

definition group_form_blocker :: "address option \<Rightarrow> group_params option \<Rightarrow> string option" where
  "group_form_blocker who parsed =
     (if who = None then Some ''Connect a wallet''
      else if parsed = None then Some (''Check the inputs '' @ em_dash @ '' bids may not exceed asks'') else None)"

definition group_form_required :: "group_params option \<Rightarrow> string" where
  "group_form_required parsed = dash_or (\<lambda>p. fmtUsdc (maxGroupLiability p) 0 @ '' USDC'') parsed"

definition group_form_submit ::
    "'w env \<Rightarrow> ('w, create_group_result) tx_flow \<Rightarrow> group_params option \<Rightarrow> bool \<Rightarrow> ('w, create_group_result) clicked" where
  "group_form_submit E F parsed demo =
     (case parsed of
        None \<Rightarrow> no_click F
      | Some p \<Rightarrow>
          settle_click
            (run_flow E CREATE_GROUP_PLAN
              (\<lambda>a. runCreateGroup E a \<lparr>cgi_params = p, cgi_vault = None, cgi_depositAmount = None, cgi_backdatedDemo = demo\<rparr>) (tf_page F))
            any_result (\<lambda>r. SuccessToast ''Paired market created'' (Some (''Group #'' @ dec_string (cg_id r))))
            [''chain''] False ''Create failed'' (tf_error F))"

subsection \<open>The validation of the market\<close>

definition market_accepts :: "address \<Rightarrow> address \<Rightarrow> int \<Rightarrow> bool \<Rightarrow> group_params \<Rightarrow> bool" where
  "market_accepts FEED QUOTE blocktime allowBackdated p \<longleftrightarrow>
     group_params.feed p = FEED \<and> group_params.quoteToken p = QUOTE \<and> group_params.expiry p > group_params.start p
     \<and> group_params.sampleInterval p \<ge> 300
     \<and> (group_params.expiry p - group_params.start p) mod group_params.sampleInterval p = 0
     \<and> (let samples = (group_params.expiry p - group_params.start p) div group_params.sampleInterval p
        in samples \<ge> 2 \<and> samples \<le> 256)
     \<and> group_params.saleEnd p \<ge> blocktime \<and> group_params.start p \<le> group_params.saleEnd p
     \<and> (\<not> allowBackdated \<longrightarrow> group_params.saleEnd p \<le> group_params.expiry p)
     \<and> group_params.capVariance p > 0 \<and> group_params.capVariance p \<le> 4 * WAD
     \<and> capPayoutPerUnit p > 0 \<and> maxUnitsPerSide p > 0
     \<and> askHigh p > 0 \<and> askCalm p > 0 \<and> bidHigh p \<le> askHigh p \<and> bidCalm p \<le> askCalm p
     \<and> askHigh p \<le> capPayoutPerUnit p \<and> askCalm p \<le> capPayoutPerUnit p
     \<and> (let liability = liveReserve (maxUnitsPerSide p) 0 (capPayoutPerUnit p) in liability > 0 \<and> liability \<le> 2 ^ 248 - 1)"

subsection \<open>What the form lets through\<close>

text \<open>The form never lets a bid exceed its ask, a start come after the end of the sale or a size be zero.\<close>

lemma seconds_nonneg: "above_zero n \<Longrightarrow> 0 < unit \<Longrightarrow> 0 \<le> seconds_of n unit"
  by (auto simp: above_zero_def seconds_of_def math_round_def intro!: fl_nonneg add_nonneg_nonneg split: option.splits)

lemma group_form_fields:
  assumes "group_form_params FEED QUOTE now f = Some p"
  shows "group_params.feed p = FEED" "group_params.quoteToken p = QUOTE" "group_params.sampleInterval p = 3600"
    "group_params.start p = hour_before now" "group_params.start p \<le> group_params.saleEnd p"
    "group_params.saleEnd p \<le> group_params.expiry p" "0 < group_params.capVariance p" "0 < capPayoutPerUnit p"
    "0 < maxUnitsPerSide p" "0 \<le> bidHigh p" "bidHigh p \<le> askHigh p" "0 \<le> bidCalm p" "bidCalm p \<le> askCalm p"
  using assms seconds_nonneg [of "text_number (gf_windowDays f)" 86400] seconds_nonneg [of "text_number (gf_saleHours f)" 3600]
  by (auto simp: group_form_params_def Let_def positive_def not_negative_def or_zero_def split: if_splits option.splits)

text \<open>A window of eleven days and a sale of half an hour that has already ended pass the form and not the market;
  the form as it opens passes both.\<close>

lemma eleven_days_rejected:
  "(case group_form_params ''0x01'' ''0x02'' 7200 (new_group_form\<lparr>gf_windowDays := ''11''\<rparr>) of
     None \<Rightarrow> False | Some p \<Rightarrow> \<not> market_accepts ''0x01'' ''0x02'' 7200 False p)"
  by code_simp

lemma half_hour_sale_rejected:
  "(case group_form_params ''0x01'' ''0x02'' 9900 (new_group_form\<lparr>gf_saleHours := ''0.5''\<rparr>) of
     None \<Rightarrow> False | Some p \<Rightarrow> \<not> market_accepts ''0x01'' ''0x02'' 9900 False p)"
  by code_simp
lemma default_form_accepted:
  "(case group_form_params ''0x01'' ''0x02'' 9900 new_group_form of
     None \<Rightarrow> False | Some p \<Rightarrow> market_accepts ''0x01'' ''0x02'' 9900 False p)"
  by code_simp

text \<open>C32: The parameters the form of a paired market submits are accepted by the market's validation exactly when
  the window is a whole number of hours between 2 and 256, the sale has not ended yet, the cap is at most 200% vol,
  both asks are positive and at most the cap payout, and the liability fits its 248 bits; everything else the
  market checks (the feed, the token, the interval, the order of the dates, bids within asks, positive sizes) the
  form has made sure of. (The checks are those of the validation; that each field fits the width of its Solidity
  type is a matter of the encoding, before it.)\<close>

theorem group_form_gap:
  assumes "group_form_params FEED QUOTE now f = Some p"
  shows "market_accepts FEED QUOTE now False p \<longleftrightarrow>
    (let len = group_params.expiry p - group_params.start p in len mod 3600 = 0 \<and> 7200 \<le> len \<and> len \<le> 256 * 3600)
    \<and> now \<le> group_params.saleEnd p \<and> group_params.capVariance p \<le> 4 * WAD
    \<and> 0 < askHigh p \<and> askHigh p \<le> capPayoutPerUnit p \<and> 0 < askCalm p \<and> askCalm p \<le> capPayoutPerUnit p
    \<and> maxGroupLiability p \<le> 2 ^ 248 - 1"
proof -
  note f = group_form_fields [OF assms]
  have m: "liveReserve (maxUnitsPerSide p) 0 (capPayoutPerUnit p) = maxGroupLiability p"
    using f(9) by (simp add: liveReserve_eq maxGroupLiability_def)
  have l: "0 < maxGroupLiability p" using f(8,9) by (simp add: maxGroupLiability_def ceilDiv_pos_iff WAD_def)
  define len where "len = group_params.expiry p - group_params.start p"
  have "len mod 3600 = 0 \<and> 2 \<le> len div 3600 \<and> len div 3600 \<le> 256 \<longleftrightarrow> len mod 3600 = 0 \<and> 7200 \<le> len \<and> len \<le> 256 * 3600"
    by (auto simp: dvd_def mod_eq_0_iff_dvd)
  moreover have "0 < len" if "7200 \<le> len" using that by simp
  ultimately show ?thesis
    unfolding market_accepts_def m Let_def len_def [symmetric] f(3)
    using f l by (auto simp: len_def)
qed

theorem group_form_gap_witness:
  "\<exists>p. group_form_params ''0x01'' ''0x02'' 9900 new_group_form = Some p \<and> askHigh p \<le> capPayoutPerUnit p \<and> 9900 \<le> group_params.saleEnd p"
proof -
  obtain p where "group_form_params ''0x01'' ''0x02'' 9900 new_group_form = Some p" "market_accepts ''0x01'' ''0x02'' 9900 False p"
    using default_form_accepted by (auto split: option.splits)
  then show ?thesis using group_form_gap [of "''0x01''" "''0x02''" 9900 new_group_form p] by (auto simp: Let_def)
qed

end
