(* ===== verification/Web_Wizard.thy ===== *)
theory Web_Wizard
  imports Web_Derive Web_Tickets Web_Api
begin

text \<open>
  The page that writes a series (\<open>web/src/components/write\<close>): the wizard's state and what changes it, the
  input it gives the derivation of \<open>derive.ts\<close>, what stops the write and what the button runs
  (\<open>WriteWizard.tsx\<close>), and the price options and the scenarios (\<open>Decisions.tsx\<close>). Tooltips are left
  out.
\<close>

subsection \<open>The state of the wizard\<close>

definition anchorWindow :: "int \<Rightarrow> trailing_window" where
  "anchorWindow tenorDays = (if tenorDays \<le> 1 then OneDay else if tenorDays \<le> 14 then SevenDays else ThirtyDays)"

definition ticketUsdc :: "int \<Rightarrow> string" where "ticketUsdc v = formatFixed v 6 (fmt_default\<lparr>maxFrac := 2\<rparr>)"
definition usd2 :: "int \<Rightarrow> string" where "usd2 v = formatFixed v 6 (fmt_default\<lparr>maxFrac := 2, minFrac := 2\<rparr>)"

definition units2 :: "int \<Rightarrow> string" where
  "units2 v = (if CHR ''.'' \<in> set (fmtUnits v 2) then fmtUnits v 2 else fmtUnits v 2 @ ''.00'')"

record wizard =
  wz_tenorDays :: int
  wz_stance :: stance
  wz_customVolPct :: string
  wz_collateral :: string
  wz_overrides :: "override_key \<Rightarrow> string option"
  wz_nowTs :: int
  wz_touched :: bool

text \<open>What the page reads: the wallet, the writer's vault and the trailing variance from the backend and the Lens.\<close>

record wizard_reads =
  wr_deployed :: bool
  wr_address :: "address option"
  wr_usdc :: "int option"
  wr_vault :: "(bool \<times> int) option"
  wr_trailing :: "int option"
  wr_trailingError :: bool
  wr_onchain :: "int option"
  wr_onchainError :: bool

definition new_wizard :: "int \<Rightarrow> wizard" where
  "new_wizard now = \<lparr>wz_tenorDays = 7, wz_stance = Fair, wz_customVolPct = '''', wz_collateral = ''2,000'',
     wz_overrides = (\<lambda>_. None), wz_nowTs = now, wz_touched = False\<rparr>"

definition wizard_free :: "wizard_reads \<Rightarrow> int" where
  "wizard_free R = (case wr_vault R of Some (True, free) \<Rightarrow> free | _ \<Rightarrow> 0)"

definition trailing_variance :: "wizard_reads \<Rightarrow> int option" where
  "trailing_variance R = (case wr_trailing R of Some v \<Rightarrow> Some v | None \<Rightarrow> wr_onchain R)"

definition trailing_waiting :: "wizard_reads \<Rightarrow> bool" where
  "trailing_waiting R \<longleftrightarrow> trailing_variance R = None
     \<and> \<not> (wr_trailingError R \<and> (wr_onchainError R \<or> \<not> wr_deployed R))"

definition setOverride :: "override_key \<Rightarrow> string option \<Rightarrow> wizard \<Rightarrow> wizard" where
  "setOverride k v W = W\<lparr>wz_overrides := (wz_overrides W)(k := v)\<rparr>"

definition resetAll :: "wizard \<Rightarrow> wizard" where "resetAll W = W\<lparr>wz_overrides := (\<lambda>_. None)\<rparr>"

definition backing :: "wizard_reads \<Rightarrow> int option" where
  "backing R = map_option (\<lambda>b. b + wizard_free R) (wr_usdc R)"

definition wizard_input :: "address \<Rightarrow> address \<Rightarrow> wizard_reads \<Rightarrow> wizard \<Rightarrow> derive_input" where
  "wizard_input FEED QUOTE R W =
     \<lparr>nowTs = wz_nowTs W, in_feed = FEED, in_quoteToken = QUOTE, in_trailingVariance = trailing_variance R,
      in_trailingPending = trailing_waiting R, in_tenorDays = wz_tenorDays W, in_collateral = wz_collateral W,
      in_stance = wz_stance W, in_customVolPct = wz_customVolPct W,
      walletUsdc = (if wr_address R \<noteq> None then backing R else None), overrides = wz_overrides W\<rparr>"

text \<open>The two effects: no level to price against makes the stance custom, and the collateral follows the
  balance until something is typed.\<close>

definition name_a_level :: "wizard_reads \<Rightarrow> derived \<Rightarrow> wizard \<Rightarrow> wizard" where
  "name_a_level R d W =
     (if \<not> d_trailingAvailable d \<and> \<not> trailing_waiting R \<and> wz_stance W \<noteq> Custom
      then W\<lparr>wz_stance := Custom, wz_customVolPct := (if trim (wz_customVolPct W) = '''' then ''60.0'' else wz_customVolPct W)\<rparr>
      else W)"

definition default_collateral :: "wizard_reads \<Rightarrow> derived \<Rightarrow> wizard \<Rightarrow> wizard" where
  "default_collateral R d W =
     (case backing R of
        None \<Rightarrow> W
      | Some b \<Rightarrow>
          let fits = (\<lambda>m. maxCollateralFor m (unitNotional (d_draft d)) (web_params.capVariance (d_draft d)));
              pick = (if fits b < 2000000000 then fits b else fits 2000000000)
          in if wz_touched W \<or> \<not> pick > 0 then W else W\<lparr>wz_collateral := ticketUsdc pick\<rparr>)"

definition onTenor :: "int \<Rightarrow> wizard \<Rightarrow> wizard" where "onTenor days W = W\<lparr>wz_tenorDays := days\<rparr>"

definition onCollateral :: "string \<Rightarrow> wizard \<Rightarrow> wizard" where
  "onCollateral v W = W\<lparr>wz_collateral := v, wz_touched := True\<rparr>"

definition onMax :: "wizard_reads \<Rightarrow> derived \<Rightarrow> wizard \<Rightarrow> wizard" where
  "onMax R d W =
     (case backing R of
        None \<Rightarrow> W\<lparr>wz_touched := True\<rparr>
      | Some b \<Rightarrow> W\<lparr>wz_touched := True,
          wz_collateral := ticketUsdc (maxCollateralFor b (unitNotional (d_draft d)) (web_params.capVariance (d_draft d)))\<rparr>)"

definition onStance :: "js_math \<Rightarrow> derived \<Rightarrow> stance \<Rightarrow> wizard \<Rightarrow> js_error + wizard" where
  "onStance M d s W =
     (if s = Custom \<and> trim (wz_customVolPct W) = ''''
      then andThen (fmtVolPct M (anchorVariance (d_draft d)) 2)
             (\<lambda>t. Inr (W\<lparr>wz_stance := s, wz_customVolPct := remove_char (CHR '','') t\<rparr>))
      else Inr (W\<lparr>wz_stance := s\<rparr>))"

definition onCustomVol :: "derived \<Rightarrow> string \<Rightarrow> wizard \<Rightarrow> wizard" where
  "onCustomVol d v W =
     W\<lparr>wz_customVolPct := v,
       wz_stance := (if trim v \<noteq> '''' then Custom else if d_trailingAvailable d then Fair else wz_stance W)\<rparr>"

subsection \<open>The write\<close>

definition ERROR_LABEL :: "(string \<times> string) list" where
  "ERROR_LABEL =
     [(''under-one-unit'', ''Size below one unit''), (''no-collateral'', ''Set collateral''),
      (''collateral-parse'', ''Collateral is not a number''), (''anchor-parse'', ''Set a price''),
      (''anchor-uint64'', ''Price too high''), (''anchor-trailing'', ''Enter a custom price''),
      (''spread-range'', ''Spread out of range''), (''ask-over-cap'', ''Sell-out ask above the cap'')]"

definition primary_errors :: "derived \<Rightarrow> form_issue list" where
  "primary_errors d = filter (\<lambda>e. issue_where e = Primary) (d_errors d)"

definition write_blocker :: "wizard_reads \<Rightarrow> derived \<Rightarrow> string option" where
  "write_blocker R d =
     (if \<not> wr_deployed R then Some ''Contracts not deployed''
      else if wr_address R = None then Some ''Connect a wallet''
      else if wr_usdc R = Some 0 \<and> wizard_free R = 0 then Some ''Add USDC to write''
      else if list_ex (\<lambda>e. issue_id e = ''short-balance'') (d_errors d) then Some ''Not enough USDC''
      else if d_trailingPending d then Some (''Reading realized vol'' @ ellipsis)
      else if d_params d = None
        then Some (case List.find (\<lambda>e. issue_id e \<noteq> ''short-balance'' \<and> issue_id e \<noteq> ''anchor-pending'') (primary_errors d) of
               Some e \<Rightarrow> (case map_of ERROR_LABEL (issue_id e) of Some t \<Rightarrow> t | None \<Rightarrow> ''Fix the highlighted fields'')
             | None \<Rightarrow> ''Fix Advanced'')
      else None)"

definition max_blocked :: "wizard_reads \<Rightarrow> string option" where
  "max_blocked R =
     (case wr_usdc R of
        None \<Rightarrow> Some ''No USDC balance read yet''
      | Some b \<Rightarrow> if b = 0 \<and> wizard_free R = 0
          then Some ''This wallet holds no USDC and your vault has no free collateral'' else None)"

text \<open>Only the shortfall is pulled from the wallet.\<close>

definition topUp :: "wizard_reads \<Rightarrow> derived \<Rightarrow> int" where
  "topUp R d = (if d_collateralCommitted d > wizard_free R then d_collateralCommitted d - wizard_free R else 0)"

definition write_request :: "wizard_reads \<Rightarrow> derived \<Rightarrow> web_params \<Rightarrow> create_series_input" where
  "write_request R d p =
     \<lparr>csi_params = p, csi_vault = None, csi_depositAmount = Some (topUp R d), csi_backdatedDemo = False\<rparr>"

definition write_submit ::
    "'w env \<Rightarrow> ('w, create_series_result) tx_flow \<Rightarrow> wizard_reads \<Rightarrow> derived \<Rightarrow> ('w, create_series_result) clicked" where
  "write_submit E F R d =
     (case d_params d of
        None \<Rightarrow> no_click F
      | Some p \<Rightarrow>
          if write_blocker R d \<noteq> None then no_click F
          else settle_click (run_flow E CREATE_SERIES_PLAN (\<lambda>a. runCreateSeries E a (write_request R d p)) (tf_page F))
                 any_result (\<lambda>r. SuccessToast (''Series #'' @ dec_string (cs_id r) @ '' is live'')
                   (Some ''ISSUE, EXIT and SETTLE shipped to Aqua.''))
                 [''chain'', ''api''] False ''Write failed'' (tf_error F))"

definition write_disabled :: "wizard_reads \<Rightarrow> derived \<Rightarrow> bool \<Rightarrow> bool" where
  "write_disabled R d running \<longleftrightarrow> write_blocker R d \<noteq> None \<or> running"

definition write_label :: "wizard_reads \<Rightarrow> derived \<Rightarrow> ('w, create_series_result) tx_flow \<Rightarrow> string" where
  "write_label R d F =
     (case write_blocker R d of Some t \<Rightarrow> t
      | None \<Rightarrow> if tf_result F \<noteq> None then ''Write another'' else ''Write series'')"

definition balance_text :: "wizard_reads \<Rightarrow> string" where
  "balance_text R = (case backing R of Some b \<Rightarrow> fmtUsdc b 2 | None \<Rightarrow> em_dash)"

definition unit_usdc :: "int \<Rightarrow> string" where "unit_usdc v = usd2 v @ ''USDC''"

definition ticket_rows :: "js_math \<Rightarrow> derived \<Rightarrow> js_error + (string \<times> string) list" where
  "ticket_rows M d =
     (let p = d_draft d; worst = d_worstCaseNet d in
      andThen (vol_text M '''' (d_breakEvenVariance d)) (\<lambda>even.
      andThen (vol_text M '' vol'' (web_params.capVariance p)) (\<lambda>cap. Inr
        [(''Units'', units2 (maxUnits p)),
         (''Opens bid / ask'', usd2 (d_bidPerUnit d) @ '' / '' @ unit_usdc (d_askPerUnit d)),
         (''Premium if sold out'', unit_usdc (d_premiumIfSoldOut d)),
         (''Break-even vol'', even),
         (''Max payout / unit'', unit_usdc (d_maxPayoutPerUnit d)),
         (''Reserved if sold out'', unit_usdc (d_collateralCommitted d)),
         (''Worst case'', if worst < 0 then minus_sign @ unit_usdc (- worst) else unit_usdc worst),
         (''Pays max at'', cap)])))"

definition tenor_label :: "web_params \<Rightarrow> string" where
  "tenor_label p = dec_string (num_round_div (num_add (web_params.expiry p) (- web_params.start p)) 86400) @ ''d''"

subsection \<open>The decisions\<close>

definition trailing_known :: "derived \<Rightarrow> bool" where
  "trailing_known d \<longleftrightarrow> d_trailingAvailable d \<and> \<not> d_trailingFloored d"

definition stance_reason :: "derived \<Rightarrow> string" where
  "stance_reason d =
     (if d_trailingPending d then ''Trailing realized vol has not loaded yet''
      else if d_trailingFloored d then ''Feed printed no fresh rounds in this window '' @ em_dash @ '' enter a custom price''
      else ''Feed unavailable '' @ em_dash @ '' enter a custom price'')"

text \<open>The options of the price, each with its label and whether it can be chosen.\<close>

definition price_options :: "js_math \<Rightarrow> derived \<Rightarrow> js_error + (stance \<times> string \<times> bool) list" where
  "price_options M d =
     (let known = trailing_known d;
          option = (\<lambda>s name v. andThen (if known then vol_text M '''' v else Inr '''')
             (\<lambda>t. Inr (s, if known then name @ '' '' @ t else name, known))) in
      andThen (option Cheap ''Cheap'' (cheap (d_stanceVariance d))) (\<lambda>c.
      andThen (option Fair ''Fair'' (fair (d_stanceVariance d))) (\<lambda>f.
      andThen (option Rich ''Rich'' (rich (d_stanceVariance d))) (\<lambda>r. Inr [c, f, r, (Custom, ''Custom'', True)]))))"

definition trailing_text :: "js_math \<Rightarrow> derived \<Rightarrow> js_error + string" where
  "trailing_text M d =
     (if d_trailingPending d then Inr em_dash
      else if d_trailingFloored d then vol_text M '' floor'' (d_trailingVariance d)
      else if d_trailingAvailable d then vol_text M '''' (d_trailingVariance d) else Inr ''n/a'')"

record scenario_row =
  sc_name :: string
  sc_payout :: int
  sc_net :: int

definition scenario_rows :: "derived \<Rightarrow> scenario_row list" where
  "scenario_rows d =
     (let p = d_draft d; prem = d_premiumIfSoldOut d;
          payoutBe = payoutFor (maxUnits p) (perUnitPrice_web (unitNotional p) (d_breakEvenVariance d));
          payoutCap = payoutFor (maxUnits p) (maxPayoutPerUnit_web p)
      in [\<lparr>sc_name = ''Calm'', sc_payout = 0, sc_net = prem\<rparr>,
          \<lparr>sc_name = ''Break-even'', sc_payout = payoutBe, sc_net = prem - payoutBe\<rparr>,
          \<lparr>sc_name = ''Cap'', sc_payout = payoutCap, sc_net = prem - payoutCap\<rparr>])"

definition signed_usd2 :: "int \<Rightarrow> string" where
  "signed_usd2 v = (if v > 0 then ''+'' @ usd2 v else if v < 0 then minus_sign @ usd2 (- v) else usd2 0)"

subsection \<open>The write is funded\<close>

text \<open>C33: When the write button is enabled and the wallet's balance is known, the page pulls a shortfall the wallet
  holds, and that shortfall with what is free in the vault covers the liability of the whole inventory at the
  cap.\<close>

theorem series_write_is_funded:
  assumes "deriveSeries M (wizard_input FEED QUOTE R W) = Inr d" "write_blocker R d = None"
    and "wr_usdc R = Some b" "0 \<le> b"
  shows "\<exists>p. d_params d = Some p \<and> 0 \<le> topUp R d \<and> topUp R d \<le> b \<and> maxSeriesLiability p \<le> wizard_free R + topUp R d"
proof -
  have some: "wr_address R \<noteq> None" "d_params d \<noteq> None" using assms(2) by (auto simp: write_blocker_def split: if_splits)
  then obtain p where p: "d_params d = Some p" by auto
  obtain a ae s se cap ce cw cn N ne u ue i ie h he where
    k: "d_collateralCommitted d = committed_for u N cap"
    and draft: "d_draft d = \<lparr>web_params.feed = FEED, web_params.quoteToken = QUOTE,
       web_params.start = w_start (derive_window (wizard_input FEED QUOTE R W)),
       web_params.expiry = w_expiry (derive_window (wizard_input FEED QUOTE R W)),
       web_params.saleEnd = w_saleEnd (derive_window (wizard_input FEED QUOTE R W)),
       web_params.sampleInterval = w_interval (derive_window (wizard_input FEED QUOTE R W)), unitNotional = N,
       web_params.capVariance = cap, anchorVariance = a, impactPerUnit = i, halfLife = h, halfSpreadBps = s, maxUnits = u\<rparr>"
    and ok: "p = d_draft d" "size_errors (wizard_input FEED QUOTE R W) u (committed_for u N cap) = []" "MIN_UNITS \<le> u"
    by (rule deriveSeries_sections [OF assms(1)]) (auto simp: wizard_input_def p)
  have u: "0 < u" using ok(3) by (simp add: MIN_UNITS_def WAD_def)
  have l: "d_collateralCommitted d = maxSeriesLiability p"
    using u by (simp add: k committed_for_def ok(1) draft maxSeriesLiability_def)
  have "walletUsdc (wizard_input FEED QUOTE R W) = Some (b + wizard_free R)"
    using some(1) assms(3) by (auto simp: wizard_input_def backing_def)
  then have "d_collateralCommitted d \<le> b + wizard_free R" using ok(2) by (simp add: size_errors_def k)
  then show ?thesis using p l assms(4) by (auto simp: topUp_def)
qed

text \<open>A writer with 2,000 USDC and no vault, quoting 40% vol under a 100% cap.\<close>

definition demo_reads :: wizard_reads where
  "demo_reads = \<lparr>wr_deployed = True, wr_address = Some ''0x03'', wr_usdc = Some 2000000000, wr_vault = None,
     wr_trailing = None, wr_trailingError = True, wr_onchain = None, wr_onchainError = True\<rparr>"

definition demo_wizard :: wizard where
  "demo_wizard = \<lparr>wz_tenorDays = 1, wz_stance = Custom, wz_customVolPct = ''40'', wz_collateral = ''2,000'',
     wz_overrides = demo_overrides, wz_nowTs = 100, wz_touched = True\<rparr>"

lemma demo_writes:
  "(case deriveSeries plain_math (wizard_input ''0x01'' ''0x02'' demo_reads demo_wizard) of
      Inl e \<Rightarrow> False | Inr d \<Rightarrow> write_blocker demo_reads d = None)"
  by code_simp

theorem series_write_is_funded_witness:
  "\<exists>d p. deriveSeries plain_math (wizard_input ''0x01'' ''0x02'' demo_reads demo_wizard) = Inr d \<and> d_params d = Some p
     \<and> maxSeriesLiability p \<le> topUp demo_reads d \<and> topUp demo_reads d \<le> 2000000000"
proof -
  obtain d where d: "deriveSeries plain_math (wizard_input ''0x01'' ''0x02'' demo_reads demo_wizard) = Inr d"
    "write_blocker demo_reads d = None"
    using demo_writes by (auto split: sum.splits)
  show ?thesis using series_write_is_funded [OF d, of 2000000000] d by (auto simp: demo_reads_def wizard_free_def)
qed

end
