(* ===== verification/Web_Advanced.thy ===== *)
theory Web_Advanced
  imports Web_Wizard
begin

text \<open>
  The disclosure of the parameters (\<open>web/src/components/write/AdvancedParams.tsx\<close>): one row per field of the
  series, with the literal that ships, its reading, its control, whether it is overridden and the issues of the
  derivation that are listed under it; what the controls and the resets do to the overrides; and the effect
  that opens the disclosure on an error. Dates go through the browser's clock, a parameter. Tooltips are left
  out.
\<close>

subsection \<open>Helpers\<close>

text \<open>The browser's calendar: the printed date, the local fields of a time stamp (year, month from 1, day, hours,
  minutes), and the milliseconds \<open>new Date(v).getTime()\<close> reads, none for \<open>NaN\<close>.\<close>

record calendar =
  fmtDateTime :: "int \<Rightarrow> string"
  local_fields :: "int \<Rightarrow> int \<times> int \<times> int \<times> int \<times> int"
  date_time :: "string \<Rightarrow> int option"

definition two_digits :: "int \<Rightarrow> string" where
  "two_digits n = pad_start 2 (dec_string n)"

definition toLocalInput :: "calendar \<Rightarrow> int \<Rightarrow> string" where
  "toLocalInput C ts =
     (let (y, mo, d, h, mi) = local_fields C ts
      in dec_string y @ ''-'' @ two_digits mo @ ''-'' @ two_digits d @ ''T'' @ two_digits h @ '':'' @ two_digits mi)"

definition fromLocalInput :: "calendar \<Rightarrow> string \<Rightarrow> int option" where
  "fromLocalInput C v = map_option (\<lambda>t. \<lfloor>fl (of_int t / 1000)\<rfloor>) (date_time C v)"

definition plain :: "string \<Rightarrow> string" where
  "plain s = remove_char (CHR '','') s"

fun sale_value :: "sale_mode \<Rightarrow> string" where
  "sale_value AtStart = ''start''"
| "sale_value AtQuarter = ''quarter''"
| "sale_value AtHalf = ''half''"
| "sale_value AtExpiry = ''expiry''"

fun SALE_SHORT :: "sale_mode \<Rightarrow> string" where
  "SALE_SHORT AtStart = ''Start''"
| "SALE_SHORT AtQuarter = ''Quarter''"
| "SALE_SHORT AtHalf = ''Half''"
| "SALE_SHORT AtExpiry = ''Expiry''"

definition sale_options :: "(string \<times> string) list" where
  "sale_options = map (\<lambda>m. (sale_value m, SALE_SHORT m)) [AtStart, AtQuarter, AtHalf, AtExpiry]"

definition spread_options :: "(string \<times> string) list" where
  "spread_options = [(''50'', ''0.5%''), (''100'', ''1%''), (''200'', ''2%''), (''400'', ''4%'')]"

definition lift_options :: "(string \<times> string) list" where
  "lift_options = [(''2500'', ''+25%''), (''5000'', ''+50%''), (''10000'', ''+100%''), (''custom'', ''Custom'')]"

definition interval_options :: "int \<Rightarrow> (string \<times> string) list" where
  "interval_options tenorDays =
     map (\<lambda>v. (dec_string v, fmtDuration (of_int v) @ '' '' @ mid_dot @ '' ''
       @ dec_string (max 1 (num_round_div (tenorDays * 86400) v)) @ '' samples'')) INTERVAL_LADDER"

subsection \<open>The issues of a row\<close>

text \<open>The issues that name the row's parameter, errors and then warnings, each with whether it is an error; then
  the notes.\<close>

definition issuesFor :: "derived \<Rightarrow> string \<Rightarrow> (string \<times> bool) list \<times> string list" where
  "issuesFor d param =
     (let mine = filter (\<lambda>i. issue_where i = Advanced \<and> issue_param i = Some param)
      in (map (\<lambda>i. (issue_id i, True)) (mine (d_errors d)) @ map (\<lambda>i. (issue_id i, False)) (mine (d_warnings d)),
          map note_id (filter (\<lambda>n. note_param n = Some param) (d_notes d))))"

definition hasAdvError :: "derived \<Rightarrow> bool" where
  "hasAdvError d \<longleftrightarrow> list_ex (\<lambda>i. issue_where i = Advanced) (d_errors d)"

text \<open>The effect, on whether the disclosure is open, whether it has scrolled already and how often it did.\<close>

definition open_on_error :: "derived \<Rightarrow> bool \<times> bool \<times> nat \<Rightarrow> bool \<times> bool \<times> nat" where
  "open_on_error d = (\<lambda>(is_open, nudged, scrolls).
     if \<not> hasAdvError d then (is_open, False, scrolls)
     else (True, True, if nudged then scrolls else scrolls + 1))"

subsection \<open>The rows\<close>

record adv_row =
  ar_name :: string
  ar_value :: string
  ar_reading :: string
  ar_control :: "string option"
  ar_overridden :: bool
  ar_resets :: "override_key list"
  ar_issues :: "(string \<times> bool) list \<times> string list"

definition fixed_row :: "string \<Rightarrow> string \<Rightarrow> string \<Rightarrow> adv_row" where
  "fixed_row name v reading = \<lparr>ar_name = name, ar_value = v, ar_reading = reading, ar_control = None,
     ar_overridden = False, ar_resets = [], ar_issues = ([], [])\<rparr>"

text \<open>A row is overridden when one of the keys it resets is set.\<close>

definition param_row :: "derived \<Rightarrow> (override_key \<Rightarrow> string option) \<Rightarrow> override_key list \<Rightarrow> string \<Rightarrow> string \<Rightarrow> string \<Rightarrow> string \<Rightarrow> adv_row" where
  "param_row d ov keys name v reading control = \<lparr>ar_name = name, ar_value = v, ar_reading = reading,
     ar_control = Some control, ar_overridden = list_ex (\<lambda>k. ov k \<noteq> None) keys, ar_resets = keys,
     ar_issues = issuesFor d name\<rparr>"

definition or_text :: "string option \<Rightarrow> string \<Rightarrow> string" where
  "or_text given d = (case given of Some s \<Rightarrow> s | None \<Rightarrow> d)"

definition sigma2 :: string where "sigma2 = [CHR 0xCF, CHR 0x83, CHR 0xC2, CHR 0xB2]"
definition plus_minus :: string where "plus_minus = [CHR 0xC2, CHR 0xB1]"

definition window_rows :: "calendar \<Rightarrow> derived \<Rightarrow> (override_key \<Rightarrow> string option) \<Rightarrow> int \<Rightarrow> adv_row list" where
  "window_rows C d ov tenorDays =
     (let p = d_draft d in
      [fixed_row ''feed'' (web_params.feed p) (''Chainlink ETH/USD '' @ mid_dot @ '' 8 dec''),
       fixed_row ''quoteToken'' (web_params.quoteToken p) (''USDC '' @ mid_dot @ '' 6 dec''),
       param_row d ov [OvStart] ''start'' (dec_string (web_params.start p)) (fmtDateTime C (web_params.start p))
         (toLocalInput C (web_params.start p)),
       param_row d ov [OvTenorDays] ''expiry'' (dec_string (web_params.expiry p)) (fmtDateTime C (web_params.expiry p))
         (or_text (ov OvTenorDays) (dec_string tenorDays)),
       param_row d ov [OvSaleMode] ''saleEnd'' (dec_string (web_params.saleEnd p)) (fmtDateTime C (web_params.saleEnd p))
         (or_text (ov OvSaleMode) ''quarter''),
       param_row d ov [OvSampleInterval] ''sampleInterval'' (dec_string (web_params.sampleInterval p))
         (fmtDuration (of_int (web_params.sampleInterval p)) @ '' '' @ mid_dot @ '' '' @ dec_string (d_samples d) @ '' samples'')
         (dec_string (web_params.sampleInterval p))])"

definition price_rows ::
    "js_math \<Rightarrow> derived \<Rightarrow> (override_key \<Rightarrow> string option) \<Rightarrow> string \<Rightarrow> js_error + adv_row list" where
  "price_rows M d ov customVolPct =
     (let p = d_draft d in
      andThen (fmtVolPct M (web_params.capVariance p) 1) (\<lambda>cap1.
      andThen (fmtVolPct M (web_params.capVariance p) 2) (\<lambda>cap2.
      andThen (fmtVolPct M (anchorVariance p) 1) (\<lambda>anchor1.
      andThen (fmtVolPct M (anchorVariance p) 2) (\<lambda>anchor2. Inr
        [param_row d ov [OvUnitNotional] ''unitNotional'' (dec_string (unitNotional p))
           (fmtUsdc (unitNotional p) 2 @ '' USDC / unit / '' @ sigma2)
           (or_text (ov OvUnitNotional) (plain (fmtUsdc (unitNotional p) 2))),
         param_row d ov [OvCapVolPct] ''capVariance'' (dec_string (web_params.capVariance p))
           (cap1 @ ''% vol '' @ mid_dot @ '' '' @ fmtUsdc (d_maxPayoutPerUnit d) 2 @ '' USDC / unit'')
           (or_text (ov OvCapVolPct) (plain cap2)),
         param_row d ov [] ''anchorVariance'' (dec_string (anchorVariance p))
           (anchor1 @ ''% vol '' @ mid_dot @ '' '' @ fmtUsdc (d_askPerUnit d) 2 @ '' / '' @ fmtUsdc (d_bidPerUnit d) 2 @ '' USDC'')
           (if trim customVolPct \<noteq> '''' then customVolPct else plain anchor2),
         param_row d ov [OvHalfSpreadBps] ''halfSpreadBps'' (dec_string (halfSpreadBps p))
           (plus_minus @ to_fixed 2 (fl (of_int (halfSpreadBps p) / 100)) @ ''% '' @ mid_dot @ '' ''
             @ fmtUsdc (d_askPerUnit d - d_bidPerUnit d) 2 @ '' USDC wide'')
           (dec_string (halfSpreadBps p))])))))"

definition size_rows :: "js_math \<Rightarrow> derived \<Rightarrow> (override_key \<Rightarrow> string option) \<Rightarrow> js_error + adv_row list" where
  "size_rows M d ov =
     (let p = d_draft d in
      andThen (fmtVolPct M (d_askAtSellOut d) 1) (\<lambda>sold. Inr
        [param_row d ov [OvSelloutLiftBps, OvImpactPerUnit] ''impactPerUnit'' (dec_string (web_params.impactPerUnit p))
           (fmtWad (web_params.impactPerUnit p) 5 @ '' '' @ sigma2 @ ''/unit '' @ mid_dot @ '' '' @ sold @ ''% sold out'')
           (if ov OvImpactPerUnit \<noteq> None then ''custom'' else or_text (ov OvSelloutLiftBps) ''5000''),
         param_row d ov [OvHalfLifeHours] ''halfLife'' (dec_string (web_params.halfLife p))
           (if web_params.halfLife p = 0 then ''no decay'' else fmtDuration (of_int (web_params.halfLife p)))
           (or_text (ov OvHalfLifeHours) (dec_string (num_round_div (web_params.halfLife p) HOUR))),
         param_row d ov [OvMaxUnits] ''maxUnits'' (dec_string (maxUnits p))
           (fmtUnits (maxUnits p) 2 @ '' units '' @ mid_dot @ '' '' @ fmtUsdc (d_collateralCommitted d) 2 @ '' USDC'')
           (or_text (ov OvMaxUnits) (plain (fmtUnits (maxUnits p) 2)))]))"

definition advanced_rows :: "js_math \<Rightarrow> calendar \<Rightarrow> derived \<Rightarrow> wizard \<Rightarrow> js_error + adv_row list" where
  "advanced_rows M C d W =
     andThen (price_rows M d (wz_overrides W) (wz_customVolPct W)) (\<lambda>price.
     andThen (size_rows M d (wz_overrides W)) (\<lambda>size.
       Inr (window_rows C d (wz_overrides W) (wz_tenorDays W) @ price @ size)))"

subsection \<open>What the controls do\<close>

definition edit_start :: "calendar \<Rightarrow> string \<Rightarrow> wizard \<Rightarrow> wizard" where
  "edit_start C v = setOverride OvStart (Some (case fromLocalInput C v of None \<Rightarrow> v | Some ts \<Rightarrow> dec_string ts))"

definition pick_lift :: "derived \<Rightarrow> string \<Rightarrow> wizard \<Rightarrow> wizard" where
  "pick_lift d v W =
     (if v = ''custom'' then setOverride OvImpactPerUnit (Some (remove_char (CHR '','') (fmtWad (web_params.impactPerUnit (d_draft d)) 8))) W
      else setOverride OvSelloutLiftBps (Some v) (setOverride OvImpactPerUnit None W))"

definition reset_row :: "adv_row \<Rightarrow> wizard \<Rightarrow> wizard" where
  "reset_row r W = fold (\<lambda>k. setOverride k None) (ar_resets r) W"

definition override_tag :: "derived \<Rightarrow> string option" where
  "override_tag d =
     (let n = length (d_overriddenKeys d)
      in if n > 0 then Some (dec_string (int n) @ '' override'' @ (if n = 1 then '''' else ''s'')) else None)"

end
