(* ===== verification/Web_Form_Props.thy ===== *)
theory Web_Form_Props
  imports Web_Advanced
begin

text \<open>
  What the writer's page promises: every error of the derivation is listed under a row the page shows, when the
  page blocks a write without a message, what the scenarios are worth and what choosing the custom price impact
  does to it. The lemmas on the derivation's sections and readouts are shared.
\<close>

subsection \<open>Every error of the derivation has a place\<close>

text \<open>The rows that list issues, and the issues one of them lists.\<close>

definition row_params :: "string list" where
  "row_params = [''start'', ''expiry'', ''saleEnd'', ''sampleInterval'', ''unitNotional'', ''capVariance'', ''anchorVariance'',
     ''halfSpreadBps'', ''impactPerUnit'', ''halfLife'', ''maxUnits'']"

definition shown_issue :: "form_issue \<Rightarrow> bool" where
  "shown_issue i \<longleftrightarrow> (issue_where i = Advanced \<longrightarrow> (\<exists>p\<in>set row_params. issue_param i = Some p))"

lemma shown_simps [simp]:
  "shown_issue (primary i p)" "shown_issue (advanced i q) \<longleftrightarrow> q \<in> set row_params"
  by (auto simp: shown_issue_def primary_def advanced_def)

lemma only_if_set [simp]: "set (only_if b x) = (if b then {x} else {})"
  unfolding only_if_def by (rule if_split [THEN iffD2]) simp

lemma anchor_shown: "derive_anchor inp = (a, es) \<Longrightarrow> i \<in> set es \<Longrightarrow> shown_issue i"
  by (auto simp: derive_anchor_def Let_def row_params_def split: if_splits option.splits prod.splits)

lemma spread_shown: "derive_spread inp = (a, es) \<Longrightarrow> i \<in> set es \<Longrightarrow> shown_issue i"
  by (auto simp: derive_spread_def row_params_def split: if_splits option.splits)

lemma cap_shown: "derive_cap M inp a = Inr (c, es, ws, ns) \<Longrightarrow> i \<in> set es \<Longrightarrow> shown_issue i"
  by (auto simp: derive_cap_def derive_cap_choice_def Let_def row_params_def andThen_def
      split: if_splits option.splits sum.splits)

lemma ask_shown: "i \<in> set (ask_errors a s c) \<Longrightarrow> shown_issue i"
  by (auto simp: ask_errors_def row_params_def split: if_splits)

lemma window_shown: "i \<in> set (w_errors (derive_window inp)) \<Longrightarrow> shown_issue i"
  by (auto simp: derive_window_def derive_tenor_def Let_def row_params_def split: if_splits)

lemma notional_shown: "derive_notional inp = (a, es) \<Longrightarrow> i \<in> set es \<Longrightarrow> shown_issue i"
  by (auto simp: derive_notional_def row_params_def split: if_splits option.splits)

lemma units_shown: "derive_units inp N c = (a, es) \<Longrightarrow> i \<in> set es \<Longrightarrow> shown_issue i"
  by (auto simp: derive_units_def row_params_def split: if_splits option.splits)

lemma size_shown: "i \<in> set (size_errors inp u c) \<Longrightarrow> shown_issue i"
  by (auto simp: size_errors_def split: if_splits option.splits)

lemma impact_shown: "derive_impact inp a s c u = (x, es) \<Longrightarrow> i \<in> set es \<Longrightarrow> shown_issue i"
  by (auto simp: derive_impact_def Let_def row_params_def split: if_splits option.splits)

lemma half_life_shown: "derive_half_life inp n = (x, es) \<Longrightarrow> i \<in> set es \<Longrightarrow> shown_issue i"
  by (auto simp: derive_half_life_def row_params_def split: if_splits option.splits)

lemmas issue_shown = anchor_shown spread_shown cap_shown ask_shown window_shown notional_shown units_shown size_shown
  impact_shown half_life_shown

lemma derive_errors:
  assumes "deriveSeries M inp = Inr r"
  shows "\<forall>i\<in>set (d_errors r). shown_issue i"
    "d_params r = None \<longleftrightarrow> d_errors r \<noteq> [] \<or> maxUnits (d_draft r) < MIN_UNITS"
    "0 < anchorVariance (d_draft r)" "0 < web_params.capVariance (d_draft r)" "0 < unitNotional (d_draft r)"
    "d_errors r = [] \<Longrightarrow> maxUnits (d_draft r) < MIN_UNITS \<Longrightarrow> overrides inp OvMaxUnits \<noteq> None \<and> 0 < maxUnits (d_draft r)"
proof -
  obtain a ae where a: "derive_anchor inp = (a, ae)" by fastforce
  obtain s se where s: "derive_spread inp = (s, se)" by fastforce
  have a0: "0 < a" by (rule derive_anchor_pos [OF a])
  obtain cap ce cw cn where c: "derive_cap M inp a = Inr (cap, ce, cw, cn)" and cap: "0 < cap"
    using derive_cap_returns [of a M inp] a0 by (metis order_less_imp_le)
  obtain N ne where N: "derive_notional inp = (N, ne)" by fastforce
  obtain u ue where u: "derive_units inp N cap = (u, ue)" by fastforce
  obtain i ie where i: "derive_impact inp a s cap u = (i, ie)" by fastforce
  obtain h he where h: "derive_half_life inp (w_interval (derive_window inp)) = (h, he)" by fastforce
  note r = assms [unfolded deriveSeries_def a s Let_def case_prod_conv c andThen_Inr N u i h, THEN Inr_inject, symmetric]
  have N0: "0 < N" by (rule derive_notional_pos [OF N])
  show "\<forall>i\<in>set (d_errors r). shown_issue i"
    using issue_shown(1) [OF a] issue_shown(2) [OF s] issue_shown(3) [OF c] issue_shown(4) [of _ a s cap] issue_shown(5) [of _ inp]
      issue_shown(6) [OF N] issue_shown(7) [OF u] issue_shown(8) [of _ inp u "committed_for u N cap"] issue_shown(9) [OF i]
      issue_shown(10) [OF h]
    by (auto simp: r row_params_def split: if_splits)
  show "0 < anchorVariance (d_draft r)" "0 < web_params.capVariance (d_draft r)" "0 < unitNotional (d_draft r)"
    "d_params r = None \<longleftrightarrow> d_errors r \<noteq> [] \<or> maxUnits (d_draft r) < MIN_UNITS"
    using a0 cap N0 by (simp_all add: r not_le)
  show "d_errors r = [] \<Longrightarrow> maxUnits (d_draft r) < MIN_UNITS \<Longrightarrow> overrides inp OvMaxUnits \<noteq> None \<and> 0 < maxUnits (d_draft r)"
    using u by (auto simp: r size_errors_def derive_units_def split: option.splits if_splits)
qed

subsection \<open>The scenarios\<close>

lemma derive_units_nonneg:
  assumes "derive_units inp N cap = (u, ue)" shows "0 \<le> u"
proof -
  have b: "0 \<le> budget_of inp" by (simp add: budget_of_def split: option.split)
  have "0 \<le> bdiv (bdiv (budget_of inp * WAD * WAD) (N * cap)) UNITS_STEP * UNITS_STEP" if "0 < N" "0 < cap"
    using that b by (intro mult_nonneg_nonneg bdiv_ge_0) (simp_all add: UNITS_STEP_def)
  then show ?thesis using assms by (auto simp: derive_units_def split: option.splits if_splits)
qed

lemma derive_impact_nonneg:
  assumes "derive_impact inp a s cap u = (i, ie)" "0 < a" "0 \<le> u"
  shows "0 \<le> i"
proof -
  have "0 < lift_bps inp" by (simp add: lift_bps_def SELLOUT_LIFT_BPS_def split: option.split)
  then have l: "0 \<le> bdiv (a * lift_bps inp) BPS" using assms(2) by (intro bdiv_ge_0) auto
  define own where "own = (if u > 0 then bdiv (min_big (bdiv (a * lift_bps inp) BPS)
    (if ask_ceiling cap s > a then ask_ceiling cap s - a else 0) * WAD) u else 0)"
  have m: "0 \<le> min_big (bdiv (a * lift_bps inp) BPS) (if ask_ceiling cap s > a then ask_ceiling cap s - a else 0)"
    using l by simp
  have o: "0 \<le> own" unfolding own_def using m assms(3) by (cases "u > 0") (simp_all add: bdiv_ge_0)
  note d = assms(1) [unfolded derive_impact_def Let_def, folded own_def]
  show ?thesis
  proof (cases "overrides inp OvImpactPerUnit")
    case (Some t)
    then show ?thesis using d o by (cases "tryParseDecimal t 18") (simp_all split: if_splits)
  qed (use d o in simp)
qed

lemma derive_readouts:
  assumes "deriveSeries M inp = Inr r"
  shows "0 \<le> d_askAtSellOut r" "0 \<le> d_premiumIfSoldOut r"
    "d_breakEvenVariance r = breakEvenVariance (d_premiumIfSoldOut r) (maxUnits (d_draft r)) (unitNotional (d_draft r))"
    "d_worstCaseNet r = d_premiumIfSoldOut r - committed_for (maxUnits (d_draft r)) (unitNotional (d_draft r)) (web_params.capVariance (d_draft r))"
proof -
  obtain a ae where a: "derive_anchor inp = (a, ae)" by fastforce
  obtain s se where s: "derive_spread inp = (s, se)" by fastforce
  have a0: "0 < a" by (rule derive_anchor_pos [OF a])
  have s0: "10 \<le> s" using derive_spread_range [OF s] by simp
  obtain cap ce cw cn where c: "derive_cap M inp a = Inr (cap, ce, cw, cn)" and cap: "0 < cap"
    using derive_cap_returns [of a M inp] a0 by (metis order_less_imp_le)
  obtain N ne where N: "derive_notional inp = (N, ne)" by fastforce
  obtain u ue where u: "derive_units inp N cap = (u, ue)" by fastforce
  obtain i ie where i: "derive_impact inp a s cap u = (i, ie)" by fastforce
  obtain h he where h: "derive_half_life inp (w_interval (derive_window inp)) = (h, he)" by fastforce
  note r = assms [unfolded deriveSeries_def a s Let_def case_prod_conv c andThen_Inr N u i h, THEN Inr_inject, symmetric]
  have N0: "0 < N" by (rule derive_notional_pos [OF N])
  have u0: "0 \<le> u" by (rule derive_units_nonneg [OF u])
  have i0: "0 \<le> i" by (rule derive_impact_nonneg [OF i a0 u0])
  have "0 \<le> variance_at_sell_out a i u"
    unfolding variance_at_sell_out_def using a0 i0 u0 by (intro add_nonneg_nonneg bdiv_ge_0) auto
  then have "0 \<le> ask_at_sell_out (variance_at_sell_out a i u) cap s"
    unfolding ask_at_sell_out_def using cap s0 by (intro ceilDiv_ge_0 mult_nonneg_nonneg) auto
  then show "0 \<le> d_askAtSellOut r" by (simp add: r)
  define ask where "ask = min_big (ask_at a s) cap"
  define slope where "slope = bdiv (i * (BPS + s)) BPS"
  have "0 \<le> ask_at a s" unfolding ask_at_def using a0 s0 by (intro ceilDiv_ge_0 mult_nonneg_nonneg) auto
  then have ask0: "0 \<le> ask" using cap by (simp add: ask_def)
  have sl0: "0 \<le> slope" unfolding slope_def using i0 s0 by (intro bdiv_ge_0 mult_nonneg_nonneg) auto
  have "0 \<le> ceilDiv (slope * u * u) (2 * WAD)" using sl0 u0 by (intro ceilDiv_ge_0) auto
  then have "0 \<le> N * (ask * u + ceilDiv (slope * u * u) (2 * WAD))" using N0 ask0 u0 by (intro mult_nonneg_nonneg add_nonneg_nonneg) auto
  then have "0 \<le> issuePremium_web N ask slope u" by (simp add: issuePremium_web_def Let_def ceilDiv_ge_0)
  then show "0 \<le> d_premiumIfSoldOut r" by (simp add: r ask_def slope_def)
  show "d_breakEvenVariance r = breakEvenVariance (d_premiumIfSoldOut r) (maxUnits (d_draft r)) (unitNotional (d_draft r))"
    "d_worstCaseNet r = d_premiumIfSoldOut r - committed_for (maxUnits (d_draft r)) (unitNotional (d_draft r)) (web_params.capVariance (d_draft r))"
    by (simp_all add: r)
qed

lemma capped_payout_le_committed:
  assumes "0 \<le> u" "0 < N" "0 < cap"
  shows "payoutFor u (bdiv (N * cap) WAD) \<le> committed_for u N cap"
proof (cases "u = 0")
  case False
  define q where "q = bdiv (N * cap) WAD"
  define y where "y = bdiv (u * q) WAD"
  have q0: "0 \<le> q" unfolding q_def using assms by (intro bdiv_ge_0) auto
  have "q * WAD \<le> N * cap" unfolding q_def using assms by (intro bdiv_mult_le) auto
  moreover have "y * WAD \<le> u * q" unfolding y_def using q0 assms by (intro bdiv_mult_le) auto
  ultimately have "y * WAD * WAD \<le> u * (N * cap)"
    using assms by (smt (verit, ccfv_threshold) WAD_pos mult.assoc mult_left_mono mult_right_mono)
  also have "\<dots> = u * N * cap" by (simp add: mult.assoc)
  also have "\<dots> \<le> ceilDiv (u * N * cap) (WAD * WAD) * (WAD * WAD)"
    using assms by (intro ceilDiv_mult_ge) auto
  finally have "y * (WAD * WAD) \<le> ceilDiv (u * N * cap) (WAD * WAD) * (WAD * WAD)" by (simp add: mult.assoc)
  then have "y \<le> ceilDiv (u * N * cap) (WAD * WAD)" by (rule mult_right_le_imp_le) simp
  then show ?thesis using assms False by (simp add: payoutFor_def committed_for_def y_def q_def)
qed (simp add: payoutFor_def committed_for_def)

text \<open>C34: In a design the derivation hands out, the scenarios of the payoff table are worth what they say: calm
  keeps the whole premium; at the break-even variance the writer neither loses anything nor keeps more than the
  rounding of one base unit, of the per-unit price and of the variance; and at the cap the writer loses at most
  the worst case the ticket names.\<close>

theorem scenario_nets:
  assumes "deriveSeries M inp = Inr d" "d_params d = Some p"
  shows "\<exists>calm even worst. map sc_net (scenario_rows d) = [calm, even, worst] \<and> calm = d_premiumIfSoldOut d
    \<and> 0 \<le> even \<and> (even - 1) * (WAD * WAD) < maxUnits p * WAD + maxUnits p * unitNotional p \<and> even \<le> calm
    \<and> d_worstCaseNet d \<le> worst"
proof -
  note e = derive_errors [OF assms(1)] and r = derive_readouts [OF assms(1)]
  have u: "0 < maxUnits (d_draft d)" and p: "p = d_draft d"
    using e(2) assms(2) deriveSeries_sections [OF assms(1), of "p = d_draft d"] by (auto simp: MIN_UNITS_def WAD_def)
  note b = breakEven_bounds [OF r(2) u e(5), folded r(3)]
  have "0 \<le> payoutFor (maxUnits p) (perUnitPrice_web (unitNotional p) (d_breakEvenVariance d))"
    using r(2,3) u e(5)
    by (auto simp: payoutFor_def perUnitPrice_web_def breakEvenVariance_def p intro!: bdiv_ge_0 mult_nonneg_nonneg)
  then show ?thesis
    using b capped_payout_le_committed [of "maxUnits p" "unitNotional p" "web_params.capVariance p"] u e
    by (simp add: scenario_rows_def Let_def p r(4) maxPayoutPerUnit_web_def)
qed

theorem scenario_nets_witness:
  "\<exists>d. deriveSeries plain_math (Web_Derive.demo_input demo_overrides) = Inr d \<and> d_worstCaseNet d \<le> sc_net (scenario_rows d ! 2)"
proof -
  obtain d where d: "deriveSeries plain_math (Web_Derive.demo_input demo_overrides) = Inr d"
    "d_params d = Some (demo_derived 3600 90000 25200 5400)"
    using derivesD [OF demo_derives] by blast
  show ?thesis using scenario_nets [OF d] d by (auto simp: scenario_rows_def Let_def)
qed

subsection \<open>The rows and their issues\<close>

lemma fmtVolPct_returns:
  assumes "0 \<le> v" obtains t where "fmtVolPct M v m = Inr t"
proof -
  obtain w where "sqrtWad M v = Inr w" using sqrtWad_exact [OF assms] by metis
  then show thesis using that by (simp add: fmtVolPct_def)
qed

lemma ar_names [simp]: "ar_name (param_row d ov k n v rd c) = n" "ar_name (fixed_row n v rd) = n"
  "ar_issues (param_row d ov k n v rd c) = issuesFor d n"
  by (simp_all add: param_row_def fixed_row_def)

lemma advanced_rows_return:
  assumes "deriveSeries M inp = Inr d"
  obtains rows where "advanced_rows M C d W = Inr rows" "map ar_name rows = [''feed'', ''quoteToken''] @ row_params"
    "\<forall>p\<in>set row_params. \<exists>r\<in>set rows. ar_name r = p \<and> ar_issues r = issuesFor d p"
proof -
  note e = derive_errors [OF assms] and r = derive_readouts [OF assms]
  obtain c1 where c1: "fmtVolPct M (web_params.capVariance (d_draft d)) 1 = Inr c1"
    using fmtVolPct_returns [OF order_less_imp_le [OF e(4)]] by metis
  obtain c2 where c2: "fmtVolPct M (web_params.capVariance (d_draft d)) 2 = Inr c2"
    using fmtVolPct_returns [OF order_less_imp_le [OF e(4)]] by metis
  obtain a1 where a1: "fmtVolPct M (anchorVariance (d_draft d)) 1 = Inr a1" using fmtVolPct_returns [OF order_less_imp_le [OF e(3)]] by metis
  obtain a2 where a2: "fmtVolPct M (anchorVariance (d_draft d)) 2 = Inr a2" using fmtVolPct_returns [OF order_less_imp_le [OF e(3)]] by metis
  obtain s where s: "fmtVolPct M (d_askAtSellOut d) 1 = Inr s" using fmtVolPct_returns [OF r(1)] by metis
  define own where "own = (\<lambda>r :: adv_row. ar_name r \<in> set row_params \<longrightarrow> ar_issues r = issuesFor d (ar_name r))"
  have own: "own (param_row d ov k n v rd c)" "own (fixed_row ''feed'' v rd)" "own (fixed_row ''quoteToken'' v rd)" for ov k n v rd c
    by (simp_all add: own_def row_params_def fixed_row_def)
  obtain ps where ps: "price_rows M d (wz_overrides W) (wz_customVolPct W) = Inr ps"
    unfolding price_rows_def Let_def c1 c2 a1 a2 andThen_Inr by blast
  note pl = ps [unfolded price_rows_def Let_def c1 c2 a1 a2 andThen_Inr, THEN Inr_inject, symmetric]
  obtain ss where ss: "size_rows M d (wz_overrides W) = Inr ss"
    unfolding size_rows_def Let_def s andThen_Inr by blast
  note sl = ss [unfolded size_rows_def Let_def s andThen_Inr, THEN Inr_inject, symmetric]
  define ws where "ws = window_rows C d (wz_overrides W) (wz_tenorDays W)"
  note wl = ws_def [unfolded window_rows_def Let_def]
  have mine: "list_all own ws" "list_all own ps" "list_all own ss"
    by (simp_all only: wl pl sl list.pred_inject own simp_thms)
  have names: "map ar_name (ws @ ps @ ss) = [''feed'', ''quoteToken''] @ row_params"
    by (simp only: wl pl sl list.map map_append ar_names append_Cons append_Nil row_params_def)
  have "\<exists>r\<in>set (ws @ ps @ ss). ar_name r = p \<and> ar_issues r = issuesFor d p" if p: "p \<in> set row_params" for p
  proof -
    have "p \<in> set (map ar_name (ws @ ps @ ss))" unfolding names using p by simp
    then obtain r where "r \<in> set (ws @ ps @ ss)" "ar_name r = p" by auto
    moreover from this have "own r" using mine by (auto simp: list_all_iff)
    ultimately show ?thesis using p by (auto simp: own_def)
  qed
  moreover have "advanced_rows M C d W = Inr (ws @ ps @ ss)"
    by (simp add: advanced_rows_def ps ss ws_def)
  ultimately show thesis using that names by blast
qed

text \<open>C35: No error of the advanced parameters is hidden: whatever the decisions and the overrides, the rows can be
  shown, an advanced error opens the disclosure, and every one of them is listed, as an error, under the row of
  the parameter it names.\<close>

theorem advanced_errors_shown:
  assumes "deriveSeries M inp = Inr d"
  shows "\<exists>rows. advanced_rows M C d W = Inr rows
    \<and> (\<forall>i\<in>set (d_errors d). issue_where i = Advanced \<longrightarrow>
         fst (open_on_error d (is_open, nudged, n)) \<and> (\<exists>r\<in>set rows. issue_param i = Some (ar_name r) \<and> (issue_id i, True) \<in> set (fst (ar_issues r))))"
proof -
  obtain rows where rows: "advanced_rows M C d W = Inr rows"
    "\<forall>p\<in>set row_params. \<exists>r\<in>set rows. ar_name r = p \<and> ar_issues r = issuesFor d p"
    by (rule advanced_rows_return [OF assms])
  have "fst (open_on_error d (is_open, nudged, n))" "\<exists>r\<in>set rows. issue_param i = Some (ar_name r) \<and> (issue_id i, True) \<in> set (fst (ar_issues r))"
    if i: "i \<in> set (d_errors d)" "issue_where i = Advanced" for i
  proof -
    show "fst (open_on_error d (is_open, nudged, n))"
      using i by (auto simp: open_on_error_def hasAdvError_def list_ex_iff)
    obtain p where "p \<in> set row_params" "issue_param i = Some p"
      using derive_errors(1) [OF assms] i by (auto simp: shown_issue_def)
    then show "\<exists>r\<in>set rows. issue_param i = Some (ar_name r) \<and> (issue_id i, True) \<in> set (fst (ar_issues r))"
      using rows(2) i by (fastforce simp: issuesFor_def Let_def)
  qed
  then show ?thesis using rows(1) by blast
qed

text \<open>A design whose number of units cannot be read, and one that asks for half a unit.\<close>

definition bad_units :: derive_input where
  "bad_units = Web_Derive.demo_input (\<lambda>k. if k = OvMaxUnits then Some ''0'' else demo_overrides k)"

lemma bad_units_errors:
  "(case deriveSeries plain_math bad_units of Inl e \<Rightarrow> False | Inr d \<Rightarrow> d_errors d = [advanced ''units-parse'' ''maxUnits''])"
  by code_simp

definition demo_calendar :: calendar where
  "demo_calendar = \<lparr>fmtDateTime = dec_string, local_fields = (\<lambda>ts. (1970, 1, 1, 0, 0)), date_time = (\<lambda>v. None)\<rparr>"

theorem advanced_errors_shown_witness:
  "\<exists>d rows. deriveSeries plain_math bad_units = Inr d \<and> advanced_rows plain_math demo_calendar d demo_wizard = Inr rows
     \<and> (\<exists>r\<in>set rows. ar_name r = ''maxUnits'' \<and> (''units-parse'', True) \<in> set (fst (ar_issues r)))"
proof -
  obtain d where d: "deriveSeries plain_math bad_units = Inr d" "d_errors d = [advanced ''units-parse'' ''maxUnits'']"
    using bad_units_errors by (auto split: sum.splits)
  show ?thesis using advanced_errors_shown [OF d(1), of demo_calendar demo_wizard False False 0] d by (auto simp: advanced_def)
qed

definition half_unit :: derive_input where
  "half_unit = Web_Derive.demo_input (\<lambda>k. if k = OvMaxUnits then Some ''0.5'' else demo_overrides k)"

lemma half_unit_blocked:
  "(case deriveSeries plain_math half_unit of Inl e \<Rightarrow> False
    | Inr d \<Rightarrow> d_params d = None \<and> d_errors d = [] \<and> maxUnits (d_draft d) = 5 * 10 ^ 17
        \<and> write_blocker demo_reads d = Some ''Fix Advanced'')"
  by code_simp

text \<open>The derivation hands out no parameters exactly when it has an error to show, or when the number of units
  is overridden with a positive number below one, which no message explains.\<close>

theorem form_blocked_exactly:
  assumes "deriveSeries M inp = Inr d"
  shows "d_params d = None \<longleftrightarrow> d_errors d \<noteq> []
    \<or> overrides inp OvMaxUnits \<noteq> None \<and> 0 < maxUnits (d_draft d) \<and> maxUnits (d_draft d) < MIN_UNITS"
  using derive_errors(2,6) [OF assms] by blast

theorem form_blocked_exactly_witness:
  "\<exists>d. deriveSeries plain_math half_unit = Inr d \<and> d_errors d = [] \<and> d_params d = None"
proof -
  obtain d where d: "deriveSeries plain_math half_unit = Inr d" "d_errors d = []" "maxUnits (d_draft d) = 5 * 10 ^ 17"
    using half_unit_blocked by (auto split: sum.splits)
  show ?thesis using form_blocked_exactly [OF d(1)] d by (simp add: half_unit_def Web_Derive.demo_input_def MIN_UNITS_def WAD_def)
qed

text \<open>The labels of the sampling intervals count the samples of the window decision, not of the window: under an
  override of two days the hourly grid has 48 samples and its label says 24.\<close>

lemma interval_labels_ignore_override:
  "(case deriveSeries plain_math (Web_Derive.demo_input (\<lambda>k. if k = OvTenorDays then Some ''2'' else demo_overrides k)) of Inl e \<Rightarrow> False
    | Inr d \<Rightarrow> web_params.sampleInterval (d_draft d) = 3600 \<and> d_samples d = 48)
    \<and> map_of (interval_options 1) ''3600'' = Some (''1h '' @ mid_dot @ '' 24 samples'')"
  by code_simp

subsection \<open>The custom impact\<close>

lemma parse_plain: "parseDecimal (remove_char (CHR '','') (formatFixed v d opts)) d =
    Inr (if v < 0 then - fmt_kept d opts (- v) else fmt_kept d opts v)"
  by (simp add: ungroup format_parse fmt_kept_def fmt_round_def)

text \<open>Choosing the custom price impact writes the current impact into the field with eight decimals, and the
  derivation reads it back without an error, within half a unit of the eighth decimal, unless it rests within
  that of the cap.\<close>

theorem custom_impact_keeps:
  assumes "0 \<le> impactPerUnit (d_draft d)" "impactPerUnit (d_draft d) + 5 * 10 ^ 9 \<le> cap"
  shows "\<exists>x. derive_impact (wizard_input FEED QUOTE R (pick_lift d ''custom'' W)) a s cap u = (x, [])
     \<and> 2 * \<bar>x - impactPerUnit (d_draft d)\<bar> \<le> 10 ^ 10"
proof -
  define i where "i = impactPerUnit (d_draft d)"
  define o8 where "o8 = fmt_default\<lparr>maxFrac := 8\<rparr>"
  define x where "x = fmt_kept 18 o8 i"
  have b: "2 * \<bar>x - i\<bar> \<le> 10 ^ 10"
    using fmt_kept_rounded [of i o8 18] assms(1) by (simp add: x_def i_def o8_def fmt_default_def)
  have x0: "0 \<le> x"
    using fmt_round_nonneg [of i 18 o8] assms(1) by (simp add: x_def i_def fmt_kept_def pos_imp_zdiv_nonneg_iff)
  have "parseDecimal (remove_char (CHR '','') (fmtWad i 8)) 18 = Inr x"
    using assms(1) unfolding fmtWad_def o8_def [symmetric] by (simp add: parse_plain x_def i_def)
  then have t: "tryParseDecimal (remove_char (CHR '','') (fmtWad i 8)) 18 = Some x" by (simp add: tryParseDecimal_def)
  have "x \<le> cap" using b assms(2) by (simp add: i_def)
  then show ?thesis
    using t x0 b by (simp add: derive_impact_def Let_def wizard_input_def pick_lift_def setOverride_def i_def)
qed

theorem custom_impact_keeps_witness:
  "\<exists>d x. d_params d = Some (demo_derived 3600 90000 25200 5400)
     \<and> derive_impact (wizard_input ''0x01'' ''0x02'' demo_reads (pick_lift d ''custom'' demo_wizard)) (16 * 10 ^ 16) 200 (10 ^ 18) (20 * 10 ^ 18) = (x, [])
     \<and> 2 * \<bar>x - 4 * 10 ^ 15\<bar> \<le> 10 ^ 10"
proof -
  obtain d where d: "deriveSeries plain_math (Web_Derive.demo_input demo_overrides) = Inr d"
    "d_params d = Some (demo_derived 3600 90000 25200 5400)"
    using derivesD [OF demo_derives] by blast
  have "d_draft d = demo_derived 3600 90000 25200 5400"
    using deriveSeries_sections [OF d(1), of "d_draft d = demo_derived 3600 90000 25200 5400"] d(2) by fastforce
  then have i: "impactPerUnit (d_draft d) = 4 * 10 ^ 15" by (simp add: demo_derived_def)
  show ?thesis
    using custom_impact_keeps [of d "10 ^ 18" "''0x01''" "''0x02''" demo_reads demo_wizard "16 * 10 ^ 16" 200 "20 * 10 ^ 18"] d(2)
    by (auto simp: i)
qed

end
