(* ===== verification/Web_Pair_Charts.thy ===== *)
theory Web_Pair_Charts
  imports Web_Group_Tickets
begin

text \<open>
  What the page of a paired market draws: the trajectory of \<open>PairMarketChart\<close>, the figures of
  \<open>LivePairPricingCard\<close> and of \<open>PortfolioSummaryCard\<close> (\<open>web/src/components/pairs\<close>), and the two number helpers of
  \<open>web/src/lib/format.ts\<close> they use. The clock is zero until the page is mounted; the indexed checkpoints and the
  chain's realized variance are the answers of their queries.
\<close>

subsection \<open>Numbers for charts\<close>

definition usdcNumber :: "int \<Rightarrow> rat" where
  "usdcNumber v = toNumber v 6"

definition volPctNumber :: "js_math \<Rightarrow> int \<Rightarrow> rat" where
  "volPctNumber M v = fl (math_sqrt M (wadNumber v) * 100)"

text \<open>\<open>+x.toFixed(d)\<close>: the number the decimal text denotes.\<close>

definition fixed_number :: "nat \<Rightarrow> rat \<Rightarrow> rat" where
  "fixed_number d x = (let n = fl (of_int \<lfloor>\<bar>x\<bar> * 10 ^ d + 1/2\<rfloor> / 10 ^ d) in if x < 0 then - n else n)"

subsection \<open>What a unit is worth at a variance\<close>

text \<open>The three components that show it compute it with the same expressions.\<close>

record indicative =
  in_x :: int
  in_high :: int
  in_calm :: int

definition indicative_at :: "group_params \<Rightarrow> int \<Rightarrow> indicative" where
  "indicative_at p v =
     (let cap = group_params.capVariance p; S = capPayoutPerUnit p;
          x = (if cap > 0 then min_big (bdiv (v * WAD) cap) WAD else 0);
          h = bdiv (S * x) WAD
      in \<lparr>in_x = x, in_high = h, in_calm = S - h\<rparr>)"

subsection \<open>The trajectory\<close>

record pair_checkpoint =
  pc_processedThrough :: int
  pc_sumSquaredReturns :: int

record pair_point =
  pp_t :: int
  pp_high :: rat
  pp_calm :: rat
  pp_vol :: rat
  pp_variance :: int

definition point_at :: "js_math \<Rightarrow> group_params \<Rightarrow> int \<Rightarrow> int \<Rightarrow> pair_point" where
  "point_at M p t v =
     (let w = indicative_at p v in
      \<lparr>pp_t = t, pp_high = usdcNumber (in_high w), pp_calm = usdcNumber (in_calm w),
       pp_vol = fixed_number 2 (volPctNumber M v), pp_variance = v\<rparr>)"

definition checkpoint_variance :: "group_params \<Rightarrow> pair_checkpoint \<Rightarrow> int" where
  "checkpoint_variance p c =
     (let elapsed = pc_processedThrough c - group_params.start p; total = pc_sumSquaredReturns c in
      if elapsed > 0 \<and> total > 0 then bdiv (total * 31536000) elapsed else 0)"

definition first_point :: "group_params \<Rightarrow> pair_point" where
  "first_point p = \<lparr>pp_t = group_params.start p, pp_high = 0, pp_calm = usdcNumber (capPayoutPerUnit p), pp_vol = 0, pp_variance = 0\<rparr>"

definition checkpoint_points :: "js_math \<Rightarrow> group_params \<Rightarrow> pair_checkpoint list option \<Rightarrow> pair_point list" where
  "checkpoint_points M p cps =
     map (\<lambda>c. point_at M p (pc_processedThrough c) (checkpoint_variance p c))
       (filter (\<lambda>c. \<not> pc_processedThrough c \<le> group_params.start p) (case cps of None \<Rightarrow> [] | Some l \<Rightarrow> l))"

definition last_point :: "js_math \<Rightarrow> group_state \<Rightarrow> int option \<Rightarrow> int \<Rightarrow> pair_point list" where
  "last_point M g realized now =
     (let p = group_state.params g in
      if finalized g
      then [\<lparr>pp_t = group_params.expiry p, pp_high = usdcNumber (highPpu g), pp_calm = usdcNumber (calmPpu g),
             pp_vol = fixed_number 2 (volPctNumber M (group_state.finalVariance g)), pp_variance = group_state.finalVariance g\<rparr>]
      else if now \<noteq> 0 \<and> now > group_params.start p
      then [point_at M p (min now (group_params.expiry p)) (or_zero realized)]
      else [])"

text \<open>One point for each time, the first of them in the order of the sort.\<close>

fun first_at :: "int set \<Rightarrow> pair_point list \<Rightarrow> pair_point list" where
  "first_at seen [] = []"
| "first_at seen (q # qs) =
     (if pp_t q \<in> seen then first_at seen qs else q # first_at (insert (pp_t q) seen) qs)"

definition with_end :: "int \<Rightarrow> pair_point list \<Rightarrow> pair_point list" where
  "with_end t qs = (if length qs = 1 then qs @ [(hd qs)\<lparr>pp_t := t\<rparr>] else qs)"

definition pair_points :: "js_math \<Rightarrow> group_state \<Rightarrow> pair_checkpoint list option \<Rightarrow> int option \<Rightarrow> int \<Rightarrow> pair_point list" where
  "pair_points M g cps realized now =
     (let p = group_state.params g in
      with_end (group_params.expiry p)
        (first_at {} (js_sort (\<lambda>a b. pp_t a - pp_t b)
          (first_point p # checkpoint_points M p cps @ last_point M g realized now))))"

subsection \<open>The pricing card\<close>

record live_card =
  lc_variance :: int
  lc_value :: indicative
  lc_spreadHigh :: int
  lc_spreadCalm :: int
  lc_highPct :: rat
  lc_calmPct :: rat

definition live_pricing :: "group_state \<Rightarrow> int option \<Rightarrow> live_card" where
  "live_pricing g realized =
     (let p = group_state.params g;
          v = (if finalized g then group_state.finalVariance g else or_zero realized);
          w = (if finalized g then \<lparr>in_x = xWad g, in_high = highPpu g, in_calm = calmPpu g\<rparr> else indicative_at p v);
          hp = fl (js_Number (in_x w) / 10 ^ 16)
      in \<lparr>lc_variance = v, lc_value = w,
          lc_spreadHigh = (if askHigh p > bidHigh p then askHigh p - bidHigh p else 0),
          lc_spreadCalm = (if askCalm p > bidCalm p then askCalm p - bidCalm p else 0),
          lc_highPct = hp, lc_calmPct = max 0 (fl (100 - hp))\<rparr>)"

definition bar_width :: "rat \<Rightarrow> rat" where
  "bar_width pct = max 1 (min 99 pct)"

definition split_text :: "group_state \<Rightarrow> indicative \<Rightarrow> string" where
  "split_text g w = ''$'' @ fmtPriceUsdc (in_high w) 6 @ '' + $'' @ fmtPriceUsdc (in_calm w) 6 @ '' = $''
     @ fmtPriceUsdc (capPayoutPerUnit (group_state.params g)) 6 @ '' USDC''"

subsection \<open>The reserve card\<close>

record reserve_card =
  rc_standalone :: int
  rc_saved :: int
  rc_pct :: rat
  rc_free :: "int option"
  rc_backed :: bool

definition reserve_figures :: "group_state \<Rightarrow> (int \<times> int) option \<Rightarrow> reserve_card" where
  "reserve_figures g vault =
     (let standalone = (if standaloneCaps g > 0 then standaloneCaps g
            else standaloneCapsFor (highOutstanding g) (calmOutstanding g) (capPayoutPerUnit (group_state.params g)))
      in \<lparr>rc_standalone = standalone,
          rc_saved = (if standalone > reserveLocked g then standalone - reserveLocked g else 0),
          rc_pct = (if standalone > 0 then fl (js_Number (bdiv (reserveLocked g * 10000) standalone) / 100) else 0),
          rc_free = (case vault of None \<Rightarrow> None | Some (balance, locked) \<Rightarrow> Some (if balance > locked then balance - locked else 0)),
          rc_backed = (case vault of None \<Rightarrow> False | Some (balance, locked) \<Rightarrow> balance \<ge> locked)\<rparr>)"

subsection \<open>What the charts promise\<close>

lemma indicative_splits:
  assumes "0 \<le> capPayoutPerUnit p" "0 \<le> v"
  shows "in_high (indicative_at p v) + in_calm (indicative_at p v) = capPayoutPerUnit p"
    and "0 \<le> in_high (indicative_at p v)" "0 \<le> in_calm (indicative_at p v)"
proof -
  define x where "x = in_x (indicative_at p v)"
  have x: "0 \<le> x" "x \<le> WAD"
    using assms(2) by (auto simp: x_def indicative_at_def Let_def min_big_def intro!: bdiv_ge_0)
  have h: "in_high (indicative_at p v) = bdiv (capPayoutPerUnit p * x) WAD"
    and c: "in_calm (indicative_at p v) = capPayoutPerUnit p - bdiv (capPayoutPerUnit p * x) WAD"
    by (simp_all add: x_def indicative_at_def Let_def)
  have "capPayoutPerUnit p * x \<le> capPayoutPerUnit p * WAD" using assms(1) x(2) by (intro mult_left_mono) auto
  then have "bdiv (capPayoutPerUnit p * x) WAD \<le> bdiv (capPayoutPerUnit p * WAD) WAD"
    using assms(1) x(1) by (intro bdiv_mono) auto
  also have "\<dots> = capPayoutPerUnit p" using assms(1) by (simp add: bdiv_nonneg)
  finally show "0 \<le> in_calm (indicative_at p v)" unfolding c by simp
  show "0 \<le> in_high (indicative_at p v)" unfolding h using assms(1) x(1) by (intro bdiv_ge_0) auto
  show "in_high (indicative_at p v) + in_calm (indicative_at p v) = capPayoutPerUnit p" unfolding h c by simp
qed

lemma checkpoint_variance_nonneg: "0 \<le> checkpoint_variance p c"
  by (auto simp: checkpoint_variance_def Let_def intro!: bdiv_ge_0)

lemma first_at_set: "set (first_at seen qs) \<subseteq> set qs"
  by (induction seen qs rule: first_at.induct) auto

lemma first_at_fresh: "q \<in> set (first_at seen qs) \<Longrightarrow> pp_t q \<notin> seen"
  by (induction seen qs rule: first_at.induct) (auto split: if_splits)

text \<open>On points in the order of their times the duplicates removed leave times that grow strictly.\<close>

lemma first_at_increasing:
  "sorted (map pp_t qs) \<Longrightarrow> sorted_wrt (<) (map pp_t (first_at seen qs))"
proof (induction seen qs rule: first_at.induct)
  case (2 seen q qs)
  show ?case
  proof (cases "pp_t q \<in> seen")
    case False
    have "pp_t q < pp_t r" if r: "r \<in> set (first_at (insert (pp_t q) seen) qs)" for r
      using first_at_fresh [OF r] first_at_set [of "insert (pp_t q) seen" qs] r "2.prems" by force
    then show ?thesis using False 2 by auto
  qed (use 2 in auto)
qed simp

lemma by_time: "js_sort (\<lambda>a b. pp_t a - pp_t b) qs = sort_key pp_t qs"
  by (rule js_sort_key) auto

text \<open>The points are drawn from a pair of payouts that add up.\<close>

definition pair_at :: "int \<Rightarrow> pair_point \<Rightarrow> bool" where
  "pair_at S q \<longleftrightarrow> (\<exists>h c. 0 \<le> h \<and> 0 \<le> c \<and> h + c = S \<and> pp_high q = usdcNumber h \<and> pp_calm q = usdcNumber c)"

lemma point_at_pair: "0 \<le> capPayoutPerUnit p \<Longrightarrow> 0 \<le> v \<Longrightarrow> pair_at (capPayoutPerUnit p) (point_at M p t v)"
  using indicative_splits [of p v] by (auto simp: pair_at_def point_at_def Let_def)

lemma usdcNumber_0 [simp]: "usdcNumber 0 = 0"
  by (simp add: usdcNumber_def toNumber_def js_Number_def)

lemma pair_points_shape:
  assumes "\<forall>q\<in>set (checkpoint_points M p cps @ last_point M g realized now). group_params.start p < pp_t q"
    and "group_state.params g = p"
  shows "\<exists>qs. pair_points M g cps realized now = with_end (group_params.expiry p) (first_point p # qs)
     \<and> set qs \<subseteq> set (checkpoint_points M p cps @ last_point M g realized now)
     \<and> sorted_wrt (<) (map pp_t (first_point p # qs))"
proof -
  define rest where "rest = checkpoint_points M p cps @ last_point M g realized now"
  define qs where "qs = first_at {group_params.start p} (sort_key pp_t rest)"
  have t: "pp_t (first_point p) = group_params.start p" by (simp add: first_point_def)
  have "insort_key pp_t (first_point p) (sort_key pp_t rest) = first_point p # sort_key pp_t rest"
    using assms(1) by (intro insort_is_Cons) (auto simp: t rest_def intro!: less_imp_le)
  then have srt: "sort_key pp_t (first_point p # rest) = first_point p # sort_key pp_t rest" by simp
  have e: "first_at {} (sort_key pp_t (first_point p # rest)) = first_point p # qs" unfolding srt by (simp add: t qs_def)
  have "sorted_wrt (<) (map pp_t (first_at {} (sort_key pp_t (first_point p # rest))))"
    by (rule first_at_increasing) (rule sorted_sort_key)
  then have s: "sorted_wrt (<) (map pp_t (first_point p # qs))" unfolding e .
  have "set qs \<subseteq> set rest" unfolding qs_def using first_at_set [of "{group_params.start p}" "sort_key pp_t rest"] by simp
  then show ?thesis
    using s e by (intro exI [of _ qs]) (simp add: pair_points_def by_time assms(2) rest_def del: sort_key_simps)
qed

definition checkpoints_in :: "group_params \<Rightarrow> pair_checkpoint list option \<Rightarrow> bool" where
  "checkpoints_in p cps = list_all (\<lambda>c. pc_processedThrough c \<le> group_params.expiry p) (case cps of None \<Rightarrow> [] | Some l \<Rightarrow> l)"

text \<open>What the chart relies on: a window that is not empty, checkpoints within it, a chain that answers with a
  variance, and a finalized group whose payouts add up.\<close>

definition chartable :: "group_state \<Rightarrow> pair_checkpoint list option \<Rightarrow> int option \<Rightarrow> bool" where
  "chartable g cps realized \<longleftrightarrow>
     group_params.start (group_state.params g) < group_params.expiry (group_state.params g)
     \<and> checkpoints_in (group_state.params g) cps \<and> 0 \<le> capPayoutPerUnit (group_state.params g) \<and> 0 \<le> or_zero realized
     \<and> (finalized g \<longrightarrow> 0 \<le> highPpu g \<and> 0 \<le> calmPpu g \<and> highPpu g + calmPpu g = capPayoutPerUnit (group_state.params g))"

lemma points_in_window:
  assumes "chartable g cps realized" "p = group_state.params g"
    and "q \<in> set (checkpoint_points M p cps @ last_point M g realized now)"
  shows "group_params.start p < pp_t q \<and> pp_t q \<le> group_params.expiry p \<and> pair_at (capPayoutPerUnit p) q"
proof -
  consider "q \<in> set (checkpoint_points M p cps)" | "q \<in> set (last_point M g realized now)" using assms(3) by auto
  then show ?thesis
  proof cases
    case 1
    then obtain c where "c \<in> set (case cps of None \<Rightarrow> [] | Some l \<Rightarrow> l)" "group_params.start p < pc_processedThrough c"
      "q = point_at M p (pc_processedThrough c) (checkpoint_variance p c)"
      by (auto simp: checkpoint_points_def not_le)
    then show ?thesis
      using assms(1,2) point_at_pair [of p "checkpoint_variance p c"] checkpoint_variance_nonneg [of p c]
      by (auto simp: chartable_def checkpoints_in_def list_all_iff point_at_def Let_def)
  next
    case 2
    show ?thesis
    proof (cases "finalized g")
      case True
      then show ?thesis using 2 assms(1,2) by (auto simp: last_point_def Let_def chartable_def pair_at_def)
    next
      case False
      then have "q = point_at M p (min now (group_params.expiry p)) (or_zero realized)" "group_params.start p < now"
        using 2 assms(2) by (auto simp: last_point_def Let_def split: if_splits)
      then show ?thesis
        using assms(1,2) point_at_pair [of p "or_zero realized"] by (auto simp: chartable_def point_at_def Let_def)
    qed
  qed
qed

text \<open>C37: The trajectory of a paired market whose state is one the contracts can report (a window of positive length,
  a cap payout and a measured variance that are not negative, once finalized a pair of payouts that are not
  negative and sum to the cap payout, and indexed checkpoints no later than the expiry) is one a chart can draw and the market can pay: its points, at least two
  of them, stand at strictly growing times from the start of the window to at most its expiry, it begins with
  HIGH at nothing and CALM at the cap payout, and at every point the two prices are those of payouts that are
  not negative and add up to exactly the cap payout.\<close>

theorem pair_chart_sound:
  assumes "chartable g cps realized"
  shows "sorted_wrt (<) (map pp_t (pair_points M g cps realized now)) \<and> 2 \<le> length (pair_points M g cps realized now)
    \<and> hd (pair_points M g cps realized now) = first_point (group_state.params g)
    \<and> list_all (\<lambda>q. group_params.start (group_state.params g) \<le> pp_t q \<and> pp_t q \<le> group_params.expiry (group_state.params g)
         \<and> pair_at (capPayoutPerUnit (group_state.params g)) q) (pair_points M g cps realized now)"
proof -
  define p where "p = group_state.params g"
  have w: "group_params.start p < group_params.expiry p" "0 \<le> capPayoutPerUnit p" using assms by (simp_all add: chartable_def p_def)
  note inw = points_in_window [OF assms p_def]
  obtain qs where qs: "pair_points M g cps realized now = with_end (group_params.expiry p) (first_point p # qs)"
    "set qs \<subseteq> set (checkpoint_points M p cps @ last_point M g realized now)" "sorted_wrt (<) (map pp_t (first_point p # qs))"
    using pair_points_shape [of M p cps g realized now] inw p_def by blast
  have z: "pair_at (capPayoutPerUnit p) q" if "pp_high q = 0" "pp_calm q = usdcNumber (capPayoutPerUnit p)" for q
    unfolding pair_at_def by (rule exI [of _ 0], rule exI [of _ "capPayoutPerUnit p"]) (use that w(2) in simp)
  have f: "pp_t (first_point p) = group_params.start p" "pair_at (capPayoutPerUnit p) (first_point p)"
    "pair_at (capPayoutPerUnit p) ((first_point p)\<lparr>pp_t := t\<rparr>)" for t
    by (simp_all add: first_point_def z)
  have "list_all (\<lambda>q. group_params.start p \<le> pp_t q \<and> pp_t q \<le> group_params.expiry p \<and> pair_at (capPayoutPerUnit p) q) qs"
    unfolding list_all_iff using qs(2) inw by (blast intro: less_imp_le)
  then show ?thesis
    unfolding qs(1) p_def [symmetric] using qs(3) f w by (cases qs) (simp_all add: with_end_def)
qed

lemma price_exact: "parseDecimal (fmtPriceUsdc v 6) 6 = Inr v"
proof (cases "v = 0")
  case True
  have "parseDecimal ''0.00'' 6 = Inr 0" by code_simp
  then show ?thesis using True by (simp add: fmtPriceUsdc_def)
next
  case False
  define a where "a = (if v < 0 then - v else v)"
  define o2 where "o2 = fmt_default\<lparr>maxFrac := 2, minFrac := 2\<rparr>"
  have k: "fmt_kept 6 (fmt_default\<lparr>maxFrac := 6, minFrac := 2\<rparr>) w = w" for w
    by (rule fmt_kept_exact) simp
  have r: "fmt_kept 6 o2 w = w" if w: "0 \<le> w" "w mod 10000 = 0" for w
  proof -
    obtain m where m: "w = 10000 * m" using w(2) by (auto simp: mod_eq_0_iff_dvd)
    then have "0 \<le> m" using w(1) by simp
    then have "bdiv (w + 5000) 10000 * 10000 = w" by (simp add: bdiv_nonneg m)
    then show ?thesis by (simp add: fmt_kept_def fmt_round_def o2_def fmt_default_def Let_def bdiv_nonneg m)
  qed
  show ?thesis
  proof (cases "a < 10000 \<or> a mod 10000 \<noteq> 0")
    case True
    then have "fmtPriceUsdc v 6 = formatFixed v 6 (fmt_default\<lparr>maxFrac := 6, minFrac := 2\<rparr>)"
      using False by (auto simp only: fmtPriceUsdc_def Let_def a_def [symmetric] max.idem if_True if_False) simp_all
    then show ?thesis by (simp only: format_parse k) simp
  next
    case round: False
    then have e: "fmtPriceUsdc v 6 = formatFixed v 6 o2"
      using False by (simp add: fmtPriceUsdc_def Let_def a_def [symmetric] o2_def)
    have "fmt_kept 6 o2 a = a" using round by (intro r) (auto simp: a_def)
    then show ?thesis unfolding e format_parse by (simp add: a_def split: if_splits)
  qed
qed

definition card_figures :: "group_state \<Rightarrow> int option \<Rightarrow> indicative" where
  "card_figures g realized = lc_value (live_pricing g realized)"

lemma insort_last: "key x \<le> key z \<Longrightarrow> insort_key key x (ys @ [z]) = insort_key key x ys @ [z]"
  by (induction ys) auto

lemma sort_last: "\<forall>x\<in>set xs. key x \<le> key z \<Longrightarrow> sort_key key (xs @ [z]) = sort_key key xs @ [z]"
  by (induction xs) (simp_all add: insort_last)

lemma first_at_last:
  "pp_t z \<notin> seen \<Longrightarrow> \<forall>x\<in>set qs. pp_t x \<noteq> pp_t z \<Longrightarrow> first_at seen (qs @ [z]) = first_at seen qs @ [z]"
  by (induction seen qs rule: first_at.induct) auto

lemma first_at_nonempty: "qs \<noteq> [] \<Longrightarrow> first_at {} qs \<noteq> []"
  by (cases qs) auto

text \<open>A point later than all the others ends the chart.\<close>

lemma pair_points_last:
  assumes "last_point M g realized now = [z]" "group_state.params g = p" "group_params.start p < pp_t z"
    and "\<forall>q\<in>set (checkpoint_points M p cps). pp_t q < pp_t z"
  shows "last (pair_points M g cps realized now) = z"
proof -
  define xs where "xs = first_point p # checkpoint_points M p cps"
  have l: "\<forall>x\<in>set xs. pp_t x < pp_t z" using assms(3,4) by (simp add: xs_def first_point_def)
  then have "sort_key pp_t (xs @ [z]) = sort_key pp_t xs @ [z]" by (intro sort_last) (auto intro: less_imp_le)
  moreover have "first_at {} (sort_key pp_t xs @ [z]) = first_at {} (sort_key pp_t xs) @ [z]"
    using l by (intro first_at_last) auto
  moreover have "first_at {} (sort_key pp_t xs) \<noteq> []" by (rule first_at_nonempty) (metis length_0_conv length_sort list.distinct(1) xs_def)
  ultimately show ?thesis
    using assms(1,2) by (simp add: pair_points_def by_time xs_def [symmetric] with_end_def Let_def flip: append_Cons del: sort_key_simps)
qed

lemma card_adds_up:
  assumes "chartable g cps realized"
  shows "in_high (card_figures g realized) + in_calm (card_figures g realized) = capPayoutPerUnit (group_state.params g)"
  using assms indicative_splits [of "group_state.params g" "or_zero realized"]
  by (auto simp: card_figures_def live_pricing_def Let_def chartable_def)

text \<open>C38: The chart ends on what the pricing card shows: for the same states of the contracts (payouts of a finalized
  group that sum to the cap, checkpoints no later than the expiry), once the window has begun and past the indexed checkpoints, the
  last point stands at the time of the clock, at most the expiry, at the two prices and the variance of the
  card; and the three prices in the bar of the card, read back digit by digit, add up.\<close>


theorem pair_chart_ends_on_card:
  assumes "chartable g cps realized" "group_params.start (group_state.params g) < now" "now \<noteq> 0"
    and "list_all (\<lambda>c. pc_processedThrough c < min now (group_params.expiry (group_state.params g))) (case cps of None \<Rightarrow> [] | Some l \<Rightarrow> l)"
  shows "let w = card_figures g realized; q = last (pair_points M g cps realized now)
     in pp_t q = (if finalized g then group_params.expiry (group_state.params g) else min now (group_params.expiry (group_state.params g)))
      \<and> pp_high q = usdcNumber (in_high w) \<and> pp_calm q = usdcNumber (in_calm w)
      \<and> pp_variance q = lc_variance (live_pricing g realized)
      \<and> (\<exists>h c S. parseDecimal (fmtPriceUsdc (in_high w) 6) 6 = Inr h \<and> parseDecimal (fmtPriceUsdc (in_calm w) 6) 6 = Inr c
           \<and> parseDecimal (fmtPriceUsdc (capPayoutPerUnit (group_state.params g)) 6) 6 = Inr S \<and> h + c = S)"
proof -
  define p where "p = group_state.params g"
  have w: "group_params.start p < group_params.expiry p" using assms(1) by (simp add: chartable_def p_def)
  define z where "z = (if finalized g
    then \<lparr>pp_t = group_params.expiry p, pp_high = usdcNumber (highPpu g), pp_calm = usdcNumber (calmPpu g),
          pp_vol = fixed_number 2 (volPctNumber M (group_state.finalVariance g)), pp_variance = group_state.finalVariance g\<rparr>
    else point_at M p (min now (group_params.expiry p)) (or_zero realized))"
  have now: "group_params.start p < now" "now \<noteq> 0 \<or> finalized g" using assms(2,3) by (simp_all add: p_def)
  have z: "last_point M g realized now = [z]" using now by (auto simp: last_point_def Let_def z_def p_def)
  have t: "pp_t z = (if finalized g then group_params.expiry p else min now (group_params.expiry p))"
    by (simp add: z_def point_at_def Let_def)
  have "\<forall>q\<in>set (checkpoint_points M p cps). pp_t q < pp_t z"
    using assms(4) unfolding t p_def [symmetric] by (fastforce simp: checkpoint_points_def list_all_iff point_at_def Let_def)
  then have l: "last (pair_points M g cps realized now) = z"
    using z w now by (intro pair_points_last [where p = p]) (auto simp: t p_def)
  have "pp_high z = usdcNumber (in_high (card_figures g realized)) \<and> pp_calm z = usdcNumber (in_calm (card_figures g realized))
    \<and> pp_variance z = lc_variance (live_pricing g realized)"
    by (simp add: z_def card_figures_def live_pricing_def point_at_def Let_def p_def)
  then show ?thesis
    unfolding Let_def l p_def [symmetric] t using card_adds_up [OF assms(1)] by (simp add: price_exact p_def)
qed

definition demo_checkpoints :: "pair_checkpoint list" where
  "demo_checkpoints =
     [\<lparr>pc_processedThrough = 500, pc_sumSquaredReturns = 3 * 10 ^ 12\<rparr>, \<lparr>pc_processedThrough = 1000, pc_sumSquaredReturns = 9 * 10 ^ 12\<rparr>,
      \<lparr>pc_processedThrough = 500, pc_sumSquaredReturns = 0\<rparr>]"

definition flat_math :: js_math where
  "flat_math = \<lparr>math_exp = \<lambda>x. x, math_log = \<lambda>x. x, math_sqrt = \<lambda>x. x, math_cos = \<lambda>x. x\<rparr>"

lemma demo_chartable: "chartable demo_group (Some demo_checkpoints) (Some (3 * 10 ^ 17))"
  by (simp add: chartable_def checkpoints_in_def demo_group_def demo_checkpoints_def or_zero_def)

theorem pair_chart_sound_witness:
  "sorted_wrt (<) (map pp_t (pair_points flat_math demo_group (Some demo_checkpoints) (Some (3 * 10 ^ 17)) 1500))
   \<and> hd (pair_points flat_math demo_group (Some demo_checkpoints) (Some (3 * 10 ^ 17)) 1500) = first_point (group_state.params demo_group)"
  using pair_chart_sound [OF demo_chartable] by blast

theorem pair_chart_ends_on_card_witness:
  "pp_t (last (pair_points flat_math demo_group (Some demo_checkpoints) (Some (3 * 10 ^ 17)) 1500)) = 1500
   \<and> pp_high (last (pair_points flat_math demo_group (Some demo_checkpoints) (Some (3 * 10 ^ 17)) 1500)) = usdcNumber 15000000"
proof -
  have "in_high (card_figures demo_group (Some (3 * 10 ^ 17))) = 15000000" by code_simp
  then show ?thesis
    using pair_chart_ends_on_card [OF demo_chartable, of 1500 flat_math]
    by (simp add: Let_def demo_group_def demo_checkpoints_def)
qed

end
