(* ===== verification/Web_Hedge.thy ===== *)
theory Web_Hedge
  imports Web_Form_Props Web_Group_Form
begin

text \<open>
  The hedge calculator of a liquidity provider (\<open>web/src/components/hedge/HedgeCalculator.tsx\<close>): the modelled
  loss \<open>V * variance * T / 8\<close>, the units of each series that hedge it, what they cost, and the ticket the
  row opens. The backend's own estimate, shown beside, is its response.
\<close>

subsection \<open>The position\<close>

definition YEAR_SECONDS :: int where "YEAR_SECONDS = 31536000"

datatype vol_source = Trailing1d | Trailing7d | Trailing30d | CustomVol

record hedge_form =
  hf_pool :: string
  hf_days :: string
  hf_source :: vol_source
  hf_custom :: string

definition new_hedge_form :: hedge_form where
  "new_hedge_form = \<lparr>hf_pool = ''100000'', hf_days = ''7'', hf_source = Trailing7d, hf_custom = ''60''\<rparr>"

definition pool_usdc :: "hedge_form \<Rightarrow> int" where
  "pool_usdc f = or_zero (tryParseDecimal (hf_pool f) 6)"

definition horizon_sec :: "hedge_form \<Rightarrow> int" where
  "horizon_sec f = (case text_number (hf_days f) of None \<Rightarrow> 0 | Some d \<Rightarrow> if d > 0 then math_round (fl (d * 86400)) else 0)"

definition hedge_variance :: "hedge_form \<Rightarrow> int option \<Rightarrow> int option" where
  "hedge_variance f trailing =
     (if hf_source f = CustomVol then (if trim (hf_custom f) = '''' then None else cap_variance (hf_custom f))
      else trailing)"

subsection \<open>The estimate\<close>

definition expected_lvr :: "int \<Rightarrow> int \<Rightarrow> int option \<Rightarrow> int option" where
  "expected_lvr pool hs variance =
     (case variance of None \<Rightarrow> None
      | Some v \<Rightarrow> if hs > 0 then Some (bdiv (pool * v * hs) (8 * YEAR_SECONDS * WAD)) else None)"

definition hedge_notional :: "int \<Rightarrow> int \<Rightarrow> int option" where
  "hedge_notional pool hs = (if hs > 0 then Some (bdiv (pool * hs) (8 * YEAR_SECONDS)) else None)"

definition hedge_units :: "int \<Rightarrow> int \<Rightarrow> series_state \<Rightarrow> int" where
  "hedge_units pool hs s =
     (let N = unitNotional (series_state.params s) in
      if N = 0 then 0 else bdiv (pool * hs * WAD) (8 * YEAR_SECONDS * N))"

definition hedge_series :: "series_state list option \<Rightarrow> series_state list" where
  "hedge_series l = filter canBuy (case l of None \<Rightarrow> [] | Some xs \<Rightarrow> xs)"

definition capacity_used :: "series_state \<Rightarrow> int \<Rightarrow> rat" where
  "capacity_used s u =
     (if unitsAvailable s > 0 then min 100 (fl (js_Number (bdiv (u * 10000) (unitsAvailable s)) / 100)) else 0)"

definition cost_pct :: "int option \<Rightarrow> int \<Rightarrow> rat option" where
  "cost_pct premium pool =
     (case premium of None \<Rightarrow> None
      | Some p \<Rightarrow> if pool > 0 then Some (fl (js_Number (bdiv (p * 10000) pool) / 100)) else None)"

text \<open>The units asked of the quote, the lines of the cost cell, and the units the row's button puts in the ticket's address.\<close>

definition hedge_asked :: "int \<Rightarrow> int option" where
  "hedge_asked units = (if units > 0 then Some units else None)"

definition cost_cell :: "series_state \<Rightarrow> int \<Rightarrow> int \<Rightarrow> (int \<times> int) answer \<Rightarrow> string list" where
  "cost_cell s units pool q =
     (case an_data q of
        Some (filled, premium) \<Rightarrow>
          [fmtUsdc premium 2 @ '' USDC'']
          @ (case cost_pct (Some premium) pool of None \<Rightarrow> [] | Some c \<Rightarrow> [to_fixed 2 c @ ''% of pool''])
          @ (if filled < units then [''market fills '' @ fmtUnits filled 2] else [])
      | None \<Rightarrow>
          if an_fetching q then [ellipsis]
          else if units > unitsAvailable s then [''only '' @ fmtUnits (unitsAvailable s) 2 @ '' left'']
          else [em_dash])"

definition units_preset :: "int \<Rightarrow> string" where
  "units_preset units = remove_char (CHR '','') (fmtUnits units 6)"

definition lvr_text :: "int option \<Rightarrow> string" where
  "lvr_text v = dash_or (\<lambda>x. ''$ '' @ fmtUsdc x 2) v"

subsection \<open>What the estimate is worth\<close>

lemma hedge_bounds:
  assumes "0 \<le> pool" "0 \<le> hs" "0 < N" "0 \<le> v"
  defines "u \<equiv> bdiv (pool * hs * WAD) (8 * YEAR_SECONDS * N)"
    and "lvr \<equiv> bdiv (pool * v * hs) (8 * YEAR_SECONDS * WAD)"
  shows "0 \<le> u" "payoutFor u (perUnitPrice_web N v) \<le> lvr"
    "(lvr - payoutFor u (perUnitPrice_web N v) - 1) * (WAD * WAD) < u * WAD + N * v"
proof -
  define Y :: int where "Y = 8 * YEAR_SECONDS"
  define p where "p = bdiv (N * v) WAD"
  define y where "y = bdiv (u * p) WAD"
  have Y: "0 < Y" by (simp add: Y_def YEAR_SECONDS_def)
  have YN: "0 < Y * N" and YW: "0 < Y * WAD" using Y assms by simp_all
  have n1: "0 \<le> pool * hs * WAD" and n2: "0 \<le> pool * v * hs" and n3: "0 \<le> N * v" using assms by simp_all
  show u0: "0 \<le> u" unfolding u_def using n1 YN by (intro bdiv_ge_0) (simp_all add: Y_def)
  have p0: "0 \<le> p" unfolding p_def using n3 by (intro bdiv_ge_0) auto
  have eq: "payoutFor u (perUnitPrice_web N v) = y" by (simp add: payoutFor_def perUnitPrice_web_def y_def p_def)
  have u1: "u * (Y * N) \<le> pool * hs * WAD" and u2: "pool * hs * WAD < (u + 1) * (Y * N)"
    unfolding u_def using n1 YN by (auto simp: Y_def intro!: bdiv_mult_le bdiv_less)
  have l1: "lvr * (Y * WAD) \<le> pool * v * hs" and l2: "pool * v * hs < (lvr + 1) * (Y * WAD)"
    unfolding lvr_def using n2 YW by (auto simp: Y_def intro!: bdiv_mult_le bdiv_less)
  have p1: "p * WAD \<le> N * v" and p2: "N * v < (p + 1) * WAD"
    unfolding p_def using n3 by (auto intro!: bdiv_mult_le bdiv_less)
  have y1: "y * WAD \<le> u * p" and y2: "u * p < (y + 1) * WAD"
    unfolding y_def using p0 u0 by (auto intro!: bdiv_mult_le bdiv_less)
  have "y * WAD * WAD \<le> u * p * WAD" using y1 by (intro mult_right_mono) auto
  also have "\<dots> \<le> u * (N * v)" using p1 u0 by (simp add: mult.assoc mult_left_mono)
  finally have "y * WAD * WAD * Y \<le> u * (N * v) * Y" using Y by (intro mult_right_mono) auto
  also have "\<dots> = (u * (Y * N)) * v" by (simp add: algebra_simps)
  also have "\<dots> \<le> pool * hs * WAD * v" using u1 assms by (intro mult_right_mono) auto
  also have "\<dots> = (pool * v * hs) * WAD" by (simp add: algebra_simps)
  also have "\<dots> < ((lvr + 1) * (Y * WAD)) * WAD" using l2 by simp
  finally have "y * (WAD * WAD * Y) < (lvr + 1) * (WAD * WAD * Y)" by (simp add: algebra_simps)
  then have "y < lvr + 1" using Y by (simp add: mult_less_cancel_right)
  then show "payoutFor u (perUnitPrice_web N v) \<le> lvr" by (simp add: eq)
  have "lvr * (Y * WAD) * WAD \<le> pool * v * hs * WAD" using l1 by (intro mult_right_mono) auto
  also have "\<dots> = (pool * hs * WAD) * v" by (simp add: algebra_simps)
  also have "\<dots> \<le> ((u + 1) * (Y * N)) * v" using u2 assms by (intro mult_right_mono) auto
  finally have "lvr * (WAD * WAD) * Y \<le> (u + 1) * (N * v) * Y" by (simp add: algebra_simps)
  then have "lvr * (WAD * WAD) \<le> (u + 1) * (N * v)" using Y by (simp add: mult_le_cancel_right)
  also have "\<dots> = u * (N * v) + N * v" by (simp add: algebra_simps)
  also have "\<dots> \<le> u * ((p + 1) * WAD) + N * v" using p2 u0 by (simp add: mult_left_mono)
  also have "\<dots> = u * p * WAD + u * WAD + N * v" by (simp add: algebra_simps)
  also have "\<dots> < (y + 1) * WAD * WAD + u * WAD + N * v" using y2 by simp
  finally show "(lvr - payoutFor u (perUnitPrice_web N v) - 1) * (WAD * WAD) < u * WAD + N * v"
    by (simp add: eq algebra_simps)
qed

text \<open>What a row's units are paid when its series settles at the variance \<open>v\<close>: the cap bounds it.\<close>

definition hedge_payout :: "hedge_form \<Rightarrow> series_state \<Rightarrow> int \<Rightarrow> int" where
  "hedge_payout f s v = payoutFor (hedge_units (pool_usdc f) (horizon_sec f) s)
     (perUnitPrice_web (unitNotional (series_state.params s)) (min v (web_params.capVariance (series_state.params s))))"

lemma payout_mono:
  assumes "0 \<le> u" "0 \<le> N" "0 \<le> v" "v \<le> w"
  shows "payoutFor u (perUnitPrice_web N v) \<le> payoutFor u (perUnitPrice_web N w)"
proof -
  have "0 \<le> perUnitPrice_web N v" "perUnitPrice_web N v \<le> perUnitPrice_web N w"
    unfolding perUnitPrice_web_def using assms by (auto intro!: bdiv_mono bdiv_ge_0 mult_left_mono)
  then show ?thesis
    unfolding payoutFor_def using assms(1) by (intro bdiv_mono mult_left_mono) auto
qed

text \<open>C36: The units a row of the hedge calculator proposes hedge the loss it models, for a pool value, a variance and a
  cap that are not negative and a positive unit notional. If the series settles at the variance the estimate
  used, the units pay no more than the modelled loss, and when that variance is within the series' cap they fall
  short of the loss by less than one base unit of USDC and what the floors of the units and of one unit's price
  are worth: the shortfall less one base unit is below the units times the last base unit of a unit's price plus
  the payout of the last base unit of the units.\<close>

theorem hedge_tracks_lvr:
  assumes "0 \<le> pool_usdc f" "0 < unitNotional (series_state.params s)" "0 \<le> v" "0 \<le> web_params.capVariance (series_state.params s)"
    and "expected_lvr (pool_usdc f) (horizon_sec f) (Some v) = Some lvr"
  shows "0 \<le> hedge_units (pool_usdc f) (horizon_sec f) s \<and> hedge_payout f s v \<le> lvr
    \<and> (v \<le> web_params.capVariance (series_state.params s) \<longrightarrow>
        (lvr - hedge_payout f s v - 1) * (WAD * WAD)
          < hedge_units (pool_usdc f) (horizon_sec f) s * WAD + unitNotional (series_state.params s) * v)"
proof -
  define N u where "N = unitNotional (series_state.params s)" and "u = hedge_units (pool_usdc f) (horizon_sec f) s"
  have h: "0 \<le> horizon_sec f" and l: "lvr = bdiv (pool_usdc f * v * horizon_sec f) (8 * YEAR_SECONDS * WAD)"
    using assms(5) by (auto simp: expected_lvr_def split: if_splits)
  have N: "0 < N" using assms(2) by (simp add: N_def)
  have u: "u = bdiv (pool_usdc f * horizon_sec f * WAD) (8 * YEAR_SECONDS * N)"
    using N by (simp add: u_def N_def hedge_units_def)
  note b = hedge_bounds [OF assms(1) h N assms(3), folded u l]
  have p: "hedge_payout f s v = payoutFor u (perUnitPrice_web N (min v (web_params.capVariance (series_state.params s))))"
    by (simp add: hedge_payout_def u_def N_def)
  have "payoutFor u (perUnitPrice_web N (min v (web_params.capVariance (series_state.params s)))) \<le> payoutFor u (perUnitPrice_web N v)"
    using b(1) N assms(3,4) by (intro payout_mono) auto
  then show ?thesis using b unfolding u_def [symmetric] N_def [symmetric] p by (auto simp: min_absorb1)
qed

theorem hedge_tracks_lvr_witness:
  "hedge_payout new_hedge_form (Web_Series.demo_series Live 2000 1) (36 * 10 ^ 16) \<le> 86301369
   \<and> (86301369 - hedge_payout new_hedge_form (Web_Series.demo_series Live 2000 1) (36 * 10 ^ 16) - 1) * (WAD * WAD)
       < hedge_units 100000000000 604800 (Web_Series.demo_series Live 2000 1) * WAD + 50000000 * (36 * 10 ^ 16)"
proof -
  have p: "pool_usdc new_hedge_form = 100000000000" and h: "horizon_sec new_hedge_form = 604800"
    by code_simp+
  have n: "unitNotional (series_state.params (Web_Series.demo_series Live 2000 1)) = 50000000" "web_params.capVariance (series_state.params (Web_Series.demo_series Live 2000 1)) = 10 ^ 18"
    by (simp_all add: Web_Series.demo_series_def Web_Series.demo_params_def)
  have l: "expected_lvr 100000000000 604800 (Some (36 * 10 ^ 16)) = Some 86301369" by code_simp
  show ?thesis
    using hedge_tracks_lvr [of new_hedge_form "Web_Series.demo_series Live 2000 1" "36 * 10 ^ 16" 86301369] by (simp add: p h n l [simplified])
qed

text \<open>The Buy button of a row opens the ticket on the units proposed: the address carries a number the ticket
  reads back, in the mode that buys exact units, within half of the sixth decimal.\<close>

theorem hedge_preset_opens_ticket:
  assumes "0 \<le> u"
  shows "bb_mode (new_buy_box (Some (units_preset u))) = ExactOut
    \<and> (\<exists>x. buy_parsed (new_buy_box (Some (units_preset u))) = Some x \<and> 0 \<le> x \<and> 2 * \<bar>x - u\<bar> \<le> 10 ^ 12)"
proof -
  define o6 where "o6 = fmt_default\<lparr>maxFrac := 6\<rparr>"
  define x where "x = fmt_kept 18 o6 u"
  have b: "2 * \<bar>x - u\<bar> \<le> 10 ^ 12"
    using fmt_kept_rounded [of u o6 18] assms by (simp add: x_def o6_def fmt_default_def)
  have x0: "0 \<le> x"
    using fmt_round_nonneg [of u 18 o6] assms by (simp add: x_def fmt_kept_def pos_imp_zdiv_nonneg_iff)
  have p: "parseDecimal (units_preset u) 18 = Inr x"
    using assms unfolding units_preset_def fmtUnits_def o6_def [symmetric] by (simp add: parse_plain x_def)
  then have t: "trim (units_preset u) \<noteq> ''''" by (rule parse_not_empty)
  then have "units_preset u \<noteq> ''''" by (auto simp: trim_def)
  then show ?thesis
    using p t b x0 by (simp add: new_buy_box_def Let_def buy_parsed_def typed_def tryParseDecimal_def)
qed

theorem hedge_preset_opens_ticket_witness:
  "\<exists>x. buy_parsed (new_buy_box (Some (units_preset 4794520547945205479))) = Some x \<and> 2 * \<bar>x - 4794520547945205479\<bar> \<le> 10 ^ 12"
  using hedge_preset_opens_ticket [of 4794520547945205479] by auto

end
