(* ===== verification/Web_Detail.thy ===== *)
theory Web_Detail
  imports Web_Positions Web_Pair_Charts Web_Hedge
begin

text \<open>
  The page of a series (\<open>web/src/components/series/SeriesDetail.tsx\<close>): which of its four faces is shown, the header,
  the holder's position, the points of the volatility chart and the reading under it, and the terms; with the
  slicing of \<open>charts/VolatilityChart.tsx\<close> and the curve of \<open>charts/PayoffChart.tsx\<close>. Dates are the
  browser's, a parameter; markup is left out.
\<close>

subsection \<open>The page\<close>

datatype detail_page = PageText string | PageLoading | PageOf series_state

definition detail_page_of ::
    "string \<Rightarrow> bool \<Rightarrow> bool \<Rightarrow> bool \<Rightarrow> bool option \<Rightarrow> bool \<Rightarrow> series_state option \<Rightarrow> detail_page" where
  "detail_page_of idStr loading notFound deployed rpcOnline apiError s =
     (case BigInt_text idStr of
        Inl _ \<Rightarrow> PageText ''Invalid series id.''
      | Inr _ \<Rightarrow>
          if loading \<or> s = None \<and> \<not> notFound then PageLoading
          else (case s of
            Some x \<Rightarrow> PageOf x
          | None \<Rightarrow> PageText
              (if \<not> deployed then ''Contracts are not deployed on this chain.''
               else if rpcOnline = Some False \<and> apiError then ''Neither the RPC nor the API answered.''
               else ''Series #'' @ idStr @ '' was not found.'')))"

subsection \<open>The header\<close>

definition samples_text :: "series_state \<Rightarrow> string \<Rightarrow> string \<Rightarrow> string" where
  "samples_text s sep tail = dec_string (samplesStored (oracle_of s)) @ sep @ dec_string (samplesTotal (oracle_of s)) @ tail"

definition header_realized :: "js_math \<Rightarrow> series_state \<Rightarrow> js_error + string" where
  "header_realized M s =
     (if status_of s = status.Upcoming \<or> samplesStored (oracle_of s) \<le> 1 \<and> \<not> isFinalized s then Inr em_dash
      else andThen (realizedVolPct M s) (\<lambda>t. Inr (t @ ''%'')))"

definition header_note :: "series_state \<Rightarrow> string" where
  "header_note s =
     (if status_of s = status.Upcoming then ''window not started''
      else if isFinalized s then ''fixed on chain at finalization''
      else samples_text s '' of '' '' samples'')"

definition header_tape :: "js_math \<Rightarrow> series_state \<Rightarrow> js_error + (string \<times> string \<times> string) list" where
  "header_tape M s =
     andThen (header_realized M s) (\<lambda>realized. andThen (marketVolPct M s) (\<lambda>market. Inr
       [(''Bid / ask per unit'', fmtUsdc (q_bidPerUnit (quote_of s)) 2 @ '' / '' @ fmtUsdc (q_askPerUnit (quote_of s)) 2 @ '' USDC'',
         ''executable, both sides''),
        (if isFinalized s then ''Final realized vol'' else ''Realized vol so far'', realized, header_note s),
        (''Market vol'', market @ ''%'', ''this market's quote, not a fair value''),
        (''Locked backing'', fmtUsdc (lockedLiability s) 0, fmtUnits (unitsOutstanding s) 0 @ '' units outstanding'')]))"

subsection \<open>The holder's position\<close>

record position_summary =
  ps_units :: int
  ps_cost :: "int option"
  ps_exit :: "int option"
  ps_redemption :: "int option"
  ps_live :: "int option"
  ps_pnl :: "int option"
  ps_max :: int

definition indexed_entry :: "(int \<times> bool \<times> int option) list option \<Rightarrow> series_state \<Rightarrow> int option" where
  "indexed_entry positions s =
     (case positions of None \<Rightarrow> None
      | Some ps \<Rightarrow>
          (case find (\<lambda>(i, _). i = id_of s) ps of
             Some (_, True, Some e) \<Rightarrow> if e = 0 then None else Some e
           | _ \<Rightarrow> None))"

definition positionSummary :: "address option \<Rightarrow> int option \<Rightarrow> int option \<Rightarrow> series_state \<Rightarrow> position_summary option" where
  "positionSummary account balance entry s =
     (let units = or_zero balance in
      if account = None \<or> balance \<noteq> None \<and> units = 0 then None
      else
        let cost = (case entry of Some e \<Rightarrow> if e > 0 then Some (bdiv (e * units) WAD) else None | None \<Rightarrow> None);
            exit = (if leg_exitOpen (legs s)
              then Some (bdiv (perUnitPrice_web (web_params.unitNotional (series_state.params s)) (q_bidVariance (quote_of s)) * units) WAD)
              else None);
            redemption = (if isFinalized s then Some (payoutFor units (payout_per_unit s)) else None);
            live = (case redemption of Some r \<Rightarrow> Some r | None \<Rightarrow> exit);
            pnl = (case (live, cost) of (Some v, Some c) \<Rightarrow> Some (v - c) | _ \<Rightarrow> None)
        in Some \<lparr>ps_units = units, ps_cost = cost, ps_exit = exit, ps_redemption = redemption, ps_live = live, ps_pnl = pnl,
                 ps_max = bdiv (units * maxPayoutPerUnit_web (series_state.params s)) WAD\<rparr>)"

definition summary_meta :: "series_state \<Rightarrow> string" where
  "summary_meta s =
     (if isFinalized s then ''Final redemption value at the variance fixed on chain''
      else if leg_exitOpen (legs s) then ''Live value is the exit bid you can actually hit''
      else ''No exit market open right now'')"

definition with_usdc_or_dash :: "int option \<Rightarrow> string" where
  "with_usdc_or_dash v = dash_or (\<lambda>x. fmtUsdc x 2 @ '' USDC'') v"

definition summary_rows :: "series_state \<Rightarrow> int option \<Rightarrow> position_summary \<Rightarrow> (string \<times> string) list" where
  "summary_rows s entry x =
     [(''Units held'', fmtUnits (ps_units x) 4),
      (''Indexed average entry'', with_usdc_or_dash (if ps_cost x = None then None else entry)),
      (''Indexed cost'', with_usdc_or_dash (ps_cost x)),
      (if isFinalized s then ''Redemption value'' else ''Executable exit value'', with_usdc_or_dash (ps_live x)),
      (''Unrealized P&L'', dash_or signed_usdc (ps_pnl x)),
      (''Maximum payout'', fmtUsdc (ps_max x) 2 @ '' USDC'')]"

subsection \<open>The points of the volatility chart\<close>

record vol_point =
  vp_t :: int
  vp_realized :: "rat option"
  vp_market :: "rat option"
  vp_projected :: "rat option"
  vp_bid :: "rat option"
  vp_ask :: "rat option"
  vp_realizedVariance :: "rat option"
  vp_bidPerUnit :: "rat option"
  vp_askPerUnit :: "rat option"
  vp_fresh :: "bool option"

text \<open>A point the backend reconstructed, as its schema reads it.\<close>

record market_point =
  mp_t :: int
  mp_realizedVol :: rat
  mp_marketVol :: rat
  mp_projectedVol :: rat
  mp_bidVariance :: int
  mp_askVariance :: int
  mp_realizedVariance :: int
  mp_bidPerUnit :: int
  mp_askPerUnit :: int
  mp_fresh :: bool

definition indexed_point :: "js_math \<Rightarrow> market_point \<Rightarrow> vol_point" where
  "indexed_point M p =
     \<lparr>vp_t = mp_t p, vp_realized = Some (fl (mp_realizedVol p * 100)), vp_market = Some (fl (mp_marketVol p * 100)),
      vp_projected = Some (fl (mp_projectedVol p * 100)), vp_bid = Some (volPctNumber M (mp_bidVariance p)),
      vp_ask = Some (volPctNumber M (mp_askVariance p)), vp_realizedVariance = Some (wadNumber (mp_realizedVariance p)),
      vp_bidPerUnit = Some (usdcNumber (mp_bidPerUnit p)), vp_askPerUnit = Some (usdcNumber (mp_askPerUnit p)),
      vp_fresh = Some (mp_fresh p)\<rparr>"

definition live_point :: "js_math \<Rightarrow> series_state \<Rightarrow> int \<Rightarrow> vol_point" where
  "live_point M s now =
     (let q = quote_of s in
      \<lparr>vp_t = min now (web_params.expiry (series_state.params s)),
       vp_realized = (if samplesStored (oracle_of s) > 1 \<or> isFinalized s then Some (volPctNumber M (effectiveVariance s)) else None),
       vp_market = Some (volPctNumber M (q_marketVariance q)), vp_projected = Some (volPctNumber M (q_projectedVariance q)),
       vp_bid = Some (volPctNumber M (q_bidVariance q)), vp_ask = Some (volPctNumber M (q_askVariance q)),
       vp_realizedVariance = Some (wadNumber (effectiveVariance s)),
       vp_bidPerUnit = Some (usdcNumber (q_bidPerUnit q)), vp_askPerUnit = Some (usdcNumber (q_askPerUnit q)),
       vp_fresh = Some (checkpointsCurrent (oracle_of s))\<rparr>)"

definition vol_points :: "js_math \<Rightarrow> series_state \<Rightarrow> market_point list option \<Rightarrow> int \<Rightarrow> vol_point list" where
  "vol_points M s history now =
     map (indexed_point M) (case history of None \<Rightarrow> [] | Some l \<Rightarrow> l) @ (if now \<noteq> 0 then [live_point M s now] else [])"

subsection \<open>The reading under the chart\<close>

definition first_some :: "('a \<Rightarrow> 'b option) \<Rightarrow> 'a list \<Rightarrow> 'b option" where
  "first_some f xs = (case find (\<lambda>x. f x \<noteq> None) xs of None \<Rightarrow> None | Some x \<Rightarrow> f x)"

record vol_reading =
  vr_realized :: "rat option"
  vr_market :: rat
  vr_change :: "rat option"
  vr_spread :: rat

definition volatility_quote :: "js_math \<Rightarrow> vol_point list \<Rightarrow> series_state \<Rightarrow> vol_reading" where
  "volatility_quote M points s =
     (let realized = first_some vp_realized (rev points);
          market = (case first_some vp_market (rev points) of Some m \<Rightarrow> m | None \<Rightarrow> volPctNumber M (q_marketVariance (quote_of s)))
      in \<lparr>vr_realized = realized, vr_market = market,
          vr_change = (case (realized, first_some vp_realized points) of (Some b, Some a) \<Rightarrow> Some (fl (b - a)) | _ \<Rightarrow> None),
          vr_spread = fl (volPctNumber M (q_askVariance (quote_of s)) - volPctNumber M (q_bidVariance (quote_of s)))\<rparr>)"

definition reading_rows :: "js_math \<Rightarrow> series_state \<Rightarrow> vol_reading \<Rightarrow> js_error + (string \<times> string \<times> string) list" where
  "reading_rows M s r =
     andThen (case vr_realized r of
          Some v \<Rightarrow> Inr (to_fixed 1 v @ ''%'')
        | None \<Rightarrow> if samplesStored (oracle_of s) > 1 \<or> isFinalized s then andThen (realizedVolPct M s) (\<lambda>t. Inr (t @ ''%'')) else Inr em_dash)
       (\<lambda>realized. Inr
         [(''Realized volatility'', realized, if isFinalized s then ''fixed on chain'' else samples_text s ''/'' '' samples stored''),
          (''Market volatility'', to_fixed 1 (vr_market r) @ ''%'', ''this market's quote''),
          (''Spread'', if vr_spread r \<ge> 0 then to_fixed 1 (vr_spread r) @ ''%'' else em_dash,
           fmtUsdc (q_bidPerUnit (quote_of s)) 2 @ '' / '' @ fmtUsdc (q_askPerUnit (quote_of s)) 2 @ '' per unit''),
          (''Change'', case vr_change r of None \<Rightarrow> em_dash | Some c \<Rightarrow> (if c \<ge> 0 then ''+'' else '''') @ to_fixed 1 c @ ''%'', ''visible range'')])"

subsection \<open>What the chart shows of them\<close>

datatype time_range = RangePast | Range1D | Range1W | Range1M | Range3M | RangeAll

fun range_seconds :: "time_range \<Rightarrow> int" where
  "range_seconds Range1D = 86400" | "range_seconds Range1W = 604800" | "range_seconds Range1M = 2592000"
| "range_seconds Range3M = 7776000" | "range_seconds r = 0"

definition by_vol_time :: "vol_point list \<Rightarrow> vol_point list" where
  "by_vol_time points = js_sort (\<lambda>a b. vp_t a - vp_t b) points"

definition visible_points :: "time_range \<Rightarrow> int option \<Rightarrow> vol_point list \<Rightarrow> vol_point list" where
  "visible_points timeRange now points =
     (let allData = by_vol_time points in
      if allData = [] \<or> timeRange = RangeAll then allData
      else let end_at = (case now of Some n \<Rightarrow> n | None \<Rightarrow> vp_t (last allData)) in
        if timeRange = RangePast then filter (\<lambda>p. vp_t p \<le> end_at) allData
        else let cutoff = max (vp_t (hd allData)) (end_at - range_seconds timeRange) in
          filter (\<lambda>p. vp_t p \<ge> cutoff \<and> vp_t p \<le> end_at) allData)"

definition band_height :: "vol_point \<Rightarrow> rat option" where
  "band_height p = (case (vp_bid p, vp_ask p) of (Some b, Some a) \<Rightarrow> Some (max 0 (fl (a - b))) | _ \<Rightarrow> None)"

record chart_axis =
  ax_t0 :: int
  ax_t1 :: int
  ax_span :: int

definition axis_of :: "time_range \<Rightarrow> int option \<Rightarrow> int option \<Rightarrow> int option \<Rightarrow> vol_point list \<Rightarrow> chart_axis" where
  "axis_of timeRange now startAt expiryAt data =
     (let rangeStart = vp_t (hd data);
          t0 = (if timeRange = RangeAll then (case startAt of Some s \<Rightarrow> s | None \<Rightarrow> rangeStart) else rangeStart);
          t1 = (if timeRange = RangeAll then (case expiryAt of Some e \<Rightarrow> e | None \<Rightarrow> vp_t (last data))
                else min (case expiryAt of Some e \<Rightarrow> e | None \<Rightarrow> 9007199254740991) (case now of Some n \<Rightarrow> n | None \<Rightarrow> vp_t (last data)))
      in \<lparr>ax_t0 = t0, ax_t1 = t1, ax_span = max 1 (t1 - t0)\<rparr>)"

definition show_dots :: "vol_point list \<Rightarrow> bool" where
  "show_dots data = (let n = length (filter (\<lambda>p. vp_realized p \<noteq> None) data) in n > 0 \<and> n \<le> 40)"

definition vol_markers :: "chart_axis \<Rightarrow> int \<Rightarrow> int \<Rightarrow> int \<Rightarrow> int \<Rightarrow> int \<Rightarrow> (string \<times> int) list" where
  "vol_markers ax startAt saleEndAt through now expiryAt =
     (let t0 = ax_t0 ax; t1 = ax_t1 ax; current = min now t1 in
      (if t0 \<le> startAt \<and> startAt \<le> t1 then [(''Start'', startAt)] else [])
      @ (if t0 < saleEndAt \<and> saleEndAt < t1 then [(''Sale ends'', saleEndAt)] else [])
      @ (if t0 < through \<and> through \<le> t1 then [(''Checkpointed'', through)] else [])
      @ (if t0 \<le> current \<and> current \<le> t1 then [(''Now'', current)] else [])
      @ (if t0 \<le> expiryAt \<and> expiryAt \<le> t1 then [(''Expiry'', expiryAt)] else []))"

subsection \<open>The payoff curve\<close>

record payoff_inputs =
  py_capVol :: rat
  py_notional :: rat
  py_units :: rat
  py_be :: "rat option"
  py_rv :: "rat option"
  py_maxX :: rat

definition vol_of_positive :: "js_math \<Rightarrow> int option \<Rightarrow> rat option" where
  "vol_of_positive M v = (case v of Some x \<Rightarrow> if x > 0 then Some (volPctNumber M x) else None | None \<Rightarrow> None)"

definition payoff_inputs_of :: "js_math \<Rightarrow> int \<Rightarrow> int \<Rightarrow> int option \<Rightarrow> int option \<Rightarrow> int \<Rightarrow> payoff_inputs" where
  "payoff_inputs_of M N cap be rv units =
     (let c = volPctNumber M cap; b = vol_of_positive M be; r = vol_of_positive M rv;
          or0 = (\<lambda>v. case v of None \<Rightarrow> 0 | Some x \<Rightarrow> x)
      in \<lparr>py_capVol = c, py_notional = usdcNumber N, py_units = wadNumber units, py_be = b, py_rv = r,
          py_maxX = max (max (fl (c * fl (135/100))) (fl (or0 b * fl (12/10)))) (max (fl (or0 r * fl (12/10))) 10)\<rparr>)"

definition squared :: "rat \<Rightarrow> rat" where
  "squared vol = fl (fl (vol / 100) ^ 2)"

text \<open>\<open>unitsN * notionalPerUnit * variance\<close>.\<close>

definition paid_at :: "payoff_inputs \<Rightarrow> rat \<Rightarrow> rat" where
  "paid_at I variance = fl (fl (py_units I * py_notional I) * variance)"

definition payout_at :: "payoff_inputs \<Rightarrow> rat \<Rightarrow> rat" where
  "payout_at I vol = paid_at I (min (squared vol) (squared (py_capVol I)))"

definition payoff_curve :: "payoff_inputs \<Rightarrow> (rat \<times> rat) list" where
  "payoff_curve I =
     (let cap = py_capVol I;
          point = (\<lambda>i. let x = fl (fl (py_maxX I * of_nat i) / 80) in
            (fixed_number 2 x, paid_at I (if cap > 0 then min (squared x) (squared cap) else squared x)));
          knee = (if cap > 0 \<and> cap < py_maxX I then [(fixed_number 2 cap, paid_at I (squared cap))] else [])
      in js_sort (\<lambda>a b. if fst a < fst b then - 1 else if fst a = fst b then 0 else 1) (map point [0..<81] @ knee))"

text \<open>The arguments the page passes, from the order ticket's units and premium.\<close>

definition detail_payoff :: "js_math \<Rightarrow> series_state \<Rightarrow> int \<Rightarrow> int \<Rightarrow> payoff_inputs" where
  "detail_payoff M s units premium =
     (let N = web_params.unitNotional (series_state.params s); rv = effectiveVariance s in
      payoff_inputs_of M N (web_params.capVariance (series_state.params s))
        (Some (if premium > 0 then breakEvenVariance premium units N else q_askVariance (quote_of s)))
        (if rv > 0 then Some rv else None) units)"

subsection \<open>The terms\<close>

definition terms_rows :: "js_math \<Rightarrow> series_state \<Rightarrow> js_error + (string \<times> string) list" where
  "terms_rows M s =
     (let p = series_state.params s in
      andThen (vol_text M '' vol'' (web_params.capVariance p)) (\<lambda>cap.
      andThen (vol_text M '' vol'' (anchorVariance p)) (\<lambda>anchor. Inr
       [(''Unit notional'', fmtUsdc (web_params.unitNotional p) 2 @ '' USDC''),
        (''Cap'', cap),
        (''Anchor variance'', anchor),
        (''Impact / unit'', fmtWad (impactPerUnit p) 4 @ '' var / unit''),
        (''Half-spread'', dec_string (web_params.halfSpreadBps p) @ '' bps''),
        (''Skew half-life'', if web_params.halfLife p \<noteq> 0 then fmtDuration (of_int (web_params.halfLife p)) else ''none''),
        (''Sampling'', fmtDuration (of_int (web_params.sampleInterval p))),
        (''Max units'', fmtUnits (maxUnits p) 0),
        (''Max payout / unit'', fmtUsdc (q_maxPayoutPerUnit (quote_of s)) 2 @ '' USDC''),
        (''Payout / unit'', if isFinalized s then fmtUsdc (payout_per_unit s) 2 @ '' USDC'' else ''not yet fixed'')])))"

subsection \<open>What the page promises\<close>

text \<open>Rounding to a double keeps the order.\<close>

lemma round_half_even_mono: "x \<le> y \<Longrightarrow> round_half_even x \<le> round_half_even y"
proof -
  assume xy: "x \<le> y"
  then have f: "\<lfloor>x\<rfloor> \<le> \<lfloor>y\<rfloor>" by (rule floor_mono)
  have up: "round_half_even x \<le> \<lfloor>x\<rfloor> + 1" and down: "\<lfloor>y\<rfloor> \<le> round_half_even y" by (auto simp: round_half_even_def)
  show ?thesis
  proof (cases "\<lfloor>x\<rfloor> = \<lfloor>y\<rfloor>")
    case True
    then show ?thesis using xy by (auto simp: round_half_even_def)
  qed (use f up down in linarith)
qed

lemma ulp_power: "ulp x = 2 powi (ilog2 x - 52)"
proof (cases "ilog2 x \<le> 52")
  case True
  then show ?thesis by (cases "ilog2 x = 52") (simp_all add: ulp_def power_int_def inverse_eq_divide power_one_over)
qed (simp add: ulp_def power_int_def)

lemma ulp_le_or_double: "ulp x \<le> ulp y \<or> 2 * ulp y \<le> ulp x"
proof (cases "ilog2 x \<le> ilog2 y")
  case True
  then show ?thesis by (simp add: ulp_power power_int_increasing)
next
  case False
  have "2 * ulp y = 2 powi (ilog2 y - 52 + 1)" unfolding ulp_power by (subst power_int_add_1) simp_all
  also have "\<dots> \<le> ulp x" unfolding ulp_power using False by (intro power_int_increasing) auto
  finally show ?thesis by simp
qed

lemma fl_mono_pos:
  assumes "0 < x" "x \<le> y"
  shows "fl x \<le> fl y"
proof -
  have y: "0 < y" using assms by simp
  note bx = ulp_bounds [OF assms(1)] and by_ = ulp_bounds [OF y]
  have eq: "fl x = of_int (round_half_even (x / ulp x)) * ulp x" "fl y = of_int (round_half_even (y / ulp y)) * ulp y"
    using assms y by (simp_all add: fl_def)
  have le: "ulp x \<le> ulp y"
    using ulp_le_or_double [of x y] bx(1) by_(2) assms(2) by auto
  show ?thesis
  proof (cases "ulp y \<le> ulp x")
    case True
    then have u: "ulp x = ulp y" using le by simp
    have "round_half_even (x / ulp x) \<le> round_half_even (y / ulp y)"
      unfolding u using assms(2) by (intro round_half_even_mono divide_right_mono) (auto intro: less_imp_le)
    then show ?thesis unfolding eq u by (intro mult_right_mono) (auto intro: less_imp_le)
  next
    case False
    then have d: "2 * ulp x \<le> ulp y" using ulp_le_or_double [of y x] by simp
    have "round_half_even (x / ulp x) \<le> 2 ^ 53"
      using bx(2) by (intro round_half_even_le) (simp add: field_simps)
    then have "of_int (round_half_even (x / ulp x)) \<le> (2 ^ 53 :: rat)"
      by (metis of_int_le_iff of_int_numeral of_int_power)
    then have "fl x \<le> 2 ^ 53 * ulp x" unfolding eq by (intro mult_right_mono) (auto intro: less_imp_le)
    also have "\<dots> \<le> 2 ^ 52 * ulp y" using d by simp
    also have "\<dots> \<le> fl y"
    proof -
      have "2 ^ 52 \<le> round_half_even (y / ulp y)"
        using by_(1) by (intro round_half_even_ge) (simp add: field_simps)
      then have "(2 ^ 52 :: rat) \<le> of_int (round_half_even (y / ulp y))"
        by (metis of_int_le_iff of_int_numeral of_int_power)
      then show ?thesis unfolding eq by (intro mult_right_mono) (auto intro: less_imp_le)
    qed
    finally show ?thesis .
  qed
qed

lemma fl_mono: "x \<le> y \<Longrightarrow> fl x \<le> fl y"
proof (cases "0 < x")
  case True
  then show "x \<le> y \<Longrightarrow> fl x \<le> fl y" by (rule fl_mono_pos)
next
  case False
  show "fl x \<le> fl y" if xy: "x \<le> y"
  proof (cases "0 \<le> y")
    case True
    then show ?thesis using False fl_nonpos [of x] fl_nonneg [of y] by simp
  next
    case y: False
    then have "fl (- y) \<le> fl (- x)" using xy by (intro fl_mono_pos) auto
    then show ?thesis by (simp add: fl_minus)
  qed
qed

text \<open>C39: For a series whose bid per unit is the lens's, the price of one unit at the bid variance, the value of a
  holding on the series' page is the one in the portfolio, as long as the checkpoints of the series
  are current or it is finalized or its exit is closed; with stale checkpoints the page goes on showing the exit
  bid the portfolio leaves out, and that is the only difference.\<close>

theorem detail_value_is_portfolio_value:
  assumes "positionSummary (Some a) (Some u) entry s = Some x"
    and "q_bidPerUnit (quote_of s) = perUnitPrice_web (web_params.unitNotional (series_state.params s)) (q_bidVariance (quote_of s))"
  shows "or_zero (ps_live x) - series_value \<lparr>hd_series = s, hd_units = u, hd_position = p\<rparr>
     = (if \<not> isFinalized s \<and> leg_exitOpen (legs s) \<and> \<not> checkpointsCurrent (oracle_of s)
        then payoutFor u (q_bidPerUnit (quote_of s)) else 0)"
proof -
  have "u \<noteq> 0" using assms(1) by (auto simp: positionSummary_def or_zero_def)
  then have "ps_live x = (case (if isFinalized s then Some (payoutFor u (payout_per_unit s)) else None) of Some r \<Rightarrow> Some r
      | None \<Rightarrow> if leg_exitOpen (legs s) then Some (payoutFor u (q_bidPerUnit (quote_of s))) else None)"
    using assms(1) unfolding positionSummary_def Let_def assms(2) payoutFor_def or_zero_def
    by simp (drule sym, simp add: mult.commute)
  then show ?thesis by (simp add: series_value_def Let_def canExit_def or_zero_def)
qed

definition demo_stale :: series_state where
  "demo_stale = (Web_Series.demo_series Live 2000 1)
     \<lparr>quote_of := (quote_of (Web_Series.demo_series Live 2000 1))\<lparr>q_bidVariance := 36 * 10 ^ 16, q_bidPerUnit := 18000000\<rparr>,
      oracle_of := (oracle_of (Web_Series.demo_series Live 2000 1))\<lparr>checkpointsCurrent := False\<rparr>\<rparr>"

theorem detail_value_is_portfolio_value_witness:
  "\<exists>x. positionSummary (Some ''0x09'') (Some (2 * 10 ^ 18)) None demo_stale = Some x
     \<and> or_zero (ps_live x) - series_value \<lparr>hd_series = demo_stale, hd_units = 2 * 10 ^ 18, hd_position = None\<rparr> = 36000000"
proof -
  have "positionSummary (Some ''0x09'') (Some (2 * 10 ^ 18)) None demo_stale \<noteq> None"
    unfolding positionSummary_def Let_def or_zero_def by simp
  then obtain x where x: "positionSummary (Some ''0x09'') (Some (2 * 10 ^ 18)) None demo_stale = Some x" by blast
  have q: "q_bidPerUnit (quote_of demo_stale) = 18000000" "q_bidVariance (quote_of demo_stale) = 36 * 10 ^ 16"
    "web_params.unitNotional (series_state.params demo_stale) = 50000000" "\<not> isFinalized demo_stale"
    "leg_exitOpen (legs demo_stale)" "\<not> checkpointsCurrent (oracle_of demo_stale)"
    by (simp_all add: demo_stale_def Web_Series.demo_series_def Web_Series.demo_params_def isFinalized_def)
  have "perUnitPrice_web 50000000 (36 * 10 ^ 16) = 18000000" "payoutFor (2 * 10 ^ 18) 18000000 = 36000000" by code_simp+
  then show ?thesis
    using x detail_value_is_portfolio_value [OF x, of None] q by (intro exI [of _ x]) simp
qed

text \<open>Once the clock runs, the reading under the volatility chart is the chain's, whatever history the backend serves
  or fails to serve: the market's volatility is the one of the live quote, and the realized one is the chain's as
  soon as it has two samples or is final.\<close>

theorem chart_reading_is_live:
  assumes "now \<noteq> 0"
  shows "vr_market (volatility_quote M (vol_points M s history now) s) = volPctNumber M (q_marketVariance (quote_of s))
    \<and> (samplesStored (oracle_of s) > 1 \<or> isFinalized s \<longrightarrow>
        vr_realized (volatility_quote M (vol_points M s history now) s) = Some (volPctNumber M (effectiveVariance s)))"
  using assms by (simp add: volatility_quote_def Let_def first_some_def vol_points_def live_point_def)

theorem chart_reading_is_live_witness:
  "vr_market (volatility_quote flat_math (vol_points flat_math demo_stale None 1000) demo_stale)
     = volPctNumber flat_math (q_marketVariance (quote_of demo_stale))"
  using chart_reading_is_live [of 1000 flat_math demo_stale None] by simp

text \<open>The change is taken over all the points, whatever part of them the chart shows under the label \<open>visible range\<close>: with a
  history of eight days the day's slice starts at 60 and the change still counts from 20.\<close>

definition demo_history :: "market_point list" where
  "demo_history = map (\<lambda>(t, v). \<lparr>mp_t = t, mp_realizedVol = v, mp_marketVol = 1, mp_projectedVol = 1, mp_bidVariance = 0,
     mp_askVariance = 0, mp_realizedVariance = 0, mp_bidPerUnit = 0, mp_askPerUnit = 0, mp_fresh = True\<rparr>)
     [(100000, 1/4), (750000, 1/2), (800000, 3/4)]"

lemma change_ignores_range:
  "map vp_realized (visible_points Range1D (Some 800000) (map (indexed_point flat_math) demo_history)) = [Some 50, Some 75]
   \<and> vr_change (volatility_quote flat_math (map (indexed_point flat_math) demo_history) demo_stale) = Some 50"
  by code_simp

text \<open>Before the page is mounted its clock is zero, and the range it opens on ends there: no point of the history is shown.\<close>

lemma unmounted_chart_empty:
  assumes "\<forall>p\<in>set points. 0 < vp_t p"
  shows "visible_points RangePast (Some 0) points = []"
proof -
  have "set (by_vol_time points) = set points" by (simp add: by_vol_time_def)
  then show ?thesis using assms by (auto simp: visible_points_def Let_def filter_empty_conv)
qed

lemma by_vol_time_key: "by_vol_time points = sort_key vp_t points"
  unfolding by_vol_time_def by (rule js_sort_key) auto

lemma visible_points_ok:
  "sorted (map vp_t (visible_points timeRange now points)) \<and> set (visible_points timeRange now points) \<subseteq> set points"
  by (auto simp: visible_points_def Let_def by_vol_time_key sorted_filter)

subsection \<open>The payoff curve is capped\<close>

lemma squared_nonneg: "0 \<le> squared v"
  by (simp add: squared_def fl_nonneg)

lemma paid_mono:
  assumes "0 \<le> py_units I" "0 \<le> py_notional I" "v \<le> w"
  shows "paid_at I v \<le> paid_at I w"
  unfolding paid_at_def using assms by (intro fl_mono mult_left_mono fl_nonneg) auto

lemma sorted_by_x: "js_sort (\<lambda>a b. if fst a < fst b then - 1 else if fst a = fst b then 0 else 1) xs = sort_key fst xs"
  for xs :: "(rat \<times> rat) list"
  by (rule js_sort_key) auto

text \<open>The payoff curve is drawn from left to right and never above the maximum payout it states beside it, which the
  point at the cap attains when the cap lies within the axis; below zero it never goes.\<close>

theorem payoff_curve_capped:
  assumes "0 \<le> py_units I" "0 \<le> py_notional I" "0 < py_capVol I"
  shows "sorted (map fst (payoff_curve I))
    \<and> list_all (\<lambda>(x, y). 0 \<le> y \<and> y \<le> payout_at I (py_capVol I)) (payoff_curve I)
    \<and> (py_capVol I < py_maxX I \<longrightarrow> (fixed_number 2 (py_capVol I), payout_at I (py_capVol I)) \<in> set (payoff_curve I))"
proof -
  have p0: "0 \<le> paid_at I v" if "0 \<le> v" for v
    unfolding paid_at_def using assms that by (intro fl_nonneg mult_nonneg_nonneg) auto
  have m: "paid_at I (min v (squared (py_capVol I))) \<le> paid_at I (squared (py_capVol I))" for v
    using assms by (intro paid_mono) auto
  have "list_all (\<lambda>(x, y). 0 \<le> y \<and> y \<le> payout_at I (py_capVol I)) (payoff_curve I)"
    unfolding payoff_curve_def Let_def sorted_by_x list_all_iff
    using assms(3) m p0 squared_nonneg by (auto simp: payout_at_def)
  moreover have "sorted (map fst (payoff_curve I))" unfolding payoff_curve_def Let_def sorted_by_x by (rule sorted_sort_key)
  moreover have "(fixed_number 2 (py_capVol I), payout_at I (py_capVol I)) \<in> set (payoff_curve I)" if "py_capVol I < py_maxX I"
    using that assms(3) by (auto simp: payoff_curve_def Let_def sorted_by_x payout_at_def)
  ultimately show ?thesis by blast
qed

theorem payoff_curve_capped_witness:
  "list_all (\<lambda>(x, y). 0 \<le> y \<and> y \<le> payout_at \<lparr>py_capVol = 100, py_notional = 50, py_units = 2, py_be = None, py_rv = None, py_maxX = 135\<rparr> 100)
     (payoff_curve \<lparr>py_capVol = 100, py_notional = 50, py_units = 2, py_be = None, py_rv = None, py_maxX = 135\<rparr>)"
  using payoff_curve_capped [of "\<lparr>py_capVol = 100, py_notional = 50, py_units = 2, py_be = None, py_rv = None, py_maxX = 135\<rparr>"] by simp

end
