(* ===== verification/Web_Lists.thy ===== *)
theory Web_Lists
  imports Web_Detail
begin

text \<open>
  The lists and cards of the markets: the history The Graph serves (\<open>web/src/lib/graph.ts\<close>), the fills feed, the
  history card and the collateral card of a series (\<open>web/src/components/series\<close>), the table of the series, that of the
  paired markets and their events (\<open>web/src/components/pairs\<close>), and the progress list of a transaction
  (\<open>web/src/components/tx\<close>). Dates and symbols are parameters; markup is left out.
\<close>

subsection \<open>The history of The Graph\<close>

record graph_fill =
  gf_leg :: string
  gf_taker :: address
  gf_amountIn :: string
  gf_amountOut :: string
  gf_units :: string
  gf_quoteAmount :: string
  gf_timestamp :: string
  gf_block :: string
  gf_transactionHash :: string

record shown_fill =
  sf_leg :: string
  sf_taker :: address
  sf_amountIn :: int
  sf_amountOut :: int
  sf_units :: int
  sf_quoteAmount :: int
  sf_pricePerUnit :: int
  sf_timestamp :: rat
  sf_block :: rat
  sf_txHash :: string

text \<open>\<open>Number(text)\<close> of the decimal text of an entity's integer; other texts do not occur in the two fields.\<close>

definition Number_text :: "string \<Rightarrow> rat" where
  "Number_text t = (case text_number t of Some x \<Rightarrow> x | None \<Rightarrow> 0)"

definition mapFill :: "graph_fill \<Rightarrow> thrown + shown_fill" where
  "mapFill f =
     (case (BigInt_text (gf_units f), BigInt_text (gf_quoteAmount f), BigInt_text (gf_amountIn f), BigInt_text (gf_amountOut f)) of
        (Inr units, Inr quote, Inr inp, Inr out) \<Rightarrow>
          Inr \<lparr>sf_leg = (if gf_leg f = ''exit'' then ''exit'' else if gf_leg f = ''settle'' then ''settle'' else ''issue''),
            sf_taker = gf_taker f, sf_amountIn = inp, sf_amountOut = out, sf_units = units, sf_quoteAmount = quote,
            sf_pricePerUnit = (if units > 0 then bdiv (quote * 10 ^ 18) units else 0),
            sf_timestamp = Number_text (gf_timestamp f), sf_block = Number_text (gf_block f), sf_txHash = gf_transactionHash f\<rparr>
      | (Inl e, _, _, _) \<Rightarrow> Inl e
      | (_, Inl e, _, _) \<Rightarrow> Inl e
      | (_, _, Inl e, _) \<Rightarrow> Inl e
      | (_, _, _, Inl e) \<Rightarrow> Inl e)"

definition graph_response :: "int \<Rightarrow> bool \<Rightarrow> bool \<Rightarrow> 'a option \<Rightarrow> string + 'a" where
  "graph_response http_status ok errors data =
     (if \<not> ok then Inl (''Graph request failed ('' @ dec_string http_status @ '')'')
      else case data of Some d \<Rightarrow> if errors then Inl ''Graph query failed'' else Inr d
      | None \<Rightarrow> Inl ''Graph query failed'')"

subsection \<open>The fills feed\<close>

fun LEG_TITLE :: "string \<Rightarrow> string" where
  "LEG_TITLE l = (if l = ''issue'' then ''Buy'' else if l = ''exit'' then ''Exit'' else ''Redeem'')"

definition newest_first :: "shown_fill \<Rightarrow> shown_fill \<Rightarrow> int" where
  "newest_first a b = (if sf_timestamp b < sf_timestamp a then - 1 else if sf_timestamp b = sf_timestamp a then 0 else 1)"

definition has_rows :: "'a list option \<Rightarrow> bool" where
  "has_rows l = (case l of None \<Rightarrow> False | Some xs \<Rightarrow> xs \<noteq> [])"

definition or_empty :: "'a list option \<Rightarrow> 'a list" where
  "or_empty l = (case l of None \<Rightarrow> [] | Some xs \<Rightarrow> xs)"

definition feed_list :: "shown_fill list option \<Rightarrow> shown_fill list option \<Rightarrow> shown_fill list" where
  "feed_list graph backend = js_sort newest_first (if has_rows graph then or_empty graph else or_empty backend)"

datatype feed_body = FeedLoading | FeedText string | FeedRows "shown_fill list"

definition feed_offline :: "bool option \<Rightarrow> bool \<Rightarrow> bool" where
  "feed_offline online failed \<longleftrightarrow> online = Some False \<or> failed"

definition feed_body_of :: "bool \<Rightarrow> bool option \<Rightarrow> bool \<Rightarrow> shown_fill list option \<Rightarrow> shown_fill list option \<Rightarrow> feed_body" where
  "feed_body_of pending online failed graph backend =
     (let l = feed_list graph backend; offline = feed_offline online failed in
      if pending \<and> \<not> offline then FeedLoading
      else if offline then FeedText (''API offline '' @ em_dash @ '' fills are indexed by the backend.'')
      else if l = [] then FeedText ''No fills yet.''
      else FeedRows (take 25 l))"

definition fill_cells :: "shown_fill \<Rightarrow> string list" where
  "fill_cells f = [LEG_TITLE (sf_leg f), fmtUnits (sf_units f) 2, fmtUsdc (sf_quoteAmount f) 2, fmtUsdc (sf_pricePerUnit f) 2]"

definition feed_meta :: "series_state \<Rightarrow> bool \<Rightarrow> shown_fill list option \<Rightarrow> string" where
  "feed_meta s configured graph =
     (case fillsCount s of
        Some n \<Rightarrow> dec_string n @ '' total '' @ mid_dot @ '' '' @ (if has_rows graph then ''The Graph'' else ''indexed by the backend'')
      | None \<Rightarrow> if configured then ''The Graph with backend fallback'' else ''indexed by the backend'')"

subsection \<open>The history card\<close>

record history =
  hi_fills :: nat
  hi_checkpoints :: "int list"
  hi_final :: "(int \<times> int) option"

definition history_source :: "history option \<Rightarrow> history option \<Rightarrow> string" where
  "history_source graph api = (if graph \<noteq> None then ''The Graph'' else if api \<noteq> None then ''backend indexer fallback'' else ''loading'')"

definition history_tiles :: "(int \<Rightarrow> string) \<Rightarrow> js_math \<Rightarrow> history option \<Rightarrow> history option \<Rightarrow> js_error + (string \<times> string \<times> string) list" where
  "history_tiles dateTime M graph api =
     (let checkpoints = (case graph of Some g \<Rightarrow> hi_checkpoints g | None \<Rightarrow> (case api of Some a \<Rightarrow> hi_checkpoints a | None \<Rightarrow> []));
          final = (case graph of Some g \<Rightarrow> (case hi_final g of Some f \<Rightarrow> Some f | None \<Rightarrow> Option.bind api hi_final) | None \<Rightarrow> Option.bind api hi_final);
          fills = (case graph of Some g \<Rightarrow> Some (hi_fills g) | None \<Rightarrow> map_option hi_fills api)
      in andThen (case final of Some (v, _) \<Rightarrow> fmtVolPct M v 1 | None \<Rightarrow> Inr em_dash) (\<lambda>final_text. Inr
        [(''Checkpoints'', dec_string (int (length checkpoints)),
          if checkpoints = [] then ''No indexed rounds yet'' else ''through '' @ dateTime (last checkpoints)),
         (''Indexed fills'', (case fills of Some n \<Rightarrow> dec_string (int n) | None \<Rightarrow> em_dash), ''historical execution events''),
         (''Finalization'', final_text,
          (case final of Some (_, ppu) \<Rightarrow> fmtUsdc ppu 2 @ '' / unit'' | None \<Rightarrow> ''not indexed''))]))"

subsection \<open>The collateral card\<close>

definition bar_pct :: "int \<Rightarrow> int \<Rightarrow> rat" where
  "bar_pct value required =
     (if isUnlimitedAllowance value \<or> required = 0 then 100
      else min 100 (fl (js_Number (bdiv (value * 10000) required) / 100)))"

definition bar_text :: "int \<Rightarrow> int \<Rightarrow> string" where
  "bar_text value required = fmtAllowance value @ '' '' @ mid_dot @ '' '' @ to_fixed 0 (bar_pct value required) @ ''%''"

definition collateral_bars :: "series_state \<Rightarrow> (string \<times> int \<times> int) list" where
  "collateral_bars s =
     [(''Vault balance against the reservation'', vs_balance (vaultState s), lockedLiability s),
      (''Aqua allowance against the reservation'', aquaAllowance (vaultState s), lockedLiability s),
      (''Reservation against the maximum payout'', lockedLiability s, maxLiabilityFor (unitsOutstanding s) (series_state.params s))]"

definition legs_live :: "series_state \<Rightarrow> bool" where
  "legs_live s \<longleftrightarrow> unitsOutstanding s = 0 \<or> exitLegActive (legs s) \<or> settleLegActive (legs s)"

subsection \<open>The tables\<close>

definition series_rows :: "series_state list option \<Rightarrow> market_filter \<Rightarrow> bool \<Rightarrow> nat option \<Rightarrow> series_state list" where
  "series_rows data f saleOnly limit =
     (let l0 = or_empty data;
          l1 = (if f \<noteq> AllSeries then filter (\<lambda>s. matchesFilter s f) l0 else l0);
          l2 = (if saleOnly then filter (\<lambda>s. matchesFilter s IssuanceOpen) l1 else l1)
      in case limit of Some n \<Rightarrow> if n \<noteq> 0 then take n l2 else l2 | None \<Rightarrow> l2)"

definition series_empty_text :: "bool \<Rightarrow> bool \<Rightarrow> bool \<Rightarrow> series_state list option \<Rightarrow> string" where
  "series_empty_text deployed chainError apiError data =
     (if \<not> deployed then ''Contracts are not deployed on this chain yet.''
      else if chainError \<and> apiError then ''Neither the RPC nor the API answered.''
      else if has_rows data then ''No series match this filter.''
      else ''No series yet. Write the first one.'')"

definition price_cell :: "int \<Rightarrow> string" where
  "price_cell v = (if v > 0 then fmtUsdc v 2 else em_dash)"

definition series_cells :: "js_math \<Rightarrow> series_state \<Rightarrow> js_error + string list" where
  "series_cells M s =
     andThen (if status_of s = status.Upcoming then Inr ''Awaiting start''
        else if samplesStored (oracle_of s) \<le> 1 \<and> \<not> isFinalized s then Inr em_dash
        else andThen (realizedVolPct M s) (\<lambda>t. Inr (t @ ''%'')))
       (\<lambda>realized. andThen (marketVolPct M s) (\<lambda>market. Inr
         [realized, market @ ''%'', price_cell (q_bidPerUnit (quote_of s)), price_cell (q_askPerUnit (quote_of s)),
          fmtUnits (unitsAvailable s) 0 @ '' / '' @ fmtUnits (maxUnits (series_state.params s)) 0, fmtUsdc (lockedLiability s) 0]))"

definition group_rows :: "group_state list option \<Rightarrow> int \<Rightarrow> nat option \<Rightarrow> group_state list" where
  "group_rows data now limit =
     (let l0 = or_empty data; l1 = (if now \<noteq> 0 then sortGroups l0 now else l0)
      in case limit of Some n \<Rightarrow> if n \<noteq> 0 then take n l1 else l1 | None \<Rightarrow> l1)"

fun GROUP_STATUS_LABEL :: "group_status \<Rightarrow> string" where
  "GROUP_STATUS_LABEL group_status.Upcoming = ''Upcoming''"
| "GROUP_STATUS_LABEL Open = ''Open''"
| "GROUP_STATUS_LABEL Trading = ''Trading''"
| "GROUP_STATUS_LABEL AwaitingFinalization = ''Awaiting finalization''"
| "GROUP_STATUS_LABEL group_status.Finalized = ''Finalized''"
| "GROUP_STATUS_LABEL Settled = ''Settled''"

definition bid_ask_text :: "bool \<Rightarrow> int \<Rightarrow> int \<Rightarrow> int \<Rightarrow> string" where
  "bid_ask_text final ppu bid ask =
     (if final then ''$'' @ fmtPriceUsdc ppu 6 else ''$'' @ fmtPriceUsdc bid 6 @ '' / $'' @ fmtPriceUsdc ask 6)"

definition group_cells :: "group_state \<Rightarrow> int \<Rightarrow> string list" where
  "group_cells g now =
     (let p = group_state.params g in
      [GROUP_STATUS_LABEL (groupStatus g (if now \<noteq> 0 then now else group_params.start p)),
       bid_ask_text (finalized g) (highPpu g) (bidHigh p) (askHigh p),
       bid_ask_text (finalized g) (calmPpu g) (bidCalm p) (askCalm p),
       fmtUnits (highOutstanding g) 0 @ '' / '' @ fmtUnits (maxUnitsPerSide p) 0,
       fmtUnits (calmOutstanding g) 0 @ '' / '' @ fmtUnits (maxUnitsPerSide p) 0,
       fmtUsdc (reserveLocked g) 0 @ '' / '' @ fmtUsdc (standalone_shown g) 0 @ '' if separate''])"

definition group_empty_text :: "string option \<Rightarrow> bool \<Rightarrow> bool \<Rightarrow> bool \<Rightarrow> string" where
  "group_empty_text rejected deployed portfolioDeployed failed =
     (if \<not> deployed
      then (case rejected of Some e \<Rightarrow> ''Deployment manifest rejected: '' @ e | None \<Rightarrow> ''Contracts are not deployed on this chain yet.'')
      else if \<not> portfolioDeployed
      then ''This deployment manifest has no portfolio market '' @ em_dash @ '' paired markets are unavailable here.''
      else if failed then ''The RPC did not answer.''
      else ''No paired markets yet. Write the first one.'')"

subsection \<open>The events of a paired market\<close>

definition event_label :: "string \<Rightarrow> string" where
  "event_label t =
     (if t = ''issued'' then ''Buy'' else if t = ''exited'' then ''Exit'' else if t = ''settled'' then ''Redeem''
      else if t = ''finalized'' then ''Finalize'' else if t = ''buffer_funded'' then ''Fund Buffer''
      else if t = ''buffer_withdrawn'' then ''Withdraw Buffer'' else t)"

subsection \<open>The progress list\<close>

fun phaseText :: "tx_phase \<Rightarrow> string" where
  "phaseText Todo = ''''"
| "phaseText Preparing = ''Preparing'' @ ellipsis"
| "phaseText Confirm = ''Confirm in wallet''"
| "phaseText Pending = ''Waiting for inclusion''"
| "phaseText Confirmed = ''Confirmed''"
| "phaseText Skipped = ''Skipped''"
| "phaseText Failed = ''Failed''"
| "phaseText tx_phase.Rejected = ''Rejected in wallet''"

definition shows_error :: "step_state \<Rightarrow> bool" where
  "shows_error s \<longleftrightarrow> sp_error s \<noteq> None \<and> sp_error s \<noteq> Some '''' \<and> (sp_phase s = Failed \<or> sp_phase s = tx_phase.Rejected)"

definition step_status :: "step_state \<Rightarrow> string" where
  "step_status s =
     (case sp_hash s of Some h \<Rightarrow> h
      | None \<Rightarrow> phaseText (sp_phase s) @ (case sp_note s of Some n \<Rightarrow> if n = '''' then '''' else '' '' @ mid_dot @ '' '' @ n | None \<Rightarrow> ''''))"

definition progress_error :: "step_state list \<Rightarrow> string option" where
  "progress_error steps = (case find shows_error steps of Some s \<Rightarrow> sp_error s | None \<Rightarrow> None)"

subsection \<open>What the lists promise\<close>

lemma graph_amounts_exact:
  "mapFill \<lparr>gf_leg = leg, gf_taker = t, gf_amountIn = dec_string i, gf_amountOut = dec_string q, gf_units = dec_string u,
     gf_quoteAmount = dec_string n, gf_timestamp = ts, gf_block = b, gf_transactionHash = h\<rparr>
   = Inr \<lparr>sf_leg = (if leg = ''exit'' then ''exit'' else if leg = ''settle'' then ''settle'' else ''issue''), sf_taker = t,
       sf_amountIn = i, sf_amountOut = q, sf_units = u, sf_quoteAmount = n,
       sf_pricePerUnit = (if u > 0 then bdiv (n * 10 ^ 18) u else 0), sf_timestamp = Number_text ts, sf_block = Number_text b, sf_txHash = h\<rparr>"
  by (simp add: mapFill_def)

lemma feed_list_key: "feed_list graph backend = sort_key (\<lambda>f. - sf_timestamp f) (if has_rows graph then or_empty graph else or_empty backend)"
  unfolding feed_list_def by (rule js_sort_key) (auto simp: newest_first_def)

text \<open>The feed shows the newest fills: none that is left out is newer than one shown.\<close>

theorem feed_shows_newest:
  assumes "feed_body_of pending online failed graph backend = FeedRows fs"
  shows "length fs \<le> 25 \<and> sorted_wrt (\<lambda>a b. sf_timestamp a \<ge> sf_timestamp b) fs
    \<and> (\<exists>rest. mset (fs @ rest) = mset (if has_rows graph then or_empty graph else or_empty backend)
        \<and> list_all (\<lambda>r. list_all (\<lambda>f. sf_timestamp r \<le> sf_timestamp f) fs) rest)"
proof -
  define xs where "xs = (if has_rows graph then or_empty graph else or_empty backend)"
  define l where "l = feed_list graph backend"
  have fs: "fs = take 25 l" using assms by (auto simp: feed_body_of_def Let_def l_def split: if_splits)
  have l: "l = sort_key (\<lambda>f. - sf_timestamp f) xs" by (simp add: l_def feed_list_key xs_def)
  have "sorted (map (\<lambda>f. - sf_timestamp f) l)" unfolding l by (rule sorted_sort_key)
  then have s: "sorted_wrt (\<lambda>a b. sf_timestamp a \<ge> sf_timestamp b) (take 25 l @ drop 25 l)"
    by (simp add: sorted_map sorted_wrt_iff_nth_less)
  have "mset l = mset xs" unfolding l by simp
  then have m: "mset (take 25 l) + mset (drop 25 l) = mset xs" by (metis append_take_drop_id mset_append)
  show ?thesis
    using s m unfolding xs_def [symmetric] fs sorted_wrt_append by (auto simp: list_all_iff intro!: exI [of _ "drop 25 l"])
qed

text \<open>With the backend down the feed hides the fills The Graph has served.\<close>

lemma graph_fills_hidden: "feed_body_of pending (Some False) failed (Some (f # fs)) backend =
    FeedText (''API offline '' @ em_dash @ '' fills are indexed by the backend.'')"
  by (simp add: feed_body_of_def feed_offline_def Let_def)

text \<open>The final volatility of the history card is printed without its percent sign.\<close>

lemma final_volatility_bare:
  "history_tiles d M (Some \<lparr>hi_fills = n, hi_checkpoints = cs, hi_final = Some (v, p)\<rparr>) api
   = andThen (fmtVolPct M v 1) (\<lambda>t. Inr
       [(''Checkpoints'', dec_string (int (length cs)), if cs = [] then ''No indexed rounds yet'' else ''through '' @ d (last cs)),
        (''Indexed fills'', dec_string (int n), ''historical execution events''),
        (''Finalization'', t, fmtUsdc p 2 @ '' / unit'')])"
  by (simp add: history_tiles_def Let_def)

text \<open>A filter never loses or adds a series: what the table shows is exactly what matches, in the order of the list.\<close>

lemma series_rows_exact:
  "series_rows (Some l) f saleOnly None = filter (\<lambda>s. matchesFilter s f \<and> (saleOnly \<longrightarrow> leg_issuanceOpen (legs s))) l"
  by (cases f) (auto simp: series_rows_def or_empty_def Let_def intro: filter_cong)

end
