(* ===== verification/Entity_Store.thy ===== *)
theory Entity_Store
  imports Main
begin

text \<open>
  The contract of the indexer's storage: an entity is loaded by its id, and saving one changes what is
  loaded under that id and nothing else. Every handler of the subgraph rests on it. The one pattern
  all of them share, load, return when there is none, change, save, is \<open>alter\<close>.
\<close>

locale entity_store =
  fixes load :: "'s \<Rightarrow> 'k \<Rightarrow> 'e option"
    and save :: "'k \<Rightarrow> 'e \<Rightarrow> 's \<Rightarrow> 's"
  assumes load_save: "load (save k e s) k' = (if k' = k then Some e else load s k')"
begin

lemma load_same [simp]: "load (save k e s) k = Some e"
  by (simp add: load_save)

lemma load_other [simp]: "k' \<noteq> k \<Longrightarrow> load (save k e s) k' = load s k'"
  by (simp add: load_save)

text \<open>Folding saves that all leave a key alone leaves what is loaded there.\<close>

lemma fold_save_other:
  assumes "\<forall>x\<in>set xs. key x \<noteq> k"
  shows "load (fold (\<lambda>x. save (key x) (ent x)) xs s) k = load s k"
  using assms by (induction xs arbitrary: s) auto

end

definition alter :: "('s \<Rightarrow> 'k \<Rightarrow> 'e option) \<Rightarrow> ('k \<Rightarrow> 'e \<Rightarrow> 's \<Rightarrow> 's) \<Rightarrow> 'k \<Rightarrow> ('e \<Rightarrow> 'e) \<Rightarrow> 's \<Rightarrow> 's" where
  "alter load save k f s = (case load s k of None \<Rightarrow> s | Some e \<Rightarrow> save k (f e) s)"

context entity_store
begin

lemma load_alter: "load (alter load save k f s) k' = (if k' = k then map_option f (load s k) else load s k')"
  by (simp add: alter_def load_save split: option.split)

end

end
