(* ===== verification/Subgraph_Series.thy ===== *)
theory Subgraph_Series
  imports Entity_Store Web_Series
begin

text \<open>
  The indexer of the series contracts, \<open>subgraph/src\<close>: the handlers of the controller, the vaults, the
  receipts, the accumulator and the router, as functions from store to store. The entity fields and
  their nullability are those of \<open>schema.graphql\<close>. The \<open>graph-ts\<close> runtime is its documented contract:
  \<open>load\<close> and \<open>save\<close> by id on a map, and data sources that start when created. A log's id, the transaction
  hash followed by the log index, is the pair of the two.
\<close>

type_synonym log_id = "hexstr \<times> int"

text \<open>What an event carries beside its parameters, and the address of the data source that receives it.\<close>

record event_ctx =
  tx_hash :: hexstr
  log_index :: int
  block_timestamp :: int
  block_number :: int
  tx_from :: address
  ds_address :: address

definition logId :: "hexstr \<Rightarrow> int \<Rightarrow> log_id" where
  "logId txHash logIndex = (txHash, logIndex)"

definition LEG_ISSUE :: string where "LEG_ISSUE = ''issue''"
definition LEG_EXIT :: string where "LEG_EXIT = ''exit''"
definition LEG_SETTLE :: string where "LEG_SETTLE = ''settle''"

subsection \<open>Entities and the store\<close>

record vault_entity =
  ve_writer :: address
  ve_quoteToken :: address
  ve_createdAt :: int
  ve_createdBlock :: int
  ve_transactionHash :: hexstr
  totalDeposited :: int
  totalWithdrawn :: int
  ve_lastReportedBalance :: int
  ve_lastReportedLocked :: int
  ve_updatedAt :: int

record vault_action =
  va_vault :: address
  va_kind :: string
  va_actor :: "address option"
  va_amount :: "int option"
  va_balance :: "int option"
  va_locked :: "int option"
  va_reference :: "hexstr option"
  va_timestamp :: int
  va_block :: int
  va_transactionHash :: hexstr

record series_entity =
  se_writer :: address
  se_vault :: address
  se_receipt :: address
  se_quoteToken :: address
  se_feed :: address
  se_issueOrderHash :: hexstr
  se_exitOrderHash :: hexstr
  se_settlementOrderHash :: hexstr
  se_start :: int
  se_expiry :: int
  se_saleEnd :: int
  se_sampleInterval :: int
  se_unitNotional :: int
  se_capVariance :: int
  se_anchorVariance :: int
  se_impactPerUnit :: int
  se_halfLife :: int
  se_halfSpreadBps :: int
  se_maxUnits :: int
  se_createdAt :: int
  se_createdBlock :: int
  se_transactionHash :: hexstr
  se_unitsIssued :: int
  se_unitsExited :: int
  se_unitsSettled :: int
  se_unitsBurnedWorthless :: int
  se_premiumCollected :: int
  se_exitPaid :: int
  se_settlementPaid :: int
  se_lastReportedOutstanding :: int
  se_lastReportedLocked :: int
  se_issuanceStoppedAt :: "int option"
  se_closedAt :: "int option"
  se_finalization :: "string option"
  se_processedThrough :: int
  se_lastRoundId :: int

record order_entity =
  oe_series :: string
  oe_leg :: string
  oe_maker :: address

record fill_entity =
  fe_series :: string
  fe_orderHash :: hexstr
  fe_leg :: string
  fe_makerVault :: address
  fe_taker :: address
  fe_tokenIn :: address
  fe_tokenOut :: address
  fe_amountIn :: int
  fe_amountOut :: int
  fe_units :: int
  fe_quoteAmount :: int
  fe_timestamp :: int
  fe_block :: int
  fe_transactionHash :: hexstr

record checkpoint_entity =
  ce_series :: string
  ce_fromSample :: int
  ce_toSample :: int
  ce_processedThrough :: int
  ce_lastRoundId :: int
  ce_sumSquaredReturns :: int
  ce_caller :: address
  ce_timestamp :: int
  ce_block :: int
  ce_transactionHash :: hexstr

record finalization_entity =
  fz_series :: string
  fz_finalVariance :: int
  fz_cappedVariance :: int
  fz_payoutPerUnit :: int
  fz_outstandingUnits :: int
  fz_releasedCollateral :: int
  fz_caller :: address
  fz_timestamp :: int
  fz_block :: int
  fz_transactionHash :: hexstr

record balance_entity =
  be_series :: string
  be_account :: address
  be_receipt :: address
  be_units :: int
  be_updatedAt :: int

record store =
  vaults :: "address \<Rightarrow> vault_entity option"
  vault_actions :: "log_id \<Rightarrow> vault_action option"
  serieses :: "string \<Rightarrow> series_entity option"
  orders :: "hexstr \<Rightarrow> order_entity option"
  receipt_index :: "address \<Rightarrow> string option"
  fills :: "log_id \<Rightarrow> fill_entity option"
  checkpoints :: "log_id \<Rightarrow> checkpoint_entity option"
  finalizations :: "string \<Rightarrow> finalization_entity option"
  balances :: "string \<Rightarrow> balance_entity option"
  vault_sources :: "address list"
  receipt_sources :: "address list"

definition save_vault where "save_vault k e s = s\<lparr>vaults := (vaults s)(k \<mapsto> e)\<rparr>"
definition save_action where "save_action k e s = s\<lparr>vault_actions := (vault_actions s)(k \<mapsto> e)\<rparr>"
definition save_series where "save_series k e s = s\<lparr>serieses := (serieses s)(k \<mapsto> e)\<rparr>"
definition save_order where "save_order k e s = s\<lparr>orders := (orders s)(k \<mapsto> e)\<rparr>"
definition save_index where "save_index k e s = s\<lparr>receipt_index := (receipt_index s)(k \<mapsto> e)\<rparr>"
definition save_fill where "save_fill k e s = s\<lparr>fills := (fills s)(k \<mapsto> e)\<rparr>"
definition save_checkpoint where "save_checkpoint k e s = s\<lparr>checkpoints := (checkpoints s)(k \<mapsto> e)\<rparr>"
definition save_finalization where "save_finalization k e s = s\<lparr>finalizations := (finalizations s)(k \<mapsto> e)\<rparr>"
definition save_balance where "save_balance k e s = s\<lparr>balances := (balances s)(k \<mapsto> e)\<rparr>"

lemmas save_defs = save_vault_def save_action_def save_series_def save_order_def save_index_def save_fill_def
  save_checkpoint_def save_finalization_def save_balance_def

interpretation series_store: entity_store serieses save_series
  by unfold_locales (simp add: save_series_def)

interpretation balance_store: entity_store balances save_balance
  by unfold_locales (simp add: save_balance_def)

interpretation vault_store: entity_store vaults save_vault
  by unfold_locales (simp add: save_vault_def)

subsection \<open>Vaults\<close>

definition record_action ::
  "string \<Rightarrow> event_ctx \<Rightarrow> address option \<Rightarrow> int option \<Rightarrow> int option \<Rightarrow> int option \<Rightarrow> hexstr option \<Rightarrow> store \<Rightarrow> store" where
  "record_action kind c actor amount bal locked reference s =
     (case vaults s (ds_address c) of None \<Rightarrow> s
      | Some v \<Rightarrow>
          let action = \<lparr>va_vault = ds_address c, va_kind = kind, va_actor = actor, va_amount = amount, va_balance = bal,
                va_locked = locked, va_reference = reference, va_timestamp = block_timestamp c, va_block = block_number c,
                va_transactionHash = tx_hash c\<rparr>;
              s1 = save_action (logId (tx_hash c) (log_index c)) action s;
              v1 = (case bal of None \<Rightarrow> v | Some b \<Rightarrow> v\<lparr>ve_lastReportedBalance := b\<rparr>);
              v2 = (case locked of None \<Rightarrow> v1 | Some l \<Rightarrow> v1\<lparr>ve_lastReportedLocked := l\<rparr>)
          in save_vault (ds_address c) (v2\<lparr>ve_updatedAt := block_timestamp c\<rparr>) s1)"

definition handleDeposited :: "event_ctx \<Rightarrow> address \<Rightarrow> int \<Rightarrow> int \<Rightarrow> int \<Rightarrow> store \<Rightarrow> store" where
  "handleDeposited c payer amount newBalance lockedBalance s =
     record_action ''deposited'' c (Some payer) (Some amount) (Some newBalance) (Some lockedBalance) None
       (alter vaults save_vault (ds_address c) (\<lambda>v. v\<lparr>totalDeposited := totalDeposited v + amount\<rparr>) s)"

definition handleFreeWithdrawn :: "event_ctx \<Rightarrow> address \<Rightarrow> int \<Rightarrow> int \<Rightarrow> int \<Rightarrow> store \<Rightarrow> store" where
  "handleFreeWithdrawn c recipient amount newBalance lockedBalance s =
     record_action ''freeWithdrawn'' c (Some recipient) (Some amount) (Some newBalance) (Some lockedBalance) None
       (alter vaults save_vault (ds_address c) (\<lambda>v. v\<lparr>totalWithdrawn := totalWithdrawn v + amount\<rparr>) s)"

definition handleLockedIncreased :: "event_ctx \<Rightarrow> int \<Rightarrow> int \<Rightarrow> store \<Rightarrow> store" where
  "handleLockedIncreased c amount lockedBalance =
     record_action ''lockedIncreased'' c None (Some amount) None (Some lockedBalance) None"

definition handleLockedDecreased :: "event_ctx \<Rightarrow> int \<Rightarrow> int \<Rightarrow> store \<Rightarrow> store" where
  "handleLockedDecreased c amount lockedBalance =
     record_action ''lockedDecreased'' c None (Some amount) None (Some lockedBalance) None"

definition handleReceiptRegistered :: "event_ctx \<Rightarrow> address \<Rightarrow> store \<Rightarrow> store" where
  "handleReceiptRegistered c receipt = record_action ''receiptRegistered'' c None None None None (Some receipt)"

definition handleStrategyShipped :: "event_ctx \<Rightarrow> hexstr \<Rightarrow> store \<Rightarrow> store" where
  "handleStrategyShipped c strategyHash = record_action ''strategyShipped'' c None None None None (Some strategyHash)"

definition handleStrategyDocked :: "event_ctx \<Rightarrow> hexstr \<Rightarrow> store \<Rightarrow> store" where
  "handleStrategyDocked c strategyHash = record_action ''strategyDocked'' c None None None None (Some strategyHash)"

subsection \<open>The controller\<close>

definition handleVaultCreated :: "event_ctx \<Rightarrow> address \<Rightarrow> address \<Rightarrow> address \<Rightarrow> store \<Rightarrow> store" where
  "handleVaultCreated c w quoteTok vlt s =
     (let s1 = save_vault vlt \<lparr>ve_writer = w, ve_quoteToken = quoteTok, ve_createdAt = block_timestamp c,
            ve_createdBlock = block_number c, ve_transactionHash = tx_hash c, totalDeposited = 0, totalWithdrawn = 0,
            ve_lastReportedBalance = 0, ve_lastReportedLocked = 0, ve_updatedAt = block_timestamp c\<rparr> s
      in s1\<lparr>vault_sources := vault_sources s1 @ [vlt]\<rparr>)"

record series_created =
  sc_seriesId :: int
  sc_writer :: address
  sc_vault :: address
  sc_receipt :: address
  sc_issueOrderHash :: hexstr
  sc_exitOrderHash :: hexstr
  sc_settlementOrderHash :: hexstr
  sc_params :: web_params

definition new_series_entity :: "event_ctx \<Rightarrow> series_created \<Rightarrow> series_entity" where
  "new_series_entity c e = (let p = sc_params e in
     \<lparr>se_writer = sc_writer e, se_vault = sc_vault e, se_receipt = sc_receipt e, se_quoteToken = quoteToken p,
      se_feed = feed p, se_issueOrderHash = sc_issueOrderHash e, se_exitOrderHash = sc_exitOrderHash e,
      se_settlementOrderHash = sc_settlementOrderHash e, se_start = start p, se_expiry = expiry p, se_saleEnd = saleEnd p,
      se_sampleInterval = sampleInterval p, se_unitNotional = unitNotional p, se_capVariance = capVariance p,
      se_anchorVariance = anchorVariance p, se_impactPerUnit = impactPerUnit p, se_halfLife = halfLife p,
      se_halfSpreadBps = halfSpreadBps p, se_maxUnits = maxUnits p, se_createdAt = block_timestamp c,
      se_createdBlock = block_number c, se_transactionHash = tx_hash c, se_unitsIssued = 0, se_unitsExited = 0,
      se_unitsSettled = 0, se_unitsBurnedWorthless = 0, se_premiumCollected = 0, se_exitPaid = 0, se_settlementPaid = 0,
      se_lastReportedOutstanding = 0, se_lastReportedLocked = 0, se_issuanceStoppedAt = None, se_closedAt = None,
      se_finalization = None, se_processedThrough = start p, se_lastRoundId = 0\<rparr>)"

definition saveOrder :: "hexstr \<Rightarrow> string \<Rightarrow> string \<Rightarrow> address \<Rightarrow> store \<Rightarrow> store" where
  "saveOrder hash seriesId lg maker = save_order hash \<lparr>oe_series = seriesId, oe_leg = lg, oe_maker = maker\<rparr>"

definition handleSeriesCreated :: "event_ctx \<Rightarrow> series_created \<Rightarrow> store \<Rightarrow> store" where
  "handleSeriesCreated c e s =
     (let sid = dec_string (sc_seriesId e);
          s1 = save_series sid (new_series_entity c e) s;
          s2 = saveOrder (sc_issueOrderHash e) sid LEG_ISSUE (sc_vault e) s1;
          s3 = saveOrder (sc_exitOrderHash e) sid LEG_EXIT (sc_vault e) s2;
          s4 = saveOrder (sc_settlementOrderHash e) sid LEG_SETTLE (sc_vault e) s3;
          s5 = save_index (sc_receipt e) sid s4
      in s5\<lparr>receipt_sources := receipt_sources s5 @ [sc_receipt e]\<rparr>)"

definition handleIssued :: "int \<Rightarrow> int \<Rightarrow> int \<Rightarrow> int \<Rightarrow> int \<Rightarrow> store \<Rightarrow> store" where
  "handleIssued seriesId units premium newOutstanding newLocked =
     alter serieses save_series (dec_string seriesId) (\<lambda>e. e\<lparr>
       se_unitsIssued := se_unitsIssued e + units, se_premiumCollected := se_premiumCollected e + premium,
       se_lastReportedOutstanding := newOutstanding, se_lastReportedLocked := newLocked\<rparr>)"

definition handleExited :: "int \<Rightarrow> int \<Rightarrow> int \<Rightarrow> int \<Rightarrow> int \<Rightarrow> store \<Rightarrow> store" where
  "handleExited seriesId units amountOut newOutstanding newLocked =
     alter serieses save_series (dec_string seriesId) (\<lambda>e. e\<lparr>
       se_unitsExited := se_unitsExited e + units, se_exitPaid := se_exitPaid e + amountOut,
       se_lastReportedOutstanding := newOutstanding, se_lastReportedLocked := newLocked\<rparr>)"

definition handleSettled :: "int \<Rightarrow> int \<Rightarrow> int \<Rightarrow> int \<Rightarrow> int \<Rightarrow> store \<Rightarrow> store" where
  "handleSettled seriesId units amountOut newOutstanding newLocked =
     alter serieses save_series (dec_string seriesId) (\<lambda>e. e\<lparr>
       se_unitsSettled := se_unitsSettled e + units, se_settlementPaid := se_settlementPaid e + amountOut,
       se_lastReportedOutstanding := newOutstanding, se_lastReportedLocked := newLocked\<rparr>)"

definition handleWorthlessBurned :: "int \<Rightarrow> int \<Rightarrow> store \<Rightarrow> store" where
  "handleWorthlessBurned seriesId units =
     alter serieses save_series (dec_string seriesId) (\<lambda>e. e\<lparr>
       se_unitsBurnedWorthless := se_unitsBurnedWorthless e + units,
       se_lastReportedOutstanding := se_lastReportedOutstanding e - units\<rparr>)"

definition handleFinalized :: "event_ctx \<Rightarrow> int \<Rightarrow> int \<Rightarrow> int \<Rightarrow> int \<Rightarrow> int \<Rightarrow> int \<Rightarrow> store \<Rightarrow> store" where
  "handleFinalized c seriesId finalVar cappedVar ppu outstandingUnits releasedCollateral s =
     (let sid = dec_string seriesId in
      case serieses s sid of None \<Rightarrow> s
      | Some e \<Rightarrow>
          let f = \<lparr>fz_series = sid, fz_finalVariance = finalVar, fz_cappedVariance = cappedVar, fz_payoutPerUnit = ppu,
                fz_outstandingUnits = outstandingUnits, fz_releasedCollateral = releasedCollateral, fz_caller = tx_from c,
                fz_timestamp = block_timestamp c, fz_block = block_number c, fz_transactionHash = tx_hash c\<rparr>
          in save_series sid (e\<lparr>se_finalization := Some sid,
               se_lastReportedLocked := se_lastReportedLocked e - releasedCollateral\<rparr>) (save_finalization sid f s))"

definition handleIssuanceStopped :: "event_ctx \<Rightarrow> int \<Rightarrow> store \<Rightarrow> store" where
  "handleIssuanceStopped c seriesId =
     alter serieses save_series (dec_string seriesId) (\<lambda>e. e\<lparr>se_issuanceStoppedAt := Some (block_timestamp c)\<rparr>)"

definition handleSeriesClosed :: "event_ctx \<Rightarrow> int \<Rightarrow> store \<Rightarrow> store" where
  "handleSeriesClosed c seriesId =
     alter serieses save_series (dec_string seriesId)
       (\<lambda>e. e\<lparr>se_closedAt := Some (block_timestamp c), se_lastReportedLocked := 0\<rparr>)"

subsection \<open>Receipts, checkpoints and fills\<close>

definition balanceId :: "string \<Rightarrow> address \<Rightarrow> string" where
  "balanceId seriesId account = seriesId @ '':'' @ account"

definition balanceFor :: "string \<Rightarrow> address \<Rightarrow> address \<Rightarrow> store \<Rightarrow> balance_entity" where
  "balanceFor seriesId account receipt s =
     (case balances s (balanceId seriesId account) of Some b \<Rightarrow> b
      | None \<Rightarrow> \<lparr>be_series = seriesId, be_account = account, be_receipt = receipt, be_units = 0, be_updatedAt = 0\<rparr>)"

definition move_units :: "event_ctx \<Rightarrow> string \<Rightarrow> address \<Rightarrow> int \<Rightarrow> store \<Rightarrow> store" where
  "move_units c seriesId account delta s =
     (let b = balanceFor seriesId account (ds_address c) s
      in save_balance (balanceId seriesId account)
           (b\<lparr>be_units := be_units b + delta, be_updatedAt := block_timestamp c\<rparr>) s)"

definition ZERO :: address where
  "ZERO = ''0x0000000000000000000000000000000000000000''"

definition handleReceiptTransfer :: "event_ctx \<Rightarrow> address \<Rightarrow> address \<Rightarrow> int \<Rightarrow> store \<Rightarrow> store" where
  "handleReceiptTransfer c sender recipient amount s =
     (case receipt_index s (ds_address c) of None \<Rightarrow> s
      | Some sid \<Rightarrow>
          (case serieses s sid of None \<Rightarrow> s
           | Some _ \<Rightarrow>
               let s1 = (if sender \<noteq> ZERO then move_units c sid sender (- amount) s else s)
               in if recipient \<noteq> ZERO then move_units c sid recipient amount s1 else s1))"

definition handleCheckpointed :: "event_ctx \<Rightarrow> int \<Rightarrow> int \<Rightarrow> int \<Rightarrow> int \<Rightarrow> int \<Rightarrow> int \<Rightarrow> store \<Rightarrow> store" where
  "handleCheckpointed c seriesId fromSample toSample through roundId sumSquared s =
     (let sid = dec_string seriesId in
      case serieses s sid of None \<Rightarrow> s
      | Some e \<Rightarrow>
          let k = \<lparr>ce_series = sid, ce_fromSample = fromSample, ce_toSample = toSample, ce_processedThrough = through,
                ce_lastRoundId = roundId, ce_sumSquaredReturns = sumSquared, ce_caller = tx_from c,
                ce_timestamp = block_timestamp c, ce_block = block_number c, ce_transactionHash = tx_hash c\<rparr>
          in save_series sid (e\<lparr>se_processedThrough := ce_processedThrough k, se_lastRoundId := roundId\<rparr>)
               (save_checkpoint (logId (tx_hash c) (log_index c)) k s))"

record swapped =
  sw_orderHash :: hexstr
  sw_maker :: address
  sw_taker :: address
  sw_tokenIn :: address
  sw_tokenOut :: address
  sw_amountIn :: int
  sw_amountOut :: int

definition handleSwapped :: "event_ctx \<Rightarrow> swapped \<Rightarrow> store \<Rightarrow> store" where
  "handleSwapped c e s =
     (case orders s (sw_orderHash e) of None \<Rightarrow> s
      | Some ord \<Rightarrow>
          let issue = (oe_leg ord = LEG_ISSUE) in
          save_fill (logId (tx_hash c) (log_index c))
            \<lparr>fe_series = oe_series ord, fe_orderHash = sw_orderHash e, fe_leg = oe_leg ord, fe_makerVault = sw_maker e,
             fe_taker = sw_taker e, fe_tokenIn = sw_tokenIn e, fe_tokenOut = sw_tokenOut e, fe_amountIn = sw_amountIn e,
             fe_amountOut = sw_amountOut e,
             fe_units = (if issue then sw_amountOut e else sw_amountIn e),
             fe_quoteAmount = (if issue then sw_amountIn e else sw_amountOut e),
             fe_timestamp = block_timestamp c, fe_block = block_number c, fe_transactionHash = tx_hash c\<rparr> s)"

subsection \<open>Indexing the controller\<close>

datatype series_event =
    EvIssued int int int int
  | EvExited int int int int
  | EvSettled int int int int
  | EvWorthlessBurned int
  | EvFinalized int int int int int
  | EvIssuanceStopped
  | EvClosed

fun index_event :: "event_ctx \<times> int \<times> series_event \<Rightarrow> store \<Rightarrow> store" where
  "index_event (c, i, EvIssued u p out l) = handleIssued i u p out l"
| "index_event (c, i, EvExited u a out l) = handleExited i u a out l"
| "index_event (c, i, EvSettled u a out l) = handleSettled i u a out l"
| "index_event (c, i, EvWorthlessBurned u) = handleWorthlessBurned i u"
| "index_event (c, i, EvFinalized fv cv ppu out r) = handleFinalized c i fv cv ppu out r"
| "index_event (c, i, EvIssuanceStopped) = handleIssuanceStopped c i"
| "index_event (c, i, EvClosed) = handleSeriesClosed c i"

text \<open>The controller's own outstanding units and locked liability, and which events it reports of them.\<close>

fun controller_step :: "series_event \<Rightarrow> int \<times> int \<Rightarrow> (int \<times> int) option" where
  "controller_step (EvIssued u p out' l') (out, l) = (if out' = out + u then Some (out', l') else None)"
| "controller_step (EvExited u a out' l') (out, l) = (if out' = out - u then Some (out', l') else None)"
| "controller_step (EvSettled u a out' l') (out, l) = (if out' = out - u then Some (out', l') else None)"
| "controller_step (EvWorthlessBurned u) (out, l) = Some (out - u, l)"
| "controller_step (EvFinalized fv cv ppu out' r) (out, l) = (if out' = out then Some (out, l - r) else None)"
| "controller_step EvIssuanceStopped (out, l) = Some (out, l)"
| "controller_step EvClosed (out, l) = (if out = 0 then Some (0, 0) else None)"

fun controller_run :: "int \<Rightarrow> (event_ctx \<times> int \<times> series_event) list \<Rightarrow> int \<times> int \<Rightarrow> (int \<times> int) option" where
  "controller_run i [] st = Some st"
| "controller_run i ((c, j, ev) # evs) st =
     (if j = i then Option.bind (controller_step ev st) (controller_run i evs) else controller_run i evs st)"

definition tracks :: "series_entity \<Rightarrow> int \<times> int \<Rightarrow> bool" where
  "tracks e st \<longleftrightarrow> se_lastReportedOutstanding e = fst st \<and> se_lastReportedLocked e = snd st
     \<and> se_lastReportedOutstanding e = se_unitsIssued e - se_unitsExited e - se_unitsSettled e - se_unitsBurnedWorthless e"

lemma dec_string_inj: "dec_string m = dec_string n \<longleftrightarrow> m = n"
  by (metis toBigInt_dec Inr_inject)

lemmas series_handlers = handleIssued_def handleExited_def handleSettled_def handleWorthlessBurned_def
  handleIssuanceStopped_def handleSeriesClosed_def series_store.load_alter

lemma finalized_series:
  "serieses (handleFinalized c i fv cv ppu out r s) k =
    (if k = dec_string i
     then map_option (\<lambda>e. e\<lparr>se_finalization := Some k, se_lastReportedLocked := se_lastReportedLocked e - r\<rparr>) (serieses s k)
     else serieses s k)"
  by (simp add: handleFinalized_def Let_def series_store.load_save save_finalization_def split: option.split)

lemma index_event_other: "j \<noteq> i \<Longrightarrow> serieses (index_event (c, j, ev) s) (dec_string i) = serieses s (dec_string i)"
  by (cases ev) (simp_all add: series_handlers finalized_series dec_string_inj)

lemma index_event_tracks:
  assumes "serieses s (dec_string i) = Some e" "tracks e st" "controller_step ev st = Some st'"
  shows "\<exists>e'. serieses (index_event (c, i, ev) s) (dec_string i) = Some e' \<and> tracks e' st'"
  using assms by (cases ev; cases st) (auto simp: series_handlers finalized_series tracks_def split: if_splits)

lemma index_tracks:
  "serieses s (dec_string i) = Some e \<Longrightarrow> tracks e st \<Longrightarrow> controller_run i evs st = Some st' \<Longrightarrow>
   \<exists>e'. serieses (fold index_event evs s) (dec_string i) = Some e' \<and> tracks e' st'"
proof (induction evs arbitrary: s e st)
  case (Cons x evs)
  obtain c j ev where x: "x = (c, j, ev)" by (cases x)
  show ?case
  proof (cases "j = i")
    case True
    then obtain st1 where st1: "controller_step ev st = Some st1" "controller_run i evs st1 = Some st'"
      using Cons.prems(3) x by (auto simp: bind_eq_Some_conv)
    obtain e1 where "serieses (index_event (c, i, ev) s) (dec_string i) = Some e1" "tracks e1 st1"
      using index_event_tracks [OF Cons.prems(1,2) st1(1)] by blast
    then show ?thesis using Cons.IH st1(2) x True by simp
  next
    case False
    then have "serieses (index_event (c, j, ev) s) (dec_string i) = Some e"
      using index_event_other [OF False] Cons.prems(1) by simp
    then show ?thesis using Cons.IH [OF _ Cons.prems(2)] Cons.prems(3) x False by simp
  qed
qed auto

subsection \<open>Indexing the receipts\<close>

definition units_of :: "store \<Rightarrow> string \<Rightarrow> address \<Rightarrow> int" where
  "units_of s sid a = (case balances s (balanceId sid a) of None \<Rightarrow> 0 | Some b \<Rightarrow> be_units b)"

lemma balanceId_inj: "balanceId sid a = balanceId sid b \<longleftrightarrow> a = b"
  by (simp add: balanceId_def)

lemma prefix_before_colon:
  "CHR '':'' \<notin> set xs \<Longrightarrow> takeWhile (\<lambda>c. c \<noteq> CHR '':'') (xs @ '':'' @ ys) = xs"
  by (induction xs) auto

lemma balanceId_series:
  assumes "CHR '':'' \<notin> set s1" "CHR '':'' \<notin> set s2" "balanceId s1 a = balanceId s2 b"
  shows "s1 = s2"
  using prefix_before_colon [OF assms(1), of a] prefix_before_colon [OF assms(2), of b] assms(3)
  by (simp add: balanceId_def)

lemma dec_digits_set: "0 \<le> n \<Longrightarrow> CHR '':'' \<notin> set (dec_digits n)"
  using dec_digits_digits(1) [of n] by (auto simp: list_all_iff is_digit_def)

lemma dec_string_no_colon: "CHR '':'' \<notin> set (dec_string n)"
  using dec_digits_set [of n] dec_digits_set [of "- n"] by (auto simp: dec_string_def)

lemma units_of_move:
  "units_of (move_units c sid a d s) sid b = units_of s sid b + (if b = a then d else 0)"
  by (simp add: units_of_def move_units_def balanceFor_def balance_store.load_save balanceId_inj Let_def split: option.split)

lemma units_of_move_other:
  assumes "CHR '':'' \<notin> set sid" "CHR '':'' \<notin> set sid'" "sid' \<noteq> sid"
  shows "units_of (move_units c sid' a d s) sid b = units_of s sid b"
proof -
  have "balanceId sid b \<noteq> balanceId sid' a" using balanceId_series assms by metis
  then show ?thesis by (simp add: units_of_def move_units_def balance_store.load_save Let_def)
qed

lemma move_units_frame [simp]:
  "receipt_index (move_units c sid a d s) = receipt_index s" "serieses (move_units c sid a d s) = serieses s"
  by (simp_all add: move_units_def save_balance_def Let_def)

lemma transfer_frame [simp]:
  "receipt_index (handleReceiptTransfer c f t v s) = receipt_index s"
  "serieses (handleReceiptTransfer c f t v s) = serieses s"
  by (simp_all add: handleReceiptTransfer_def Let_def split: option.split)

text \<open>What a list of transfers of one receipt does to an account's balance.\<close>

fun net_received :: "address \<Rightarrow> address \<Rightarrow> (event_ctx \<times> address \<times> address \<times> int) list \<Rightarrow> int" where
  "net_received r a [] = 0"
| "net_received r a ((c, f, t, v) # evs) =
     (if ds_address c = r then (if t = a then v else 0) - (if f = a then v else 0) else 0) + net_received r a evs"

definition index_transfer :: "event_ctx \<times> address \<times> address \<times> int \<Rightarrow> store \<Rightarrow> store" where
  "index_transfer = (\<lambda>(c, f, t, v). handleReceiptTransfer c f t v)"

definition index_sane :: "store \<Rightarrow> address \<Rightarrow> string \<Rightarrow> bool" where
  "index_sane s r sid \<longleftrightarrow> receipt_index s r = Some sid \<and> serieses s sid \<noteq> None
     \<and> (\<forall>r' sid'. receipt_index s r' = Some sid' \<longrightarrow> CHR '':'' \<notin> set sid' \<and> (sid' = sid \<longrightarrow> r' = r))"

lemma index_transfer_units:
  assumes "index_sane s r sid" "a \<noteq> ZERO"
  shows "units_of (index_transfer (c, f, t, v) s) sid a = units_of s sid a + net_received r a [(c, f, t, v)]"
proof -
  obtain e where e: "receipt_index s r = Some sid" "serieses s sid = Some e"
    using assms(1) by (auto simp: index_sane_def)
  show ?thesis
  proof (cases "ds_address c = r")
    case True
    then have "index_transfer (c, f, t, v) s =
        (let s1 = (if f \<noteq> ZERO then move_units c sid f (- v) s else s) in if t \<noteq> ZERO then move_units c sid t v s1 else s1)"
      using e by (simp add: index_transfer_def handleReceiptTransfer_def)
    then show ?thesis using True assms(2) by (simp add: units_of_move Let_def)
  next
    case False
    have "units_of (handleReceiptTransfer c f t v s) sid a = units_of s sid a"
    proof (cases "receipt_index s (ds_address c)")
      case None
      then show ?thesis by (simp add: handleReceiptTransfer_def)
    next
      case (Some sid')
      have n: "CHR '':'' \<notin> set sid'" "sid' \<noteq> sid" using assms(1) Some False unfolding index_sane_def by blast+
      have "CHR '':'' \<notin> set sid" using assms(1) unfolding index_sane_def by blast
      note u = units_of_move_other [OF this n]
      show ?thesis
        by (cases "serieses s sid'") (simp_all add: handleReceiptTransfer_def Some u Let_def)
    qed
    then show ?thesis using False by (simp add: index_transfer_def)
  qed
qed

lemma index_transfers_units:
  assumes "index_sane s r sid" "a \<noteq> ZERO"
  shows "units_of (fold index_transfer evs s) sid a = units_of s sid a + net_received r a evs"
  using assms(1)
proof (induction evs arbitrary: s)
  case (Cons x evs)
  obtain c f t v where x: "x = (c, f, t, v)" by (cases x)
  have "index_sane (index_transfer x s) r sid"
    using Cons.prems by (simp add: index_sane_def index_transfer_def x)
  then show ?case using Cons.IH index_transfer_units [OF Cons.prems assms(2)] by (simp add: x)
qed simp

subsection \<open>Properties\<close>

text \<open>C18: The indexer never drifts from the controller: after any interleaving of the events of all series, a
  series' reported outstanding units and locked collateral are the controller's own, and the four unit
  totals always account for exactly what is outstanding.\<close>

theorem index_tracks_controller:
  assumes "serieses s (dec_string i) = Some (new_series_entity c e)" "controller_run i evs (0, 0) = Some (out, locked)"
  shows "\<exists>e'. serieses (fold index_event evs s) (dec_string i) = Some e'
    \<and> se_lastReportedOutstanding e' = out \<and> se_lastReportedLocked e' = locked
    \<and> out = se_unitsIssued e' - se_unitsExited e' - se_unitsSettled e' - se_unitsBurnedWorthless e'"
proof -
  have "tracks (new_series_entity c e) (0, 0)" by (simp add: tracks_def new_series_entity_def Let_def)
  then show ?thesis using index_tracks [OF assms(1) _ assms(2)] by (auto simp: tracks_def)
qed

definition empty_store :: store where
  "empty_store = \<lparr>vaults = \<lambda>_. None, vault_actions = \<lambda>_. None, serieses = \<lambda>_. None, orders = \<lambda>_. None,
     receipt_index = \<lambda>_. None, fills = \<lambda>_. None, checkpoints = \<lambda>_. None, finalizations = \<lambda>_. None,
     balances = \<lambda>_. None, vault_sources = [], receipt_sources = []\<rparr>"

definition demo_ctx :: "address \<Rightarrow> event_ctx" where
  "demo_ctx a = \<lparr>tx_hash = ''0xaa'', log_index = 1, block_timestamp = 7, block_number = 3, tx_from = ''0x09'', ds_address = a\<rparr>"

definition demo_created :: series_created where
  "demo_created = \<lparr>sc_seriesId = 1, sc_writer = ''0x03'', sc_vault = ''0x04'', sc_receipt = ''0x05'',
     sc_issueOrderHash = ''0xb1'', sc_exitOrderHash = ''0xb2'', sc_settlementOrderHash = ''0xb3'', sc_params = demo_params\<rparr>"

definition demo_store :: store where
  "demo_store = handleSeriesCreated (demo_ctx ''0x00'') demo_created empty_store"

lemma demo_store_simps:
  "serieses demo_store (dec_string 1) = Some (new_series_entity (demo_ctx ''0x00'') demo_created)"
  "receipt_index demo_store = [''0x05'' \<mapsto> dec_string 1]"
  by (simp_all add: demo_store_def handleSeriesCreated_def saveOrder_def save_defs demo_created_def empty_store_def Let_def)

theorem index_tracks_controller_witness:
  "\<exists>e'. serieses (fold index_event
      [(demo_ctx ''0x00'', 1, EvIssued 10 3 10 50), (demo_ctx ''0x00'', 2, EvIssued 4 1 4 20),
       (demo_ctx ''0x00'', 1, EvExited 4 1 6 30), (demo_ctx ''0x00'', 1, EvFinalized 0 0 0 6 30),
       (demo_ctx ''0x00'', 1, EvWorthlessBurned 6)] demo_store) (dec_string 1) = Some e'
    \<and> se_lastReportedOutstanding e' = 0 \<and> se_lastReportedLocked e' = 0
    \<and> 0 = se_unitsIssued e' - se_unitsExited e' - se_unitsSettled e' - se_unitsBurnedWorthless e'"
  by (rule index_tracks_controller [OF demo_store_simps(1)]) simp

text \<open>C19: Receipt balances are the token's ledger: after any transfers of any receipts, mints, burns and transfers
  to oneself included, an account's indexed units have changed by exactly what it received less what it
  sent of that series' receipt.\<close>

theorem balances_are_the_ledger:
  assumes "index_sane s r sid" "a \<noteq> ZERO"
  shows "units_of (fold index_transfer evs s) sid a = units_of s sid a + net_received r a evs"
  by (rule index_transfers_units [OF assms])

theorem balances_are_the_ledger_witness:
  "units_of (fold index_transfer [(demo_ctx ''0x05'', ZERO, ''0x0a'', 9), (demo_ctx ''0x05'', ''0x0a'', ''0x0a'', 2),
      (demo_ctx ''0x05'', ''0x0a'', ''0x0b'', 4)] demo_store) (dec_string 1) ''0x0a'' = 5"
proof -
  have "index_sane demo_store ''0x05'' (dec_string 1)"
    using dec_string_no_colon by (auto simp: index_sane_def demo_store_simps split: if_splits)
  moreover have "balances demo_store = (\<lambda>_. None)"
    by (simp add: demo_store_def handleSeriesCreated_def saveOrder_def save_defs empty_store_def Let_def)
  ultimately show ?thesis
    using balances_are_the_ledger [of demo_store "''0x05''" "dec_string 1" "''0x0a''"
        "[(demo_ctx ''0x05'', ZERO, ''0x0a'', 9), (demo_ctx ''0x05'', ''0x0a'', ''0x0a'', 2), (demo_ctx ''0x05'', ''0x0a'', ''0x0b'', 4)]"]
    by (simp add: units_of_def demo_ctx_def ZERO_def)
qed

end
