(* ===== verification/Subgraph_Portfolio.thy ===== *)
theory Subgraph_Portfolio
  imports Entity_Store Web_Portfolio Js_String
begin

text \<open>
  The indexer of the risk groups, \<open>subgraph/src/portfolio.ts\<close>: the handlers of the portfolio market's
  events as functions from store to store. The market contract is the specification it is checked
  against: the operations of \<open>TremorPortfolioMarket.sol\<close> on one group, each with the event it emits.
\<close>

type_synonym hexstr = string
type_synonym log_id = "hexstr \<times> int"

record event_ctx =
  tx_hash :: hexstr
  log_index :: int
  block_timestamp :: int
  block_number :: int

subsection \<open>Entities and the store\<close>

record group_entity =
  ge_groupId :: int
  ge_writer :: address
  ge_vault :: address
  ge_highReceipt :: address
  ge_calmReceipt :: address
  ge_feed :: address
  ge_quoteToken :: address
  ge_start :: int
  ge_expiry :: int
  ge_saleEnd :: int
  ge_sampleInterval :: int
  ge_capVariance :: int
  ge_capPayoutPerUnit :: int
  ge_maxUnitsPerSide :: int
  ge_askHigh :: int
  ge_bidHigh :: int
  ge_askCalm :: int
  ge_bidCalm :: int
  ge_highOutstanding :: int
  ge_calmOutstanding :: int
  ge_reserveLocked :: int
  ge_exitBuffer :: int
  ge_finalized :: bool
  ge_finalVariance :: "int option"
  ge_highPpu :: "int option"
  ge_calmPpu :: "int option"
  ge_createdBlock :: int
  ge_createdTx :: hexstr
  ge_createdAt :: int
  ge_updatedAt :: int

record portfolio_event =
  pe_group :: string
  pe_eventType :: string
  pe_actor :: "address option"
  pe_side :: "string option"
  pe_units :: int
  pe_amount :: int
  pe_newOutstanding :: "int option"
  pe_newReserve :: "int option"
  pe_newBuffer :: "int option"
  pe_blockNumber :: int
  pe_txHash :: hexstr
  pe_logIndex :: int
  pe_timestamp :: int

record portfolio_store =
  groups :: "string \<Rightarrow> group_entity option"
  portfolio_events :: "log_id \<Rightarrow> portfolio_event option"

definition save_group where "save_group k e s = s\<lparr>groups := (groups s)(k \<mapsto> e)\<rparr>"
definition save_event where "save_event k e s = s\<lparr>portfolio_events := (portfolio_events s)(k \<mapsto> e)\<rparr>"

interpretation group_store: entity_store groups save_group
  by unfold_locales (simp add: save_group_def)

interpretation event_store: entity_store portfolio_events save_event
  by unfold_locales (simp add: save_event_def)

definition event_id :: "event_ctx \<Rightarrow> log_id" where
  "event_id c = (tx_hash c, log_index c)"

definition new_event :: "event_ctx \<Rightarrow> string \<Rightarrow> string \<Rightarrow> int \<Rightarrow> int \<Rightarrow> portfolio_event" where
  "new_event c gid typ units amount =
     \<lparr>pe_group = gid, pe_eventType = typ, pe_actor = None, pe_side = None, pe_units = units, pe_amount = amount,
      pe_newOutstanding = None, pe_newReserve = None, pe_newBuffer = None, pe_blockNumber = block_number c,
      pe_txHash = tx_hash c, pe_logIndex = log_index c, pe_timestamp = block_timestamp c\<rparr>"

definition side_text :: "bool \<Rightarrow> string" where
  "side_text high = (if high then ''high'' else ''calm'')"

subsection \<open>Handlers\<close>

definition finalSideLiability :: "int \<Rightarrow> int \<Rightarrow> int" where
  "finalSideLiability units ppu = bdiv (units * ppu) WAD"

record group_created =
  gc_groupId :: int
  gc_writer :: address
  gc_vault :: address
  gc_highReceipt :: address
  gc_calmReceipt :: address
  gc_params :: group_params

definition new_group_entity :: "event_ctx \<Rightarrow> group_created \<Rightarrow> group_entity" where
  "new_group_entity c e = (let p = gc_params e in
     \<lparr>ge_groupId = gc_groupId e, ge_writer = gc_writer e, ge_vault = gc_vault e, ge_highReceipt = gc_highReceipt e,
      ge_calmReceipt = gc_calmReceipt e, ge_feed = feed p, ge_quoteToken = quoteToken p, ge_start = start p,
      ge_expiry = expiry p, ge_saleEnd = saleEnd p, ge_sampleInterval = sampleInterval p, ge_capVariance = capVariance p,
      ge_capPayoutPerUnit = capPayoutPerUnit p, ge_maxUnitsPerSide = maxUnitsPerSide p, ge_askHigh = askHigh p,
      ge_bidHigh = bidHigh p, ge_askCalm = askCalm p, ge_bidCalm = bidCalm p, ge_highOutstanding = 0,
      ge_calmOutstanding = 0, ge_reserveLocked = 0, ge_exitBuffer = 0, ge_finalized = False, ge_finalVariance = None,
      ge_highPpu = None, ge_calmPpu = None, ge_createdBlock = block_number c, ge_createdTx = tx_hash c,
      ge_createdAt = block_timestamp c, ge_updatedAt = block_timestamp c\<rparr>)"

definition handleGroupCreated :: "event_ctx \<Rightarrow> group_created \<Rightarrow> portfolio_store \<Rightarrow> portfolio_store" where
  "handleGroupCreated c e s =
     (let gid = dec_string (gc_groupId e)
      in save_event (event_id c) ((new_event c gid ''group_created'' 0 0)\<lparr>pe_actor := Some (gc_writer e)\<rparr>)
           (save_group gid (new_group_entity c e) s))"

record portfolio_issued =
  pi_groupId :: int
  pi_buyer :: address
  pi_high :: bool
  pi_units :: int
  pi_premium :: int
  pi_highOutstanding :: int
  pi_calmOutstanding :: int
  pi_reserveLocked :: int

definition handlePortfolioIssued :: "event_ctx \<Rightarrow> portfolio_issued \<Rightarrow> portfolio_store \<Rightarrow> portfolio_store" where
  "handlePortfolioIssued c e s =
     (let gid = dec_string (pi_groupId e) in
      case groups s gid of None \<Rightarrow> s
      | Some g \<Rightarrow>
          let s1 = save_group gid (g\<lparr>ge_highOutstanding := pi_highOutstanding e, ge_calmOutstanding := pi_calmOutstanding e,
                ge_reserveLocked := pi_reserveLocked e, ge_updatedAt := block_timestamp c\<rparr>) s
          in save_event (event_id c) ((new_event c gid ''issued'' (pi_units e) (pi_premium e))\<lparr>
               pe_actor := Some (pi_buyer e), pe_side := Some (side_text (pi_high e)),
               pe_newOutstanding := Some (if pi_high e then pi_highOutstanding e else pi_calmOutstanding e),
               pe_newReserve := Some (pi_reserveLocked e)\<rparr>) s1)"

text \<open>The outstanding units of one side, less some.\<close>

definition burn_side :: "bool \<Rightarrow> int \<Rightarrow> group_entity \<Rightarrow> group_entity" where
  "burn_side high units g =
     (if high then g\<lparr>ge_highOutstanding := ge_highOutstanding g - units\<rparr>
      else g\<lparr>ge_calmOutstanding := ge_calmOutstanding g - units\<rparr>)"

definition side_outstanding :: "bool \<Rightarrow> group_entity \<Rightarrow> int" where
  "side_outstanding high g = (if high then ge_highOutstanding g else ge_calmOutstanding g)"

record portfolio_exited =
  px_groupId :: int
  px_holder :: address
  px_high :: bool
  px_units :: int
  px_amountOut :: int
  px_reserveReleased :: int
  px_bufferDrawn :: int
  px_reserveLocked :: int

definition handlePortfolioExited :: "event_ctx \<Rightarrow> portfolio_exited \<Rightarrow> portfolio_store \<Rightarrow> portfolio_store" where
  "handlePortfolioExited c e s =
     (let gid = dec_string (px_groupId e) in
      case groups s gid of None \<Rightarrow> s
      | Some g \<Rightarrow>
          let g1 = (burn_side (px_high e) (px_units e) g)\<lparr>ge_reserveLocked := px_reserveLocked e\<rparr>;
              g2 = (if px_bufferDrawn e > 0 then g1\<lparr>ge_exitBuffer := ge_exitBuffer g1 - px_bufferDrawn e\<rparr> else g1);
              g3 = g2\<lparr>ge_updatedAt := block_timestamp c\<rparr>
          in save_event (event_id c) ((new_event c gid ''exited'' (px_units e) (px_amountOut e))\<lparr>
               pe_actor := Some (px_holder e), pe_side := Some (side_text (px_high e)),
               pe_newOutstanding := Some (side_outstanding (px_high e) g3),
               pe_newReserve := Some (px_reserveLocked e), pe_newBuffer := Some (ge_exitBuffer g3)\<rparr>)
               (save_group gid g3 s))"

record portfolio_settled =
  ps_groupId :: int
  ps_holder :: address
  ps_high :: bool
  ps_units :: int
  ps_amountOut :: int
  ps_reserveLocked :: int

definition handlePortfolioSettled :: "event_ctx \<Rightarrow> portfolio_settled \<Rightarrow> portfolio_store \<Rightarrow> portfolio_store" where
  "handlePortfolioSettled c e s =
     (let gid = dec_string (ps_groupId e) in
      case groups s gid of None \<Rightarrow> s
      | Some g \<Rightarrow>
          let g1 = (burn_side (ps_high e) (ps_units e) g)\<lparr>ge_reserveLocked := ps_reserveLocked e,
                ge_updatedAt := block_timestamp c\<rparr>
          in save_event (event_id c) ((new_event c gid ''settled'' (ps_units e) (ps_amountOut e))\<lparr>
               pe_actor := Some (ps_holder e), pe_side := Some (side_text (ps_high e)),
               pe_newOutstanding := Some (side_outstanding (ps_high e) g1), pe_newReserve := Some (ps_reserveLocked e)\<rparr>)
               (save_group gid g1 s))"

record group_finalized =
  gf_groupId :: int
  gf_finalVariance :: int
  gf_xWad :: int
  gf_highPayoutPerUnit :: int
  gf_calmPayoutPerUnit :: int
  gf_releasedCollateral :: int

definition handleGroupFinalized :: "event_ctx \<Rightarrow> group_finalized \<Rightarrow> portfolio_store \<Rightarrow> portfolio_store" where
  "handleGroupFinalized c e s =
     (let gid = dec_string (gf_groupId e) in
      case groups s gid of None \<Rightarrow> s
      | Some g \<Rightarrow>
          let highLiability = finalSideLiability (ge_highOutstanding g) (gf_highPayoutPerUnit e);
              calmLiability = finalSideLiability (ge_calmOutstanding g) (gf_calmPayoutPerUnit e);
              g1 = g\<lparr>ge_finalized := True, ge_finalVariance := Some (gf_finalVariance e),
                ge_highPpu := Some (gf_highPayoutPerUnit e), ge_calmPpu := Some (gf_calmPayoutPerUnit e),
                ge_reserveLocked := highLiability + calmLiability, ge_exitBuffer := 0, ge_updatedAt := block_timestamp c\<rparr>
          in save_event (event_id c) ((new_event c gid ''finalized'' 0 (gf_releasedCollateral e))\<lparr>
               pe_newReserve := Some (ge_reserveLocked g1), pe_newBuffer := Some 0\<rparr>) (save_group gid g1 s))"

definition handleExitBufferFunded :: "event_ctx \<Rightarrow> int \<Rightarrow> address \<Rightarrow> int \<Rightarrow> int \<Rightarrow> portfolio_store \<Rightarrow> portfolio_store" where
  "handleExitBufferFunded c groupId payer amount newBuffer s =
     (let gid = dec_string groupId in
      case groups s gid of None \<Rightarrow> s
      | Some g \<Rightarrow>
          save_event (event_id c) ((new_event c gid ''buffer_funded'' 0 amount)\<lparr>
            pe_actor := Some payer, pe_newBuffer := Some newBuffer\<rparr>)
            (save_group gid (g\<lparr>ge_exitBuffer := newBuffer, ge_updatedAt := block_timestamp c\<rparr>) s))"

definition handleExitBufferWithdrawn :: "event_ctx \<Rightarrow> int \<Rightarrow> int \<Rightarrow> int \<Rightarrow> portfolio_store \<Rightarrow> portfolio_store" where
  "handleExitBufferWithdrawn c groupId amount newBuffer s =
     (let gid = dec_string groupId in
      case groups s gid of None \<Rightarrow> s
      | Some g \<Rightarrow>
          save_event (event_id c) ((new_event c gid ''buffer_withdrawn'' 0 amount)\<lparr>pe_newBuffer := Some newBuffer\<rparr>)
            (save_group gid (g\<lparr>ge_exitBuffer := newBuffer, ge_updatedAt := block_timestamp c\<rparr>) s))"

text \<open>Unlike the others, this handler records the event of an unknown group too.\<close>

definition handleGroupWorthlessBurned ::
  "event_ctx \<Rightarrow> int \<Rightarrow> address \<Rightarrow> bool \<Rightarrow> int \<Rightarrow> portfolio_store \<Rightarrow> portfolio_store" where
  "handleGroupWorthlessBurned c groupId holder high units s =
     (let gid = dec_string groupId;
          found = map_option (\<lambda>g. (burn_side high units g)\<lparr>ge_updatedAt := block_timestamp c\<rparr>) (groups s gid);
          s1 = (case found of None \<Rightarrow> s | Some g \<Rightarrow> save_group gid g s)
      in save_event (event_id c) ((new_event c gid ''worthless_burned'' units 0)\<lparr>
           pe_actor := Some holder, pe_side := Some (side_text high),
           pe_newOutstanding := map_option (side_outstanding high) found\<rparr>) s1)"

subsection \<open>The market, as the specification\<close>

text \<open>The part of a group's storage that moves, its operations with their guards and updates, and the event of each.\<close>

record market_group =
  mg_high :: int
  mg_calm :: int
  mg_reserve :: int
  mg_buffer :: int
  mg_finalized :: bool
  mg_highPpu :: int
  mg_calmPpu :: int

datatype market_op =
    OpIssue bool int int
  | OpExit bool int int
  | OpSettle bool int int
  | OpFinalize int
  | OpFund int
  | OpWithdraw int
  | OpBurnWorthless bool int

datatype market_event =
    MIssued bool int int int int int
  | MExited bool int int int int int
  | MSettled bool int int int
  | MFinalized int int int int int
  | MFunded int int
  | MWithdrawn int int
  | MBurned bool int

definition mg_side :: "bool \<Rightarrow> market_group \<Rightarrow> int" where
  "mg_side high g = (if high then mg_high g else mg_calm g)"

definition mg_ppu :: "bool \<Rightarrow> market_group \<Rightarrow> int" where
  "mg_ppu high g = (if high then mg_highPpu g else mg_calmPpu g)"

definition mg_add :: "bool \<Rightarrow> int \<Rightarrow> market_group \<Rightarrow> market_group" where
  "mg_add high units g =
     (if high then g\<lparr>mg_high := mg_high g + units\<rparr> else g\<lparr>mg_calm := mg_calm g + units\<rparr>)"

definition mg_final :: "market_group \<Rightarrow> int" where
  "mg_final g = finalSideLiability (mg_high g) (mg_highPpu g) + finalSideLiability (mg_calm g) (mg_calmPpu g)"

fun market_step :: "int \<Rightarrow> int \<Rightarrow> market_op \<Rightarrow> market_group \<Rightarrow> (market_group \<times> market_event) option" where
  "market_step S cap (OpIssue high units premium) g =
     (if units \<le> 0 \<or> mg_finalized g then None
      else let g1 = mg_add high units g; g2 = g1\<lparr>mg_reserve := liveReserve (mg_high g1) (mg_calm g1) S\<rparr>
           in Some (g2, MIssued high units premium (mg_high g2) (mg_calm g2) (mg_reserve g2)))"
| "market_step S cap (OpExit high units amountOut) g =
     (if units \<le> 0 \<or> units > mg_side high g \<or> mg_finalized g then None
      else let g1 = mg_add high (- units) g; r = liveReserve (mg_high g1) (mg_calm g1) S;
               released = mg_reserve g - r; draw = (if amountOut > released then amountOut - released else 0)
           in if draw > mg_buffer g then None
              else Some (g1\<lparr>mg_reserve := r, mg_buffer := mg_buffer g - draw\<rparr>, MExited high units amountOut released draw r))"
| "market_step S cap (OpSettle high units amountOut) g =
     (if units \<le> 0 \<or> units > mg_side high g \<or> \<not> mg_finalized g then None
      else let g1 = mg_add high (- units) g; r = mg_final g1
           in if amountOut > mg_reserve g - r then None
              else Some (g1\<lparr>mg_reserve := r\<rparr>, MSettled high units amountOut r))"
| "market_step S cap (OpFinalize fv) g =
     (if mg_finalized g \<or> fv < 0 then None
      else let x = (if fv \<ge> cap then WAD else bdiv (fv * WAD) cap); hp = highPpuFor S x; cp = S - hp;
               g1 = g\<lparr>mg_finalized := True, mg_highPpu := hp, mg_calmPpu := cp\<rparr>; r = mg_final g1
           in Some (g1\<lparr>mg_reserve := r, mg_buffer := 0\<rparr>, MFinalized fv x hp cp (mg_reserve g + mg_buffer g - r)))"
| "market_step S cap (OpFund amount) g =
     (if amount \<le> 0 \<or> mg_finalized g then None
      else Some (g\<lparr>mg_buffer := mg_buffer g + amount\<rparr>, MFunded amount (mg_buffer g + amount)))"
| "market_step S cap (OpWithdraw amount) g =
     (if amount \<le> 0 \<or> amount > mg_buffer g then None
      else Some (g\<lparr>mg_buffer := mg_buffer g - amount\<rparr>, MWithdrawn amount (mg_buffer g - amount)))"
| "market_step S cap (OpBurnWorthless high units) g =
     (if units \<le> 0 \<or> units > mg_side high g \<or> \<not> mg_finalized g \<or> mg_ppu high g \<noteq> 0 then None
      else Some (mg_add high (- units) g, MBurned high units))"

text \<open>How an event of group \<open>i\<close> reaches the handlers: who acted and in which log are the indexer's own affair.\<close>

fun index_market :: "int \<Rightarrow> event_ctx \<Rightarrow> address \<Rightarrow> market_event \<Rightarrow> portfolio_store \<Rightarrow> portfolio_store" where
  "index_market i c a (MIssued high units premium h k r) = handlePortfolioIssued c
     \<lparr>pi_groupId = i, pi_buyer = a, pi_high = high, pi_units = units, pi_premium = premium, pi_highOutstanding = h,
      pi_calmOutstanding = k, pi_reserveLocked = r\<rparr>"
| "index_market i c a (MExited high units amountOut released draw r) = handlePortfolioExited c
     \<lparr>px_groupId = i, px_holder = a, px_high = high, px_units = units, px_amountOut = amountOut,
      px_reserveReleased = released, px_bufferDrawn = draw, px_reserveLocked = r\<rparr>"
| "index_market i c a (MSettled high units amountOut r) = handlePortfolioSettled c
     \<lparr>ps_groupId = i, ps_holder = a, ps_high = high, ps_units = units, ps_amountOut = amountOut, ps_reserveLocked = r\<rparr>"
| "index_market i c a (MFinalized fv x hp cp released) = handleGroupFinalized c
     \<lparr>gf_groupId = i, gf_finalVariance = fv, gf_xWad = x, gf_highPayoutPerUnit = hp, gf_calmPayoutPerUnit = cp,
      gf_releasedCollateral = released\<rparr>"
| "index_market i c a (MFunded amount b) = handleExitBufferFunded c i a amount b"
| "index_market i c a (MWithdrawn amount b) = handleExitBufferWithdrawn c i amount b"
| "index_market i c a (MBurned high units) = handleGroupWorthlessBurned c i a high units"

subsection \<open>Refinement\<close>

definition mirrors :: "group_entity \<Rightarrow> market_group \<Rightarrow> bool" where
  "mirrors e g \<longleftrightarrow> ge_highOutstanding e = mg_high g \<and> ge_calmOutstanding e = mg_calm g \<and> ge_reserveLocked e = mg_reserve g
     \<and> ge_exitBuffer e = mg_buffer g \<and> ge_finalized e = mg_finalized g
     \<and> ge_highPpu e = (if mg_finalized g then Some (mg_highPpu g) else None)
     \<and> ge_calmPpu e = (if mg_finalized g then Some (mg_calmPpu g) else None)"

lemma groups_save_event [simp]: "groups (save_event k e s) = groups s"
  by (simp add: save_event_def)

lemmas portfolio_handlers = handlePortfolioIssued_def handlePortfolioExited_def handlePortfolioSettled_def
  handleGroupFinalized_def handleExitBufferFunded_def handleExitBufferWithdrawn_def handleGroupWorthlessBurned_def
  group_store.load_save burn_side_def Let_def

lemmas market_defs = mg_add_def mg_side_def mg_ppu_def mg_final_def Let_def

lemma index_market_step:
  assumes "groups s (dec_string i) = Some e" "mirrors e g" "market_step S cap p g = Some (g', ev)"
  shows "\<exists>e'. groups (index_market i c a ev s) (dec_string i) = Some e' \<and> mirrors e' g'"
  using assms
  by (cases p) (auto simp: portfolio_handlers market_defs mirrors_def split: if_splits)

text \<open>The reserve of the market is the one its outstanding pair requires, before and after finalization.\<close>

definition market_inv :: "int \<Rightarrow> market_group \<Rightarrow> bool" where
  "market_inv S g \<longleftrightarrow> 0 \<le> mg_high g \<and> 0 \<le> mg_calm g \<and> 0 \<le> mg_buffer g
     \<and> mg_reserve g = (if mg_finalized g then finalizedReserve (mg_high g) (mg_calm g) (mg_highPpu g) (mg_calmPpu g)
          else liveReserve (mg_high g) (mg_calm g) S)
     \<and> (mg_finalized g \<longrightarrow> 0 \<le> mg_highPpu g \<and> 0 \<le> mg_calmPpu g \<and> mg_highPpu g + mg_calmPpu g = S)"

lemma finalize_x:
  assumes "0 \<le> fv" "0 < cap"
  shows "(if fv \<ge> cap then WAD else bdiv (fv * WAD) cap) = xWadFor fv cap"
proof (cases "fv \<ge> cap")
  case True
  then have "WAD * cap \<le> fv * WAD" by (simp add: mult.commute)
  then have "WAD \<le> bdiv (fv * WAD) cap" using assms by (simp add: le_bdiv_iff)
  then show ?thesis using True assms by (simp add: xWadFor_def)
next
  case False
  then have "bdiv (fv * WAD) cap \<le> bdiv (cap * WAD) cap" using assms by (intro bdiv_mono mult_right_mono) auto
  also have "\<dots> = WAD" using assms by (simp add: bigint_simps)
  finally show ?thesis using False assms by (simp add: xWadFor_def)
qed

lemma market_step_inv:
  assumes "market_inv S g" "market_step S cap p g = Some (g', ev)" "0 \<le> S" "0 < cap"
  shows "market_inv S g'"
proof (cases p)
  case (OpFinalize fv)
  then have fv: "0 \<le> fv" using assms(2) by (auto split: if_splits)
  note x = finalize_x [OF fv assms(4)]
  have r: "0 \<le> highPpuFor S (xWadFor fv cap)" "highPpuFor S (xWadFor fv cap) \<le> S"
    using highPpu_range assms(3) xWadFor_range [OF fv, of cap] by auto
  show ?thesis
    using assms OpFinalize r
    by (auto simp: x market_inv_def market_defs finalizedReserve_def finalSideLiability_def simp del: if_split_asm split: if_splits)
next
  case (OpBurnWorthless high units)
  then show ?thesis
    using assms by (auto simp: market_inv_def market_defs finalizedReserve_def split: if_splits)
qed (use assms in \<open>auto simp: market_inv_def market_defs finalizedReserve_def finalSideLiability_def split: if_splits\<close>)

fun market_run :: "int \<Rightarrow> int \<Rightarrow> market_op list \<Rightarrow> market_group \<Rightarrow> (market_group \<times> market_event list) option" where
  "market_run S cap [] g = Some (g, [])"
| "market_run S cap (p # ps) g = Option.bind (market_step S cap p g) (\<lambda>(g1, ev).
     Option.bind (market_run S cap ps g1) (\<lambda>(g2, evs). Some (g2, ev # evs)))"

fun index_all :: "int \<Rightarrow> (event_ctx \<times> address) list \<Rightarrow> market_event list \<Rightarrow> portfolio_store \<Rightarrow> portfolio_store" where
  "index_all i ((c, a) # cs) (ev # evs) s = index_all i cs evs (index_market i c a ev s)"
| "index_all i _ _ s = s"

lemma index_all_mirrors:
  "groups s (dec_string i) = Some e \<Longrightarrow> mirrors e g \<Longrightarrow> market_run S cap ps g = Some (g', evs) \<Longrightarrow> length cs = length evs \<Longrightarrow>
   \<exists>e'. groups (index_all i cs evs s) (dec_string i) = Some e' \<and> mirrors e' g'"
proof (induction ps arbitrary: s e g evs cs)
  case (Cons p ps)
  obtain g1 ev evs1 where st: "market_step S cap p g = Some (g1, ev)" "market_run S cap ps g1 = Some (g', evs1)" "evs = ev # evs1"
    using Cons.prems(3) by (auto simp: bind_eq_Some_conv)
  obtain c a cs1 where cs: "cs = (c, a) # cs1" "length cs1 = length evs1"
    using Cons.prems(4) st(3) by (cases cs) auto
  obtain e1 where "groups (index_market i c a ev s) (dec_string i) = Some e1" "mirrors e1 g1"
    using index_market_step [OF Cons.prems(1,2) st(1)] by blast
  then show ?case using Cons.IH [OF _ _ st(2) cs(2)] by (simp add: st(3) cs(1))
qed auto

lemma market_run_inv: "market_inv S g \<Longrightarrow> market_run S cap ps g = Some (g', evs) \<Longrightarrow> 0 \<le> S \<Longrightarrow> 0 < cap \<Longrightarrow> market_inv S g'"
  by (induction ps arbitrary: g evs) (auto simp: bind_eq_Some_conv dest: market_step_inv)

definition new_market_group :: market_group where
  "new_market_group = \<lparr>mg_high = 0, mg_calm = 0, mg_reserve = 0, mg_buffer = 0, mg_finalized = False, mg_highPpu = 0, mg_calmPpu = 0\<rparr>"

text \<open>C20: The indexed group is the contract's group: whatever the market does to a group from its creation, each
  operation under the contract's own guards, with a cap payout that is not negative and a positive cap
  variance, the entity the events build has its outstanding units, its reserve, its exit buffer, its state, and
  once it is finalized its HIGH payout and its CALM payout, which then sum to the cap payout, while before that
  it has none; and that reserve is exactly what the web app computes for the outstanding pair, live or final.\<close>

theorem index_mirrors_market:
  assumes "groups s (dec_string i) = Some (new_group_entity c e)" "market_run S cap ps new_market_group = Some (g, evs)"
    and "length cs = length evs" "0 \<le> S" "0 < cap"
  shows "\<exists>e'. groups (index_all i cs evs s) (dec_string i) = Some e'
    \<and> ge_highOutstanding e' = mg_high g \<and> ge_calmOutstanding e' = mg_calm g \<and> ge_exitBuffer e' = mg_buffer g
    \<and> ge_finalized e' = mg_finalized g \<and> ge_reserveLocked e' = mg_reserve g
    \<and> ge_highPpu e' = (if mg_finalized g then Some (mg_highPpu g) else None)
    \<and> ge_calmPpu e' = (if mg_finalized g then Some (mg_calmPpu g) else None)
    \<and> (mg_finalized g \<longrightarrow> mg_highPpu g + mg_calmPpu g = S)
    \<and> mg_reserve g = (if mg_finalized g
         then finalizedReserve (mg_high g) (mg_calm g) (mg_highPpu g) (mg_calmPpu g)
         else liveReserve (mg_high g) (mg_calm g) S)"
proof -
  have "mirrors (new_group_entity c e) new_market_group"
    by (simp add: mirrors_def new_group_entity_def new_market_group_def Let_def)
  then obtain e' where e': "groups (index_all i cs evs s) (dec_string i) = Some e'" "mirrors e' g"
    using index_all_mirrors [OF assms(1) _ assms(2,3)] by blast
  have "market_inv S new_market_group" by (simp add: market_inv_def new_market_group_def liveReserve_def max_big_def)
  then have "market_inv S g" using market_run_inv [OF _ assms(2,4,5)] by blast
  then show ?thesis using e' by (auto simp: mirrors_def market_inv_def)
qed

definition demo_ctx :: event_ctx where
  "demo_ctx = \<lparr>tx_hash = ''0xaa'', log_index = 1, block_timestamp = 7, block_number = 3\<rparr>"

definition demo_created :: group_created where
  "demo_created = \<lparr>gc_groupId = 1, gc_writer = ''0x03'', gc_vault = ''0x04'', gc_highReceipt = ''0x05'', gc_calmReceipt = ''0x06'',
     gc_params = params demo_group\<rparr>"

definition demo_store :: portfolio_store where
  "demo_store = handleGroupCreated demo_ctx demo_created \<lparr>groups = \<lambda>_. None, portfolio_events = \<lambda>_. None\<rparr>"

definition demo_ops :: "market_op list" where
  "demo_ops = [OpIssue True (3 * 10 ^ 18) 63, OpFund 40, OpIssue False (10 ^ 18) 31, OpExit True (10 ^ 18) 19, OpFinalize (10 ^ 17),
     OpSettle True (10 ^ 18) 5]"

theorem index_mirrors_market_witness:
  "\<exists>e' g evs. market_run 50 (10 ^ 18) demo_ops new_market_group = Some (g, evs)
    \<and> groups (index_all 1 (replicate 6 (demo_ctx, ''0x0a'')) evs demo_store) (dec_string 1) = Some e'
    \<and> ge_highOutstanding e' = mg_high g"
proof -
  obtain g evs where r: "market_run 50 (10 ^ 18) demo_ops new_market_group = Some (g, evs)" "length evs = 6"
  proof -
    have "case market_run 50 (10 ^ 18) demo_ops new_market_group of None \<Rightarrow> False | Some (g, evs) \<Rightarrow> length evs = 6"
      by code_simp
    then show thesis using that by (auto split: option.splits)
  qed
  have "groups demo_store (dec_string 1) = Some (new_group_entity demo_ctx demo_created)"
    by (simp add: demo_store_def handleGroupCreated_def demo_created_def group_store.load_save Let_def)
  then show ?thesis
    using index_mirrors_market [of demo_store 1 demo_ctx demo_created 50 "10 ^ 18" demo_ops g evs "replicate 6 (demo_ctx, ''0x0a'')"] r
    by auto
qed

end
