(* ===== verification/Spec2Isabelle.thy ===== *)
theory Spec2Isabelle
  imports Sim_Properties Sim_Scenario_Run Sim_Vectors Sim_Report Web_Format Web_Derive Web_Portfolio Web_Program Web_Tx_Trades Web_Api Web_Chain Web_Positions Web_Group_Form Web_Form_Props Web_Lists Subgraph_Series Subgraph_Portfolio
begin

text \<open>
  Tremor is a market for realized variance. A writer locks collateral in a vault and issues receipts of a
  series; an oracle stores price samples over the window; at the end a receipt pays the realized variance, up
  to a cap. A paired market (a risk group) sells two receipts, HIGH and CALM, that pay \<open>S x\<close> and
  \<open>S (1 - x)\<close> out of one reserve. The contracts are Solidity; the TypeScript around them is what this library
  models, translated from the source file by file: the simulator that replicates the contracts and exercises
  them (\<open>sim/src\<close>), the web application that derives, quotes, reads and trades (\<open>web/src\<close>), and the indexer
  that rebuilds the market from its events (\<open>subgraph/src\<close>).

  How the parts interact. The page that writes a series turns decisions into parameters (\<open>Web_Wizard\<close>,
  \<open>Web_Advanced\<close> over \<open>Web_Derive\<close>) and hands them to a transaction flow (\<open>Web_Tx_Series\<close>); the factory accepts
  them or reverts. The tickets (\<open>Web_Tickets\<close>, \<open>Web_Group_Tickets\<close>) ask for quotes, decide what is allowed and
  run flows (\<open>Web_Tx_Series\<close>, \<open>Web_Tx_Group\<close>). What the market then is reaches the pages twice, from the chain
  (\<open>Web_Chain\<close>) and from the backend (\<open>Web_Api\<close>), and the two are merged into the series state of \<open>Web_Series\<close>,
  which the portfolio page, the series page, the hedge calculator and the charts read (\<open>Web_Positions\<close>,
  \<open>Web_Detail\<close>, \<open>Web_Hedge\<close>, \<open>Web_Pair_Charts\<close>). The pricing of \<open>Sim_Pricing\<close> is the common reference: the
  simulated market runs on it, and the web application's own quotes are proved equal to it.
\<close>

section \<open>The theories\<close>

subsection \<open>Shared\<close>

text \<open>
  \<^item> \<open>Tremor_Prelude\<close>: bigint division (\<open>bdiv\<close> truncates, \<open>bigDiv\<close> throws on zero, \<open>ceilDiv\<close> rounds up), the errors
    the code throws as a datatype, sequencing (\<open>andThen\<close>), and the collections \<open>bigint_simps\<close> and
    \<open>wad_simps\<close>.
  \<^item> \<open>Js_Number\<close>, \<open>Js_String\<close>, \<open>Js_Array\<close>: the parts of JavaScript the source uses. A finite \<open>number\<close> that goes through
    floating point is the rational it denotes, every operation rounded by \<open>fl\<close> (53 bits, ties to even;
    overflow and subnormals are not reached); digits, padding and \<open>toFixed\<close>; the stable sort.
  \<^item> \<open>Burn_Leg\<close>: the locale \<open>burn_leg\<close>, whatever burns claims releases at least what it pays. Its interpretations are
    \<open>settle_leg\<close> and \<open>exit_leg\<close> in \<open>Sim_Pricing\<close>, \<open>group_settle\<close> and \<open>group_exit\<close> in \<open>Web_Portfolio\<close>.
  \<^item> \<open>Entity_Store\<close>: the locale \<open>entity_store\<close>, loading what was saved under a key and nothing else. Its interpretations
    are \<open>series_store\<close>, \<open>balance_store\<close> and \<open>vault_store\<close> in \<open>Subgraph_Series\<close>, \<open>group_store\<close> and
    \<open>event_store\<close> in \<open>Subgraph_Portfolio\<close>.
\<close>

subsection \<open>The simulator\<close>

text \<open>
  \<^item> \<open>Sim_Pricing\<close>, \<open>sim/src/pricing.ts\<close>: every function of the pricing library, and the inequalities solvency rests
    on: prices within the cap, proceeds below the release, unit counts that fit a budget, \<open>isqrt\<close> the floor of
    the root, terminating on every input.
  \<^item> \<open>Sim_Vault\<close>, the class \<open>Vault\<close> of \<open>market.ts\<close>: the record \<open>vault\<close>, a function per method, and the locale
    \<open>collateral_account\<close> that states what a series relies on, interpreted as \<open>va\<close>.
  \<^item> \<open>Sim_Series\<close>, the class \<open>Series\<close>: the record \<open>series\<close> and a function per method (\<open>checkpoint\<close>, \<open>quote_of\<close>,
    \<open>issue\<close>, \<open>exit\<close>, \<open>finalize\<close>, \<open>settle\<close>, \<open>burn\<close>, \<open>close\<close>), of the time, the shared vault and the series.
    \<open>Sim_Series_Inv\<close> has the invariant of a series, that every method keeps it, and the laws of the oracle's
    cursor.
  \<^item> \<open>Sim_Market\<close>: one vault and all its series under any interleaving of operations, the step relation
    \<open>market_step\<close>, \<open>reachable\<close>, and the market's invariant by rule induction. \<open>Sim_Properties\<close> has what the
    market promises: solvency, no operation short of collateral, the fills and payouts of each leg, redemptions
    covered however they are split, checkpoints independent of their batching.
  \<^item> \<open>Sim_Paths\<close>, \<open>paths.ts\<close>: the generator on 32-bit words, the path, its realized variance. The redraw of a zero and
    the walk over the window are \<open>partial_function\<close>s, proved to return.
  \<^item> \<open>Sim_Scenarios\<close>, \<open>scenarios.ts\<close>: the run's variables as the record \<open>run_state\<close>, the context a scenario's flow
    acts through, the driver and the ten scenarios. \<open>Sim_Scenario_Inv\<close>, \<open>Sim_Scenario_End\<close> and
    \<open>Sim_Scenario_Run\<close> carry the ledger of the holders through a run. The inductive predicate \<open>context_step\<close> is
    what a flow can do with its context (buys of non-negative amounts, sales, syncs, stopping the issuance,
    random draws, each chosen by what it sees): every scenario with such a flow, for every seed, start and
    engine, either settles with profits that cancel or ends in the one exception a close can throw, and so do
    the ten that ship.
  \<^item> \<open>Sim_Report\<close>, \<open>run.ts\<close> and the figures of \<open>report.ts\<close>: the selection, the run, its failures and its exit code; the
    profits reported sum to zero, the failures and the exit code are exactly those of the scenarios selected, and
    only dust or the shared vault can make one fail.
  \<^item> \<open>Sim_Vectors\<close>, \<open>check.ts\<close>: the comparison with the reference vectors of the Solidity library, and that the named
    vectors agree on every exact formula.
\<close>

subsection \<open>The web library\<close>

text \<open>
  \<^item> \<open>Web_Format\<close>, \<open>format.ts\<close>: exact parsing and printing of fixed-point amounts, the root with its floating-point
    seed; printing and parsing are inverse up to the stated rounding.
  \<^item> \<open>Web_Series\<close>, \<open>series.ts\<close>: the record \<open>series_state\<close>, the derived quantities, the predicates of what a user may
    do, the order and filters; the web's quotes equal the simulator's.
  \<^item> \<open>Web_Portfolio\<close>, \<open>portfolio.ts\<close>: the record \<open>group_state\<close>, payouts, reserve, exit funding and lifecycle of a risk
    group; the two payouts sum to \<open>S\<close> and the reserve covers every settlement.
  \<^item> \<open>Web_Derive\<close>, \<open>derive.ts\<close>: decisions and overrides to parameters, with the issues found; what it hands out passes
    the factory's \<open>_validate\<close> (\<open>contracts/src/VarianceSeriesFactory.sol\<close>) and fits the collateral typed.
  \<^item> \<open>Web_Program\<close>, \<open>program.ts\<close>: the decoder of order programs, inverse to the encoding.
  \<^item> \<open>Web_Api\<close>, \<open>api.ts\<close>: camel-case keys, scalar codecs, the grouping of the flat summary, the fetcher and its errors.
    \<open>Web_Chain\<close>, \<open>chain.ts\<close>, \<open>portfolio-chain.ts\<close> and \<open>hooks.ts\<close>: the reads of all series and groups, and
    the merge, in which the chain's fields win.
  \<^item> \<open>Web_Tx\<close> to \<open>Web_Tx_Trades\<close>, \<open>tx.ts\<close>: a flow is a state transformer that returns or throws; \<open>Web_Tx\<close> has the
    machinery (steps, errors, the sending of a transaction, allowances, the checkpoint in local storage, the
    hook), \<open>Web_Tx_Series\<close> and \<open>Web_Tx_Group\<close> the flows, \<open>Web_Tx_Log\<close> the locale \<open>submission_log\<close> with the
    rules that follow what a flow submits, interpreted as \<open>log\<close> on the model's environment with a log added
    (\<open>logged\<close>), \<open>Web_Tx_Phases\<close> triples over the progress list with a postcondition for returning and one for
    throwing, \<open>Web_Tx_Create\<close>, \<open>Web_Tx_Props\<close> and \<open>Web_Tx_Trades\<close> the properties: no creation twice, unless the
    browser's storage refused its hash, in which case it can happen; no step left running and no trade left
    half-way; limits that follow from the quote, and an approval exactly when the allowance read is short.
\<close>

subsection \<open>The pages\<close>

text \<open>
  A page is its state, what it computes from the state and the answers of its queries, what stops it, and what
  a click runs; markup is left out. In the order of \<open>web/src/components\<close>:
  \<^item> \<open>Web_Tickets\<close>, \<open>series/\<close>: the four tickets of a series and the rail. \<open>Web_Group_Tickets\<close>, \<open>pairs/\<close>: those of a
    paired market, its oracle ticket and the exit buffer card. What no blocker stops, the market allows and a tab
    offers, except that the checkpoint of a paired market has no tab while its sale lasts; a buy trades what was
    typed.
  \<^item> \<open>Web_Positions\<close>, \<open>portfolio/PortfolioView.tsx\<close>: holdings over both kinds of market, tiles, rows, vault card.
  \<^item> \<open>Web_Group_Form\<close>, \<open>pairs/CreateGroupForm.tsx\<close>, with \<open>_validate\<close> of \<open>TremorPortfolioMarket.sol\<close>: exactly which
    of the form's parameters the market accepts.
  \<^item> \<open>Web_Wizard\<close>, \<open>write/WriteWizard.tsx\<close> and \<open>Decisions.tsx\<close>; \<open>Web_Advanced\<close>, \<open>write/AdvancedParams.tsx\<close>;
    \<open>Web_Form_Props\<close>: a write is funded, no error is hidden, the scenarios are worth what they say.
  \<^item> \<open>Web_Hedge\<close>, \<open>hedge/HedgeCalculator.tsx\<close>: the units proposed pay what the loss is modelled at.
  \<^item> \<open>Web_Pair_Charts\<close>, \<open>pairs/PairMarketChart.tsx\<close>, \<open>LivePairPricingCard.tsx\<close> and \<open>PortfolioSummaryCard.tsx\<close>: the
    trajectory, and that it ends on the card.
  \<^item> \<open>Web_Detail\<close>, \<open>series/SeriesDetail.tsx\<close>, \<open>charts/VolatilityChart.tsx\<close> and \<open>PayoffChart.tsx\<close>: the series page; a
    holding is worth there what the portfolio says.
  \<^item> \<open>Web_Lists\<close>: the fills of The Graph (\<open>web/src/lib/graph.ts\<close>), the feed, history and collateral cards of \<open>series/\<close>, the
    two tables, the events of a paired market, and \<open>tx/TxProgress.tsx\<close>. The feed shows the newest fills.
\<close>

subsection \<open>The indexer\<close>

text \<open>
  \<^item> \<open>Subgraph_Series\<close>, \<open>controller.ts\<close>, \<open>vault.ts\<close>, \<open>receipt.ts\<close>, \<open>accumulator.ts\<close>, \<open>router.ts\<close>: a handler per event,
    as a function from store to store. After any interleaving of events the indexed series is the
    controller's, and the balances are the ledger of the transfers.
  \<^item> \<open>Subgraph_Portfolio\<close>, \<open>portfolio.ts\<close>: the handlers of the paired market, refined against a specification of the
    contract's operations on a group, each with the event it emits.
\<close>

section \<open>How the code is read\<close>

text \<open>
  A \<open>bigint\<close> is an \<open>int\<close> with truncating division; a \<open>number\<close> that only holds integers below \<open>2 ^ 53\<close> is an
  \<open>int\<close>; the 32-bit generator is on \<open>32 word\<close>. A text is the list of its UTF-8 bytes, so a dash, a mid dot, an
  ellipsis or a Greek letter is two or three of them, and trimming knows the white space of one byte only. An exception is the left of a sum and ends what throws it;
  a value that may be missing is an option, and \<open>null\<close> and \<open>undefined\<close> are one where the code treats them
  alike. A React component is a function of its state, its properties and the answers of its hooks; a hook that
  queries is a parameter that answers for its arguments, a memo is its expression, an effect is the change of
  state it makes. Calls awaited together are made in the order of their array.

  Parameters, because their code is not in the repository: \<open>Math.exp\<close>, \<open>log\<close>, \<open>sqrt\<close> and \<open>cos\<close> (the record
  \<open>js_math\<close>; where a law is needed it is the hypothesis \<open>exp_in_unit\<close>); the chain, the wallet and the local
  storage (the record \<open>env\<close>, each call of which may return, throw and change the outside world in any way); the
  contract reads; the schema library, as the parser of the fetcher; the byte slicer of \<open>viem\<close> (hypothesis
  \<open>slice_ok\<close>); the browser's calendar. Each hypothesis has a witness with a concrete instance.

  Loops are recursive functions with termination proofs, or \<open>partial_function\<close>s proved to return; nothing in the
  library runs on fuel. The one bound that is an argument is the code's own, the number of samples a
  checkpoint may store.
\<close>

section \<open>Not modelled\<close>

text \<open>
  \<^item> The Solidity contracts (\<open>contracts/\<close>) and the Rust backend (\<open>backend/\<close>), which are other languages: of the
    contracts only the two \<open>_validate\<close> predicates and the operations of the paired market are specified, as what the
    web code and the indexer are measured against. Their integer widths are left out: what a
    \<open>uint128\<close> or \<open>uint40\<close> field cannot hold fails in the encoding of the call, before the predicate.
  \<^item> Text that goes through \<open>Intl\<close> or \<open>Date\<close>, labels, symbols, tooltips, footnotes and markup.
  \<^item> Pages and cards that only lay out what the modelled functions compute: the landing page, the documentation, the shell, the three-dimensional scenes, the widgets of \<open>ui/\<close>.
  \<^item> The prose of the simulator's report and the writing of its files.
  \<^item> Configuration and glue: addresses, wallet set-up, the text of the GraphQL query, the test token's faucet, the scripts.
  \<^item> Gas, reorganizations, and the timing of polling and rendering, except where a component reads a value of an
    earlier render, which is modelled (\<open>Web_Tickets\<close>).
\<close>

end
